(* ===== verification/Prelude.thy ===== *)
theory Prelude
  imports "HOL-Library.Word" "HOL-Library.Sublist"
begin

text \<open>
  What every theory of the development shares: the machine types the Rust source uses, results
  (\<^verbatim>\<open>Result<T, E>\<close> is the sum \<open>'e + 'a\<close>, \<open>Inl\<close> the error), little-endian bytes
  (\<^verbatim>\<open>to_le_bytes\<close>, \<^verbatim>\<open>from_le_bytes\<close>), slices of a byte vector (\<^verbatim>\<open>bytes[a..b]\<close> and
  \<^verbatim>\<open>copy_from_slice\<close>), the power-of-two rounding \<^verbatim>\<open>(n + a - 1) & !(a - 1)\<close> of the layout code,
  and the fact collections the component theories feed: \<open>wf_intros\<close> for preservation facts,
  \<open>canon_simps\<close> for facts on canonical values.
\<close>

unbundle bit_operations_syntax

named_theorems wf_intros "preservation facts of the components' invariants"
named_theorems canon_simps "facts on canonical machine values"

section \<open>Machine types\<close>

type_synonym u8 = "8 word"
type_synonym u16 = "16 word"
type_synonym u32 = "32 word"
type_synonym i32 = "32 word"
type_synonym u64 = "64 word"
type_synonym i64 = "64 word"
type_synonym f32 = "32 word"
type_synonym f64 = "64 word"
type_synonym span = "nat \<times> nat"

section \<open>Results\<close>

definition bind_res :: "'e + 'a \<Rightarrow> ('a \<Rightarrow> 'e + 'b) \<Rightarrow> 'e + 'b" where
  "bind_res r f = (case r of Inl e \<Rightarrow> Inl e | Inr x \<Rightarrow> f x)"

lemma bind_res_simps [simp]:
  "bind_res (Inl e) f = Inl e"
  "bind_res (Inr x) f = f x"
  by (simp_all add: bind_res_def)

lemma bind_res_cong [fundef_cong]:
  "r = r' \<Longrightarrow> (\<And>x. r' = Inr x \<Longrightarrow> f x = g x) \<Longrightarrow> bind_res r f = bind_res r' g"
  by (auto simp: bind_res_def split: sum.splits)

lemma bind_res_Inr_iff [simp]: "bind_res r f = Inr y \<longleftrightarrow> (\<exists>x. r = Inr x \<and> f x = Inr y)"
  by (auto simp: bind_res_def split: sum.splits)

lemma bind_res_Inl_iff:
  "bind_res r f = Inl e \<longleftrightarrow> r = Inl e \<or> (\<exists>x. r = Inr x \<and> f x = Inl e)"
  "Inl e = bind_res r f \<longleftrightarrow> r = Inl e \<or> (\<exists>x. r = Inr x \<and> f x = Inl e)"
  by (auto simp: bind_res_def split: sum.splits)

definition ensure :: "bool \<Rightarrow> 'e \<Rightarrow> 'e + unit" where
  "ensure b e = (if b then Inr () else Inl e)"

lemma ensure_Inr_iff [simp]: "ensure b e = Inr u \<longleftrightarrow> b"
  by (simp add: ensure_def)

lemma ensure_Inl_iff [simp]: "ensure b e = Inl e' \<longleftrightarrow> \<not> b \<and> e' = e"
  by (auto simp: ensure_def)

definition ok_or :: "'a option \<Rightarrow> 'e \<Rightarrow> 'e + 'a" where
  "ok_or x e = (case x of None \<Rightarrow> Inl e | Some v \<Rightarrow> Inr v)"

lemma ok_or_simps [simp]: "ok_or None e = Inl e" "ok_or (Some v) e = Inr v"
  by (simp_all add: ok_or_def)

lemma ok_or_Inr_iff [simp]: "ok_or x e = Inr v \<longleftrightarrow> x = Some v"
  by (auto simp: ok_or_def split: option.splits)

section \<open>Lists\<close>

definition nth_opt :: "'a list \<Rightarrow> nat \<Rightarrow> 'a option" where
  "nth_opt xs i = (if i < length xs then Some (xs ! i) else None)"

lemma nth_opt_Some_iff [simp]: "nth_opt xs i = Some x \<longleftrightarrow> i < length xs \<and> x = xs ! i"
  by (auto simp: nth_opt_def)

lemma nth_opt_None_iff [simp]: "nth_opt xs i = None \<longleftrightarrow> length xs \<le> i"
  by (auto simp: nth_opt_def)

fun index_of :: "('a \<Rightarrow> bool) \<Rightarrow> 'a list \<Rightarrow> nat option" where
  "index_of p [] = None"
| "index_of p (x # xs) = (if p x then Some 0 else map_option Suc (index_of p xs))"

lemma index_of_Some:
  "index_of p xs = Some i \<Longrightarrow> i < length xs \<and> p (xs ! i) \<and> (\<forall>j < i. \<not> p (xs ! j))"
proof (induction xs arbitrary: i)
  case (Cons x xs)
  show ?case
  proof (cases "p x")
    case False
    then obtain k where k: "index_of p xs = Some k" and i: "i = Suc k"
      using Cons.prems by auto
    from Cons.IH [OF k] i False show ?thesis
      by (auto simp: nth_Cons split: nat.splits)
  qed (use Cons.prems in auto)
qed simp

lemma index_of_None: "index_of p xs = None \<longleftrightarrow> (\<forall>x \<in> set xs. \<not> p x)"
  by (induction xs) auto

lemma in_set_map_filter [simp]:
  "y \<in> set (List.map_filter f xs) \<longleftrightarrow> (\<exists>x \<in> set xs. f x = Some y)"
  by (induction xs) (auto simp: List.map_filter_def split: option.splits)

section \<open>Dotted names\<close>

text \<open>What follows the last dot of a name (\<^verbatim>\<open>rfind('.')\<close>), and what comes before it.\<close>

definition after_dot :: "string \<Rightarrow> string" where
  "after_dot s = rev (takeWhile (\<lambda>c. c \<noteq> CHR ''.'') (rev s))"

definition before_dot :: "string \<Rightarrow> string" where
  "before_dot s = (if CHR ''.'' \<in> set s then rev (tl (dropWhile (\<lambda>c. c \<noteq> CHR ''.'') (rev s))) else [])"

section \<open>Slices of a byte vector\<close>

definition slice_at :: "'a list \<Rightarrow> nat \<Rightarrow> nat \<Rightarrow> 'a list" where
  "slice_at m a n = take n (drop a m)"

definition splice :: "'a list \<Rightarrow> nat \<Rightarrow> 'a list \<Rightarrow> 'a list" where
  "splice m a bs = take a m @ bs @ drop (a + length bs) m"

lemma length_slice_at [simp]: "a + n \<le> length m \<Longrightarrow> length (slice_at m a n) = n"
  by (simp add: slice_at_def)

lemma length_splice [simp]: "a + length bs \<le> length m \<Longrightarrow> length (splice m a bs) = length m"
  by (simp add: splice_def)

lemma nth_splice:
  assumes "a + length bs \<le> length m"
  shows "splice m a bs ! i =
    (if i < a then m ! i else if i < a + length bs then bs ! (i - a) else m ! i)"
proof -
  have "min (length m) a = a" using assms by simp
  then show ?thesis using assms
    by (cases "i < length m") (auto simp: splice_def nth_append)
qed

lemma nth_slice_at: "i < n \<Longrightarrow> a + n \<le> length m \<Longrightarrow> slice_at m a n ! i = m ! (a + i)"
  by (simp add: slice_at_def)

lemma slice_splice_same [simp]:
  "a + length bs \<le> length m \<Longrightarrow> n = length bs \<Longrightarrow> slice_at (splice m a bs) a n = bs"
  by (simp add: slice_at_def splice_def)

lemma slice_splice_other:
  assumes "a + length bs \<le> length m" "b + n \<le> length m" "b + n \<le> a \<or> a + length bs \<le> b"
  shows "slice_at (splice m a bs) b n = slice_at m b n"
proof (rule nth_equalityI)
  show "length (slice_at (splice m a bs) b n) = length (slice_at m b n)"
    using assms by simp
  fix i assume "i < length (slice_at (splice m a bs) b n)"
  then show "slice_at (splice m a bs) b n ! i = slice_at m b n ! i"
    using assms by (auto simp: nth_slice_at nth_splice)
qed

lemma splice_slice_id: "a + n \<le> length m \<Longrightarrow> splice m a (slice_at m a n) = m"
  by (rule nth_equalityI) (auto simp: nth_splice nth_slice_at)

lemma slice_at_append: "a + n \<le> length m \<Longrightarrow> slice_at (m @ zs) a n = slice_at m a n"
  by (simp add: slice_at_def)

section \<open>Little-endian bytes\<close>

definition le_bytes :: "nat \<Rightarrow> 'a::len word \<Rightarrow> u8 list" where
  "le_bytes n w = map (\<lambda>i. ucast (drop_bit (8 * i) w)) [0..<n]"

fun of_le :: "u8 list \<Rightarrow> 'a::len word" where
  "of_le [] = 0"
| "of_le (b # bs) = or (ucast b) (push_bit 8 (of_le bs))"

lemma length_le_bytes [simp]: "length (le_bytes n w) = n"
  by (simp add: le_bytes_def)

lemma bit_of_le:
  "bit (of_le bs :: 'a::len word) k \<longleftrightarrow>
     k < LENGTH('a) \<and> k div 8 < length bs \<and> bit (bs ! (k div 8)) (k mod 8)"
proof (induction bs arbitrary: k)
  case (Cons b bs)
  show ?case
  proof (cases "k < 8")
    case True
    then show ?thesis by (auto simp: bit_simps)
  next
    case False
    then have "k div 8 = Suc ((k - 8) div 8)" "(k - 8) mod 8 = k mod 8"
      by (auto simp: le_div_geq le_mod_geq)
    moreover have "\<not> bit b k" using False by (auto dest: bit_imp_le_length)
    ultimately show ?thesis using False Cons.IH [of "k - 8"]
      by (auto simp: bit_simps)
  qed
qed simp

theorem of_le_bytes: "of_le (le_bytes n w) = take_bit (8 * n) (w :: 'a::len word)"
proof (rule bit_word_eqI)
  fix k assume "k < LENGTH('a)"
  have "k div 8 < n \<longleftrightarrow> k < 8 * n"
    by (simp add: div_less_iff_less_mult mult.commute)
  moreover have "8 * (k div 8) + k mod 8 = k" by simp
  ultimately show "bit (of_le (le_bytes n w) :: 'a word) k = bit (take_bit (8 * n) w) k"
    using \<open>k < LENGTH('a)\<close> by (auto simp: bit_of_le le_bytes_def bit_simps)
qed

lemma of_le_bytes_4 [simp]: "of_le (le_bytes 4 (w :: 32 word)) = w"
  by (simp add: of_le_bytes take_bit_word_eq_self)

lemma of_le_bytes_8 [simp]: "of_le (le_bytes 8 (w :: 64 word)) = w"
  by (simp add: of_le_bytes take_bit_word_eq_self)

section \<open>Rounding up to a power of two\<close>

definition align_up :: "nat \<Rightarrow> nat \<Rightarrow> nat" where
  "align_up n a = (n + a - 1) div a * a"

lemma align_up_ge: "0 < a \<Longrightarrow> n \<le> align_up n a"
  using div_mult_mod_eq [of "n + a - 1" a] mod_less_divisor [of a "n + a - 1"]
  unfolding align_up_def by linarith

lemma align_up_dvd [simp]: "a dvd align_up n a"
  by (simp add: align_up_def)

lemma align_up_less: "0 < a \<Longrightarrow> align_up n a < n + a"
  using div_mult_mod_eq [of "n + a - 1" a]
  unfolding align_up_def by linarith

lemma align_up_id:
  assumes "0 < a" "a dvd n"
  shows "align_up n a = n"
proof -
  obtain k where n: "n = k * a" using assms(2) by (metis dvd_def mult.commute)
  have "(a - 1 + k * a) div a = k + (a - 1) div a"
    by (rule div_mult_self1) (use assms(1) in simp)
  moreover have "(a - 1) div a = 0" using assms(1) by simp
  moreover have "n + a - 1 = a - 1 + k * a" using assms(1) n by simp
  ultimately show ?thesis by (metis align_up_def add_0_right n)
qed

text \<open>The bitwise form the Rust code writes, \<^verbatim>\<open>(n + a - 1) & !(a - 1)\<close>.\<close>

lemma align_up_mask:
  "int (align_up n (2 ^ k)) = and (int n + 2 ^ k - 1) (not (2 ^ k - 1))"
proof -
  have "and x (not (mask k)) = push_bit k (drop_bit k x)" for x :: int
    by (rule bit_eqI) (auto simp: bit_simps)
  then have "and x (not (2 ^ k - 1)) = x div 2 ^ k * 2 ^ k" for x :: int
    by (simp add: mask_eq_exp_minus_1 push_bit_eq_mult drop_bit_eq_div)
  moreover have "int (n + 2 ^ k - 1) = int n + 2 ^ k - 1"
    by (subst of_nat_diff) (simp_all add: trans_le_add2)
  ultimately show ?thesis by (simp add: align_up_def zdiv_int)
qed

end
