(* ===== verification/Ast.thy ===== *)
theory Ast
  imports Prelude
begin

text \<open>
  The program tree of \<^verbatim>\<open>src/ast.rs\<close>: types, literals, operation codes, expressions and the
  items of a module, with the constructors the Rust enums have. A name is a \<open>string\<close> (its
  bytes); a position (\<^verbatim>\<open>(u32, u32)\<close>) is a pair of naturals; an \<^verbatim>\<open>i64\<close> payload is a 64-bit
  word, and a float is the bit pattern of its IEEE value. The Rust enum \<^verbatim>\<open>OpCode\<close> has 129
  constructors in one list; here they stand in one datatype per family (arithmetic, memory,
  comparison, \<^verbatim>\<open>fs.*\<close>, \<^verbatim>\<open>net.*\<close>, ...) under \<open>opcode\<close>, as the checker and the VM group
  them in their match arms.
\<close>

section \<open>Types\<close>

datatype narrow = NU8 | NI8 | NU16 | NI16

datatype (plugins only: size code) ty =
    TI32 | TI64 | TF32 | TF64 | TBool | TStr | TVoid
  | TPtr ty
  | TStruct string
  | TResult ty ty
  | TArray ty
  | TFn "ty list" ty bool
  | TEnum string
  | TUnion string
  | TNarrow narrow

definition narrow_from_name :: "string \<Rightarrow> narrow option" where
  "narrow_from_name s =
     (if s = ''u8'' then Some NU8
      else if s = ''i8'' then Some NI8
      else if s = ''u16'' then Some NU16
      else if s = ''i16'' then Some NI16
      else None)"

fun narrow_name :: "narrow \<Rightarrow> string" where
  "narrow_name NU8 = ''u8''"
| "narrow_name NI8 = ''i8''"
| "narrow_name NU16 = ''u16''"
| "narrow_name NI16 = ''i16''"

fun narrow_size :: "narrow \<Rightarrow> nat" where
  "narrow_size NU8 = 1"
| "narrow_size NI8 = 1"
| "narrow_size NU16 = 2"
| "narrow_size NI16 = 2"

lemma narrow_from_name_name [simp]: "narrow_from_name (narrow_name n) = Some n"
  by (cases n) (simp_all add: narrow_from_name_def)

lemma narrow_size_pos [simp]: "0 < narrow_size n"
  by (cases n) simp_all

section \<open>Literals and operation codes\<close>

datatype literal =
    LInt i64
  | LInt64 i64
  | LFloat f64
  | LFloat32 f32 string
  | LBool bool
  | LStr string

datatype (plugins only: size code) arith_op = Add | Sub | Mul | Div | Mod | DivU | RemU | BitXor | Shl | Shr | ShrU
  | BitAnd | BitOr | Rotl | Rotr

datatype checked_op = CheckedAdd | CheckedSub | CheckedMul

datatype bit_op = BitNot | Clz | Ctz | Popcnt

datatype (plugins only: size code) mem_op = MemLoad8 | MemLoad32 | MemLoad64 | MemStore8 | MemStore32 | MemStore64
  | MemLoad8S | MemLoad16U | MemLoad16S | MemStore16 | MemAlloc | MemGrow

datatype atomic_op = AtomicAdd | AtomicCas | AtomicLock | AtomicUnlock

datatype (plugins only: size code) cmp_op = Eq | Neq | Lt | Lte | Gt | Gte | LtU | LteU | GtU | GteU

datatype logic_op = And | Or

datatype (plugins only: size code) sys_op = SysPrint | SysTime | SysMonotonic | SysRandom | SysExit | SysPoll

datatype (plugins only: size code) fs_op = FsOpen | FsRead | FsWrite | FsClose | FsDelete | FsOpendir | FsReaddir | FsStat
  | FsChmod | FsRename | FsRmdir | FsMkdir

datatype (plugins only: size code) net_op = NetListen | NetAccept | NetRecv | NetSend | NetConnect | NetConnectHost
  | NetTlsConnect | NetClose | NetPoll

datatype (plugins only: size code) proc_op = ProcSpawn | ProcStream | ProcRead | ProcWrite | ProcClose | ProcWait | ProcExec
  | ProcKill | ProcTryWait | ProcPoll

datatype env_op = ArgsSizes | ArgsGet | EnvSizes | EnvGet

datatype thread_op = ThreadSpawn | ThreadJoin

datatype (plugins only: size code) conv_op = I64ExtendS | I64ExtendU | I32Wrap
  | F64ConvertI64S | F32DemoteF64 | F64PromoteF32 | F32ConvertI32S | F32ConvertI64S
  | F64ConvertI32S | I32TruncF32S | I32TruncF64S | I64TruncF32S | F32ReinterpretI32
  | I32ReinterpretF32 | F64Sqrt | I64TruncF64S | F64ReinterpretI64 | I64ReinterpretF64

datatype str_op = StrLen | StrPtr

datatype (plugins only: size code) format_op = FormatStr | FormatTo | FormatPrint | FormatPrintln | FormatEprintln
  | FormatPiece | FormatDbg | FormatExpect | FormatAssert

datatype try_op = Try | TryOpt | TryOr

datatype (plugins only: size code) opcode =
    OpArith arith_op
  | OpChecked checked_op
  | OpBit bit_op
  | OpMem mem_op
  | OpAtomic atomic_op
  | OpCmp cmp_op
  | OpLogic logic_op
  | OpNot
  | OpSys sys_op
  | OpFs fs_op
  | OpNet net_op
  | OpProc proc_op
  | OpEnv env_op
  | OpThread thread_op
  | OpConv conv_op
  | OpStr str_op
  | OpFormat format_op
  | OpTry try_op
  | OpDefer
  | OpDrop
  | OpAbort

section \<open>Expressions\<close>

datatype addr_kind = AKPtr | AKArr | AKEnum | AKPtrGen | AKArrGen

datatype (plugins only: size code) expr =
    ELit literal span
  | EVar string span
  | ELet string ty expr span
  | ESet string expr span
  | EIf expr expr expr span
  | ELoop string expr expr expr "expr list" span
  | EWhile expr "expr list" span
  | ECall string "expr list" span
  | EOp opcode "expr list" span
  | EOk expr "ty option" span
  | EErr expr "ty option" span
  | EMatchResult expr string "expr list" string "expr list" span
  | EBlock "expr list" span
  | EUnsafe "expr list" span
  | EGetField string string expr span
  | EPutField string string expr expr "(string \<times> string) list" span
  | ESizeof ty span
  | EArrGet ty expr expr span
  | EArrSet ty expr expr expr "(string \<times> string) list" span
  | EArrLen expr span
  | ENull ty span
  | ECast ty expr "expr option" span
  | ERecord string "expr list" span
  | EWith string string expr expr span
  | EMake string string "expr list" span
  | EMatch expr "match_arm list" "expr list option" span
  | EReturn "expr option" span
  | EBreak span
  | EContinue span
  | ERef string span
  | ECallRef ty expr "expr list" span
  | EAddr expr addr_kind span
and match_arm = MatchArm (arm_member: string) (arm_binders: "string list option")
    (arm_body: "expr list") (arm_span: span)


fun expr_span :: "expr \<Rightarrow> span" where
  "expr_span (ELit _ sp) = sp"
| "expr_span (EVar _ sp) = sp"
| "expr_span (ELet _ _ _ sp) = sp"
| "expr_span (ESet _ _ sp) = sp"
| "expr_span (EIf _ _ _ sp) = sp"
| "expr_span (ELoop _ _ _ _ _ sp) = sp"
| "expr_span (EWhile _ _ sp) = sp"
| "expr_span (ECall _ _ sp) = sp"
| "expr_span (EOp _ _ sp) = sp"
| "expr_span (EOk _ _ sp) = sp"
| "expr_span (EErr _ _ sp) = sp"
| "expr_span (EMatchResult _ _ _ _ _ sp) = sp"
| "expr_span (EBlock _ sp) = sp"
| "expr_span (EUnsafe _ sp) = sp"
| "expr_span (EGetField _ _ _ sp) = sp"
| "expr_span (EPutField _ _ _ _ _ sp) = sp"
| "expr_span (ESizeof _ sp) = sp"
| "expr_span (EArrGet _ _ _ sp) = sp"
| "expr_span (EArrSet _ _ _ _ _ sp) = sp"
| "expr_span (EArrLen _ sp) = sp"
| "expr_span (ENull _ sp) = sp"
| "expr_span (ECast _ _ _ sp) = sp"
| "expr_span (ERecord _ _ sp) = sp"
| "expr_span (EWith _ _ _ _ sp) = sp"
| "expr_span (EMake _ _ _ sp) = sp"
| "expr_span (EMatch _ _ _ sp) = sp"
| "expr_span (EReturn _ sp) = sp"
| "expr_span (EBreak sp) = sp"
| "expr_span (EContinue sp) = sp"
| "expr_span (ERef _ sp) = sp"
| "expr_span (ECallRef _ _ _ sp) = sp"
| "expr_span (EAddr _ _ sp) = sp"

section \<open>Items of a module\<close>

record struct_field =
  sf_name :: string
  sf_ty :: ty

record struct_def =
  sd_name :: string
  sd_fields :: "struct_field list"
  sd_span :: span
  sd_is_value :: bool

record variant =
  vr_name :: string
  vr_fields :: "struct_field list"

record union_def =
  ud_name :: string
  ud_variants :: "variant list"
  ud_span :: span

record enum_def =
  ed_name :: string
  ed_members :: "(string \<times> i32) list"
  ed_span :: span

datatype contract = Requires expr | Ensures expr | Invariant expr

record fn_def =
  fd_name :: string
  fd_params :: "(string \<times> ty) list"
  fd_return_type :: ty
  fd_contracts :: "contract list"
  fd_body :: "expr list"
  fd_span :: span
  fd_is_unsafe :: bool
  fd_is_no_leak :: bool

record import_decl =
  im_name :: string
  im_alias :: "string option"

text \<open>
  \<^verbatim>\<open>Source\<close>: the file an item was written in, and the files of the tokens substituted into
  a generic instance; \<^verbatim>\<open>Source::file_at\<close> reads it.
\<close>

record source =
  src_file :: string
  src_foreign :: "span \<rightharpoonup> string"

definition file_at :: "source \<Rightarrow> span \<Rightarrow> string" where
  "file_at s pos = (case src_foreign s pos of Some f \<Rightarrow> f | None \<Rightarrow> src_file s)"

record module =
  m_name :: string
  m_imports :: "import_decl list"
  m_structs :: "struct_def list"
  m_enums :: "enum_def list"
  m_unions :: "union_def list"
  m_functions :: "fn_def list"
  m_sources :: "string \<rightharpoonup> source"
  m_file_names :: "string \<rightharpoonup> string"

end
