(* ===== verification/Layout.thy ===== *)
theory Layout
  imports Ast "HOL-Library.Char_ord" "HOL-Library.List_Lexorder"
begin

text \<open>
  Memory layout (the first part of \<^verbatim>\<open>src/checker.rs\<close>): the program's structs and unions
  (\<^verbatim>\<open>Structs\<close>), the scalars a value is made of, the slots of a union or result held by value
  (\<^verbatim>\<open>SumLayout\<close>), sizes, alignments and field offsets, and which unions are values. A
  \<^verbatim>\<open>HashMap\<close> keyed by name is an association list whose first entry for a name is the one
  the map holds. Rust's \<^verbatim>\<open>scalars\<close> recurses through value structs without a bound, so a
  struct that holds itself overflows the stack; the model gives the recursion as much fuel as there
  are structs, and running out is the error \<open>LayOverflow\<close>.
\<close>

section \<open>The program's structs and unions\<close>

record slot_layout =
  sl_slots :: "ty list"
  sl_offsets :: "nat list"
  sl_size :: nat
  sl_align :: nat
  sl_variants :: "nat list list"

record structs =
  st_defs :: "(string \<times> struct_def) list"
  st_unions :: "(string \<times> union_def) list"
  st_by_value :: "(string \<times> slot_layout) list"

datatype lay_error =
    LayUnsupported ty
  | LayNoField string string
  | LayOverflow
  | LayFuel

definition max_scalars :: nat where
  "max_scalars = 8"

abbreviation get_struct :: "structs \<Rightarrow> string \<Rightarrow> struct_def option" where
  "get_struct st n \<equiv> map_of (st_defs st) n"

abbreviation get_union :: "structs \<Rightarrow> string \<Rightarrow> union_def option" where
  "get_union st n \<equiv> map_of (st_unions st) n"

definition is_value_struct :: "structs \<Rightarrow> string \<Rightarrow> bool" where
  "is_value_struct st n = (case get_struct st n of Some d \<Rightarrow> sd_is_value d | None \<Rightarrow> False)"

definition is_value_union :: "structs \<Rightarrow> string \<Rightarrow> bool" where
  "is_value_union st n = (map_of (st_by_value st) n \<noteq> None)"

definition value_of :: "ty \<Rightarrow> ty" where
  "value_of t = (case t of TNarrow _ \<Rightarrow> TI32 | _ \<Rightarrow> t)"

fun slot_kind :: "ty \<Rightarrow> ty" where
  "slot_kind TI64 = TI64"
| "slot_kind (TPtr _) = TI64"
| "slot_kind (TArray _) = TI64"
| "slot_kind TF32 = TF32"
| "slot_kind TF64 = TF64"
| "slot_kind _ = TI32"

section \<open>The slots of a sum held by value\<close>

definition kinds :: "ty list" where
  "kinds = [TI32, TF32, TI64, TF64]"

definition kind_index :: "ty \<Rightarrow> nat" where
  "kind_index t = (case index_of (\<lambda>k. k = t) kinds of Some i \<Rightarrow> i | None \<Rightarrow> 0)"

definition slot_size :: "ty \<Rightarrow> nat" where
  "slot_size t = (if t = TI64 \<or> t = TF64 then 8 else 4)"

text \<open>How many slots of each kind the variants share: the most any one variant needs.\<close>

definition kind_count :: "ty list list \<Rightarrow> ty \<Rightarrow> nat" where
  "kind_count per_variant k = foldr max (map (\<lambda>v. length (filter (\<lambda>t. t = k) v)) per_variant) 0"

text \<open>The slots, and the first slot of each kind.\<close>

fun build_slots :: "ty list \<Rightarrow> nat list \<Rightarrow> ty list \<Rightarrow> nat list \<Rightarrow> ty list \<times> nat list" where
  "build_slots (k # ks) (n # ns) slots base =
     build_slots ks ns (slots @ replicate n k) (base @ [length slots])"
| "build_slots _ _ slots base = (slots, base)"

text \<open>The slots of one variant's scalars: the next unused one of each scalar's kind.\<close>

fun assign_slots :: "nat list \<Rightarrow> nat list \<Rightarrow> ty list \<Rightarrow> nat list" where
  "assign_slots base used [] = []"
| "assign_slots base used (t # ts) =
     (let k = kind_index t
      in (base ! k + used ! k) # assign_slots base (used[k := used ! k + 1]) ts)"

text \<open>The offsets of the slots, each aligned to its size; the end and the largest alignment.\<close>

fun place_slots :: "nat \<Rightarrow> nat \<Rightarrow> nat list \<Rightarrow> ty list \<Rightarrow> nat list \<times> nat \<times> nat" where
  "place_slots offset align offsets [] = (offsets, offset, align)"
| "place_slots offset align offsets (t # ts) =
     (let a = slot_size t; o' = align_up offset a
      in place_slots (o' + a) (max align a) (offsets @ [o']) ts)"

definition kinds_layout :: "ty list list \<Rightarrow> slot_layout" where
  "kinds_layout per_variant =
     (let (slots, base) = build_slots kinds (map (kind_count per_variant) kinds) [TI32] [];
          (offsets, offset, align) = place_slots 0 4 [] slots
      in \<lparr>sl_slots = slots, sl_offsets = offsets, sl_size = align_up offset align,
          sl_align = align, sl_variants = map (assign_slots base [0, 0, 0, 0]) per_variant\<rparr>)"

section \<open>Scalars\<close>

fun seq_res :: "('e + 'a) list \<Rightarrow> 'e + 'a list" where
  "seq_res [] = Inr []"
| "seq_res (r # rs) = bind_res r (\<lambda>x. bind_res (seq_res rs) (\<lambda>xs. Inr (x # xs)))"

lemma seq_res_Inr: "seq_res rs = Inr xs \<longleftrightarrow> rs = map Inr xs"
  by (induction rs arbitrary: xs) auto

function scalars_n :: "nat \<Rightarrow> structs \<Rightarrow> ty \<Rightarrow> lay_error + ty list" where
  "scalars_n d st t =
     (case t of
        TStruct n \<Rightarrow>
          (case get_struct st n of
             Some def \<Rightarrow>
               if sd_is_value def
               then (case d of 0 \<Rightarrow> Inl LayOverflow
                     | Suc d' \<Rightarrow> bind_res (seq_res (map (\<lambda>f. scalars_n d' st (sf_ty f)) (sd_fields def)))
                                  (\<lambda>xs. Inr (concat xs)))
               else Inr [t]
           | None \<Rightarrow> Inr [t])
      | TUnion n \<Rightarrow> (case map_of (st_by_value st) n of Some l \<Rightarrow> Inr (sl_slots l) | None \<Rightarrow> Inr [t])
      | TResult a b \<Rightarrow>
          bind_res (scalars_n d st a) (\<lambda>sa. bind_res (scalars_n d st b) (\<lambda>sb.
            let l = kinds_layout [map slot_kind sa, map slot_kind sb]
            in Inr (if length (sl_slots l) \<le> max_scalars then sl_slots l else [t])))
      | TVoid \<Rightarrow> Inr []
      | _ \<Rightarrow> Inr [t])"
  by pat_completeness auto
termination by (relation "measures [\<lambda>(d, st, t). d, \<lambda>(d, st, t). size t]") auto

declare scalars_n.simps [simp del]

lemma scalars_n_plain [simp]:
  "scalars_n d st TI32 = Inr [TI32]" "scalars_n d st TI64 = Inr [TI64]"
  "scalars_n d st TF32 = Inr [TF32]" "scalars_n d st TF64 = Inr [TF64]"
  "scalars_n d st TBool = Inr [TBool]" "scalars_n d st TStr = Inr [TStr]"
  "scalars_n d st TVoid = Inr []" "scalars_n d st (TPtr t) = Inr [TPtr t]"
  "scalars_n d st (TArray t) = Inr [TArray t]" "scalars_n d st (TFn ps r b) = Inr [TFn ps r b]"
  "scalars_n d st (TEnum n) = Inr [TEnum n]" "scalars_n d st (TNarrow w) = Inr [TNarrow w]"
  "scalars_n d st (TUnion n) =
     Inr (case map_of (st_by_value st) n of Some l \<Rightarrow> sl_slots l | None \<Rightarrow> [TUnion n])"
  by (simp_all add: scalars_n.simps split: option.splits)

lemma scalars_n_struct:
  "scalars_n d st (TStruct n) =
     (case get_struct st n of
        Some def \<Rightarrow>
          if sd_is_value def
          then (case d of 0 \<Rightarrow> Inl LayOverflow
                | Suc d' \<Rightarrow> bind_res (seq_res (map (\<lambda>f. scalars_n d' st (sf_ty f)) (sd_fields def)))
                             (\<lambda>xs. Inr (concat xs)))
          else Inr [TStruct n]
      | None \<Rightarrow> Inr [TStruct n])"
  by (subst scalars_n.simps) simp

lemma scalars_n_result:
  "scalars_n d st (TResult a b) =
     bind_res (scalars_n d st a) (\<lambda>sa. bind_res (scalars_n d st b) (\<lambda>sb.
       let l = kinds_layout [map slot_kind sa, map slot_kind sb]
       in Inr (if length (sl_slots l) \<le> max_scalars then sl_slots l else [TResult a b])))"
  by (subst scalars_n.simps) simp

definition nest_fuel :: "structs \<Rightarrow> nat" where
  "nest_fuel st = length (st_defs st)"

definition scalars :: "structs \<Rightarrow> ty \<Rightarrow> lay_error + ty list" where
  "scalars st t = scalars_n (nest_fuel st) st t"

definition scalars_of_fields :: "structs \<Rightarrow> struct_field list \<Rightarrow> lay_error + ty list" where
  "scalars_of_fields st fs =
     bind_res (seq_res (map (\<lambda>f. scalars st (sf_ty f)) fs)) (\<lambda>xs. Inr (concat xs))"

definition sum_layout :: "structs \<Rightarrow> variant list \<Rightarrow> lay_error + slot_layout" where
  "sum_layout st variants =
     bind_res (seq_res (map (\<lambda>v. scalars_of_fields st (vr_fields v)) variants))
       (\<lambda>per_variant. Inr (kinds_layout (map (map slot_kind) per_variant)))"

definition result_side :: "string \<Rightarrow> ty \<Rightarrow> variant" where
  "result_side name t = \<lparr>vr_name = name, vr_fields = [\<lparr>sf_name = ''v'', sf_ty = t\<rparr>]\<rparr>"

definition result_sum :: "structs \<Rightarrow> ty \<Rightarrow> ty \<Rightarrow> lay_error + slot_layout" where
  "result_sum st a b = sum_layout st [result_side ''ok'' a, result_side ''err'' b]"

definition result_layout :: "structs \<Rightarrow> ty \<Rightarrow> ty \<Rightarrow> lay_error + slot_layout option" where
  "result_layout st a b =
     bind_res (result_sum st a b)
       (\<lambda>l. Inr (if length (sl_slots l) \<le> max_scalars then Some l else None))"

definition result_slots :: "structs \<Rightarrow> ty \<Rightarrow> ty \<Rightarrow> lay_error + nat" where
  "result_slots st a b = bind_res (result_sum st a b) (\<lambda>l. Inr (length (sl_slots l)))"

definition sum_of :: "structs \<Rightarrow> ty \<Rightarrow> lay_error + slot_layout option" where
  "sum_of st t =
     (case t of
        TUnion n \<Rightarrow> Inr (map_of (st_by_value st) n)
      | TResult a b \<Rightarrow> result_layout st a b
      | _ \<Rightarrow> Inr None)"

section \<open>Sizes, alignments, offsets\<close>

text \<open>One step of a struct's layout: the offset after a field, from the field's size and alignment.\<close>

fun lay_fields :: "nat \<Rightarrow> nat \<Rightarrow> (nat \<times> nat) list \<Rightarrow> nat \<times> nat" where
  "lay_fields offset max_align [] = (offset, max_align)"
| "lay_fields offset max_align ((s, a) # rest) =
     lay_fields (align_up offset a + s) (max max_align a) rest"

function layout_at :: "structs \<Rightarrow> ty \<Rightarrow> nat \<Rightarrow> lay_error + nat \<times> nat" where
  "layout_at st t depth =
     (let plain =
        (case t of
           TPtr _ \<Rightarrow> Inr (8, 8)
         | TArray _ \<Rightarrow> Inr (8, 8)
         | TNarrow n \<Rightarrow> Inr (narrow_size n, narrow_size n)
         | TI32 \<Rightarrow> Inr (4, 4) | TF32 \<Rightarrow> Inr (4, 4) | TBool \<Rightarrow> Inr (4, 4) | TStr \<Rightarrow> Inr (4, 4)
         | TFn _ _ _ \<Rightarrow> Inr (4, 4) | TEnum _ \<Rightarrow> Inr (4, 4) | TUnion _ \<Rightarrow> Inr (4, 4)
         | TI64 \<Rightarrow> Inr (8, 8) | TF64 \<Rightarrow> Inr (8, 8)
         | TStruct name \<Rightarrow>
             (if depth < 64 then
               (case get_struct st name of
                  Some def \<Rightarrow>
                    if sd_is_value def then
                      bind_res (seq_res (map (\<lambda>f. layout_at st (sf_ty f) (depth + 1)) (sd_fields def)))
                        (\<lambda>sas. let (offset, max_align) = lay_fields 0 1 sas
                               in Inr (align_up offset max_align, max_align))
                    else Inl (LayUnsupported t)
                | None \<Rightarrow> Inl (LayUnsupported t))
              else Inl (LayUnsupported t))
         | _ \<Rightarrow> Inl (LayUnsupported t))
      in bind_res (sum_of st t)
           (\<lambda>l. case l of Some l \<Rightarrow> Inr (sl_size l, sl_align l) | None \<Rightarrow> plain))"
  by pat_completeness auto
termination by (relation "measure (\<lambda>(st, t, depth). 64 - depth)") auto

declare layout_at.simps [simp del]

lemma sum_of_none [simp]:
  "sum_of st (TStruct n) = Inr None" "sum_of st (TPtr t) = Inr None" "sum_of st (TArray t) = Inr None"
  "sum_of st TI32 = Inr None" "sum_of st TI64 = Inr None" "sum_of st TF32 = Inr None"
  "sum_of st TF64 = Inr None" "sum_of st TBool = Inr None" "sum_of st TStr = Inr None"
  "sum_of st TVoid = Inr None" "sum_of st (TFn ps r b) = Inr None" "sum_of st (TEnum n) = Inr None"
  "sum_of st (TNarrow w) = Inr None" "sum_of st (TUnion n) = Inr (map_of (st_by_value st) n)"
  by (simp_all add: sum_of_def)

lemma layout_at_plain [simp]:
  "layout_at st (TPtr t) d = Inr (8, 8)" "layout_at st (TArray t) d = Inr (8, 8)"
  "layout_at st (TNarrow w) d = Inr (narrow_size w, narrow_size w)"
  "layout_at st TI32 d = Inr (4, 4)" "layout_at st TF32 d = Inr (4, 4)"
  "layout_at st TBool d = Inr (4, 4)" "layout_at st TStr d = Inr (4, 4)"
  "layout_at st (TFn ps r b) d = Inr (4, 4)" "layout_at st (TEnum n) d = Inr (4, 4)"
  "layout_at st TI64 d = Inr (8, 8)" "layout_at st TF64 d = Inr (8, 8)"
  "layout_at st TVoid d = Inl (LayUnsupported TVoid)"
  "layout_at st (TUnion n) d =
     Inr (case map_of (st_by_value st) n of Some l \<Rightarrow> (sl_size l, sl_align l) | None \<Rightarrow> (4, 4))"
  by (simp_all add: layout_at.simps split: option.splits)

lemma layout_at_result:
  "layout_at st (TResult a b) d = bind_res (result_layout st a b)
     (\<lambda>l. case l of Some l \<Rightarrow> Inr (sl_size l, sl_align l) | None \<Rightarrow> Inl (LayUnsupported (TResult a b)))"
  by (simp add: layout_at.simps sum_of_def)

lemma layout_at_struct:
  "layout_at st (TStruct n) d =
     (case get_struct st n of
        Some def \<Rightarrow>
          if d < 64 \<and> sd_is_value def then
            bind_res (seq_res (map (\<lambda>f. layout_at st (sf_ty f) (d + 1)) (sd_fields def)))
              (\<lambda>sas. let (offset, max_align) = lay_fields 0 1 sas
                     in Inr (align_up offset max_align, max_align))
          else Inl (LayUnsupported (TStruct n))
      | None \<Rightarrow> Inl (LayUnsupported (TStruct n)))"
  by (subst layout_at.simps) (simp split: option.splits)

definition type_size_and_align :: "structs \<Rightarrow> ty \<Rightarrow> lay_error + nat \<times> nat" where
  "type_size_and_align st t = layout_at st t 0"

definition memory_layout :: "structs \<Rightarrow> ty \<Rightarrow> lay_error + nat \<times> nat" where
  "memory_layout st t =
     (case t of TResult _ _ \<Rightarrow> Inl (LayUnsupported t) | _ \<Rightarrow> type_size_and_align st t)"

fun field_offset :: "structs \<Rightarrow> string \<Rightarrow> string \<Rightarrow> nat \<Rightarrow> struct_field list \<Rightarrow> lay_error + nat \<times> ty" where
  "field_offset st sname fname offset [] = Inl (LayNoField sname fname)"
| "field_offset st sname fname offset (f # fs) =
     bind_res (type_size_and_align st (sf_ty f)) (\<lambda>(s, a).
       let offset = align_up offset a
       in if sf_name f = fname then Inr (offset, sf_ty f)
          else field_offset st sname fname (offset + s) fs)"

definition get_field_offset :: "structs \<Rightarrow> struct_def \<Rightarrow> string \<Rightarrow> lay_error + nat \<times> ty" where
  "get_field_offset st def fname = field_offset st (sd_name def) fname 0 (sd_fields def)"

definition get_struct_size :: "structs \<Rightarrow> struct_def \<Rightarrow> lay_error + nat" where
  "get_struct_size st def =
     bind_res (seq_res (map (\<lambda>f. type_size_and_align st (sf_ty f)) (sd_fields def)))
       (\<lambda>sas. let (offset, max_align) = lay_fields 0 1 sas in Inr (align_up offset max_align))"

section \<open>Slots: every scalar has a slot of its kind, of its own\<close>

lemma kind_index_kinds [simp]:
  "kind_index TI32 = 0" "kind_index TF32 = 1" "kind_index TI64 = 2" "kind_index TF64 = 3"
  by (simp_all add: kind_index_def kinds_def)

lemma slot_kind_kinds [simp]: "slot_kind t \<in> set kinds"
  by (cases t rule: slot_kind.cases) (simp_all add: kinds_def)

lemma kinds_cases:
  assumes "t \<in> set kinds"
  obtains "t = TI32" | "t = TF32" | "t = TI64" | "t = TF64"
  using assms by (auto simp: kinds_def)

lemma kind_index_inj:
  "t \<in> set kinds \<Longrightarrow> u \<in> set kinds \<Longrightarrow> kind_index t = kind_index u \<longleftrightarrow> t = u"
  by (elim kinds_cases) simp_all

lemma kind_index_less: "t \<in> set kinds \<Longrightarrow> kind_index t < 4"
  by (elim kinds_cases) simp_all

lemma kind_count_ge: "v \<in> set per \<Longrightarrow> length (filter (\<lambda>t. t = k) v) \<le> kind_count per k"
  by (induction per) (auto simp: kind_count_def)

lemma build_slots_kinds:
  "build_slots kinds [a, b, c, d] [TI32] [] =
     (TI32 # replicate a TI32 @ replicate b TF32 @ replicate c TI64 @ replicate d TF64,
      [1, 1 + a, 1 + a + b, 1 + a + b + c])"
  by (simp add: kinds_def)

lemma length_assign_slots [simp]: "length (assign_slots base used v) = length v"
  by (induction base used v rule: assign_slots.induct) (simp_all add: Let_def)

text \<open>The slot of the \<open>i\<close>-th scalar: the base of its kind, plus how many of that kind came before it.\<close>

lemma assign_slots_nth:
  assumes "length used = 4" "set v \<subseteq> set kinds" "i < length v"
  shows "assign_slots base used v ! i =
    base ! kind_index (v ! i) + used ! kind_index (v ! i)
      + length (filter (\<lambda>t. t = v ! i) (take i v))"
  using assms
proof (induction v arbitrary: used i)
  case (Cons t v)
  show ?case
  proof (cases i)
    case (Suc j)
    have t: "t \<in> set kinds" "kind_index t < 4" and j: "v ! j \<in> set kinds" "j < length v"
      using Cons.prems Suc by (auto intro: kind_index_less)
    have "assign_slots base (used[kind_index t := used ! kind_index t + 1]) v ! j =
        base ! kind_index (v ! j) + used[kind_index t := used ! kind_index t + 1] ! kind_index (v ! j)
          + length (filter (\<lambda>t. t = v ! j) (take j v))"
      using Cons.IH [of "used[kind_index t := used ! kind_index t + 1]" j] Cons.prems Suc by simp
    then show ?thesis
      using Suc t j kind_index_inj [OF t(1) j(1)] Cons.prems(1)
      by (auto simp: Let_def nth_list_update)
  qed (simp add: Let_def)
qed simp

lemma filter_take_less:
  assumes "i < length v"
  shows "length (filter (\<lambda>t. t = v ! i) (take i v)) < length (filter (\<lambda>t. t = v ! i) v)"
proof -
  have "filter p v = filter p (take i v @ v ! i # drop (Suc i) v)" for p
    by (simp only: id_take_nth_drop [OF assms, symmetric])
  from arg_cong [OF this, of length] show ?thesis by simp
qed

lemma slots_of_base:
  assumes "t \<in> set kinds" "j < kind_count per t"
    and "build_slots kinds (map (kind_count per) kinds) [TI32] [] = (slots, base)"
  shows "0 < base ! kind_index t + j \<and> base ! kind_index t + j < length slots
    \<and> slots ! (base ! kind_index t + j) = t"
proof -
  have "map (kind_count per) kinds =
      [kind_count per TI32, kind_count per TF32, kind_count per TI64, kind_count per TF64]"
    by (simp add: kinds_def)
  with assms(3) have
    s: "slots = TI32 # replicate (kind_count per TI32) TI32 @ replicate (kind_count per TF32) TF32
          @ replicate (kind_count per TI64) TI64 @ replicate (kind_count per TF64) TF64"
    and b: "base = [1, 1 + kind_count per TI32, 1 + kind_count per TI32 + kind_count per TF32,
          1 + kind_count per TI32 + kind_count per TF32 + kind_count per TI64]"
    by (simp_all add: build_slots_kinds)
  from assms(1,2) show ?thesis
    unfolding s b by (elim kinds_cases) (auto simp: nth_append nth_Cons')
qed

text \<open>The facts about a layout the later theories rest on, for any variants' kinds.\<close>

definition slots_ok :: "slot_layout \<Rightarrow> ty list list \<Rightarrow> bool" where
  "slots_ok l per \<longleftrightarrow>
     length (sl_variants l) = length per
     \<and> (\<forall>n < length per. length (sl_variants l ! n) = length (per ! n) \<and> distinct (sl_variants l ! n)
          \<and> (\<forall>i < length (per ! n). 0 < sl_variants l ! n ! i
                \<and> sl_variants l ! n ! i < length (sl_slots l)
                \<and> sl_slots l ! (sl_variants l ! n ! i) = per ! n ! i))"

lemma assign_slots_ok:
  assumes v: "v \<in> set per" "set v \<subseteq> set kinds"
    and b: "build_slots kinds (map (kind_count per) kinds) [TI32] [] = (slots, base)"
    and i: "i < length v"
  shows "0 < assign_slots base [0, 0, 0, 0] v ! i \<and> assign_slots base [0, 0, 0, 0] v ! i < length slots
    \<and> slots ! (assign_slots base [0, 0, 0, 0] v ! i) = v ! i"
proof -
  let ?j = "length (filter (\<lambda>t. t = v ! i) (take i v))"
  have k: "v ! i \<in> set kinds" using v(2) i by auto
  have z: "[0, 0, 0, 0] ! kind_index (v ! i) = (0 :: nat)"
    using k by (elim kinds_cases) simp_all
  have "?j < kind_count per (v ! i)"
    using filter_take_less [OF i] kind_count_ge [OF v(1), of "v ! i"] by linarith
  from slots_of_base [OF k this b] show ?thesis
    using assign_slots_nth [of "[0, 0, 0, 0]" v i base] v(2) i z by simp
qed

lemma distinct_assign_slots:
  assumes v: "v \<in> set per" "set v \<subseteq> set kinds"
    and b: "build_slots kinds (map (kind_count per) kinds) [TI32] [] = (slots, base)"
  shows "distinct (assign_slots base [0, 0, 0, 0] v)"
proof -
  let ?a = "assign_slots base [0, 0, 0, 0] v"
  have "?a ! i \<noteq> ?a ! j" if ij: "i < j" "j < length v" for i j
  proof
    assume eq: "?a ! i = ?a ! j"
    have "slots ! (?a ! i) = v ! i" "slots ! (?a ! j) = v ! j"
      using assign_slots_ok [OF v b] ij by auto
    with eq have vij: "v ! i = v ! j" by simp
    have "take i (take j v) = take i v" "take j v ! i = v ! i" "i < length (take j v)"
      using ij by simp_all
    with filter_take_less [of i "take j v"] vij
    have "length (filter (\<lambda>t. t = v ! i) (take i v)) < length (filter (\<lambda>t. t = v ! j) (take j v))"
      by simp
    with eq vij show False
      using assign_slots_nth [of "[0, 0, 0, 0]" v i base] assign_slots_nth [of "[0, 0, 0, 0]" v j base]
        v(2) ij by simp
  qed
  then show ?thesis
    by (auto simp: distinct_conv_nth) (metis linorder_neqE_nat)
qed

theorem kinds_layout_slots_ok:
  assumes "\<And>v. v \<in> set per \<Longrightarrow> set v \<subseteq> set kinds"
  shows "slots_ok (kinds_layout per) per"
proof -
  obtain slots base where b: "build_slots kinds (map (kind_count per) kinds) [TI32] [] = (slots, base)"
    by fastforce
  obtain offsets offset align where "place_slots 0 4 [] slots = (offsets, offset, align)"
    by (metis prod_cases3)
  with b show ?thesis
    using assms assign_slots_ok [OF _ _ b] distinct_assign_slots [OF _ _ b]
    by (simp add: slots_ok_def kinds_layout_def)
qed

lemma kinds_layout_tag: "sl_slots (kinds_layout per) ! 0 = TI32 \<and> sl_slots (kinds_layout per) \<noteq> []"
proof -
  have "\<exists>rest. fst (build_slots ks ns (TI32 # xs) base) = TI32 # rest" for ks ns xs base
    by (induction ks ns "TI32 # xs" base arbitrary: xs rule: build_slots.induct) auto
  then show ?thesis
    by (auto simp: kinds_layout_def split: prod.splits) (metis fst_conv nth_Cons_0, metis fst_conv list.distinct(1))
qed

section \<open>Offsets: aligned, in order, inside the size\<close>

lemma place_slots_acc:
  "place_slots lo a acc ts =
     (let (os, e, al) = place_slots lo a [] ts in (acc @ os, e, al))"
proof (induction ts arbitrary: lo a acc)
  case (Cons t ts)
  show ?case
    by (simp only: place_slots.simps Let_def Cons.IH [of _ _ "acc @ _"] Cons.IH [of _ _ "[] @ _"])
      (simp split: prod.splits)
qed simp

lemma place_slots_Cons:
  "place_slots lo a [] (t # ts) =
     (let lo' = align_up lo (slot_size t); (os, e, al) = place_slots (lo' + slot_size t) (max a (slot_size t)) [] ts
      in (lo' # os, e, al))"
  by (simp add: Let_def place_slots_acc [of _ _ "[_]"])

declare place_slots.simps(2) [simp del]

lemma slot_size_cases: "slot_size t = 4 \<or> slot_size t = 8"
  by (simp add: slot_size_def)

lemma slot_size_pos [simp]: "0 < slot_size t"
  by (simp add: slot_size_def)

definition offsets_ok :: "nat \<Rightarrow> nat \<Rightarrow> nat list \<Rightarrow> ty list \<Rightarrow> bool" where
  "offsets_ok lo hi os ts \<longleftrightarrow> length os = length ts
     \<and> (\<forall>i < length ts. slot_size (ts ! i) dvd os ! i \<and> lo \<le> os ! i \<and> os ! i + slot_size (ts ! i) \<le> hi)
     \<and> (\<forall>j < length ts. \<forall>i < j. os ! i + slot_size (ts ! i) \<le> os ! j)"

lemma place_slots_ok:
  "place_slots lo a [] ts = (os, e, al) \<Longrightarrow> offsets_ok lo e os ts \<and> lo \<le> e \<and> a \<le> al
     \<and> (a \<in> {4, 8} \<longrightarrow> al \<in> {4, 8}) \<and> (\<forall>t \<in> set ts. slot_size t \<le> al)"
proof (induction ts arbitrary: lo a os e al)
  case Nil
  then show ?case by (simp add: offsets_ok_def)
next
  case (Cons t ts)
  let ?o = "align_up lo (slot_size t)"
  obtain os' where r: "place_slots (?o + slot_size t) (max a (slot_size t)) [] ts = (os', e, al)"
      and os: "os = ?o # os'"
    using Cons.prems by (auto simp: place_slots_Cons Let_def split: prod.splits)
  note IH = Cons.IH [OF r]
  have lo: "lo \<le> ?o" by (simp add: align_up_ge)
  have "offsets_ok lo e os (t # ts)"
    using IH lo unfolding offsets_ok_def os
    by (auto simp: nth_Cons split: nat.splits)
  moreover have "a \<in> {4, 8} \<longrightarrow> al \<in> {4, 8}"
    using IH slot_size_cases [of t] by (auto simp: max_def split: if_splits)
  ultimately show ?case using IH lo by (auto simp: le_trans)
qed

theorem kinds_layout_offsets:
  fixes per
  defines "l \<equiv> kinds_layout per"
  shows "offsets_ok 0 (sl_size l) (sl_offsets l) (sl_slots l)
    \<and> sl_align l \<in> {4, 8} \<and> sl_align l dvd sl_size l"
proof -
  obtain slots base where b: "build_slots kinds (map (kind_count per) kinds) [TI32] [] = (slots, base)"
    by fastforce
  obtain os e al where p: "place_slots 0 4 [] slots = (os, e, al)"
    by (metis prod_cases3)
  note ok = place_slots_ok [OF p]
  have "e \<le> align_up e al" using ok by (auto intro: align_up_ge)
  with ok have "offsets_ok 0 (align_up e al) os slots"
    unfolding offsets_ok_def by (meson le_trans)
  with ok b p show ?thesis by (simp add: l_def kinds_layout_def)
qed

end
