(* ===== verification/Layout_Facts.thy ===== *)
theory Layout_Facts
  imports Layout
begin

text \<open>
  What the layouts guarantee: every size is a multiple of its alignment, which is 1, 2, 4 or 8;
  every field of a struct is aligned and inside the struct; two fields of different names do not
  overlap; and the scalars of a value are computed (the recursion ends) when the value structs
  do not contain themselves.
\<close>

section \<open>Alignments\<close>

definition aligns :: "nat set" where
  "aligns = {1, 2, 4, 8}"

lemma aligns_max: "a \<in> aligns \<Longrightarrow> b \<in> aligns \<Longrightarrow> max a b \<in> aligns"
  by (auto simp: max_def)

lemma aligns_dvd_max: "a \<in> aligns \<Longrightarrow> b \<in> aligns \<Longrightarrow> a dvd max a b"
  by (auto simp: aligns_def)

lemma aligns_dvd: "a \<in> aligns \<Longrightarrow> b \<in> aligns \<Longrightarrow> a \<le> b \<Longrightarrow> a dvd b"
  by (auto simp: aligns_def)

lemma aligns_pos: "a \<in> aligns \<Longrightarrow> 0 < a"
  by (auto simp: aligns_def)

definition laid :: "nat \<times> nat \<Rightarrow> bool" where
  "laid sa \<longleftrightarrow> snd sa \<in> aligns \<and> snd sa dvd fst sa"

text \<open>The unions of a program are laid out by \<open>kinds_layout\<close>.\<close>

definition structs_ok :: "structs \<Rightarrow> bool" where
  "structs_ok st \<longleftrightarrow> (\<forall>n l. map_of (st_by_value st) n = Some l \<longrightarrow> (\<exists>per. l = kinds_layout per))"

lemma structs_okD:
  assumes "structs_ok st" "map_of (st_by_value st) n = Some l"
  obtains per where "l = kinds_layout per"
  using assms unfolding structs_ok_def by blast

lemma sum_of_laid:
  assumes "structs_ok st" "sum_of st t = Inr (Some l)"
  shows "laid (sl_size l, sl_align l)"
proof -
  have "\<exists>per. l = kinds_layout per"
    using assms unfolding sum_of_def result_layout_def result_sum_def sum_layout_def
    by (auto split: ty.splits if_splits elim: structs_okD)
  then obtain per where "l = kinds_layout per" by blast
  with kinds_layout_offsets [of per] show ?thesis
    by (auto simp: laid_def aligns_def)
qed

lemma lay_fields_align:
  "lay_fields lo m sas = (e, al) \<Longrightarrow> m \<in> aligns \<Longrightarrow> \<forall>sa \<in> set sas. laid sa \<Longrightarrow>
     al \<in> aligns \<and> lo \<le> e \<and> m \<le> al \<and> (\<forall>sa \<in> set sas. snd sa \<le> al)"
proof (induction lo m sas rule: lay_fields.induct)
  case (2 lo m s a rest)
  have a: "a \<in> aligns" using "2.prems"(3) by (simp add: laid_def)
  have "al \<in> aligns \<and> align_up lo a + s \<le> e \<and> max m a \<le> al \<and> (\<forall>sa \<in> set rest. snd sa \<le> al)"
    using "2.IH" "2.prems" aligns_max [OF "2.prems"(2) a] by simp
  moreover have "lo \<le> align_up lo a" by (simp add: align_up_ge aligns_pos [OF a])
  ultimately show ?case by auto
qed simp

lemma struct_laid:
  assumes "\<forall>sa \<in> set sas. laid sa" "lay_fields 0 1 sas = (e, al)"
  shows "laid (align_up e al, al)"
  using lay_fields_align [OF assms(2)] assms(1) by (auto simp: laid_def aligns_def)

lemma layout_at_laid: "structs_ok st \<Longrightarrow> layout_at st t d = Inr sa \<Longrightarrow> laid sa"
proof (induction st t d arbitrary: sa rule: layout_at.induct)
  case (1 st t d)
  show ?case
  proof (cases t)
    case (TStruct n)
    with "1.prems"(2) obtain def sas where def: "get_struct st n = Some def" "sd_is_value def" "d < 64"
      and sas: "map (\<lambda>f. layout_at st (sf_ty f) (d + 1)) (sd_fields def) = map Inr sas"
      and sa: "Inr sa = (let (offset, max_align) = lay_fields 0 1 sas
                        in (Inr (align_up offset max_align, max_align) :: lay_error + nat \<times> nat))"
      by (auto simp: layout_at_struct seq_res_Inr split: if_splits option.splits)
    have "laid x" if "x \<in> set sas" for x
    proof -
      have "Inr x \<in> set (map (\<lambda>f. layout_at st (sf_ty f) (d + 1)) (sd_fields def))"
        using that sas by simp
      then obtain f where "f \<in> set (sd_fields def)" "layout_at st (sf_ty f) (d + 1) = Inr x"
        by auto
      with "1.IH" [OF TStruct def(3,1,2)] "1.prems"(1) show ?thesis by simp
    qed
    with struct_laid [of sas] sa show ?thesis by (auto simp: Let_def split: prod.splits)
  next
    case (TNarrow w)
    with "1.prems" show ?thesis by (cases w) (auto simp: laid_def aligns_def)
  next
    case (TUnion n)
    with "1.prems" show ?thesis
      by (auto simp: laid_def aligns_def split: option.splits
          dest!: sum_of_laid [of st t, unfolded TUnion sum_of_none])
  next
    case (TResult a b)
    with "1.prems" show ?thesis
      using sum_of_laid [of st t] by (auto simp: layout_at_result sum_of_def split: option.splits)
  qed (use "1.prems" in \<open>auto simp: laid_def aligns_def\<close>)
qed

lemma type_laid: "structs_ok st \<Longrightarrow> type_size_and_align st t = Inr sa \<Longrightarrow> laid sa"
  by (simp add: type_size_and_align_def layout_at_laid)

section \<open>Fields\<close>

lemma field_offset_bounds:
  assumes "structs_ok st"
    and "field_offset st sn fn lo fs = Inr (p, t)"
    and "map (\<lambda>f. type_size_and_align st (sf_ty f)) fs = map Inr sas"
    and "m \<in> aligns" "lay_fields lo m sas = (e, al)"
    and "type_size_and_align st t = Inr (s, a)"
  shows "lo \<le> p \<and> p + s \<le> e \<and> a dvd p \<and> a dvd al"
  using assms(2-5)
proof (induction fs arbitrary: lo m sas)
  case (Cons f fs)
  obtain s1 a1 sas' where sas: "sas = (s1, a1) # sas'"
    and f: "type_size_and_align st (sf_ty f) = Inr (s1, a1)"
    and fs: "map (\<lambda>f. type_size_and_align st (sf_ty f)) fs = map Inr sas'"
    using Cons.prems(2) by (cases sas) auto
  have a1: "a1 \<in> aligns" using type_laid [OF assms(1) f] by (simp add: laid_def)
  have m: "max m a1 \<in> aligns" using Cons.prems(3) a1 by (rule aligns_max)
  have all: "laid x" if "x \<in> set sas'" for x
  proof -
    have "Inr x \<in> set (map (\<lambda>f. type_size_and_align st (sf_ty f)) fs)" using that fs by simp
    then show ?thesis using type_laid [OF assms(1), of _ x] by auto
  qed
  have lf: "lay_fields (align_up lo a1 + s1) (max m a1) sas' = (e, al)"
    using Cons.prems(4) sas by simp
  have lo: "lo \<le> align_up lo a1" by (simp add: align_up_ge aligns_pos [OF a1])
  show ?case
  proof (cases "sf_name f = fn")
    case True
    then have p: "p = align_up lo a1" and t: "t = sf_ty f"
      using Cons.prems(1) f by simp_all
    then have sa: "s = s1" "a = a1" using assms(6) f by simp_all
    have e: "al \<in> aligns \<and> align_up lo a1 + s1 \<le> e \<and> max m a1 \<le> al"
      using lay_fields_align [OF lf m] all by blast
    with a1 have "a1 dvd al" by (auto intro: aligns_dvd)
    with e show ?thesis using lo by (simp add: p sa)
  next
    case False
    then have "field_offset st sn fn (align_up lo a1 + s1) fs = Inr (p, t)"
      using Cons.prems(1) f by simp
    from Cons.IH [OF this fs m lf] lo show ?thesis by linarith
  qed
qed simp

lemma fields_disjoint:
  assumes ok: "structs_ok st" and ne: "f1 \<noteq> f2"
    and "field_offset st sn f1 lo fs = Inr (p1, t1)" "field_offset st sn f2 lo fs = Inr (p2, t2)"
    and "map (\<lambda>f. type_size_and_align st (sf_ty f)) fs = map Inr sas"
    and s1: "type_size_and_align st t1 = Inr (s1, a1)" and s2: "type_size_and_align st t2 = Inr (s2, a2)"
  shows "p1 + s1 \<le> p2 \<or> p2 + s2 \<le> p1"
  using assms(3-5)
proof (induction fs arbitrary: lo sas)
  case (Cons f fs)
  obtain s a sas' where sas: "sas = (s, a) # sas'"
    and f: "type_size_and_align st (sf_ty f) = Inr (s, a)"
    and fs: "map (\<lambda>f. type_size_and_align st (sf_ty f)) fs = map Inr sas'"
    using Cons.prems(3) by (cases sas) auto
  obtain e al where lf: "lay_fields (align_up lo a + s) 1 sas' = (e, al)" by fastforce
  note bounds = field_offset_bounds [OF ok _ fs _ lf]
  have one: "1 \<in> aligns" by (simp add: aligns_def)
  show ?case
  proof (cases "sf_name f = f1 \<or> sf_name f = f2")
    case False
    with Cons.prems f Cons.IH [OF _ _ fs] show ?thesis by simp
  next
    case True
    then show ?thesis
    proof
      assume n: "sf_name f = f1"
      with ne Cons.prems f have "p1 = align_up lo a" "t1 = sf_ty f"
        "field_offset st sn f2 (align_up lo a + s) fs = Inr (p2, t2)" by auto
      with bounds [OF this(3) one s2] s1 f show ?thesis by simp
    next
      assume n: "sf_name f = f2"
      with ne Cons.prems f have "p2 = align_up lo a" "t2 = sf_ty f"
        "field_offset st sn f1 (align_up lo a + s) fs = Inr (p1, t1)" by auto
      with bounds [OF this(3) one s1] s2 f show ?thesis by simp
    qed
  qed
qed simp

lemma get_struct_size_fields:
  assumes "get_struct_size st def = Inr n"
  obtains sas e al where
    "map (\<lambda>f. type_size_and_align st (sf_ty f)) (sd_fields def) = map Inr sas"
    "lay_fields 0 1 sas = (e, al)" "n = align_up e al"
proof -
  obtain sas where sas: "map (\<lambda>f. type_size_and_align st (sf_ty f)) (sd_fields def) = map Inr sas"
    and n: "(let (offset, max_align) = lay_fields 0 1 sas in Inr (align_up offset max_align)) = (Inr n :: lay_error + nat)"
    using assms by (auto simp: get_struct_size_def seq_res_Inr)
  obtain e al where lf: "lay_fields 0 1 sas = (e, al)" by fastforce
  with n have "n = align_up e al" by simp
  with sas lf show ?thesis by (rule that)
qed

section \<open>Scalars end\<close>

text \<open>A rank that value structs go down in their fields: no value struct contains itself.\<close>

fun value_structs_in :: "ty \<Rightarrow> string set" where
  "value_structs_in (TStruct n) = {n}"
| "value_structs_in (TResult a b) = value_structs_in a \<union> value_structs_in b"
| "value_structs_in _ = {}"

definition holds_below :: "structs \<Rightarrow> (string \<Rightarrow> nat) \<Rightarrow> bool" where
  "holds_below st rank \<longleftrightarrow>
     (\<forall>n def f m. get_struct st n = Some def \<longrightarrow> sd_is_value def \<longrightarrow> f \<in> set (sd_fields def)
        \<longrightarrow> m \<in> value_structs_in (sf_ty f) \<longrightarrow> is_value_struct st m \<longrightarrow> rank m < rank n)"

lemma scalars_n_total:
  assumes "holds_below st rank"
  shows "\<forall>m \<in> value_structs_in t. is_value_struct st m \<longrightarrow> rank m < d
    \<Longrightarrow> \<exists>ts. scalars_n d st t = Inr ts"
  using assms
proof (induction d st t rule: scalars_n.induct)
  case (1 d st t)
  show ?case
  proof (cases t)
    case (TStruct n)
    show ?thesis
    proof (cases "is_value_struct st n")
      case False
      with TStruct show ?thesis
        by (auto simp: scalars_n_struct is_value_struct_def split: option.splits)
    next
      case True
      then obtain def where def: "get_struct st n = Some def" "sd_is_value def"
        by (auto simp: is_value_struct_def split: option.splits)
      from "1.prems"(1) TStruct True obtain d' where d: "d = Suc d'" "rank n \<le> d'"
        by (cases d) auto
      have "\<exists>ts. scalars_n d' st (sf_ty f) = Inr ts" if f: "f \<in> set (sd_fields def)" for f
      proof -
        have "\<forall>m \<in> value_structs_in (sf_ty f). is_value_struct st m \<longrightarrow> rank m < d'"
          using "1.prems"(2) def f d(2) unfolding holds_below_def by (meson less_le_trans)
        with "1.IH"(1) [OF TStruct def(1,2) d(1) f] "1.prems"(2) show ?thesis by blast
      qed
      then obtain g where "\<forall>f \<in> set (sd_fields def). scalars_n d' st (sf_ty f) = Inr (g f)"
        by metis
      then have "map (\<lambda>f. scalars_n d' st (sf_ty f)) (sd_fields def) = map Inr (map g (sd_fields def))"
        by simp
      then have "seq_res (map (\<lambda>f. scalars_n d' st (sf_ty f)) (sd_fields def)) = Inr (map g (sd_fields def))"
        by (simp only: seq_res_Inr)
      with TStruct def d(1) show ?thesis by (simp add: scalars_n_struct)
    qed
  next
    case (TResult a b)
    obtain sa sb where "scalars_n d st a = Inr sa" "scalars_n d st b = Inr sb"
      using "1.IH"(2,3) [OF TResult] "1.prems" TResult by auto
    with TResult show ?thesis by (simp add: scalars_n_result Let_def)
  qed auto
qed

end
