(* ===== verification/Floats.thy ===== *)
theory Floats
  imports Prelude
begin

text \<open>
  The \<^verbatim>\<open>f64\<close> and \<^verbatim>\<open>f32\<close> operations of the VM (\<^verbatim>\<open>src/vm.rs\<close> uses Rust's \<^verbatim>\<open>+ - * /\<close>,
  comparisons, \<^verbatim>\<open>sqrt\<close>, \<^verbatim>\<open>trunc\<close> and \<^verbatim>\<open>as\<close>), which are IEEE 754's, rounding to nearest
  with ties to even. A float is its bit pattern; an operation decodes its operands to an exact
  value \<open>m * 2 ^ e\<close>, computes exactly, and rounds once. A result that is not a number is the
  canonical quiet NaN (Rust leaves the payload open).
\<close>

section \<open>Formats, decoding and rounding\<close>

record float_fmt =
  ff_frac :: nat
  ff_exp :: nat

definition fmt64 :: float_fmt where
  "fmt64 = \<lparr>ff_frac = 52, ff_exp = 11\<rparr>"

definition fmt32 :: float_fmt where
  "fmt32 = \<lparr>ff_frac = 23, ff_exp = 8\<rparr>"

datatype fnum = NaN | Infty bool | Finite bool nat int

text \<open>The exponent of the last place of the smallest numbers: \<open>-1074\<close> for f64, \<open>-149\<close> for f32.\<close>

definition ff_emin :: "float_fmt \<Rightarrow> int" where
  "ff_emin f = 2 - 2 ^ (ff_exp f - 1) - int (ff_frac f)"

definition inf_bits :: "float_fmt \<Rightarrow> nat" where
  "inf_bits f = (2 ^ ff_exp f - 1) * 2 ^ ff_frac f"

definition nan_bits :: "float_fmt \<Rightarrow> nat" where
  "nan_bits f = inf_bits f + 2 ^ (ff_frac f - 1)"

definition sign_bits :: "float_fmt \<Rightarrow> bool \<Rightarrow> nat" where
  "sign_bits f s = (if s then 2 ^ (ff_frac f + ff_exp f) else 0)"

definition decode :: "float_fmt \<Rightarrow> nat \<Rightarrow> fnum" where
  "decode f b =
     (let s = odd (b div 2 ^ (ff_frac f + ff_exp f));
          e = b div 2 ^ ff_frac f mod 2 ^ ff_exp f;
          m = b mod 2 ^ ff_frac f
      in if e = 2 ^ ff_exp f - 1 then (if m = 0 then Infty s else NaN)
         else if e = 0 then Finite s m (ff_emin f)
         else Finite s (2 ^ ff_frac f + m) (ff_emin f + int e - 1))"

fun bit_len :: "nat \<Rightarrow> nat" where
  "bit_len n = (if n = 0 then 0 else Suc (bit_len (n div 2)))"

declare bit_len.simps [simp del]

text \<open>\<open>m div 2 ^ d\<close>, rounded to nearest, ties to even; \<open>sticky\<close> says that the exact value is a little more than \<open>m\<close>.\<close>

definition round_shift :: "nat \<Rightarrow> nat \<Rightarrow> bool \<Rightarrow> nat" where
  "round_shift m d sticky =
     (let q = m div 2 ^ d; r = m mod 2 ^ d; half = 2 ^ (d - 1)
      in if d = 0 then m
         else if half < r \<or> r = half \<and> (sticky \<or> odd q) then q + 1 else q)"

definition round_bits :: "float_fmt \<Rightarrow> bool \<Rightarrow> nat \<Rightarrow> int \<Rightarrow> bool \<Rightarrow> nat" where
  "round_bits f s m e sticky =
     (let top = max (e + int (bit_len m) - int (ff_frac f + 1)) (ff_emin f);
          q = (if top \<le> e then m * 2 ^ nat (e - top) else round_shift m (nat (top - e)) sticky);
          b = nat (top - ff_emin f) * 2 ^ ff_frac f + q
      in sign_bits f s + (if m = 0 then 0 else min b (inf_bits f)))"

section \<open>The operations\<close>

definition signed :: "bool \<Rightarrow> nat \<Rightarrow> int" where
  "signed s m = (if s then - int m else int m)"

definition encode_inf :: "float_fmt \<Rightarrow> bool \<Rightarrow> nat" where
  "encode_inf f s = sign_bits f s + inf_bits f"

fun f_add_num :: "float_fmt \<Rightarrow> fnum \<Rightarrow> fnum \<Rightarrow> nat" where
  "f_add_num f NaN y = nan_bits f"
| "f_add_num f x NaN = nan_bits f"
| "f_add_num f (Infty s) (Infty t) = (if s = t then encode_inf f s else nan_bits f)"
| "f_add_num f (Infty s) (Finite _ _ _) = encode_inf f s"
| "f_add_num f (Finite _ _ _) (Infty t) = encode_inf f t"
| "f_add_num f (Finite s m e) (Finite t n k) =
     (let low = min e k;
          v = signed s (m * 2 ^ nat (e - low)) + signed t (n * 2 ^ nat (k - low))
      in if v = 0 then sign_bits f (s \<and> t) else round_bits f (v < 0) (nat \<bar>v\<bar>) low False)"

fun f_neg_num :: "fnum \<Rightarrow> fnum" where
  "f_neg_num NaN = NaN"
| "f_neg_num (Infty s) = Infty (\<not> s)"
| "f_neg_num (Finite s m e) = Finite (\<not> s) m e"

fun f_mul_num :: "float_fmt \<Rightarrow> fnum \<Rightarrow> fnum \<Rightarrow> nat" where
  "f_mul_num f NaN y = nan_bits f"
| "f_mul_num f x NaN = nan_bits f"
| "f_mul_num f (Infty s) (Infty t) = encode_inf f (s \<noteq> t)"
| "f_mul_num f (Infty s) (Finite t n k) = (if n = 0 then nan_bits f else encode_inf f (s \<noteq> t))"
| "f_mul_num f (Finite s m e) (Infty t) = (if m = 0 then nan_bits f else encode_inf f (s \<noteq> t))"
| "f_mul_num f (Finite s m e) (Finite t n k) = round_bits f (s \<noteq> t) (m * n) (e + k) False"

fun f_div_num :: "float_fmt \<Rightarrow> fnum \<Rightarrow> fnum \<Rightarrow> nat" where
  "f_div_num f NaN y = nan_bits f"
| "f_div_num f x NaN = nan_bits f"
| "f_div_num f (Infty s) (Infty t) = nan_bits f"
| "f_div_num f (Infty s) (Finite t n k) = encode_inf f (s \<noteq> t)"
| "f_div_num f (Finite s m e) (Infty t) = sign_bits f (s \<noteq> t)"
| "f_div_num f (Finite s m e) (Finite t n k) =
     (if n = 0 then (if m = 0 then nan_bits f else encode_inf f (s \<noteq> t))
      else let sh = ff_frac f + 3 + bit_len n; a = m * 2 ^ sh
           in round_bits f (s \<noteq> t) (a div n) (e - k - int sh) (a mod n \<noteq> 0))"

fun isqrt :: "nat \<Rightarrow> nat" where
  "isqrt n =
     (if n = 0 then 0
      else let r = 2 * isqrt (n div 4) in if (r + 1) * (r + 1) \<le> n then r + 1 else r)"

declare isqrt.simps [simp del]

fun f_sqrt_num :: "float_fmt \<Rightarrow> fnum \<Rightarrow> nat" where
  "f_sqrt_num f NaN = nan_bits f"
| "f_sqrt_num f (Infty s) = (if s then nan_bits f else encode_inf f False)"
| "f_sqrt_num f (Finite s m e) =
     (if m = 0 then sign_bits f s
      else if s then nan_bits f
      else let sh = 2 * (ff_frac f + 3) + (if even e then 0 else 1); a = m * 2 ^ sh; r = isqrt a
           in round_bits f False r ((e - int sh) div 2) (r * r \<noteq> a))"

text \<open>Comparisons: \<open>None\<close> when an operand is NaN (\<^verbatim>\<open>partial_cmp\<close>).\<close>

fun f_cmp_num :: "fnum \<Rightarrow> fnum \<Rightarrow> int option" where
  "f_cmp_num NaN y = None"
| "f_cmp_num x NaN = None"
| "f_cmp_num (Infty s) (Infty t) = Some (if s = t then 0 else if s then -1 else 1)"
| "f_cmp_num (Infty s) (Finite _ _ _) = Some (if s then -1 else 1)"
| "f_cmp_num (Finite _ _ _) (Infty t) = Some (if t then 1 else -1)"
| "f_cmp_num (Finite s m e) (Finite t n k) =
     (let low = min e k
      in Some (sgn (signed s (m * 2 ^ nat (e - low)) - signed t (n * 2 ^ nat (k - low)))))"

text \<open>Truncation toward zero: the integer part of a finite value.\<close>

definition trunc_num :: "bool \<Rightarrow> nat \<Rightarrow> int \<Rightarrow> int" where
  "trunc_num s m e = signed s (if 0 \<le> e then m * 2 ^ nat e else m div 2 ^ nat (- e))"

definition convert_num :: "float_fmt \<Rightarrow> fnum \<Rightarrow> nat" where
  "convert_num f x =
     (case x of NaN \<Rightarrow> nan_bits f | Infty s \<Rightarrow> encode_inf f s | Finite s m e \<Rightarrow> round_bits f s m e False)"

definition int_to_bits :: "float_fmt \<Rightarrow> int \<Rightarrow> nat" where
  "int_to_bits f i = round_bits f (i < 0) (nat \<bar>i\<bar>) 0 False"

definition num64 :: "f64 \<Rightarrow> fnum" where "num64 x = decode fmt64 (unat x)"
definition num32 :: "f32 \<Rightarrow> fnum" where "num32 x = decode fmt32 (unat x)"

definition f64_add :: "f64 \<Rightarrow> f64 \<Rightarrow> f64" where
  "f64_add x y = word_of_nat (f_add_num fmt64 (num64 x) (num64 y))"
definition f64_sub :: "f64 \<Rightarrow> f64 \<Rightarrow> f64" where
  "f64_sub x y = word_of_nat (f_add_num fmt64 (num64 x) (f_neg_num (num64 y)))"
definition f64_mul :: "f64 \<Rightarrow> f64 \<Rightarrow> f64" where
  "f64_mul x y = word_of_nat (f_mul_num fmt64 (num64 x) (num64 y))"
definition f64_div :: "f64 \<Rightarrow> f64 \<Rightarrow> f64" where
  "f64_div x y = word_of_nat (f_div_num fmt64 (num64 x) (num64 y))"
definition f64_sqrt :: "f64 \<Rightarrow> f64" where
  "f64_sqrt x = word_of_nat (f_sqrt_num fmt64 (num64 x))"
definition f64_cmp :: "f64 \<Rightarrow> f64 \<Rightarrow> int option" where
  "f64_cmp x y = f_cmp_num (num64 x) (num64 y)"
definition f64_of_int :: "int \<Rightarrow> f64" where
  "f64_of_int i = word_of_nat (int_to_bits fmt64 i)"
definition f32_add :: "f32 \<Rightarrow> f32 \<Rightarrow> f32" where
  "f32_add x y = word_of_nat (f_add_num fmt32 (num32 x) (num32 y))"
definition f32_sub :: "f32 \<Rightarrow> f32 \<Rightarrow> f32" where
  "f32_sub x y = word_of_nat (f_add_num fmt32 (num32 x) (f_neg_num (num32 y)))"
definition f32_mul :: "f32 \<Rightarrow> f32 \<Rightarrow> f32" where
  "f32_mul x y = word_of_nat (f_mul_num fmt32 (num32 x) (num32 y))"
definition f32_div :: "f32 \<Rightarrow> f32 \<Rightarrow> f32" where
  "f32_div x y = word_of_nat (f_div_num fmt32 (num32 x) (num32 y))"
definition f32_cmp :: "f32 \<Rightarrow> f32 \<Rightarrow> int option" where
  "f32_cmp x y = f_cmp_num (num32 x) (num32 y)"
definition f32_of_int :: "int \<Rightarrow> f32" where
  "f32_of_int i = word_of_nat (int_to_bits fmt32 i)"
definition f32_of_f64 :: "f64 \<Rightarrow> f32" where
  "f32_of_f64 x = word_of_nat (convert_num fmt32 (num64 x))"
definition f64_of_f32 :: "f32 \<Rightarrow> f64" where
  "f64_of_f32 x = word_of_nat (convert_num fmt64 (num32 x))"

end
