(* ===== verification/Values.thy ===== *)
theory Values
  imports Layout_Facts Floats
begin

text \<open>
  The values of the VM (\<^verbatim>\<open>Value\<close> of \<^verbatim>\<open>src/vm.rs\<close>), its errors, value equality, and the passage
  between a value and its scalars (\<^verbatim>\<open>to_scalars\<close>, \<^verbatim>\<open>from_scalars\<close>), which is how a union,
  a result or a value struct is stored in its slots.
\<close>

section \<open>Values\<close>

datatype (plugins only: size code) "value" =
    VInt i64
  | VInt64 i64
  | VFloat f64
  | VFloat32 f32
  | VBool bool
  | VStr string
  | VRecord "value list"
  | VUnion nat "value list"
  | VOk "value"
  | VErr "value"
  | VVoid

text \<open>\<^verbatim>\<open>i as i32\<close> of an \<open>i64\<close> payload, and \<^verbatim>\<open>x as i64\<close> of an \<open>i32\<close>.\<close>

definition as_i32 :: "i64 \<Rightarrow> i32" where
  "as_i32 w = ucast w"

definition of_i32 :: "i32 \<Rightarrow> i64" where
  "of_i32 w = scast w"

abbreviation int32 :: "i32 \<Rightarrow> value" where
  "int32 w \<equiv> VInt (of_i32 w)"

lemma as_of_i32 [simp]: "as_i32 (of_i32 w) = w"
  unfolding as_i32_def of_i32_def by (rule bit_word_eqI) (auto simp: bit_simps)

text \<open>\<^verbatim>\<open>i as usize\<close> of an \<open>i64\<close>: its 64 bits read as a natural; \<^verbatim>\<open>i as u32 as usize\<close>: its low 32 bits.\<close>

definition as_usize :: "i64 \<Rightarrow> nat" where
  "as_usize w = unat w"

definition as_u32 :: "i64 \<Rightarrow> nat" where
  "as_u32 w = unat (ucast w :: u32)"

text \<open>
  No \<open>Int\<close> is ever wider than 32 bits (the comment on \<^verbatim>\<open>Value::Int\<close>): its payload is the
  sign extension of its low half.
\<close>

definition narrow32 :: "i64 \<Rightarrow> bool" where
  "narrow32 w \<longleftrightarrow> of_i32 (as_i32 w) = w"

lemma narrow32_of_i32 [simp, canon_simps]: "narrow32 (of_i32 w)"
  by (simp add: narrow32_def)

fun canonical :: "value \<Rightarrow> bool" where
  "canonical (VInt w) = narrow32 w"
| "canonical (VRecord vs) = (\<forall>v \<in> set vs. canonical v)"
| "canonical (VUnion t vs) = (\<forall>v \<in> set vs. canonical v)"
| "canonical (VOk v) = canonical v"
| "canonical (VErr v) = canonical v"
| "canonical _ = True"

lemma sint_of_i32 [simp]: "sint (of_i32 w) = sint w"
proof -
  have "- (2 ^ 63) \<le> sint w" "sint w < 2 ^ 63"
    using sint_greater_eq [of w] sint_less [of w] by simp_all
  then show ?thesis
    unfolding of_i32_def by (simp add: signed_scast_eq signed_take_bit_int_eq_self)
qed

lemma sint_as_i32: "sint (as_i32 w) = signed_take_bit 31 (sint w)"
  by (simp add: as_i32_def signed_ucast_eq sint_uint [of w])

lemma narrow32_iff: "narrow32 w \<longleftrightarrow> - (2 ^ 31) \<le> sint w \<and> sint w < 2 ^ 31"
proof -
  have "narrow32 w \<longleftrightarrow> sint (of_i32 (as_i32 w)) = sint w"
    unfolding narrow32_def by (metis signed_word_eqI)
  then show ?thesis by (simp add: sint_as_i32 signed_take_bit_int_eq_self_iff)
qed

text \<open>Equality as Rust derives it: structural, with the floats' own equality at the leaves (a NaN is not equal to itself).\<close>

fun value_eq :: "value \<Rightarrow> value \<Rightarrow> bool" where
  "value_eq (VInt a) w = (case w of VInt b \<Rightarrow> a = b | _ \<Rightarrow> False)"
| "value_eq (VInt64 a) w = (case w of VInt64 b \<Rightarrow> a = b | _ \<Rightarrow> False)"
| "value_eq (VFloat a) w = (case w of VFloat b \<Rightarrow> f64_cmp a b = Some 0 | _ \<Rightarrow> False)"
| "value_eq (VFloat32 a) w = (case w of VFloat32 b \<Rightarrow> f32_cmp a b = Some 0 | _ \<Rightarrow> False)"
| "value_eq (VBool a) w = (case w of VBool b \<Rightarrow> a = b | _ \<Rightarrow> False)"
| "value_eq (VStr a) w = (case w of VStr b \<Rightarrow> a = b | _ \<Rightarrow> False)"
| "value_eq (VRecord a) w = (case w of VRecord b \<Rightarrow> list_all2 value_eq a b | _ \<Rightarrow> False)"
| "value_eq (VUnion s a) w = (case w of VUnion t b \<Rightarrow> s = t \<and> list_all2 value_eq a b | _ \<Rightarrow> False)"
| "value_eq (VOk a) w = (case w of VOk b \<Rightarrow> value_eq a b | _ \<Rightarrow> False)"
| "value_eq (VErr a) w = (case w of VErr b \<Rightarrow> value_eq a b | _ \<Rightarrow> False)"
| "value_eq VVoid w = (w = VVoid)"

section \<open>Errors\<close>

datatype contract_kind = PreCondition | EntryInvariant | PostCondition | ExitInvariant

text \<open>
  The ways an operation of the VM fails. \<open>EPanic\<close> is a Rust panic (an index out of range) and
  \<open>ELayout\<close> carries the layout code's own failure; every other one is an \<^verbatim>\<open>Err\<close> of the source.
\<close>

datatype (plugins only: size code) vm_error =
    EPanic
  | ELayout lay_error
  | EScalars ty
  | EUnsupported ty
  | EStoreValue ty "value"
  | ELoadBounds nat
  | EStoreBounds nat
  | EStrPointer nat nat
  | ENullPointer
  | EUseAfterFree
  | EPointer "value"
  | EHeapCursor nat
  | EReserved nat
  | ELiterals nat
  | EOutOfMemory nat
  | EStrMemory string
  | EArray nat
  | EIndex i64 i64
  | EDivZero
  | EOverflow opcode
  | EOperands opcode
  | EOperand "value"
  | ENotInScope string
  | ESetUndefined string
  | ECondition
  | ELoopInt
  | EUnknown string
  | EArity string nat nat
  | EStack string
  | EContract contract_kind string expr "(string \<times> value) list"
  | EMatched "value"
  | EUnreachable
  | EFnRef i64
  | EUnresolved opcode
  | EAbort string
  | ENanConversion opcode
  | EExit i32
  | EUnaligned nat
  | ELockState nat i32
  | EHost string

definition is_panic :: "vm_error \<Rightarrow> bool" where
  "is_panic e = (case e of EPanic \<Rightarrow> True | ELayout LayOverflow \<Rightarrow> True | ELayout LayFuel \<Rightarrow> True | _ \<Rightarrow> False)"

definition lift_lay :: "lay_error + 'a \<Rightarrow> vm_error + 'a" where
  "lift_lay r = (case r of Inl e \<Rightarrow> Inl (ELayout e) | Inr x \<Rightarrow> Inr x)"

lemma lift_lay_simps [simp]: "lift_lay (Inl e) = Inl (ELayout e)" "lift_lay (Inr x) = Inr x"
  by (simp_all add: lift_lay_def)

lemma lift_lay_Inr_iff [simp]: "lift_lay r = Inr x \<longleftrightarrow> r = Inr x"
  by (auto simp: lift_lay_def split: sum.splits)

section \<open>Scalars\<close>

definition zero_of :: "ty \<Rightarrow> value" where
  "zero_of t = (case t of TI64 \<Rightarrow> VInt64 0 | TF32 \<Rightarrow> VFloat32 0 | TF64 \<Rightarrow> VFloat 0 | _ \<Rightarrow> VInt 0)"

text \<open>\<^verbatim>\<open>v[i]\<close>, and \<^verbatim>\<open>v[i] = x\<close>: out of range is a panic.\<close>

definition at :: "'a list \<Rightarrow> nat \<Rightarrow> vm_error + 'a" where
  "at xs i = ok_or (nth_opt xs i) EPanic"

definition put_at :: "'a list \<Rightarrow> nat \<Rightarrow> 'a \<Rightarrow> vm_error + 'a list" where
  "put_at xs i x = (if i < length xs then Inr (xs[i := x]) else Inl EPanic)"

fun put_slots :: "value list \<Rightarrow> nat list \<Rightarrow> value list \<Rightarrow> vm_error + value list" where
  "put_slots out (slot # slots) (x # xs) = bind_res (put_at out slot x) (\<lambda>out. put_slots out slots xs)"
| "put_slots out _ _ = Inr out"

definition sum_slots :: "slot_layout \<Rightarrow> nat \<Rightarrow> value list \<Rightarrow> vm_error + value list" where
  "sum_slots l tag inner =
     bind_res (put_at (map zero_of (sl_slots l)) 0 (int32 (word_of_nat tag))) (\<lambda>out.
     bind_res (at (sl_variants l) tag) (\<lambda>slots. put_slots out slots inner))"

fun to_scalars :: "structs \<Rightarrow> ty \<Rightarrow> value \<Rightarrow> vm_error + value list"
and fields_to_scalars :: "structs \<Rightarrow> struct_field list \<Rightarrow> value list \<Rightarrow> vm_error + value list" where
  "to_scalars st ty (VRecord vs) =
     (case ty of
        TStruct n \<Rightarrow>
          (case get_struct st n of
             Some d \<Rightarrow> if sd_is_value d then fields_to_scalars st (sd_fields d) vs else Inl (EScalars ty)
           | None \<Rightarrow> Inl (EScalars ty))
      | TUnion _ \<Rightarrow> Inl (EScalars ty)
      | _ \<Rightarrow> Inr [VRecord vs])"
| "to_scalars st ty (VUnion tag vs) =
     (case ty of
        TUnion n \<Rightarrow>
          (case map_of (st_by_value st) n of
             Some l \<Rightarrow>
               bind_res (ok_or (get_union st n) EPanic) (\<lambda>u.
               bind_res (at (ud_variants u) tag) (\<lambda>vr.
               bind_res (fields_to_scalars st (vr_fields vr) vs) (sum_slots l tag)))
           | None \<Rightarrow> Inl (EScalars ty))
      | TStruct _ \<Rightarrow> Inl (EScalars ty)
      | _ \<Rightarrow> Inr [VUnion tag vs])"
| "to_scalars st ty (VOk v) =
     (case ty of
        TResult a b \<Rightarrow> bind_res (lift_lay (result_layout st a b)) (\<lambda>l.
          (case l of Some l \<Rightarrow> bind_res (to_scalars st a v) (sum_slots l 0) | None \<Rightarrow> Inr [VOk v]))
      | _ \<Rightarrow> Inr [VOk v])"
| "to_scalars st ty (VErr v) =
     (case ty of
        TResult a b \<Rightarrow> bind_res (lift_lay (result_layout st a b)) (\<lambda>l.
          (case l of Some l \<Rightarrow> bind_res (to_scalars st b v) (sum_slots l 1) | None \<Rightarrow> Inr [VErr v]))
      | _ \<Rightarrow> Inr [VErr v])"
| "to_scalars st ty v = Inr [v]"
| "fields_to_scalars st (f # fs) (v # vs) =
     bind_res (to_scalars st (sf_ty f) v) (\<lambda>xs.
     bind_res (fields_to_scalars st fs vs) (\<lambda>ys. Inr (xs @ ys)))"
| "fields_to_scalars st _ _ = Inr []"

text \<open>
  The value whose scalars are given. The recursion goes through the declarations of value
  structs and value unions; \<open>d\<close> bounds its depth (\<open>from_fuel\<close>).
\<close>

definition slice_res :: "'a list \<Rightarrow> nat \<Rightarrow> nat \<Rightarrow> vm_error + 'a list" where
  "slice_res xs a n = (if a + n \<le> length xs then Inr (slice_at xs a n) else Inl EPanic)"

definition tag_of :: "value list \<Rightarrow> vm_error + nat" where
  "tag_of s = bind_res (at s 0) (\<lambda>v. Inr (case v of VInt t \<Rightarrow> as_usize t | _ \<Rightarrow> 0))"

fun fields_from :: "(ty \<Rightarrow> value list \<Rightarrow> vm_error + value) \<Rightarrow> structs \<Rightarrow> value list \<Rightarrow> nat
    \<Rightarrow> struct_field list \<Rightarrow> vm_error + value list" where
  "fields_from build st s pos [] = Inr []"
| "fields_from build st s pos (f # fs) =
     bind_res (lift_lay (scalars st (sf_ty f))) (\<lambda>ks.
     bind_res (slice_res s pos (length ks)) (\<lambda>mine.
     bind_res (build (sf_ty f) mine) (\<lambda>v.
     bind_res (fields_from build st s (pos + length ks) fs) (\<lambda>vs. Inr (v # vs)))))"

definition pick_slots :: "value list \<Rightarrow> nat list \<Rightarrow> vm_error + value list" where
  "pick_slots s slots = seq_res (map (at s) slots)"

fun from_scalars_n :: "nat \<Rightarrow> structs \<Rightarrow> ty \<Rightarrow> value list \<Rightarrow> vm_error + value" where
  "from_scalars_n 0 st ty s = Inl (ELayout LayFuel)"
| "from_scalars_n (Suc d) st ty s =
     (case ty of
        TStruct n \<Rightarrow>
          (case get_struct st n of
             Some def \<Rightarrow>
               if sd_is_value def
               then bind_res (fields_from (from_scalars_n d st) st s 0 (sd_fields def)) (\<lambda>vs. Inr (VRecord vs))
               else at s 0
           | None \<Rightarrow> at s 0)
      | TUnion n \<Rightarrow>
          (case map_of (st_by_value st) n of
             Some l \<Rightarrow>
               bind_res (tag_of s) (\<lambda>tag.
               bind_res (ok_or (get_union st n) EPanic) (\<lambda>u.
               bind_res (at (ud_variants u) tag) (\<lambda>vr.
               bind_res (at (sl_variants l) tag) (\<lambda>slots.
               bind_res (pick_slots s slots) (\<lambda>mine.
               bind_res (fields_from (from_scalars_n d st) st mine 0 (vr_fields vr)) (\<lambda>vs.
               Inr (VUnion tag vs)))))))
           | None \<Rightarrow> at s 0)
      | TResult a b \<Rightarrow>
          bind_res (lift_lay (result_layout st a b)) (\<lambda>l.
            (case l of
               Some l \<Rightarrow>
                 bind_res (tag_of s) (\<lambda>tag.
                 bind_res (at (sl_variants l) tag) (\<lambda>slots.
                 bind_res (pick_slots s slots) (\<lambda>mine.
                 bind_res (from_scalars_n d st (if tag = 0 then a else b) mine) (\<lambda>x.
                 Inr (if tag = 0 then VOk x else VErr x)))))
             | None \<Rightarrow> at s 0))
      | TBool \<Rightarrow>
          bind_res (at s 0) (\<lambda>v. Inr (case v of VInt i \<Rightarrow> VBool (as_i32 i \<noteq> 0) | other \<Rightarrow> other))
      | _ \<Rightarrow> at s 0)"

text \<open>How deep types nest in results, value structs and value unions.\<close>

fun result_depth :: "ty \<Rightarrow> nat" where
  "result_depth (TResult a b) = Suc (max (result_depth a) (result_depth b))"
| "result_depth _ = 1"

definition decl_depth :: "structs \<Rightarrow> nat" where
  "decl_depth st =
     foldr max (map (\<lambda>(n, d). foldr max (map (\<lambda>f. result_depth (sf_ty f)) (sd_fields d)) 1) (st_defs st)
       @ map (\<lambda>(n, u). foldr max (map (\<lambda>f. result_depth (sf_ty f)) (concat (map vr_fields (ud_variants u)))) 1)
           (st_unions st)) 1"

definition from_fuel :: "structs \<Rightarrow> ty \<Rightarrow> nat" where
  "from_fuel st t = result_depth t + (length (st_defs st) + length (st_unions st)) * decl_depth st"

definition from_scalars :: "structs \<Rightarrow> ty \<Rightarrow> value list \<Rightarrow> vm_error + value" where
  "from_scalars st t s = from_scalars_n (from_fuel st t) st t s"

end
