(* ===== verification/Utf8.thy ===== *)
theory Utf8
  imports Prelude
begin

text \<open>
  UTF-8 as Rust's \<^verbatim>\<open>String::from_utf8_lossy\<close> and \<^verbatim>\<open>str::from_utf8\<close> read bytes, which the VM
  uses on linear memory (\<^verbatim>\<open>load_val_at\<close>, \<^verbatim>\<open>fs.*\<close> paths). A string of the model is its list of
  bytes, one \<open>char\<close> per byte.
\<close>

definition string_bytes :: "string \<Rightarrow> u8 list" where
  "string_bytes s = map of_char s"

definition bytes_string :: "u8 list \<Rightarrow> string" where
  "bytes_string bs = map (\<lambda>b. char_of (unat b)) bs"

lemma length_string_bytes [simp]: "length (string_bytes s) = length s"
  by (simp add: string_bytes_def)

lemma bytes_string_bytes [simp]: "bytes_string (string_bytes s) = s"
proof -
  have "char_of (unat (of_char c :: 8 word)) = c" for c
  proof -
    have "of_char c \<in> {0 :: nat ..< 256}"
      using range_nat_of_char by blast
    then have "unat (word_of_nat (of_char c) :: 8 word) = of_char c"
      by (simp add: unsigned_of_nat take_bit_nat_eq_self)
    then show ?thesis by (simp add: of_nat_of_char)
  qed
  then show ?thesis by (simp add: bytes_string_def string_bytes_def comp_def map_idI)
qed

section \<open>One character\<close>

definition utf8_cont :: "u8 \<Rightarrow> bool" where
  "utf8_cont b \<longleftrightarrow> 0x80 \<le> b \<and> b \<le> 0xBF"

definition utf8_len :: "u8 \<Rightarrow> nat" where
  "utf8_len b =
     (if b < 0x80 then 1 else if b < 0xC2 then 0 else if b < 0xE0 then 2
      else if b < 0xF0 then 3 else if b < 0xF5 then 4 else 0)"

definition utf8_second :: "u8 \<Rightarrow> u8 \<Rightarrow> bool" where
  "utf8_second a b =
     (if a = 0xE0 then 0xA0 \<le> b \<and> b \<le> 0xBF
      else if a = 0xED then 0x80 \<le> b \<and> b \<le> 0x9F
      else if a = 0xF0 then 0x90 \<le> b \<and> b \<le> 0xBF
      else if a = 0xF4 then 0x80 \<le> b \<and> b \<le> 0x8F
      else utf8_cont b)"

text \<open>Whether the bytes start with a character, and how many bytes it, or the longest prefix of one, has.\<close>

fun utf8_char :: "u8 list \<Rightarrow> bool \<times> nat" where
  "utf8_char [] = (False, 1)"
| "utf8_char (a # bs) =
     (if utf8_len a = 0 then (False, 1)
      else if utf8_len a = 1 then (True, 1)
      else (case bs of
             [] \<Rightarrow> (False, 1)
           | b # cs \<Rightarrow>
               if \<not> utf8_second a b then (False, 1)
               else if utf8_len a = 2 then (True, 2)
               else (case cs of
                      [] \<Rightarrow> (False, 2)
                    | c # ds \<Rightarrow>
                        if \<not> utf8_cont c then (False, 2)
                        else if utf8_len a = 3 then (True, 3)
                        else (case ds of
                               [] \<Rightarrow> (False, 3)
                             | d # _ \<Rightarrow> if utf8_cont d then (True, 4) else (False, 3)))))"

lemma utf8_char_pos: "0 < snd (utf8_char bs)"
  by (induction bs rule: utf8_char.induct) (simp_all split: list.split)

lemma utf8_char_le: "bs \<noteq> [] \<Longrightarrow> snd (utf8_char bs) \<le> length bs"
  by (induction bs rule: utf8_char.induct) (simp_all split: list.split)

lemma utf8_char_append: "fst (utf8_char bs) \<Longrightarrow> utf8_char (bs @ cs) = utf8_char bs"
  by (induction bs rule: utf8_char.induct) (auto split: list.splits if_splits)

lemma utf8_char_take: "fst (utf8_char bs) \<Longrightarrow> utf8_char (take (snd (utf8_char bs)) bs) = utf8_char bs"
  by (induction bs rule: utf8_char.induct) (auto split: list.splits if_splits)

section \<open>Strings of bytes\<close>

definition replacement :: "u8 list" where
  "replacement = [0xEF, 0xBF, 0xBD]"

function utf8_lossy :: "u8 list \<Rightarrow> u8 list" where
  "utf8_lossy bs =
     (if bs = [] then []
      else (if fst (utf8_char bs) then take (snd (utf8_char bs)) bs else replacement)
             @ utf8_lossy (drop (snd (utf8_char bs)) bs))"
  by auto
termination
  by (relation "measure length") (use utf8_char_pos in auto)

declare utf8_lossy.simps [simp del]

function utf8_valid :: "u8 list \<Rightarrow> bool" where
  "utf8_valid bs =
     (if bs = [] then True
      else if fst (utf8_char bs) then utf8_valid (drop (snd (utf8_char bs)) bs)
      else False)"
  by auto
termination
  by (relation "measure length") (use utf8_char_pos in auto)

declare utf8_valid.simps [simp del]

lemma utf8_lossy_id: "utf8_valid bs \<Longrightarrow> utf8_lossy bs = bs"
proof (induction bs rule: utf8_valid.induct)
  case (1 bs)
  then show ?case
    by (cases "bs = []") (auto simp: utf8_lossy.simps [of bs] utf8_valid.simps [of bs] utf8_lossy.simps [of "[]"])
qed

lemma utf8_valid_step:
  assumes "fst (utf8_char bs)" "utf8_valid cs"
  shows "utf8_valid (take (snd (utf8_char bs)) bs @ cs)"
proof -
  let ?c = "take (snd (utf8_char bs)) bs"
  have ne: "bs \<noteq> []" using assms(1) by auto
  have "utf8_char (?c @ cs) = utf8_char bs"
    using utf8_char_append [of ?c cs] utf8_char_take [OF assms(1)] assms(1) by simp
  moreover have "length ?c = snd (utf8_char bs)" using utf8_char_le [OF ne] by simp
  ultimately show ?thesis
    using assms by (subst utf8_valid.simps) simp
qed

lemma utf8_valid_replacement: "utf8_valid cs \<Longrightarrow> utf8_valid (replacement @ cs)"
  using utf8_valid_step [of replacement cs]
  by (simp add: replacement_def utf8_len_def utf8_second_def utf8_cont_def)

text \<open>What \<^verbatim>\<open>from_utf8_lossy\<close> returns is always valid, and valid text is unchanged.\<close>

lemma utf8_lossy_valid: "utf8_valid (utf8_lossy bs)"
proof (induction bs rule: utf8_lossy.induct)
  case (1 bs)
  show ?case
  proof (cases "bs = []")
    case True
    then show ?thesis by (simp add: utf8_lossy.simps utf8_valid.simps)
  next
    case False
    note IH = "1.IH" [OF False]
    with False IH show ?thesis
      by (subst utf8_lossy.simps) (simp add: utf8_valid_step utf8_valid_replacement)
  qed
qed

end
