(* ===== verification/Memory.thy ===== *)
theory Memory
  imports Values Utf8
begin

text \<open>
  The VM's linear memory (\<^verbatim>\<open>SharedMemory\<close> of \<^verbatim>\<open>src/vm.rs\<close>): the bump allocator whose cursor is
  the word at address 0, the guard every store goes through, the typed loads and stores, the
  generation check of pointers, and what \<^verbatim>\<open>args.*\<close> and \<^verbatim>\<open>env.*\<close> write. An operation is a function
  of the memory that returns its result or error with the memory it leaves.
\<close>

section \<open>The memory\<close>

record mem =
  mm_bytes :: "u8 list"
  mm_max_pages :: nat

type_synonym 'a memop = "mem \<Rightarrow> (vm_error + 'a) \<times> mem"

definition page_size :: nat where "page_size = 65536"
definition initial_pages :: nat where "initial_pages = 16"
definition max_pages :: nat where "max_pages = 32768"
definition heap_ptr_addr :: nat where "heap_ptr_addr = 0"
definition heap_start_default :: nat where "heap_start_default = 1024"

definition mem_new :: mem where
  "mem_new = \<lparr>mm_bytes = splice (replicate (initial_pages * page_size) 0) heap_ptr_addr
                 (le_bytes 4 (word_of_nat heap_start_default :: u32)),
              mm_max_pages = max_pages\<rparr>"

definition set_max_pages :: "nat \<Rightarrow> mem \<Rightarrow> mem" where
  "set_max_pages pages m = m\<lparr>mm_max_pages := min pages max_pages\<rparr>"

definition mret :: "'a \<Rightarrow> 'a memop" where "mret x m = (Inr x, m)"
definition mfail :: "vm_error \<Rightarrow> 'a memop" where "mfail e m = (Inl e, m)"
definition mlift :: "vm_error + 'a \<Rightarrow> 'a memop" where "mlift r m = (r, m)"

definition mbind :: "'a memop \<Rightarrow> ('a \<Rightarrow> 'b memop) \<Rightarrow> 'b memop" where
  "mbind f g m = (case f m of (Inl e, m') \<Rightarrow> (Inl e, m') | (Inr x, m') \<Rightarrow> g x m')"

lemma mbind_cong [fundef_cong]:
  "f m = f' m \<Longrightarrow> (\<And>x m'. f' m = (Inr x, m') \<Longrightarrow> g x m' = g' x m') \<Longrightarrow> m = n \<Longrightarrow> mbind f g m = mbind f' g' n"
  by (auto simp: mbind_def split: prod.splits sum.splits)

text \<open>Whether \<open>n\<close> bytes at \<open>a\<close> are inside the memory, and the slice, which panics when they are not.\<close>

definition in_memory :: "mem \<Rightarrow> nat \<Rightarrow> nat \<Rightarrow> bool" where
  "in_memory m a n \<longleftrightarrow> a + n \<le> length (mm_bytes m)"

definition read_bytes :: "nat \<Rightarrow> nat \<Rightarrow> mem \<Rightarrow> vm_error + u8 list" where
  "read_bytes a n m = (if in_memory m a n then Inr (slice_at (mm_bytes m) a n) else Inl EPanic)"

definition write_raw :: "nat \<Rightarrow> u8 list \<Rightarrow> mem \<Rightarrow> mem" where
  "write_raw a bs m = m\<lparr>mm_bytes := splice (mm_bytes m) a bs\<rparr>"

definition write_bytes :: "nat \<Rightarrow> u8 list \<Rightarrow> unit memop" where
  "write_bytes a bs m = (if in_memory m a (length bs) then (Inr (), write_raw a bs m) else (Inl EPanic, m))"

section \<open>The guard on writes\<close>

definition check_write_address :: "nat \<Rightarrow> nat \<Rightarrow> vm_error + unit" where
  "check_write_address ptr heap_start =
     (if ptr < 4 then Inl (EHeapCursor ptr)
      else if 64 \<le> ptr \<and> ptr < 1024 then Inl (EReserved ptr)
      else if 1024 \<le> ptr \<and> ptr < heap_start then Inl (ELiterals ptr)
      else Inr ())"

lemma check_write_address_iff:
  "check_write_address ptr hs = Inr () \<longleftrightarrow> 4 \<le> ptr \<and> (ptr < 64 \<or> 1024 \<le> ptr \<and> hs \<le> ptr)"
  by (auto simp: check_write_address_def)

section \<open>The allocator\<close>

definition resize :: "nat \<Rightarrow> u8 list \<Rightarrow> u8 list" where
  "resize n bs = take n bs @ replicate (n - length bs) 0"

definition heap_cursor :: "mem \<Rightarrow> u32" where
  "heap_cursor m = of_le (slice_at (mm_bytes m) heap_ptr_addr 4)"

definition block_size :: "nat \<Rightarrow> i32" where
  "block_size n = and (word_of_nat n + 7) (- 8)"

text \<open>The pages the memory must grow by for the new cursor \<open>nxt\<close> to be inside it.\<close>

definition grow_for :: "u32 \<Rightarrow> mem \<Rightarrow> mem" where
  "grow_for nxt m =
     (let have = word_of_nat (length (mm_bytes m)) :: u32
      in if have < nxt
         then let pages = unat (drop_bit 16 (nxt - have + 65535));
                  old_pages = length (mm_bytes m) div page_size
              in if old_pages + pages \<le> mm_max_pages m
                 then m\<lparr>mm_bytes := resize ((old_pages + pages) * page_size) (mm_bytes m)\<rparr>
                 else m
         else m)"

definition alloc_bytes :: "nat \<Rightarrow> i32 memop" where
  "alloc_bytes n m =
     (if \<not> in_memory m heap_ptr_addr 4 then (Inl EPanic, m)
      else let cur = heap_cursor m; nxt = cur + block_size n
           in (Inr cur, grow_for nxt (write_raw heap_ptr_addr (le_bytes 4 nxt) m)))"

text \<open>\<^verbatim>\<open>mem.alloc\<close>: the block, or the out-of-memory error when the cursor is past the end.\<close>

definition mem_alloc :: "i64 \<Rightarrow> value memop" where
  "mem_alloc n =
     mbind (alloc_bytes (as_usize n)) (\<lambda>p m.
       if length (mm_bytes m) < unat (heap_cursor m) then (Inl (EOutOfMemory (mm_max_pages m)), m)
       else (Inr (int32 p), m))"

definition mem_grow :: "i64 \<Rightarrow> value memop" where
  "mem_grow i m =
     (let pages = sint (as_i32 i); old_pages = length (mm_bytes m) div page_size
      in if pages < 0 \<or> mm_max_pages m < old_pages + nat pages then (Inr (VInt (- 1)), m)
         else (Inr (VInt (word_of_nat old_pages)),
               m\<lparr>mm_bytes := resize ((old_pages + nat pages) * page_size) (mm_bytes m)\<rparr>))"

text \<open>The address of a string's bytes: its literal's, or a heap copy with its length before it.\<close>

definition materialize_str :: "(string \<rightharpoonup> nat) \<Rightarrow> string \<Rightarrow> nat memop" where
  "materialize_str strs s =
     (case strs s of
        Some a \<Rightarrow> mret a
      | None \<Rightarrow>
          (let bs = string_bytes s
           in mbind (alloc_bytes (4 + length bs)) (\<lambda>p m.
                let base = unat p
                in if length (mm_bytes m) < base + 4 + length bs then (Inl (EStrMemory s), m)
                   else (Inr (base + 4),
                         write_raw (base + 4) bs
                           (write_raw base (le_bytes 4 (word_of_nat (length bs) :: u32)) m)))))"

section \<open>Loads\<close>

definition load_at :: "mem \<Rightarrow> nat \<Rightarrow> nat \<Rightarrow> (u8 list \<Rightarrow> value) \<Rightarrow> vm_error + value" where
  "load_at m a n f = (if in_memory m a n then Inr (f (slice_at (mm_bytes m) a n)) else Inl (ELoadBounds a))"

definition load_narrow :: "narrow \<Rightarrow> u8 list \<Rightarrow> value" where
  "load_narrow n bs =
     (case n of
        NU8 \<Rightarrow> VInt (ucast (of_le bs :: u8))
      | NI8 \<Rightarrow> VInt (scast (of_le bs :: u8))
      | NU16 \<Rightarrow> VInt (ucast (of_le bs :: u16))
      | NI16 \<Rightarrow> VInt (scast (of_le bs :: u16)))"

definition load_str :: "mem \<Rightarrow> nat \<Rightarrow> vm_error + value" where
  "load_str m a =
     (if \<not> in_memory m a 4 then Inl (ELoadBounds a)
      else let p = unat (of_le (slice_at (mm_bytes m) a 4) :: u32)
           in if p < 4 \<or> length (mm_bytes m) < p then Inl (EStrPointer a p)
              else let len = unat (of_le (slice_at (mm_bytes m) (p - 4) 4) :: u32)
                   in if in_memory m p len
                      then Inr (VStr (bytes_string (utf8_lossy (slice_at (mm_bytes m) p len))))
                      else Inl (EStrPointer a p))"

definition load_scalar :: "mem \<Rightarrow> nat \<Rightarrow> ty \<Rightarrow> vm_error + value" where
  "load_scalar m a t =
     (case t of
        TNarrow n \<Rightarrow> load_at m a (narrow_size n) (load_narrow n)
      | TI32 \<Rightarrow> load_at m a 4 (\<lambda>bs. int32 (of_le bs))
      | TFn _ _ _ \<Rightarrow> load_at m a 4 (\<lambda>bs. int32 (of_le bs))
      | TEnum _ \<Rightarrow> load_at m a 4 (\<lambda>bs. int32 (of_le bs))
      | TUnion _ \<Rightarrow> load_at m a 4 (\<lambda>bs. int32 (of_le bs))
      | TBool \<Rightarrow> load_at m a 4 (\<lambda>bs. VBool ((of_le bs :: i32) \<noteq> 0))
      | TStr \<Rightarrow> load_str m a
      | TI64 \<Rightarrow> load_at m a 8 (\<lambda>bs. VInt64 (of_le bs))
      | TPtr _ \<Rightarrow> load_at m a 8 (\<lambda>bs. VInt64 (of_le bs))
      | TArray _ \<Rightarrow> load_at m a 8 (\<lambda>bs. VInt64 (of_le bs))
      | TF32 \<Rightarrow> load_at m a 4 (\<lambda>bs. VFloat32 (of_le bs))
      | TF64 \<Rightarrow> load_at m a 8 (\<lambda>bs. VFloat (of_le bs))
      | _ \<Rightarrow> Inl (EUnsupported t))"

definition value_struct :: "structs \<Rightarrow> ty \<Rightarrow> struct_def option" where
  "value_struct st t =
     (case t of
        TStruct n \<Rightarrow> (case get_struct st n of Some d \<Rightarrow> if sd_is_value d then Some d else None | None \<Rightarrow> None)
      | _ \<Rightarrow> None)"

text \<open>
  \<^verbatim>\<open>load_val_at\<close>: a sum's slots, read and rebuilt; a value struct's fields; else a scalar. A
  slot's type is one of the four kinds, so a slot is loaded as a scalar. The recursion is
  through value structs; \<open>d\<close> bounds it.
\<close>

definition load_slots :: "mem \<Rightarrow> nat \<Rightarrow> slot_layout \<Rightarrow> vm_error + value list" where
  "load_slots m a l = seq_res (map (\<lambda>(t, off). load_scalar m (a + off) t) (zip (sl_slots l) (sl_offsets l)))"

fun load_val_n :: "nat \<Rightarrow> structs \<Rightarrow> mem \<Rightarrow> nat \<Rightarrow> ty \<Rightarrow> vm_error + value" where
  "load_val_n 0 st m a t = Inl (ELayout LayFuel)"
| "load_val_n (Suc d) st m a t =
     bind_res (lift_lay (sum_of st t)) (\<lambda>s.
       (case s of
          Some l \<Rightarrow> bind_res (load_slots m a l) (from_scalars st t)
        | None \<Rightarrow>
            (case value_struct st t of
               Some def \<Rightarrow>
                 bind_res
                   (seq_res (map (\<lambda>f.
                      bind_res (lift_lay (get_field_offset st def (sf_name f))) (\<lambda>(off, ft).
                        load_val_n d st m (a + off) ft)) (sd_fields def)))
                   (\<lambda>vs. Inr (VRecord vs))
             | None \<Rightarrow> load_scalar m a t)))"

definition load_fuel :: "structs \<Rightarrow> nat" where
  "load_fuel st = Suc (length (st_defs st))"

definition load_val_at :: "structs \<Rightarrow> mem \<Rightarrow> nat \<Rightarrow> ty \<Rightarrow> vm_error + value" where
  "load_val_at st m a t = load_val_n (load_fuel st) st m a t"

section \<open>Stores\<close>

definition store_raw :: "nat \<Rightarrow> u8 list \<Rightarrow> unit memop" where
  "store_raw a bs m =
     (if in_memory m a (length bs) then (Inr (), write_raw a bs m) else (Inl (EStoreBounds a), m))"

text \<open>The bounds are checked before the value is looked at, as in the source.\<close>

definition store_at :: "nat \<Rightarrow> nat \<Rightarrow> ty \<Rightarrow> value \<Rightarrow> u8 list option \<Rightarrow> unit memop" where
  "store_at a n t v bs m =
     (if \<not> in_memory m a n then (Inl (EStoreBounds a), m)
      else case bs of Some bs \<Rightarrow> (Inr (), write_raw a bs m) | None \<Rightarrow> (Inl (EStoreValue t v), m))"

fun word_bytes :: "value \<Rightarrow> u8 list option" where
  "word_bytes (VInt i) = Some (le_bytes 4 (as_i32 i))"
| "word_bytes (VBool b) = Some (le_bytes 4 (if b then 1 else 0 :: i32))"
| "word_bytes _ = None"

fun bool_bytes :: "value \<Rightarrow> u8 list option" where
  "bool_bytes (VBool b) = Some (le_bytes 4 (if b then 1 else 0 :: i32))"
| "bool_bytes (VInt i) = Some (le_bytes 4 (if i \<noteq> 0 then 1 else 0 :: i32))"
| "bool_bytes _ = None"

fun long_bytes :: "value \<Rightarrow> u8 list option" where
  "long_bytes (VInt64 i) = Some (le_bytes 8 i)"
| "long_bytes (VInt i) = Some (le_bytes 8 i)"
| "long_bytes _ = None"

fun f32_bytes :: "value \<Rightarrow> u8 list option" where
  "f32_bytes (VFloat32 x) = Some (le_bytes 4 x)"
| "f32_bytes (VFloat x) = Some (le_bytes 4 (f32_of_f64 x))"
| "f32_bytes _ = None"

fun f64_bytes :: "value \<Rightarrow> u8 list option" where
  "f64_bytes (VFloat x) = Some (le_bytes 8 x)"
| "f64_bytes _ = None"

fun narrow_bytes :: "nat \<Rightarrow> value \<Rightarrow> u8 list option" where
  "narrow_bytes w (VInt i) = Some (take w (le_bytes 4 (as_i32 i)))"
| "narrow_bytes w _ = None"

definition store_scalar :: "nat \<Rightarrow> ty \<Rightarrow> value \<Rightarrow> unit memop" where
  "store_scalar a t v =
     (case t of
        TNarrow n \<Rightarrow> store_at a (narrow_size n) t v (narrow_bytes (narrow_size n) v)
      | TI32 \<Rightarrow> store_at a 4 t v (word_bytes v)
      | TFn _ _ _ \<Rightarrow> store_at a 4 t v (word_bytes v)
      | TEnum _ \<Rightarrow> store_at a 4 t v (word_bytes v)
      | TUnion _ \<Rightarrow> store_at a 4 t v (word_bytes v)
      | TStr \<Rightarrow> store_at a 4 t v (word_bytes v)
      | TBool \<Rightarrow> store_at a 4 t v (bool_bytes v)
      | TI64 \<Rightarrow> store_at a 8 t v (long_bytes v)
      | TPtr _ \<Rightarrow> store_at a 8 t v (long_bytes v)
      | TArray _ \<Rightarrow> store_at a 8 t v (long_bytes v)
      | TF32 \<Rightarrow> store_at a 4 t v (f32_bytes v)
      | TF64 \<Rightarrow> store_at a 8 t v (f64_bytes v)
      | _ \<Rightarrow> mfail (EUnsupported t))"

definition str_value :: "(string \<rightharpoonup> nat) \<Rightarrow> ty \<Rightarrow> value \<Rightarrow> value memop" where
  "str_value strs t v =
     (case (t, v) of
        (TStr, VStr s) \<Rightarrow> mbind (materialize_str strs s) (\<lambda>p. mret (VInt (word_of_nat p)))
      | _ \<Rightarrow> mret v)"

fun store_slots :: "nat \<Rightarrow> (ty \<times> nat) list \<Rightarrow> value list \<Rightarrow> unit memop" where
  "store_slots a ((t, off) # slots) (v # vs) = mbind (store_scalar (a + off) t v) (\<lambda>_. store_slots a slots vs)"
| "store_slots a _ _ = mret ()"

fun store_val_at :: "structs \<Rightarrow> (string \<rightharpoonup> nat) \<Rightarrow> nat \<Rightarrow> ty \<Rightarrow> value \<Rightarrow> unit memop"
and store_fields :: "structs \<Rightarrow> (string \<rightharpoonup> nat) \<Rightarrow> nat \<Rightarrow> struct_def \<Rightarrow> struct_field list \<Rightarrow> value list \<Rightarrow> unit memop" where
  "store_val_at st strs a t v =
     mbind (mlift (lift_lay (sum_of st t))) (\<lambda>s.
       (case s of
          Some l \<Rightarrow> mbind (mlift (to_scalars st t v)) (store_slots a (zip (sl_slots l) (sl_offsets l)))
        | None \<Rightarrow>
            (case value_struct st t of
               Some def \<Rightarrow>
                 (case v of
                    VRecord vs \<Rightarrow> store_fields st strs a def (sd_fields def) vs
                  | _ \<Rightarrow> mfail (EStoreValue t v))
             | None \<Rightarrow> mbind (str_value strs t v) (store_scalar a t))))"
| "store_fields st strs a def (f # fs) (v # vs) =
     mbind (mlift (lift_lay (get_field_offset st def (sf_name f)))) (\<lambda>(off, ft).
     mbind (store_val_at st strs (a + off) ft v) (\<lambda>_. store_fields st strs a def fs vs))"
| "store_fields st strs a def _ _ = mret ()"

declare store_val_at.simps [simp del]

section \<open>Pointers and arrays\<close>

definition gen_unchecked :: u32 where
  "gen_unchecked = 0xFFFFFFFF"

text \<open>\<^verbatim>\<open>addr.wrapping_sub(8)\<close> on 64 bits.\<close>

definition wrapping_sub8 :: "nat \<Rightarrow> nat" where
  "wrapping_sub8 a = (if a < 8 then a + 2 ^ 64 - 8 else a - 8)"

definition deref :: "structs \<Rightarrow> mem \<Rightarrow> value \<Rightarrow> vm_error + nat" where
  "deref st m v =
     (case v of
        VInt64 fat \<Rightarrow>
          (let addr = unat (ucast fat :: u32); gen = ucast (drop_bit 32 fat) :: u32
           in if addr = 0 then Inl ENullPointer
              else case load_scalar m (wrapping_sub8 addr) TI32 of
                     Inr (VInt w) \<Rightarrow>
                       if as_i32 w \<noteq> gen \<and> gen \<noteq> gen_unchecked then Inl EUseAfterFree else Inr addr
                   | _ \<Rightarrow> Inl (ELoadBounds (wrapping_sub8 addr)))
      | other \<Rightarrow> Inl (EPointer other))"

definition array_len_at :: "mem \<Rightarrow> nat \<Rightarrow> vm_error + i64" where
  "array_len_at m ptr =
     (if length (mm_bytes m) < ptr then Inl (EArray ptr)
      else bind_res (if ptr < 4 then Inl EPanic else read_bytes (ptr - 4) 4 m) (\<lambda>bs. Inr (of_i32 (of_le bs))))"

fun path_address :: "structs \<Rightarrow> nat \<Rightarrow> ty \<Rightarrow> (string \<times> string) list \<Rightarrow> vm_error + nat \<times> ty" where
  "path_address st a t [] = Inr (a, t)"
| "path_address st a t ((sn, fname) # path) =
     bind_res (ok_or (get_struct st sn) (EUnknown sn)) (\<lambda>def.
     bind_res (lift_lay (get_field_offset st def fname)) (\<lambda>(off, ft).
     path_address st (a + off) ft path))"

section \<open>args.* and env.*\<close>

fun wasi_write :: "string list \<Rightarrow> nat \<Rightarrow> nat \<Rightarrow> unit memop" where
  "wasi_write [] a pos = mret ()"
| "wasi_write (s # ss) a pos =
     mbind (write_bytes a (le_bytes 4 (word_of_nat pos :: u32))) (\<lambda>_.
     mbind (write_bytes pos (string_bytes s)) (\<lambda>_.
     mbind (write_bytes (pos + length s) [0]) (\<lambda>_.
     wasi_write ss (a + 4) (pos + length s + 1))))"

definition wasi_total :: "string list \<Rightarrow> nat" where
  "wasi_total items = sum_list (map (\<lambda>s. length s + 1) items)"

definition wasi_strings :: "string list \<Rightarrow> bool \<Rightarrow> nat \<Rightarrow> nat \<Rightarrow> value memop" where
  "wasi_strings items sizes a b m =
     (let total = wasi_total items; mem_len = length (mm_bytes m)
      in if sizes
         then if mem_len < a + 4 \<or> mem_len < b + 4 then (Inr (VInt (- 1)), m)
              else mbind (write_bytes a (le_bytes 4 (word_of_nat (length items) :: u32))) (\<lambda>_.
                   mbind (write_bytes b (le_bytes 4 (word_of_nat total :: u32))) (\<lambda>_.
                   mret (VInt 0))) m
         else if mem_len < a + 4 * length items \<or> mem_len < b + total then (Inr (VInt (- 1)), m)
              else mbind (wasi_write items a b) (\<lambda>_. mret (VInt 0)) m)"

end
