(* ===== verification/Vm_Ops.thy ===== *)
theory Vm_Ops
  imports Values
begin

text \<open>
  What the operations of \<^verbatim>\<open>VM::eval_op\<close> compute from their operands' values: arithmetic,
  shifts, rotations, comparisons, checked arithmetic and conversions. An \<open>Int\<close> operand is read
  as its low 32 bits and a result is sign-extended again; \<open>Int64\<close> wraps at 64 bits; division
  and the checked operations fail where wasm traps.
\<close>

section \<open>Machine arithmetic\<close>

text \<open>Rust's \<^verbatim>\<open>/\<close> and \<^verbatim>\<open>%\<close> on signed integers truncate toward zero.\<close>

definition trunc_div :: "int \<Rightarrow> int \<Rightarrow> int" where
  "trunc_div a b = sgn a * sgn b * (\<bar>a\<bar> div \<bar>b\<bar>)"

definition trunc_mod :: "int \<Rightarrow> int \<Rightarrow> int" where
  "trunc_mod a b = sgn a * (\<bar>a\<bar> mod \<bar>b\<bar>)"

definition int_min :: "'a::len word" where
  "int_min = push_bit (LENGTH('a) - 1) 1"

text \<open>\<^verbatim>\<open>wrapping_shl\<close>, \<^verbatim>\<open>wrapping_shr\<close> and the rotations, by an amount already masked to the width.\<close>

definition shift_amount :: "'a::len itself \<Rightarrow> i64 \<Rightarrow> nat" where
  "shift_amount w y = unat (and (ucast y :: u32) (of_nat (LENGTH('a) - 1)))"

definition word_shl :: "'a::len word \<Rightarrow> i64 \<Rightarrow> 'a word" where
  "word_shl x y = push_bit (shift_amount TYPE('a) y) x"

definition word_shr :: "'a::len word \<Rightarrow> i64 \<Rightarrow> 'a word" where
  "word_shr x y = signed_drop_bit (shift_amount TYPE('a) y) x"

definition word_shru :: "'a::len word \<Rightarrow> i64 \<Rightarrow> 'a word" where
  "word_shru x y = drop_bit (shift_amount TYPE('a) y) x"

definition word_rol :: "'a::len word \<Rightarrow> i64 \<Rightarrow> 'a word" where
  "word_rol x y = word_rotl (shift_amount TYPE('a) y) x"

definition word_ror :: "'a::len word \<Rightarrow> i64 \<Rightarrow> 'a word" where
  "word_ror x y = word_rotr (shift_amount TYPE('a) y) x"

definition leading_zeros :: "'a::len word \<Rightarrow> nat" where
  "leading_zeros x = length (takeWhile (\<lambda>i. \<not> bit x i) (rev [0..<LENGTH('a)]))"

definition trailing_zeros :: "'a::len word \<Rightarrow> nat" where
  "trailing_zeros x = length (takeWhile (\<lambda>i. \<not> bit x i) [0..<LENGTH('a)])"

definition count_ones :: "'a::len word \<Rightarrow> nat" where
  "count_ones x = length (filter (bit x) [0..<LENGTH('a)])"

section \<open>Binary operations\<close>

text \<open>An operation on two \<open>Int\<close>s, two \<open>Int64\<close>s, and perhaps two floats; any other pair is an error.\<close>

definition int_op :: "opcode \<Rightarrow> (i32 \<Rightarrow> i32 \<Rightarrow> vm_error + i32) \<Rightarrow> (i64 \<Rightarrow> i64 \<Rightarrow> vm_error + i64)
    \<Rightarrow> value \<Rightarrow> value \<Rightarrow> vm_error + value" where
  "int_op op f g a b =
     (case (a, b) of
        (VInt x, VInt y) \<Rightarrow> bind_res (f (as_i32 x) (as_i32 y)) (\<lambda>r. Inr (int32 r))
      | (VInt64 x, VInt64 y) \<Rightarrow> bind_res (g x y) (\<lambda>r. Inr (VInt64 r))
      | _ \<Rightarrow> Inl (EOperands op))"

definition num_op :: "opcode \<Rightarrow> (i32 \<Rightarrow> i32 \<Rightarrow> vm_error + i32) \<Rightarrow> (i64 \<Rightarrow> i64 \<Rightarrow> vm_error + i64)
    \<Rightarrow> (f64 \<Rightarrow> f64 \<Rightarrow> f64) \<Rightarrow> (f32 \<Rightarrow> f32 \<Rightarrow> f32) \<Rightarrow> value \<Rightarrow> value \<Rightarrow> vm_error + value" where
  "num_op op f g h k a b =
     (case (a, b) of
        (VFloat x, VFloat y) \<Rightarrow> Inr (VFloat (h x y))
      | (VFloat32 x, VFloat32 y) \<Rightarrow> Inr (VFloat32 (k x y))
      | _ \<Rightarrow> int_op op f g a b)"

definition shift_op :: "opcode \<Rightarrow> (i32 \<Rightarrow> i64 \<Rightarrow> i32) \<Rightarrow> (i64 \<Rightarrow> i64 \<Rightarrow> i64) \<Rightarrow> value \<Rightarrow> value \<Rightarrow> vm_error + value" where
  "shift_op op f g a b =
     (case (a, b) of
        (VInt x, VInt y) \<Rightarrow> Inr (int32 (f (as_i32 x) y))
      | (VInt64 x, VInt64 y) \<Rightarrow> Inr (VInt64 (g x y))
      | _ \<Rightarrow> Inl (EOperands op))"

definition div_signed :: "opcode \<Rightarrow> 'a::len word \<Rightarrow> 'a word \<Rightarrow> vm_error + 'a word" where
  "div_signed op x y =
     (if y = 0 then Inl EDivZero
      else if x = int_min \<and> y = - 1 then Inl (EOverflow op)
      else Inr (word_of_int (trunc_div (sint x) (sint y))))"

definition mod_signed :: "'a::len word \<Rightarrow> 'a word \<Rightarrow> vm_error + 'a word" where
  "mod_signed x y =
     (if y = 0 then Inl EDivZero
      else if x = int_min \<and> y = - 1 then Inr 0
      else Inr (word_of_int (trunc_mod (sint x) (sint y))))"

definition div_unsigned :: "'a::len word \<Rightarrow> 'a word \<Rightarrow> vm_error + 'a word" where
  "div_unsigned x y = (if y = 0 then Inl EDivZero else Inr (x div y))"

definition rem_unsigned :: "'a::len word \<Rightarrow> 'a word \<Rightarrow> vm_error + 'a word" where
  "rem_unsigned x y = (if y = 0 then Inl EDivZero else Inr (x mod y))"

definition pure2 :: "('a \<Rightarrow> 'a \<Rightarrow> 'a) \<Rightarrow> 'a \<Rightarrow> 'a \<Rightarrow> vm_error + 'a" where
  "pure2 f x y = Inr (f x y)"

definition apply_arith :: "arith_op \<Rightarrow> value \<Rightarrow> value \<Rightarrow> vm_error + value" where
  "apply_arith op a b =
     (case op of
        Add \<Rightarrow> num_op (OpArith Add) (pure2 (+)) (pure2 (+)) f64_add f32_add a b
      | Sub \<Rightarrow> num_op (OpArith Sub) (pure2 (-)) (pure2 (-)) f64_sub f32_sub a b
      | Mul \<Rightarrow> num_op (OpArith Mul) (pure2 (*)) (pure2 (*)) f64_mul f32_mul a b
      | Div \<Rightarrow> num_op (OpArith Div) (div_signed (OpArith Div)) (div_signed (OpArith Div)) f64_div f32_div a b
      | Mod \<Rightarrow> int_op (OpArith Mod) mod_signed mod_signed a b
      | DivU \<Rightarrow> int_op (OpArith DivU) div_unsigned div_unsigned a b
      | RemU \<Rightarrow> int_op (OpArith RemU) rem_unsigned rem_unsigned a b
      | BitXor \<Rightarrow> int_op (OpArith BitXor) (pure2 xor) (pure2 xor) a b
      | BitAnd \<Rightarrow> int_op (OpArith BitAnd) (pure2 and) (pure2 and) a b
      | BitOr \<Rightarrow> int_op (OpArith BitOr) (pure2 or) (pure2 or) a b
      | Shl \<Rightarrow> shift_op (OpArith Shl) word_shl word_shl a b
      | Shr \<Rightarrow> shift_op (OpArith Shr) word_shr word_shr a b
      | ShrU \<Rightarrow> shift_op (OpArith ShrU) word_shru word_shru a b
      | Rotl \<Rightarrow> shift_op (OpArith Rotl) word_rol word_rol a b
      | Rotr \<Rightarrow> shift_op (OpArith Rotr) word_ror word_ror a b)"

section \<open>Checked arithmetic\<close>

text \<open>\<^verbatim>\<open>checked_add\<close> and its kin: the exact result when it fits.\<close>

definition fits_signed :: "'a::len itself \<Rightarrow> int \<Rightarrow> bool" where
  "fits_signed w r \<longleftrightarrow> - (2 ^ (LENGTH('a) - 1)) \<le> r \<and> r < 2 ^ (LENGTH('a) - 1)"

fun exact_op :: "checked_op \<Rightarrow> int \<Rightarrow> int \<Rightarrow> int" where
  "exact_op CheckedAdd x y = x + y"
| "exact_op CheckedSub x y = x - y"
| "exact_op CheckedMul x y = x * y"

definition checked :: "checked_op \<Rightarrow> 'a::len word \<Rightarrow> 'a word \<Rightarrow> vm_error + 'a word" where
  "checked op x y =
     (let r = exact_op op (sint x) (sint y)
      in if fits_signed TYPE('a) r then Inr (word_of_int r) else Inl (EOverflow (OpChecked op)))"

definition apply_checked :: "checked_op \<Rightarrow> value \<Rightarrow> value \<Rightarrow> vm_error + value" where
  "apply_checked op a b = int_op (OpChecked op) (checked op) (checked op) a b"

section \<open>Unary operations\<close>

definition apply_bit :: "bit_op \<Rightarrow> value \<Rightarrow> vm_error + value" where
  "apply_bit op v =
     (case v of
        VInt x \<Rightarrow>
          (let w = as_i32 x
           in Inr (case op of
                     BitNot \<Rightarrow> int32 (not w)
                   | Clz \<Rightarrow> VInt (of_nat (leading_zeros w))
                   | Ctz \<Rightarrow> VInt (of_nat (trailing_zeros w))
                   | Popcnt \<Rightarrow> VInt (of_nat (count_ones w))))
      | VInt64 w \<Rightarrow>
          Inr (VInt64 (case op of
                 BitNot \<Rightarrow> not w
               | Clz \<Rightarrow> of_nat (leading_zeros w)
               | Ctz \<Rightarrow> of_nat (trailing_zeros w)
               | Popcnt \<Rightarrow> of_nat (count_ones w)))
      | _ \<Rightarrow> Inl (EOperands (OpBit op)))"

definition apply_not :: "value \<Rightarrow> vm_error + value" where
  "apply_not v = (case v of VBool b \<Rightarrow> Inr (VBool (\<not> b)) | _ \<Rightarrow> Inl (EOperands OpNot))"

section \<open>Comparisons\<close>

text \<open>\<^verbatim>\<open><\<close>, \<^verbatim>\<open><=\<close>, \<^verbatim>\<open>>\<close>, \<^verbatim>\<open>>=\<close> on an ordering: \<open>None\<close>, for NaN, makes every one of them false.\<close>

fun holds_for :: "cmp_op \<Rightarrow> int option \<Rightarrow> bool" where
  "holds_for op None = False"
| "holds_for op (Some r) =
     (case op of
        Lt \<Rightarrow> r < 0 | LtU \<Rightarrow> r < 0
      | Lte \<Rightarrow> r \<le> 0 | LteU \<Rightarrow> r \<le> 0
      | Gt \<Rightarrow> r > 0 | GtU \<Rightarrow> r > 0
      | Gte \<Rightarrow> r \<ge> 0 | GteU \<Rightarrow> r \<ge> 0
      | Eq \<Rightarrow> r = 0 | Neq \<Rightarrow> r \<noteq> 0)"

definition int_cmp :: "int \<Rightarrow> int \<Rightarrow> int option" where
  "int_cmp x y = Some (sgn (x - y))"

definition signed_cmp :: "cmp_op \<Rightarrow> value \<Rightarrow> value \<Rightarrow> vm_error + value" where
  "signed_cmp op a b =
     (case (a, b) of
        (VInt x, VInt y) \<Rightarrow> Inr (VBool (holds_for op (int_cmp (sint (as_i32 x)) (sint (as_i32 y)))))
      | (VInt64 x, VInt64 y) \<Rightarrow> Inr (VBool (holds_for op (int_cmp (sint x) (sint y))))
      | (VFloat x, VFloat y) \<Rightarrow> Inr (VBool (holds_for op (f64_cmp x y)))
      | (VFloat32 x, VFloat32 y) \<Rightarrow> Inr (VBool (holds_for op (f32_cmp x y)))
      | _ \<Rightarrow> Inl (EOperands (OpCmp op)))"

definition unsigned_cmp :: "cmp_op \<Rightarrow> value \<Rightarrow> value \<Rightarrow> vm_error + value" where
  "unsigned_cmp op a b =
     (case (a, b) of
        (VInt x, VInt y) \<Rightarrow> Inr (VBool (holds_for op (int_cmp (uint (as_i32 x)) (uint (as_i32 y)))))
      | (VInt64 x, VInt64 y) \<Rightarrow> Inr (VBool (holds_for op (int_cmp (uint x) (uint y))))
      | _ \<Rightarrow> Inl (EOperands (OpCmp op)))"

definition apply_cmp :: "cmp_op \<Rightarrow> value \<Rightarrow> value \<Rightarrow> vm_error + value" where
  "apply_cmp op a b =
     (case op of
        Eq \<Rightarrow> Inr (VBool (value_eq a b))
      | Neq \<Rightarrow> Inr (VBool (\<not> value_eq a b))
      | Lt \<Rightarrow> signed_cmp op a b | Lte \<Rightarrow> signed_cmp op a b
      | Gt \<Rightarrow> signed_cmp op a b | Gte \<Rightarrow> signed_cmp op a b
      | _ \<Rightarrow> unsigned_cmp op a b)"

section \<open>Conversions\<close>

text \<open>
  Float to integer, toward zero: NaN and a result out of range are errors. \<open>convert\<close> compares
  the truncated value with the bounds; \<^verbatim>\<open>i64.trunc_f64_s\<close> compares the value itself.
\<close>

definition trunc_to :: "opcode \<Rightarrow> nat \<Rightarrow> fnum \<Rightarrow> vm_error + int" where
  "trunc_to op w x =
     (case x of
        NaN \<Rightarrow> Inl (ENanConversion op)
      | Infty s \<Rightarrow> Inl (EOverflow op)
      | Finite s m e \<Rightarrow>
          (let t = trunc_num s m e
           in if t < - (2 ^ (w - 1)) \<or> 2 ^ (w - 1) \<le> t then Inl (EOverflow op) else Inr t))"

definition trunc64_direct :: "fnum \<Rightarrow> vm_error + int" where
  "trunc64_direct x =
     (let op = OpConv I64TruncF64S
      in case x of
           NaN \<Rightarrow> Inl (ENanConversion op)
         | Infty s \<Rightarrow> Inl (EOverflow op)
         | Finite s m e \<Rightarrow>
             if (f_cmp_num x (Finite True 1 63) = Some (- 1)) \<or> f_cmp_num x (Finite False 1 63) \<noteq> Some (- 1)
             then Inl (EOverflow op)
             else Inr (trunc_num s m e))"

definition apply_conv :: "conv_op \<Rightarrow> value \<Rightarrow> vm_error + value" where
  "apply_conv op v =
     (case (op, v) of
        (I64ExtendS, VInt x) \<Rightarrow> Inr (VInt64 (of_i32 (as_i32 x)))
      | (I64ExtendU, VInt x) \<Rightarrow> Inr (VInt64 (ucast (as_i32 x)))
      | (I32Wrap, VInt64 x) \<Rightarrow> Inr (int32 (as_i32 x))
      | (F32DemoteF64, VFloat x) \<Rightarrow> Inr (VFloat32 (f32_of_f64 x))
      | (F64PromoteF32, VFloat32 x) \<Rightarrow> Inr (VFloat (f64_of_f32 x))
      | (F32ConvertI32S, VInt x) \<Rightarrow> Inr (VFloat32 (f32_of_int (sint (as_i32 x))))
      | (F32ConvertI64S, VInt64 x) \<Rightarrow> Inr (VFloat32 (f32_of_int (sint x)))
      | (F64ConvertI32S, VInt x) \<Rightarrow> Inr (VFloat (f64_of_int (sint (as_i32 x))))
      | (F64ConvertI64S, VInt64 x) \<Rightarrow> Inr (VFloat (f64_of_int (sint x)))
      | (I32TruncF32S, VFloat32 x) \<Rightarrow>
          bind_res (trunc_to (OpConv op) 32 (num32 x)) (\<lambda>t. Inr (VInt (word_of_int t)))
      | (I32TruncF64S, VFloat x) \<Rightarrow>
          bind_res (trunc_to (OpConv op) 32 (num64 x)) (\<lambda>t. Inr (VInt (word_of_int t)))
      | (I64TruncF32S, VFloat32 x) \<Rightarrow>
          bind_res (trunc_to (OpConv op) 64 (num32 x)) (\<lambda>t. Inr (VInt64 (word_of_int t)))
      | (I64TruncF64S, VFloat x) \<Rightarrow>
          bind_res (trunc64_direct (num64 x)) (\<lambda>t. Inr (VInt64 (word_of_int t)))
      | (F32ReinterpretI32, VInt x) \<Rightarrow> Inr (VFloat32 (as_i32 x))
      | (I32ReinterpretF32, VFloat32 x) \<Rightarrow> Inr (int32 x)
      | (F64ReinterpretI64, VInt64 x) \<Rightarrow> Inr (VFloat x)
      | (I64ReinterpretF64, VFloat x) \<Rightarrow> Inr (VInt64 x)
      | (F64Sqrt, VFloat x) \<Rightarrow> Inr (VFloat (f64_sqrt x))
      | _ \<Rightarrow> Inl (EOperands (OpConv op)))"

end
