(* ===== verification/Vm.thy ===== *)
theory Vm
  imports Memory Vm_Ops
begin

text \<open>
  The VM of \<^verbatim>\<open>src/vm.rs\<close>: its state, function calls with contracts and the call chain, and
  the evaluation of every expression form. A step that may fail or not return is a function of
  the state (the VM and the scope of the running function) with an optional result: \<open>None\<close> says
  that the fuel ran out, \<open>Some (Inl e, s)\<close> that the Rust code returns \<^verbatim>\<open>Err\<close> leaving \<open>s\<close>. The
  evaluator's own recursive calls are the parameter \<open>ev\<close> of each handler; \<open>eval\<close> at the end ties
  the knot with fuel.

  What the operating system and the thread scheduler do is the parameter \<open>host\<close>: the result of
  \<^verbatim>\<open>fs.*\<close>, \<^verbatim>\<open>net.*\<close>, \<^verbatim>\<open>proc.*\<close>, \<^verbatim>\<open>thread.*\<close> and the clocks once their operands are evaluated, the
  bytes of \<^verbatim>\<open>/dev/urandom\<close>, and at what depth of calls the native stack is exhausted. A host
  operation sees the memory and gives back what it writes there; the writes go through
  \<^verbatim>\<open>write_bytes\<close>, which panics outside the memory.
\<close>

section \<open>State\<close>

datatype flow = FBreak | FContinue | FReturn "value"

type_synonym scope = "string \<rightharpoonup> value"

record ctx =
  cx_functions :: "string \<rightharpoonup> fn_def"
  cx_order :: "string list"
  cx_structs :: structs
  cx_enums :: "string \<rightharpoonup> enum_def"
  cx_strings :: "string \<rightharpoonup> nat"
  cx_heap_start :: nat
  cx_args :: "string list"
  cx_env :: "string list"

record 'h host =
  ho_call :: "opcode \<Rightarrow> value list \<Rightarrow> 'h \<Rightarrow> mem \<Rightarrow> (vm_error + value) \<times> 'h \<times> (nat \<times> u8 list) list"
  ho_random :: "nat \<Rightarrow> 'h \<Rightarrow> u8 list option \<times> 'h"
  ho_exhausted :: "nat \<Rightarrow> bool"

record 'h vm =
  vm_mem :: mem
  vm_flow :: "flow option"
  vm_depth :: nat
  vm_error_at :: "span option"
  vm_trace :: "(string \<times> span option) list"
  vm_out :: "value list"
  vm_host :: 'h

type_synonym ('h, 'a) vmm = "'h vm \<times> scope \<Rightarrow> ((vm_error + 'a) \<times> 'h vm \<times> scope) option"

section \<open>Steps\<close>

definition ret :: "'a \<Rightarrow> ('h, 'a) vmm" where "ret x s = Some (Inr x, s)"
definition fail :: "vm_error \<Rightarrow> ('h, 'a) vmm" where "fail e s = Some (Inl e, s)"
definition diverge :: "('h, 'a) vmm" where "diverge s = None"

definition bindm :: "('h, 'a) vmm \<Rightarrow> ('a \<Rightarrow> ('h, 'b) vmm) \<Rightarrow> ('h, 'b) vmm" where
  "bindm m f s =
     (case m s of
        None \<Rightarrow> None
      | Some (r, s') \<Rightarrow> (case r of Inl e \<Rightarrow> Some (Inl e, s') | Inr x \<Rightarrow> f x s'))"

definition lift_res :: "vm_error + 'a \<Rightarrow> ('h, 'a) vmm" where "lift_res r s = Some (r, s)"

definition read_mem :: "(mem \<Rightarrow> vm_error + 'a) \<Rightarrow> ('h, 'a) vmm" where
  "read_mem f = (\<lambda>(v, sc). Some (f (vm_mem v), v, sc))"

definition run_mem :: "'a memop \<Rightarrow> ('h, 'a) vmm" where
  "run_mem f = (\<lambda>(v, sc). let (r, m) = f (vm_mem v) in Some (r, v\<lparr>vm_mem := m\<rparr>, sc))"

definition get_flow :: "('h, flow option) vmm" where
  "get_flow = (\<lambda>(v, sc). Some (Inr (vm_flow v), v, sc))"

definition set_flow :: "flow option \<Rightarrow> ('h, unit) vmm" where
  "set_flow f = (\<lambda>(v, sc). Some (Inr (), v\<lparr>vm_flow := f\<rparr>, sc))"

definition set_error_at :: "span \<Rightarrow> ('h, unit) vmm" where
  "set_error_at p = (\<lambda>(v, sc). Some (Inr (), v\<lparr>vm_error_at := Some p\<rparr>, sc))"

definition get_scope :: "('h, scope) vmm" where
  "get_scope = (\<lambda>(v, sc). Some (Inr sc, v, sc))"

definition insert_var :: "string \<Rightarrow> value \<Rightarrow> ('h, unit) vmm" where
  "insert_var x a = (\<lambda>(v, sc). Some (Inr (), v, sc(x \<mapsto> a)))"

text \<open>\<^verbatim>\<open>scope.retain(|k, _| keys.contains(k))\<close>, the keys being those of \<open>before\<close>.\<close>

definition keep_keys :: "scope \<Rightarrow> scope \<Rightarrow> scope" where
  "keep_keys before sc = (\<lambda>k. if before k = None then None else sc k)"

definition retain :: "scope \<Rightarrow> ('h, unit) vmm" where
  "retain before = (\<lambda>(v, sc). Some (Inr (), v, keep_keys before sc))"

text \<open>A step whose scope is cut back however it ends (\<^verbatim>\<open>let res = ...; scope.retain(...); res\<close>).\<close>

definition retaining :: "scope \<Rightarrow> ('h, 'a) vmm \<Rightarrow> ('h, 'a) vmm" where
  "retaining before m s = map_option (\<lambda>(r, v, sc). (r, v, keep_keys before sc)) (m s)"

text \<open>A step run in a scope of its own.\<close>

definition in_scope :: "scope \<Rightarrow> ('h, 'a) vmm \<Rightarrow> ('h, 'a) vmm" where
  "in_scope own m = (\<lambda>(v, sc). map_option (\<lambda>(r, v', own'). (r, v', sc)) (m (v, own)))"

section \<open>Sequences and operands\<close>

type_synonym 'h evaluator = "expr \<Rightarrow> ('h, value) vmm"

text \<open>\<^verbatim>\<open>eval_expr\<close> around \<^verbatim>\<open>eval_expr_inner\<close>: nothing is evaluated while a jump is pending, a failure while one is
  pending is discarded, and the first expression an error comes out of is recorded.\<close>

definition around :: "expr \<Rightarrow> ('h, value) vmm \<Rightarrow> ('h, value) vmm" where
  "around e inner = (\<lambda>(v, sc).
     if vm_flow v \<noteq> None then Some (Inr VVoid, v, sc)
     else case inner (v, sc) of
            None \<Rightarrow> None
          | Some (r, v', sc') \<Rightarrow>
              (case r of
                 Inr x \<Rightarrow> Some (Inr x, v', sc')
               | Inl err \<Rightarrow>
                   if is_panic err then Some (Inl err, v', sc')
                   else if vm_flow v' \<noteq> None then Some (Inr VVoid, v', sc')
                   else Some (Inl err,
                          (if vm_error_at v' = None then v'\<lparr>vm_error_at := Some (expr_span e)\<rparr> else v'), sc')))"

fun eval_seq :: "'h evaluator \<Rightarrow> value \<Rightarrow> expr list \<Rightarrow> ('h, value) vmm" where
  "eval_seq ev prev [] = ret prev"
| "eval_seq ev prev (e # es) =
     bindm (ev e) (\<lambda>v. bindm get_flow (\<lambda>f. if f \<noteq> None then ret v else eval_seq ev v es))"

fun eval_args :: "'h evaluator \<Rightarrow> expr list \<Rightarrow> ('h, value list) vmm" where
  "eval_args ev [] = ret []"
| "eval_args ev (e # es) = bindm (ev e) (\<lambda>v. bindm (eval_args ev es) (\<lambda>vs. ret (v # vs)))"

definition arg :: "'h evaluator \<Rightarrow> expr list \<Rightarrow> nat \<Rightarrow> ('h, value) vmm" where
  "arg ev args i = (case nth_opt args i of Some e \<Rightarrow> ev e | None \<Rightarrow> fail EPanic)"

definition int_arg :: "'h evaluator \<Rightarrow> opcode \<Rightarrow> expr list \<Rightarrow> nat \<Rightarrow> ('h, i64) vmm" where
  "int_arg ev op args i =
     bindm (arg ev args i) (\<lambda>v. case v of VInt w \<Rightarrow> ret w | _ \<Rightarrow> fail (EOperands op))"

definition binary :: "'h evaluator \<Rightarrow> expr list \<Rightarrow> (value \<Rightarrow> value \<Rightarrow> vm_error + value) \<Rightarrow> ('h, value) vmm" where
  "binary ev args f = bindm (arg ev args 0) (\<lambda>a. bindm (arg ev args 1) (\<lambda>b. lift_res (f a b)))"

definition unary :: "'h evaluator \<Rightarrow> expr list \<Rightarrow> (value \<Rightarrow> vm_error + value) \<Rightarrow> ('h, value) vmm" where
  "unary ev args f = bindm (arg ev args 0) (\<lambda>a. lift_res (f a))"

section \<open>Memory operations\<close>

definition narrow_load :: "mem_op \<Rightarrow> narrow" where
  "narrow_load op = (case op of MemLoad8S \<Rightarrow> NI8 | MemLoad16U \<Rightarrow> NU16 | _ \<Rightarrow> NI16)"

definition checked_ptr :: "(nat \<Rightarrow> vm_error) \<Rightarrow> i64 \<Rightarrow> vm_error + nat" where
  "checked_ptr err i = (if sint i < 0 then Inl (err (as_usize i)) else Inr (as_usize i))"

definition guarded_ptr :: "ctx \<Rightarrow> i64 \<Rightarrow> vm_error + nat" where
  "guarded_ptr cx i =
     bind_res (checked_ptr EStoreBounds i) (\<lambda>p.
     bind_res (check_write_address p (cx_heap_start cx)) (\<lambda>_. Inr p))"

definition load_op :: "'h evaluator \<Rightarrow> mem_op \<Rightarrow> expr list \<Rightarrow> (mem \<Rightarrow> nat \<Rightarrow> vm_error + value) \<Rightarrow> ('h, value) vmm" where
  "load_op ev op args f =
     bindm (int_arg ev (OpMem op) args 0) (\<lambda>i.
     bindm (lift_res (checked_ptr ELoadBounds i)) (\<lambda>p. read_mem (\<lambda>m. f m p)))"

definition store_op :: "ctx \<Rightarrow> 'h evaluator \<Rightarrow> mem_op \<Rightarrow> expr list \<Rightarrow> (nat \<Rightarrow> value \<Rightarrow> unit memop) \<Rightarrow> ('h, value) vmm" where
  "store_op cx ev op args f =
     bindm (int_arg ev (OpMem op) args 0) (\<lambda>i.
     bindm (lift_res (guarded_ptr cx i)) (\<lambda>p.
     bindm (arg ev args 1) (\<lambda>v.
     bindm (run_mem (f p v)) (\<lambda>_. ret VVoid))))"

definition store_int :: "mem_op \<Rightarrow> (i64 \<Rightarrow> u8 list) \<Rightarrow> nat \<Rightarrow> value \<Rightarrow> unit memop" where
  "store_int op f p v =
     (case v of VInt i \<Rightarrow> store_raw p (f i) | _ \<Rightarrow> mfail (EOperands (OpMem op)))"

definition store_int64 :: "nat \<Rightarrow> value \<Rightarrow> unit memop" where
  "store_int64 p v =
     (case v of VInt64 i \<Rightarrow> store_raw p (le_bytes 8 i) | _ \<Rightarrow> mfail (EOperands (OpMem MemStore64)))"

definition eval_mem :: "ctx \<Rightarrow> 'h evaluator \<Rightarrow> mem_op \<Rightarrow> expr list \<Rightarrow> ('h, value) vmm" where
  "eval_mem cx ev op args =
     (case op of
        MemLoad8 \<Rightarrow> load_op ev op args (\<lambda>m p. load_at m p 1 (load_narrow NU8))
      | MemLoad8S \<Rightarrow> load_op ev op args (\<lambda>m p. load_scalar m p (TNarrow (narrow_load op)))
      | MemLoad16U \<Rightarrow> load_op ev op args (\<lambda>m p. load_scalar m p (TNarrow (narrow_load op)))
      | MemLoad16S \<Rightarrow> load_op ev op args (\<lambda>m p. load_scalar m p (TNarrow (narrow_load op)))
      | MemLoad32 \<Rightarrow> load_op ev op args (\<lambda>m p. load_at m p 4 (\<lambda>bs. int32 (of_le bs)))
      | MemLoad64 \<Rightarrow> load_op ev op args (\<lambda>m p. load_at m p 8 (\<lambda>bs. VInt64 (of_le bs)))
      | MemStore8 \<Rightarrow> store_op cx ev op args (store_int op (\<lambda>i. [ucast i]))
      | MemStore16 \<Rightarrow> store_op cx ev op args (\<lambda>p v. store_scalar p (TNarrow NU16) v)
      | MemStore32 \<Rightarrow> store_op cx ev op args (store_int op (\<lambda>i. le_bytes 4 (as_i32 i)))
      | MemStore64 \<Rightarrow> store_op cx ev op args store_int64
      | MemAlloc \<Rightarrow> bindm (int_arg ev (OpMem op) args 0) (\<lambda>i. run_mem (mem_alloc i))
      | MemGrow \<Rightarrow> bindm (int_arg ev (OpMem op) args 0) (\<lambda>i. run_mem (mem_grow i)))"

section \<open>Atomics\<close>

text \<open>Each is one step on the shared memory, taken while its lock is held.\<close>

definition check_alignment :: "nat \<Rightarrow> vm_error + unit" where
  "check_alignment p = (if p mod 4 = 0 then Inr () else Inl (EUnaligned p))"

definition atomic_add :: "nat \<Rightarrow> i32 \<Rightarrow> value memop" where
  "atomic_add p x m =
     (case read_bytes p 4 m of
        Inl e \<Rightarrow> (Inl e, m)
      | Inr bs \<Rightarrow> (let prev = of_le bs in (Inr (int32 prev), write_raw p (le_bytes 4 (prev + x)) m)))"

definition atomic_cas :: "nat \<Rightarrow> i32 \<Rightarrow> i32 \<Rightarrow> value memop" where
  "atomic_cas p expected new m =
     (case read_bytes p 4 m of
        Inl e \<Rightarrow> (Inl e, m)
      | Inr bs \<Rightarrow> if of_le bs = expected then (Inr (VBool True), write_raw p (le_bytes 4 new) m)
                 else (Inr (VBool False), m))"

text \<open>One attempt of \<^verbatim>\<open>atomic.lock\<close>: taken, or held by someone else.\<close>

definition lock_attempt :: "nat \<Rightarrow> bool memop" where
  "lock_attempt p m =
     (if \<not> in_memory m p 4 then (Inl (ELoadBounds p), m)
      else let w = of_le (slice_at (mm_bytes m) p 4) :: i32
           in if w = 0 then (Inr True, write_raw p (le_bytes 4 (1 :: i32)) m)
              else if w = 1 then (Inr False, m)
              else (Inl (ELockState p w), m))"

definition atomic_unlock :: "nat \<Rightarrow> value memop" where
  "atomic_unlock p m =
     (if \<not> in_memory m p 4 then (Inl (ELoadBounds p), m)
      else let w = of_le (slice_at (mm_bytes m) p 4) :: i32
           in if w \<noteq> 1 then (Inl (ELockState p w), m)
              else (Inr VVoid, write_raw p (le_bytes 4 (0 :: i32)) m))"

definition atomic_ptr :: "ctx \<Rightarrow> 'h evaluator \<Rightarrow> atomic_op \<Rightarrow> expr list \<Rightarrow> ('h, nat) vmm" where
  "atomic_ptr cx ev op args =
     bindm (int_arg ev (OpAtomic op) args 0) (\<lambda>i.
     let p = as_usize i
     in bindm (lift_res (check_write_address p (cx_heap_start cx))) (\<lambda>_.
        bindm (lift_res (check_alignment p)) (\<lambda>_. ret p)))"

text \<open>A lock held at the first attempt is retried for ever: no other thread runs in this evaluator.\<close>

definition eval_atomic :: "ctx \<Rightarrow> 'h evaluator \<Rightarrow> atomic_op \<Rightarrow> expr list \<Rightarrow> ('h, value) vmm" where
  "eval_atomic cx ev op args =
     bindm (atomic_ptr cx ev op args) (\<lambda>p.
     (case op of
        AtomicAdd \<Rightarrow> bindm (int_arg ev (OpAtomic op) args 1) (\<lambda>x. run_mem (atomic_add p (as_i32 x)))
      | AtomicCas \<Rightarrow>
          bindm (int_arg ev (OpAtomic op) args 1) (\<lambda>x.
          bindm (int_arg ev (OpAtomic op) args 2) (\<lambda>y. run_mem (atomic_cas p (as_i32 x) (as_i32 y))))
      | AtomicLock \<Rightarrow> bindm (run_mem (lock_attempt p)) (\<lambda>taken. if taken then ret VVoid else diverge)
      | AtomicUnlock \<Rightarrow> run_mem (atomic_unlock p)))"

section \<open>Logic, strings, the host\<close>

definition eval_logic :: "'h evaluator \<Rightarrow> logic_op \<Rightarrow> expr list \<Rightarrow> ('h, value) vmm" where
  "eval_logic ev op args =
     bindm (arg ev args 0) (\<lambda>a.
       case a of
         VBool x \<Rightarrow>
           if x = (op = Or) then ret (VBool x)
           else bindm (arg ev args 1) (\<lambda>b. case b of VBool y \<Rightarrow> ret (VBool y) | _ \<Rightarrow> fail (EOperands (OpLogic op)))
       | _ \<Rightarrow> fail (EOperands (OpLogic op)))"

definition eval_str :: "ctx \<Rightarrow> 'h evaluator \<Rightarrow> str_op \<Rightarrow> expr list \<Rightarrow> ('h, value) vmm" where
  "eval_str cx ev op args =
     bindm (arg ev args 0) (\<lambda>v.
       case v of
         VStr s \<Rightarrow>
           (case op of
              StrLen \<Rightarrow> ret (VInt (word_of_nat (length s)))
            | StrPtr \<Rightarrow> bindm (run_mem (materialize_str (cx_strings cx) s)) (\<lambda>p. ret (VInt (word_of_nat p))))
       | other \<Rightarrow> fail (EOperand other))"

fun print_args :: "'h evaluator \<Rightarrow> expr list \<Rightarrow> ('h, value) vmm" where
  "print_args ev [] = ret VVoid"
| "print_args ev (e # es) =
     bindm (ev e) (\<lambda>x. bindm (\<lambda>(v, sc). Some (Inr (), v\<lparr>vm_out := vm_out v @ [x]\<rparr>, sc)) (\<lambda>_. print_args ev es))"

fun host_writes :: "(nat \<times> u8 list) list \<Rightarrow> unit memop" where
  "host_writes [] = mret ()"
| "host_writes ((a, bs) # ws) = mbind (write_bytes a bs) (\<lambda>_. host_writes ws)"

definition host_call :: "'h host \<Rightarrow> opcode \<Rightarrow> value list \<Rightarrow> ('h, value) vmm" where
  "host_call ho op vs = (\<lambda>(v, sc).
     let (r, h, ws) = ho_call ho op vs (vm_host v) (vm_mem v)
     in bindm (run_mem (host_writes ws)) (\<lambda>_. lift_res r) (v\<lparr>vm_host := h\<rparr>, sc))"

fun int_args :: "'h evaluator \<Rightarrow> opcode \<Rightarrow> expr list \<Rightarrow> nat \<Rightarrow> nat \<Rightarrow> ('h, value list) vmm" where
  "int_args ev op args i 0 = ret []"
| "int_args ev op args i (Suc n) =
     bindm (int_arg ev op args i) (\<lambda>w. bindm (int_args ev op args (Suc i) n) (\<lambda>ws. ret (VInt w # ws)))"

text \<open>How many operands each host operation evaluates, in order, before it acts.\<close>

definition fs_arity :: "fs_op \<Rightarrow> nat" where
  "fs_arity op =
     (case op of FsClose \<Rightarrow> 1 | FsDelete \<Rightarrow> 2 | FsOpendir \<Rightarrow> 2 | FsRmdir \<Rightarrow> 2 | FsMkdir \<Rightarrow> 2 | FsRename \<Rightarrow> 4 | _ \<Rightarrow> 3)"

definition net_arity :: "net_op \<Rightarrow> nat" where
  "net_arity op = (case op of NetAccept \<Rightarrow> 1 | NetClose \<Rightarrow> 1 | _ \<Rightarrow> 3)"

definition proc_arity :: "proc_op \<Rightarrow> nat" where
  "proc_arity op =
     (case op of ProcSpawn \<Rightarrow> 5 | ProcExec \<Rightarrow> 4 | ProcStream \<Rightarrow> 2 | ProcClose \<Rightarrow> 1 | ProcWait \<Rightarrow> 1
      | ProcKill \<Rightarrow> 2 | ProcTryWait \<Rightarrow> 1 | _ \<Rightarrow> 3)"

definition eval_fs :: "'h host \<Rightarrow> 'h evaluator \<Rightarrow> fs_op \<Rightarrow> expr list \<Rightarrow> ('h, value) vmm" where
  "eval_fs ho ev op args =
     bindm (int_args ev (OpFs op) args 0 (fs_arity op)) (\<lambda>vs.
       if op = FsReaddir
       then bindm (arg ev args 3) (\<lambda>c.
              case c of
                VInt64 w \<Rightarrow> host_call ho (OpFs op) (vs @ [VInt64 w])
              | VInt w \<Rightarrow> host_call ho (OpFs op) (vs @ [VInt64 w])
              | other \<Rightarrow> fail (EOperand other))
       else host_call ho (OpFs op) vs)"

definition fn_ref_name :: "ctx \<Rightarrow> 'h evaluator \<Rightarrow> expr \<Rightarrow> ('h, string) vmm" where
  "fn_ref_name cx ev f =
     bindm (ev f) (\<lambda>v.
       case v of
         VInt i \<Rightarrow>
           (if sint i < 0 then fail (EFnRef i)
            else case nth_opt (cx_order cx) (as_usize i) of Some n \<Rightarrow> ret n | None \<Rightarrow> fail (EFnRef i))
       | other \<Rightarrow> fail (EOperand other))"

text \<open>
  \<^verbatim>\<open>thread.spawn\<close> allocates the thread's record \<^verbatim>\<open>[done result fn arg]\<close> and starts it; what the
  thread does is the host's.
\<close>

definition thread_record :: "i32 \<Rightarrow> i32 \<Rightarrow> u8 list" where
  "thread_record f x = le_bytes 4 (0 :: i32) @ le_bytes 4 (0 :: i32) @ le_bytes 4 f @ le_bytes 4 x"

definition spawn_record :: "ctx \<Rightarrow> string \<Rightarrow> i32 \<Rightarrow> nat memop" where
  "spawn_record cx name x =
     (let f = (case index_of (\<lambda>n. n = name) (cx_order cx) of Some i \<Rightarrow> i | None \<Rightarrow> 0)
      in mbind (alloc_bytes 16) (\<lambda>p.
         mbind (write_bytes (unat p) (thread_record (word_of_nat f) x)) (\<lambda>_. mret (unat p))))"

definition eval_thread :: "ctx \<Rightarrow> 'h host \<Rightarrow> 'h evaluator \<Rightarrow> thread_op \<Rightarrow> expr list \<Rightarrow> ('h, value) vmm" where
  "eval_thread cx ho ev op args =
     (case op of
        ThreadSpawn \<Rightarrow>
          (case nth_opt args 0 of
             None \<Rightarrow> fail EPanic
           | Some f \<Rightarrow>
               bindm (fn_ref_name cx ev f) (\<lambda>name.
               bindm (int_arg ev (OpThread op) args 1) (\<lambda>x.
               bindm (run_mem (spawn_record cx name (as_i32 x))) (\<lambda>rec.
               bindm (host_call ho (OpThread op) [VStr name, VInt x, VInt (word_of_nat rec)]) (\<lambda>_.
               ret (VInt (word_of_nat rec)))))))
      | ThreadJoin \<Rightarrow> bindm (int_arg ev (OpThread op) args 0) (\<lambda>t. host_call ho (OpThread op) [int32 (as_i32 t)]))"

fun env_addrs :: "'h evaluator \<Rightarrow> env_op \<Rightarrow> expr list \<Rightarrow> ('h, nat list) vmm" where
  "env_addrs ev op [] = ret []"
| "env_addrs ev op (e # es) =
     bindm (ev e) (\<lambda>v.
       case v of
         VInt w \<Rightarrow> bindm (env_addrs ev op es) (\<lambda>as. ret (as_u32 w # as))
       | _ \<Rightarrow> fail (EOperands (OpEnv op)))"

definition eval_env :: "ctx \<Rightarrow> 'h evaluator \<Rightarrow> env_op \<Rightarrow> expr list \<Rightarrow> ('h, value) vmm" where
  "eval_env cx ev op args =
     bindm (env_addrs ev op (take 2 args)) (\<lambda>as.
       let a = (case as of x # _ \<Rightarrow> x | [] \<Rightarrow> 0); b = (case as of _ # y # _ \<Rightarrow> y | _ \<Rightarrow> 0);
           sizes = (op = ArgsSizes \<or> op = EnvSizes);
           items = (if op = ArgsSizes \<or> op = ArgsGet then cx_args cx else cx_env cx)
       in case List.find (\<lambda>x. x mod 4 \<noteq> 0) (if sizes then [a, b] else [a]) of
            Some x \<Rightarrow> fail (EUnaligned x)
          | None \<Rightarrow> run_mem (wasi_strings items sizes a b))"

definition fill_random :: "'h host \<Rightarrow> nat \<Rightarrow> nat \<Rightarrow> ('h, value) vmm" where
  "fill_random ho p n = (\<lambda>(v, sc).
     let (buf, h) = ho_random ho n (vm_host v); v' = v\<lparr>vm_host := h\<rparr>
     in case buf of
          Some bs \<Rightarrow>
            if in_memory (vm_mem v') p n \<and> length bs = n
            then Some (Inr (VInt 0), v'\<lparr>vm_mem := write_raw p bs (vm_mem v')\<rparr>, sc)
            else Some (Inr (VInt (- 1)), v', sc)
        | None \<Rightarrow> Some (Inr (VInt (- 1)), v', sc))"

text \<open>\<^verbatim>\<open>poll_oneoff\<close> for one relative clock subscription; the sleep itself has no effect on the state.\<close>

definition poll_clock :: "nat \<Rightarrow> nat \<Rightarrow> nat \<Rightarrow> nat \<Rightarrow> value memop" where
  "poll_clock subs out n nevents m =
     (if n \<noteq> 1 then (Inr (VInt (- 28)), m)
      else if \<not> in_memory m subs 48 \<or> \<not> in_memory m out 32 \<or> \<not> in_memory m nevents 4 then (Inr (VInt (- 21)), m)
      else let sub = slice_at (mm_bytes m) subs 48
           in if sub ! 8 \<noteq> 0 \<or> (of_le [sub ! 40, sub ! 41] :: u16) \<noteq> 0 then (Inr (VInt (- 58)), m)
              else mbind (write_bytes out (take 8 sub @ replicate 24 0)) (\<lambda>_.
                   mbind (write_bytes nevents (le_bytes 4 (1 :: u32))) (\<lambda>_. mret (VInt 0))) m)"

definition eval_sys :: "'h host \<Rightarrow> 'h evaluator \<Rightarrow> sys_op \<Rightarrow> expr list \<Rightarrow> ('h, value) vmm" where
  "eval_sys ho ev op args =
     (case op of
        SysPrint \<Rightarrow> print_args ev args
      | SysTime \<Rightarrow> host_call ho (OpSys op) []
      | SysMonotonic \<Rightarrow> host_call ho (OpSys op) []
      | SysRandom \<Rightarrow>
          bindm (int_arg ev (OpSys op) args 0) (\<lambda>p.
          bindm (int_arg ev (OpSys op) args 1) (\<lambda>n. fill_random ho (as_u32 p) (as_u32 n)))
      | SysExit \<Rightarrow> bindm (int_arg ev (OpSys op) args 0) (\<lambda>c. fail (EExit (as_i32 c)))
      | SysPoll \<Rightarrow>
          bindm (int_arg ev (OpSys op) args 0) (\<lambda>subs.
          bindm (int_arg ev (OpSys op) args 1) (\<lambda>out.
          bindm (int_arg ev (OpSys op) args 2) (\<lambda>n.
          bindm (int_arg ev (OpSys op) args 3) (\<lambda>nevents.
            run_mem (poll_clock (as_u32 subs) (as_u32 out) (as_u32 n) (as_u32 nevents)))))))"

definition eval_abort :: "'h evaluator \<Rightarrow> expr list \<Rightarrow> ('h, value) vmm" where
  "eval_abort ev args =
     (case args of
        [] \<Rightarrow> fail EPanic
      | e # _ \<Rightarrow>
          bindm (ev e) (\<lambda>v.
            case v of
              VStr s \<Rightarrow> bindm (set_error_at (expr_span e)) (\<lambda>_. fail (EAbort s))
            | other \<Rightarrow> fail (EOperand other)))"

definition eval_op :: "ctx \<Rightarrow> 'h host \<Rightarrow> 'h evaluator \<Rightarrow> opcode \<Rightarrow> expr list \<Rightarrow> ('h, value) vmm" where
  "eval_op cx ho ev op args =
     (case op of
        OpArith o1 \<Rightarrow> binary ev args (apply_arith o1)
      | OpChecked o1 \<Rightarrow> binary ev args (apply_checked o1)
      | OpBit o1 \<Rightarrow> unary ev args (apply_bit o1)
      | OpMem o1 \<Rightarrow> eval_mem cx ev o1 args
      | OpAtomic o1 \<Rightarrow> eval_atomic cx ev o1 args
      | OpCmp o1 \<Rightarrow> binary ev args (apply_cmp o1)
      | OpLogic o1 \<Rightarrow> eval_logic ev o1 args
      | OpNot \<Rightarrow> unary ev args apply_not
      | OpSys o1 \<Rightarrow> eval_sys ho ev o1 args
      | OpFs o1 \<Rightarrow> eval_fs ho ev o1 args
      | OpNet o1 \<Rightarrow> bindm (int_args ev op args 0 (net_arity o1)) (host_call ho op)
      | OpProc o1 \<Rightarrow> bindm (int_args ev op args 0 (proc_arity o1)) (host_call ho op)
      | OpEnv o1 \<Rightarrow> eval_env cx ev o1 args
      | OpThread o1 \<Rightarrow> eval_thread cx ho ev o1 args
      | OpConv o1 \<Rightarrow> unary ev args (apply_conv o1)
      | OpStr o1 \<Rightarrow> eval_str cx ev o1 args
      | OpFormat _ \<Rightarrow> fail (EUnresolved op)
      | OpTry _ \<Rightarrow> fail (EUnresolved op)
      | OpDefer \<Rightarrow> fail (EUnresolved op)
      | OpDrop \<Rightarrow> bindm (arg ev args 0) (\<lambda>_. ret VVoid)
      | OpAbort \<Rightarrow> eval_abort ev args)"

end
