(* ===== verification/Eval.thy ===== *)
theory Eval
  imports Vm
begin

text \<open>
  Function calls (\<^verbatim>\<open>invoke\<close>, \<^verbatim>\<open>invoke_function\<close>, \<^verbatim>\<open>invoke_body\<close>), every expression form of
  \<^verbatim>\<open>eval_expr_inner\<close>, and the evaluator with fuel. The fuel bounds both the nesting of
  evaluations and the iterations of one loop; more fuel never changes a result.
\<close>

section \<open>Calls\<close>

definition bind_params :: "(string \<times> ty) list \<Rightarrow> value list \<Rightarrow> scope" where
  "bind_params ps vs = map_of (rev (zip (map fst ps) vs))"

definition entry_contract :: "contract \<Rightarrow> (contract_kind \<times> expr) option" where
  "entry_contract c =
     (case c of Requires e \<Rightarrow> Some (PreCondition, e) | Invariant e \<Rightarrow> Some (EntryInvariant, e) | Ensures _ \<Rightarrow> None)"

definition exit_contract :: "contract \<Rightarrow> (contract_kind \<times> expr) option" where
  "exit_contract c =
     (case c of Ensures e \<Rightarrow> Some (PostCondition, e) | Invariant e \<Rightarrow> Some (ExitInvariant, e) | Requires _ \<Rightarrow> None)"

text \<open>What a contract's failure shows: the parameters still bound, and the result.\<close>

definition shown_bindings :: "fn_def \<Rightarrow> scope \<Rightarrow> value option \<Rightarrow> (string \<times> value) list" where
  "shown_bindings f sc res =
     List.map_filter (\<lambda>(n, t). map_option (\<lambda>v. (n, v)) (sc n)) (fd_params f)
       @ (case res of Some v \<Rightarrow> [(''res'', v)] | None \<Rightarrow> [])"

definition check_contract :: "'h evaluator \<Rightarrow> string \<Rightarrow> fn_def \<Rightarrow> scope option \<Rightarrow> value option \<Rightarrow> contract_kind \<times> expr \<Rightarrow> ('h, unit) vmm" where
  "check_contract ev name f own res ke =
     bindm (case own of None \<Rightarrow> ev (snd ke) | Some own \<Rightarrow> in_scope own (ev (snd ke))) (\<lambda>v.
       if v = VBool True then ret ()
       else bindm (set_error_at (expr_span (snd ke))) (\<lambda>_.
            bindm get_scope (\<lambda>sc. fail (EContract (fst ke) name (snd ke) (shown_bindings f sc res)))))"

fun entry_contracts :: "'h evaluator \<Rightarrow> string \<Rightarrow> fn_def \<Rightarrow> contract list \<Rightarrow> ('h, unit) vmm" where
  "entry_contracts ev name f [] = ret ()"
| "entry_contracts ev name f (c # cs) =
     (case entry_contract c of
        None \<Rightarrow> entry_contracts ev name f cs
      | Some ke \<Rightarrow> bindm (check_contract ev name f None None ke) (\<lambda>_. entry_contracts ev name f cs))"

fun exit_contracts :: "'h evaluator \<Rightarrow> string \<Rightarrow> fn_def \<Rightarrow> value \<Rightarrow> contract list \<Rightarrow> ('h, unit) vmm" where
  "exit_contracts ev name f r [] = ret ()"
| "exit_contracts ev name f r (c # cs) =
     (case exit_contract c of
        None \<Rightarrow> exit_contracts ev name f r cs
      | Some ke \<Rightarrow>
          bindm get_scope (\<lambda>sc.
          bindm (check_contract ev name f (Some (sc(''res'' \<mapsto> r))) (Some r) ke) (\<lambda>_. exit_contracts ev name f r cs)))"

text \<open>The body: a pending return ends it with its value, another pending jump with the last value.\<close>

fun run_body :: "'h evaluator \<Rightarrow> value \<Rightarrow> expr list \<Rightarrow> ('h, value) vmm" where
  "run_body ev prev [] = ret prev"
| "run_body ev prev (e # es) =
     bindm (ev e) (\<lambda>v.
     bindm get_flow (\<lambda>f.
     bindm (set_flow None) (\<lambda>_.
       case f of
         None \<Rightarrow> run_body ev v es
       | Some (FReturn r) \<Rightarrow> ret r
       | Some _ \<Rightarrow> ret v)))"

definition invoke_body :: "ctx \<Rightarrow> 'h evaluator \<Rightarrow> string \<Rightarrow> value list \<Rightarrow> ('h, value) vmm" where
  "invoke_body cx ev name vs =
     (case cx_functions cx name of
        None \<Rightarrow> fail (EUnknown name)
      | Some f \<Rightarrow>
          if length vs \<noteq> length (fd_params f)
          then fail (EArity name (length (fd_params f)) (length vs))
          else in_scope (bind_params (fd_params f) vs)
                 (bindm (entry_contracts ev name f (fd_contracts f)) (\<lambda>_.
                  bindm (run_body ev VVoid (fd_body f)) (\<lambda>r.
                  bindm (exit_contracts ev name f r (fd_contracts f)) (\<lambda>_. ret r)))))"

definition push_frame :: "string \<Rightarrow> 'h vm \<Rightarrow> 'h vm" where
  "push_frame name v = v\<lparr>vm_trace := vm_trace v @ [(name, vm_error_at v)], vm_error_at := None\<rparr>"

definition invoke_function :: "ctx \<Rightarrow> 'h evaluator \<Rightarrow> string \<Rightarrow> value list \<Rightarrow> ('h, value) vmm" where
  "invoke_function cx ev name vs s =
     (case invoke_body cx ev name vs s of
        None \<Rightarrow> None
      | Some (r, v, sc) \<Rightarrow>
          (case r of
             Inr x \<Rightarrow> Some (Inr x, v, sc)
           | Inl e \<Rightarrow> Some (Inl e, if is_panic e then v else push_frame name v, sc)))"

text \<open>\<^verbatim>\<open>invoke\<close>: \<open>vm_depth\<close> counts the calls running on this thread, 0 outside any.\<close>

definition invoke :: "ctx \<Rightarrow> 'h host \<Rightarrow> 'h evaluator \<Rightarrow> string \<Rightarrow> value list \<Rightarrow> ('h, value) vmm" where
  "invoke cx ho ev name vs = (\<lambda>(v, sc).
     if vm_flow v \<noteq> None then Some (Inr VVoid, v, sc)
     else if vm_depth v = 0
       then map_option (\<lambda>(r, v', sc'). (r, v'\<lparr>vm_depth := 0\<rparr>, sc'))
              (invoke_function cx ev name vs (v\<lparr>vm_error_at := None, vm_trace := [], vm_depth := 1\<rparr>, sc))
     else if ho_exhausted ho (vm_depth v) then Some (Inl (EStack name), v, sc)
     else map_option (\<lambda>(r, v', sc'). (r, v'\<lparr>vm_depth := vm_depth v\<rparr>, sc'))
            (invoke_function cx ev name vs (v\<lparr>vm_depth := Suc (vm_depth v)\<rparr>, sc)))"

section \<open>Loops\<close>

definition loop_int :: "value \<Rightarrow> ('h, i32) vmm" where
  "loop_int v = (case v of VInt i \<Rightarrow> ret (as_i32 i) | _ \<Rightarrow> fail ELoopInt)"

definition loop_var :: "string \<Rightarrow> ('h, i32) vmm" where
  "loop_var x = bindm get_scope (\<lambda>sc. loop_int (case sc x of Some v \<Rightarrow> v | None \<Rightarrow> VInt 0))"

text \<open>After an iteration: whether the loop goes on.\<close>

definition after_body :: "('h, bool) vmm" where
  "after_body = bindm get_flow (\<lambda>f.
     case f of
       Some FBreak \<Rightarrow> bindm (set_flow None) (\<lambda>_. ret False)
     | Some FContinue \<Rightarrow> bindm (set_flow None) (\<lambda>_. ret True)
     | Some (FReturn _) \<Rightarrow> ret False
     | None \<Rightarrow> ret True)"

definition iteration :: "'h evaluator \<Rightarrow> expr list \<Rightarrow> ('h, bool) vmm" where
  "iteration ev body =
     bindm get_scope (\<lambda>before.
     bindm (eval_seq ev VVoid body) (\<lambda>_.
     bindm (retain before) (\<lambda>_. after_body)))"

fun for_loop :: "nat \<Rightarrow> 'h evaluator \<Rightarrow> string \<Rightarrow> i32 \<Rightarrow> i32 \<Rightarrow> expr list \<Rightarrow> ('h, unit) vmm" where
  "for_loop 0 ev x stop step body = diverge"
| "for_loop (Suc n) ev x stop step body =
     bindm (loop_var x) (\<lambda>curr.
       if sint stop < sint curr then ret ()
       else bindm (iteration ev body) (\<lambda>more.
         if more
         then bindm (loop_var x) (\<lambda>curr.
              bindm (insert_var x (int32 (curr + step))) (\<lambda>_. for_loop n ev x stop step body))
         else ret ()))"

fun while_loop :: "nat \<Rightarrow> 'h evaluator \<Rightarrow> expr \<Rightarrow> expr list \<Rightarrow> ('h, unit) vmm" where
  "while_loop 0 ev c body = diverge"
| "while_loop (Suc n) ev c body =
     bindm (ev c) (\<lambda>v.
       if v = VBool True
       then bindm (iteration ev body) (\<lambda>more. if more then while_loop n ev c body else ret ())
       else ret ())"

definition eval_for :: "nat \<Rightarrow> 'h evaluator \<Rightarrow> string \<Rightarrow> expr \<Rightarrow> expr \<Rightarrow> expr \<Rightarrow> expr list \<Rightarrow> ('h, value) vmm" where
  "eval_for n ev x start stop step body =
     bindm (bindm (ev start) loop_int) (\<lambda>s.
     bindm get_scope (\<lambda>before.
     bindm (insert_var x (int32 s)) (\<lambda>_.
     bindm (bindm (ev stop) loop_int) (\<lambda>e.
     bindm (bindm (ev step) loop_int) (\<lambda>st.
     bindm get_flow (\<lambda>f.
     bindm (if f = None then for_loop n ev x e st body else ret ()) (\<lambda>_.
     bindm (retain before) (\<lambda>_. ret VVoid))))))))"

definition eval_while :: "nat \<Rightarrow> 'h evaluator \<Rightarrow> expr \<Rightarrow> expr list \<Rightarrow> ('h, value) vmm" where
  "eval_while n ev c body =
     bindm get_scope (\<lambda>before.
     bindm (while_loop n ev c body) (\<lambda>_.
     bindm (retain before) (\<lambda>_. ret VVoid)))"

section \<open>Matches\<close>

definition match_type :: "match_arm list \<Rightarrow> string" where
  "match_type arms = (case arms of a # _ \<Rightarrow> before_dot (arm_member a) | [] \<Rightarrow> [])"

definition union_arm :: "union_def \<Rightarrow> nat \<Rightarrow> match_arm list \<Rightarrow> match_arm option" where
  "union_arm u tag arms =
     List.find (\<lambda>a. case nth_opt (ud_variants u) tag of Some w \<Rightarrow> vr_name w = after_dot (arm_member a) | None \<Rightarrow> False) arms"

definition enum_arm :: "enum_def \<Rightarrow> i64 \<Rightarrow> match_arm list \<Rightarrow> match_arm option" where
  "enum_arm d v arms =
     List.find (\<lambda>a. \<exists>mv \<in> set (ed_members d). fst mv = after_dot (arm_member a) \<and> of_i32 (snd mv) = v) arms"

definition arm_bindings :: "match_arm \<Rightarrow> value list \<Rightarrow> (string \<times> value) list" where
  "arm_bindings a vs =
     filter (\<lambda>(n, v). n \<noteq> ''_'') (zip (case arm_binders a of Some ns \<Rightarrow> ns | None \<Rightarrow> []) vs)"

fun insert_vars :: "(string \<times> value) list \<Rightarrow> ('h, unit) vmm" where
  "insert_vars [] = ret ()"
| "insert_vars ((x, v) # bs) = bindm (insert_var x v) (\<lambda>_. insert_vars bs)"

definition eval_chosen :: "'h evaluator \<Rightarrow> expr list option \<Rightarrow> expr list option \<Rightarrow> ('h, value) vmm" where
  "eval_chosen ev chosen els =
     (case chosen of
        Some body \<Rightarrow> eval_seq ev VVoid body
      | None \<Rightarrow> (case els of Some body \<Rightarrow> eval_seq ev VVoid body | None \<Rightarrow> fail EUnreachable))"

definition eval_match :: "ctx \<Rightarrow> 'h evaluator \<Rightarrow> expr \<Rightarrow> match_arm list \<Rightarrow> expr list option \<Rightarrow> ('h, value) vmm" where
  "eval_match cx ev subject arms els =
     bindm get_scope (\<lambda>before.
     bindm (ev subject) (\<lambda>v.
       case v of
         VInt i \<Rightarrow>
           retaining before
             (eval_chosen ev
                (case cx_enums cx (match_type arms) of
                   Some d \<Rightarrow> map_option arm_body (enum_arm d i arms)
                 | None \<Rightarrow> None) els)
       | VUnion tag vs \<Rightarrow>
           (case get_union (cx_structs cx) (match_type arms) of
              None \<Rightarrow> fail (EUnknown (match_type arms))
            | Some u \<Rightarrow>
                retaining before
                  (case union_arm u tag arms of
                     Some a \<Rightarrow> bindm (insert_vars (arm_bindings a vs)) (\<lambda>_. eval_seq ev VVoid (arm_body a))
                   | None \<Rightarrow> eval_chosen ev None els))
       | other \<Rightarrow> fail (EMatched other)))"

definition eval_match_result :: "'h evaluator \<Rightarrow> expr \<Rightarrow> string \<Rightarrow> expr list \<Rightarrow> string \<Rightarrow> expr list \<Rightarrow> ('h, value) vmm" where
  "eval_match_result ev e x ok_body y err_body =
     bindm (ev e) (\<lambda>v.
     bindm get_scope (\<lambda>before.
     retaining before
       (case v of
          VOk a \<Rightarrow> bindm (insert_var x a) (\<lambda>_. eval_seq ev VVoid ok_body)
        | VErr a \<Rightarrow> bindm (insert_var y a) (\<lambda>_. eval_seq ev VVoid err_body)
        | other \<Rightarrow> fail (EMatched other))))"

section \<open>Structs and arrays\<close>

definition the_struct :: "ctx \<Rightarrow> string \<Rightarrow> ('h, struct_def) vmm" where
  "the_struct cx n = lift_res (ok_or (get_struct (cx_structs cx) n) (EUnknown n))"

definition eval_pointer :: "ctx \<Rightarrow> 'h evaluator \<Rightarrow> expr \<Rightarrow> ('h, nat) vmm" where
  "eval_pointer cx ev e = bindm (ev e) (\<lambda>v. read_mem (\<lambda>m. deref (cx_structs cx) m v))"

definition eval_get :: "ctx \<Rightarrow> 'h evaluator \<Rightarrow> string \<Rightarrow> string \<Rightarrow> expr \<Rightarrow> ('h, value) vmm" where
  "eval_get cx ev sn fname e =
     bindm (the_struct cx sn) (\<lambda>def.
     bindm (lift_res (lift_lay (get_field_offset (cx_structs cx) def fname))) (\<lambda>(off, ft).
       if sd_is_value def
       then bindm (ev e) (\<lambda>v.
              case v of
                VRecord vs \<Rightarrow>
                  bindm (lift_res (ok_or (index_of (\<lambda>f. sf_name f = fname) (sd_fields def)) (EUnknown fname))) (\<lambda>k.
                  lift_res (at vs k))
              | other \<Rightarrow> fail (EOperand other))
       else bindm (eval_pointer cx ev e) (\<lambda>p. read_mem (\<lambda>m. load_val_at (cx_structs cx) m (p + off) ft))))"

definition eval_put :: "ctx \<Rightarrow> 'h evaluator \<Rightarrow> string \<Rightarrow> string \<Rightarrow> expr \<Rightarrow> expr \<Rightarrow> (string \<times> string) list \<Rightarrow> ('h, value) vmm" where
  "eval_put cx ev sn fname e val path =
     bindm (the_struct cx sn) (\<lambda>def.
     bindm (lift_res (lift_lay (get_field_offset (cx_structs cx) def fname))) (\<lambda>(off, ft).
     bindm (eval_pointer cx ev e) (\<lambda>p.
     bindm (lift_res (path_address (cx_structs cx) (p + off) ft path)) (\<lambda>(a, t).
     bindm (lift_res (check_write_address a (cx_heap_start cx))) (\<lambda>_.
     bindm (ev val) (\<lambda>v.
     bindm (run_mem (store_val_at (cx_structs cx) (cx_strings cx) a t v)) (\<lambda>_. ret VVoid)))))))"

definition eval_sizeof :: "ctx \<Rightarrow> ty \<Rightarrow> ('h, value) vmm" where
  "eval_sizeof cx t =
     bindm
       (case t of
          TStruct n \<Rightarrow>
            (if cx_enums cx n \<noteq> None then ret 4
             else bindm (the_struct cx n) (\<lambda>def. lift_res (lift_lay (get_struct_size (cx_structs cx) def))))
        | other \<Rightarrow> bindm (lift_res (lift_lay (type_size_and_align (cx_structs cx) other))) (\<lambda>sa. ret (fst sa)))
       (\<lambda>n. ret (VInt (word_of_nat n)))"

text \<open>The index, checked against the array's length before anything is read or written.\<close>

definition array_index :: "'h evaluator \<Rightarrow> nat \<Rightarrow> expr \<Rightarrow> ('h, nat) vmm" where
  "array_index ev p index =
     bindm (ev index) (\<lambda>v.
       case v of
         VInt i \<Rightarrow>
           (if p < 4 then fail (EArray p)
            else bindm (read_mem (\<lambda>m. array_len_at m p)) (\<lambda>count.
              if sint i < 0 \<or> sint count \<le> sint i then fail (EIndex i count) else ret (as_usize i)))
       | other \<Rightarrow> fail (EOperand other))"

definition elem_size :: "ctx \<Rightarrow> ty \<Rightarrow> ('h, nat) vmm" where
  "elem_size cx t = bindm (lift_res (lift_lay (type_size_and_align (cx_structs cx) t))) (\<lambda>sa. ret (fst sa))"

definition eval_arr_get :: "ctx \<Rightarrow> 'h evaluator \<Rightarrow> ty \<Rightarrow> expr \<Rightarrow> expr \<Rightarrow> ('h, value) vmm" where
  "eval_arr_get cx ev t e index =
     bindm (eval_pointer cx ev e) (\<lambda>p.
     bindm (array_index ev p index) (\<lambda>i.
     bindm (elem_size cx t) (\<lambda>n.
     read_mem (\<lambda>m. load_val_at (cx_structs cx) m (p + i * n) t))))"

definition arr_path :: "ctx \<Rightarrow> nat \<Rightarrow> ty \<Rightarrow> (string \<times> string) list \<Rightarrow> vm_error + nat \<times> ty" where
  "arr_path cx a t path = path_address (cx_structs cx) a t path"

definition eval_arr_set :: "ctx \<Rightarrow> 'h evaluator \<Rightarrow> ty \<Rightarrow> expr \<Rightarrow> expr \<Rightarrow> expr \<Rightarrow> (string \<times> string) list \<Rightarrow> ('h, value) vmm" where
  "eval_arr_set cx ev t e index val path =
     bindm (eval_pointer cx ev e) (\<lambda>p.
     bindm (array_index ev p index) (\<lambda>i.
     bindm (ev val) (\<lambda>v.
     bindm (elem_size cx t) (\<lambda>n.
     bindm (lift_res (arr_path cx (p + i * n) t path)) (\<lambda>(a, t').
     bindm (lift_res (check_write_address a (cx_heap_start cx))) (\<lambda>_.
     bindm (run_mem (store_val_at (cx_structs cx) (cx_strings cx) a t' v)) (\<lambda>_. ret VVoid)))))))"

definition eval_arr_len :: "ctx \<Rightarrow> 'h evaluator \<Rightarrow> expr \<Rightarrow> ('h, value) vmm" where
  "eval_arr_len cx ev e =
     bindm (eval_pointer cx ev e) (\<lambda>p.
       if p < 4 then fail (EArray p)
       else bindm (read_mem (\<lambda>m. array_len_at m p)) (\<lambda>n. ret (VInt n)))"

definition eval_cast :: "'h evaluator \<Rightarrow> ty \<Rightarrow> expr \<Rightarrow> expr option \<Rightarrow> ('h, value) vmm" where
  "eval_cast ev t e gen =
     (let fat = bindm (ev e) (\<lambda>v.
          case v of
            VInt i \<Rightarrow>
              (let a = ucast (ucast i :: u32) :: u64
               in bindm
                    (case gen of
                       Some g \<Rightarrow> bindm (ev g) (\<lambda>w.
                         case w of VInt j \<Rightarrow> ret (ucast (ucast j :: u32) :: u64) | other \<Rightarrow> fail (EOperand other))
                     | None \<Rightarrow> ret (if a = 0 then 0 else ucast gen_unchecked))
                    (\<lambda>g. ret (VInt64 (or a (push_bit 32 g)))))
          | other \<Rightarrow> fail (EOperand other))
      in case t of TPtr _ \<Rightarrow> fat | TArray _ \<Rightarrow> fat | _ \<Rightarrow> ev e)"

definition eval_addr :: "'h evaluator \<Rightarrow> expr \<Rightarrow> addr_kind \<Rightarrow> ('h, value) vmm" where
  "eval_addr ev e k =
     bindm (ev e) (\<lambda>v.
       let low = (case v of VInt64 f \<Rightarrow> ret (int32 (as_i32 f)) | other \<Rightarrow> fail (EPointer other));
           high = (case v of VInt64 f \<Rightarrow> ret (int32 (as_i32 (drop_bit 32 f))) | other \<Rightarrow> fail (EPointer other))
       in case k of AKPtr \<Rightarrow> low | AKArr \<Rightarrow> low | AKPtrGen \<Rightarrow> high | AKArrGen \<Rightarrow> high | AKEnum \<Rightarrow> ret v)"

definition eval_with :: "ctx \<Rightarrow> 'h evaluator \<Rightarrow> string \<Rightarrow> string \<Rightarrow> expr \<Rightarrow> expr \<Rightarrow> ('h, value) vmm" where
  "eval_with cx ev sn fname e new =
     bindm (ev e) (\<lambda>v.
       case v of
         VRecord vs \<Rightarrow>
           bindm (ev new) (\<lambda>x.
           bindm (the_struct cx sn) (\<lambda>def.
           bindm (lift_res (ok_or (index_of (\<lambda>f. sf_name f = fname) (sd_fields def)) (EUnknown fname))) (\<lambda>k.
           bindm (lift_res (put_at vs k x)) (\<lambda>vs'. ret (VRecord vs')))))
       | other \<Rightarrow> fail (EOperand other))"

definition eval_make :: "ctx \<Rightarrow> 'h evaluator \<Rightarrow> string \<Rightarrow> string \<Rightarrow> expr list \<Rightarrow> ('h, value) vmm" where
  "eval_make cx ev un vn args =
     bindm (lift_res (ok_or (get_union (cx_structs cx) un) (EUnknown un))) (\<lambda>u.
     bindm (lift_res (ok_or (index_of (\<lambda>w. vr_name w = vn) (ud_variants u)) (EUnknown vn))) (\<lambda>tag.
     bindm (eval_args ev args) (\<lambda>vs. ret (VUnion tag vs))))"

section \<open>Expressions\<close>

definition eval_lit :: "literal \<Rightarrow> value" where
  "eval_lit l =
     (case l of
        LInt i \<Rightarrow> int32 (as_i32 i)
      | LInt64 i \<Rightarrow> VInt64 i
      | LFloat f \<Rightarrow> VFloat f
      | LFloat32 f _ \<Rightarrow> VFloat32 f
      | LBool b \<Rightarrow> VBool b
      | LStr s \<Rightarrow> VStr s)"

definition eval_if :: "'h evaluator \<Rightarrow> expr \<Rightarrow> expr \<Rightarrow> expr \<Rightarrow> ('h, value) vmm" where
  "eval_if ev c t e =
     bindm (ev c) (\<lambda>v.
     bindm get_scope (\<lambda>before.
     retaining before (case v of VBool b \<Rightarrow> if b then ev t else ev e | _ \<Rightarrow> fail ECondition)))"

definition eval_let :: "'h evaluator \<Rightarrow> string \<Rightarrow> expr \<Rightarrow> ('h, value) vmm" where
  "eval_let ev x e =
     bindm (ev e) (\<lambda>v. bindm get_flow (\<lambda>f.
       bindm (if f = None then insert_var x v else ret ()) (\<lambda>_. ret VVoid)))"

definition eval_set :: "'h evaluator \<Rightarrow> string \<Rightarrow> expr \<Rightarrow> ('h, value) vmm" where
  "eval_set ev x e =
     bindm (ev e) (\<lambda>v. bindm get_flow (\<lambda>f. bindm get_scope (\<lambda>sc.
       if f \<noteq> None then ret VVoid
       else if sc x \<noteq> None then bindm (insert_var x v) (\<lambda>_. ret VVoid)
       else fail (ESetUndefined x))))"

definition eval_return :: "'h evaluator \<Rightarrow> expr option \<Rightarrow> ('h, value) vmm" where
  "eval_return ev e =
     bindm (case e of Some e \<Rightarrow> ev e | None \<Rightarrow> ret VVoid) (\<lambda>v.
     bindm get_flow (\<lambda>f.
       if f \<noteq> None then ret VVoid else bindm (set_flow (Some (FReturn v))) (\<lambda>_. ret VVoid)))"

definition eval_var :: "string \<Rightarrow> ('h, value) vmm" where
  "eval_var x = bindm get_scope (\<lambda>sc. lift_res (ok_or (sc x) (ENotInScope x)))"

definition eval_ref :: "ctx \<Rightarrow> string \<Rightarrow> ('h, value) vmm" where
  "eval_ref cx x =
     (case index_of (\<lambda>n. n = x) (cx_order cx) of
        Some i \<Rightarrow> ret (VInt (word_of_nat i))
      | None \<Rightarrow> fail (EUnknown x))"

definition eval_block :: "'h evaluator \<Rightarrow> expr list \<Rightarrow> ('h, value) vmm" where
  "eval_block ev es = bindm get_scope (\<lambda>before. retaining before (eval_seq ev VVoid es))"

definition eval_inner :: "ctx \<Rightarrow> 'h host \<Rightarrow> nat \<Rightarrow> 'h evaluator \<Rightarrow> expr \<Rightarrow> ('h, value) vmm" where
  "eval_inner cx ho n ev e =
     (case e of
        ELit l _ \<Rightarrow> ret (eval_lit l)
      | EVar x _ \<Rightarrow> eval_var x
      | ELet x _ val _ \<Rightarrow> eval_let ev x val
      | ESet x val _ \<Rightarrow> eval_set ev x val
      | EIf c t f _ \<Rightarrow> eval_if ev c t f
      | ELoop x start stop step body _ \<Rightarrow> eval_for n ev x start stop step body
      | EWhile c body _ \<Rightarrow> eval_while n ev c body
      | ECall f args _ \<Rightarrow> bindm (eval_args ev args) (invoke cx ho ev f)
      | EOp op args _ \<Rightarrow> eval_op cx ho ev op args
      | EOk val _ _ \<Rightarrow> bindm (ev val) (\<lambda>v. ret (VOk v))
      | EErr val _ _ \<Rightarrow> bindm (ev val) (\<lambda>v. ret (VErr v))
      | EMatchResult val x ok_body y err_body _ \<Rightarrow> eval_match_result ev val x ok_body y err_body
      | EBlock es _ \<Rightarrow> eval_block ev es
      | EUnsafe es _ \<Rightarrow> eval_block ev es
      | EGetField sn f p _ \<Rightarrow> eval_get cx ev sn f p
      | EPutField sn f p val path _ \<Rightarrow> eval_put cx ev sn f p val path
      | ESizeof t _ \<Rightarrow> eval_sizeof cx t
      | EArrGet t p i _ \<Rightarrow> eval_arr_get cx ev t p i
      | EArrSet t p i val path _ \<Rightarrow> eval_arr_set cx ev t p i val path
      | EArrLen p _ \<Rightarrow> eval_arr_len cx ev p
      | ENull _ _ \<Rightarrow> ret (VInt64 0)
      | ECast t a g _ \<Rightarrow> eval_cast ev t a g
      | ERecord _ args _ \<Rightarrow> bindm (eval_args ev args) (\<lambda>vs. ret (VRecord vs))
      | EWith sn f val new _ \<Rightarrow> eval_with cx ev sn f val new
      | EMake un vn args _ \<Rightarrow> eval_make cx ev un vn args
      | EMatch val arms els _ \<Rightarrow> eval_match cx ev val arms els
      | EReturn val _ \<Rightarrow> eval_return ev val
      | EBreak _ \<Rightarrow> bindm (set_flow (Some FBreak)) (\<lambda>_. ret VVoid)
      | EContinue _ \<Rightarrow> bindm (set_flow (Some FContinue)) (\<lambda>_. ret VVoid)
      | ERef x _ \<Rightarrow> eval_ref cx x
      | ECallRef _ f args _ \<Rightarrow>
          bindm (eval_args ev args) (\<lambda>vs. bindm (fn_ref_name cx ev f) (\<lambda>name. invoke cx ho ev name vs))
      | EAddr val k _ \<Rightarrow> eval_addr ev val k)"

fun eval :: "ctx \<Rightarrow> 'h host \<Rightarrow> nat \<Rightarrow> 'h evaluator" where
  "eval cx ho 0 e = diverge"
| "eval cx ho (Suc n) e = around e (eval_inner cx ho n (eval cx ho n) e)"

text \<open>\<^verbatim>\<open>invoke\<close> as the host calls it.\<close>

definition run :: "ctx \<Rightarrow> 'h host \<Rightarrow> nat \<Rightarrow> string \<Rightarrow> value list \<Rightarrow> ('h, value) vmm" where
  "run cx ho n name vs = invoke cx ho (eval cx ho n) name vs"

section \<open>Loading a module\<close>

text \<open>
  \<^verbatim>\<open>load_module\<close> on the context: functions added to the table in order (a name already there
  keeps its index), structs, unions and enums added, the sums laid out anew.
\<close>

fun add_functions :: "fn_def list \<Rightarrow> ctx \<Rightarrow> ctx" where
  "add_functions [] cx = cx"
| "add_functions (f # fs) cx =
     add_functions fs
       (cx\<lparr>cx_order := (if cx_functions cx (fd_name f) = None then cx_order cx @ [fd_name f] else cx_order cx),
           cx_functions := (cx_functions cx)(fd_name f \<mapsto> f)\<rparr>)"

end
