(* ===== verification/Fuel.thy ===== *)
theory Fuel
  imports Eval
begin

text \<open>
  More fuel never changes a result of the evaluator. \<open>le_run m m'\<close> says that \<open>m'\<close> returns
  whatever \<open>m\<close> returns; it is preserved by every combinator and handler, which the locale
  \<open>finer\<close> shows once for any two evaluators of which one refines the other.
\<close>

named_theorems mono_intros "rules for le_run"

definition le_run :: "('h, 'a) vmm \<Rightarrow> ('h, 'a) vmm \<Rightarrow> bool" where
  "le_run m m' \<longleftrightarrow> (\<forall>s r. m s = Some r \<longrightarrow> m' s = Some r)"

lemma le_run_refl [mono_intros]: "le_run m m"
  by (simp add: le_run_def)

lemma le_run_diverge [mono_intros]: "le_run diverge m"
  by (simp add: le_run_def diverge_def)

lemma le_run_trans: "le_run a b \<Longrightarrow> le_run b c \<Longrightarrow> le_run a c"
  by (simp add: le_run_def)

lemma le_run_bindm [mono_intros]:
  "le_run m m' \<Longrightarrow> (\<And>x. le_run (f x) (f' x)) \<Longrightarrow> le_run (bindm m f) (bindm m' f')"
  by (auto simp: le_run_def bindm_def split: option.splits sum.splits)

lemma le_run_retaining [mono_intros]: "le_run m m' \<Longrightarrow> le_run (retaining b m) (retaining b m')"
  by (auto simp: le_run_def retaining_def)

lemma le_run_in_scope [mono_intros]: "le_run m m' \<Longrightarrow> le_run (in_scope b m) (in_scope b m')"
  by (auto simp: le_run_def in_scope_def)

lemma le_run_if [mono_intros]:
  "(b \<Longrightarrow> le_run m m') \<Longrightarrow> (\<not> b \<Longrightarrow> le_run n n') \<Longrightarrow> le_run (if b then m else n) (if b then m' else n')"
  by simp

lemma le_run_option [mono_intros]:
  "le_run m m' \<Longrightarrow> (\<And>y. le_run (f y) (f' y)) \<Longrightarrow>
     le_run (case x of None \<Rightarrow> m | Some y \<Rightarrow> f y) (case x of None \<Rightarrow> m' | Some y \<Rightarrow> f' y)"
  by (cases x) simp_all

lemma le_run_prod [mono_intros]:
  "(\<And>a b. le_run (f a b) (f' a b)) \<Longrightarrow> le_run (case p of (a, b) \<Rightarrow> f a b) (case p of (a, b) \<Rightarrow> f' a b)"
  by (cases p) simp

lemma le_run_list [mono_intros]:
  "le_run m m' \<Longrightarrow> (\<And>y ys. le_run (f y ys) (f' y ys)) \<Longrightarrow>
     le_run (case x of [] \<Rightarrow> m | y # ys \<Rightarrow> f y ys) (case x of [] \<Rightarrow> m' | y # ys \<Rightarrow> f' y ys)"
  by (cases x) simp_all

lemma le_run_around [mono_intros]: "le_run m m' \<Longrightarrow> le_run (around e m) (around e m')"
  by (auto simp: le_run_def around_def split: option.splits prod.splits sum.splits)

locale finer =
  fixes ev ev' :: "'h evaluator"
  assumes ev_le [mono_intros]: "le_run (ev e) (ev' e)"
begin

lemma arg_le [mono_intros]: "le_run (arg ev args i) (arg ev' args i)"
  unfolding arg_def by (intro mono_intros)

lemma eval_seq_le [mono_intros]: "le_run (eval_seq ev v es) (eval_seq ev' v es)"
  by (induction es arbitrary: v) (auto intro!: mono_intros)

lemma eval_args_le [mono_intros]: "le_run (eval_args ev es) (eval_args ev' es)"
  by (induction es) (auto intro!: mono_intros)

lemma int_arg_le [mono_intros]: "le_run (int_arg ev op args i) (int_arg ev' op args i)"
  unfolding int_arg_def by (intro mono_intros)

lemma int_args_le [mono_intros]: "le_run (int_args ev op args i n) (int_args ev' op args i n)"
  by (induction n arbitrary: i) (auto intro!: mono_intros)

lemma print_args_le [mono_intros]: "le_run (print_args ev es) (print_args ev' es)"
  by (induction es) (auto intro!: mono_intros)

lemma env_addrs_le [mono_intros]: "le_run (env_addrs ev op es) (env_addrs ev' op es)"
proof (induction es)
  case (Cons e es)
  have "le_run (case v of VInt w \<Rightarrow> bindm (env_addrs ev op es) (\<lambda>as. ret (as_u32 w # as)) | _ \<Rightarrow> fail (EOperands (OpEnv op)))
      (case v of VInt w \<Rightarrow> bindm (env_addrs ev' op es) (\<lambda>as. ret (as_u32 w # as)) | _ \<Rightarrow> fail (EOperands (OpEnv op)))" for v
    by (cases v) (auto intro!: mono_intros Cons.IH)
  then show ?case by (auto intro!: mono_intros)
qed (simp add: mono_intros)

lemma eval_mem_le [mono_intros]: "le_run (eval_mem cx ev op args) (eval_mem cx ev' op args)"
  unfolding eval_mem_def load_op_def store_op_def by (cases op) (auto intro!: mono_intros)

lemma eval_atomic_le [mono_intros]: "le_run (eval_atomic cx ev op args) (eval_atomic cx ev' op args)"
  unfolding eval_atomic_def atomic_ptr_def Let_def by (cases op) (auto intro!: mono_intros)

lemma eval_logic_le [mono_intros]: "le_run (eval_logic ev op args) (eval_logic ev' op args)"
  unfolding eval_logic_def by (intro mono_intros, auto split: "value.split" intro!: mono_intros)

lemma fn_ref_name_le [mono_intros]: "le_run (fn_ref_name cx ev e) (fn_ref_name cx ev' e)"
  unfolding fn_ref_name_def by (intro mono_intros)

lemma eval_sys_le [mono_intros]: "le_run (eval_sys ho ev op args) (eval_sys ho ev' op args)"
  unfolding eval_sys_def by (cases op) (auto intro!: mono_intros)

lemma eval_fs_le [mono_intros]: "le_run (eval_fs ho ev op args) (eval_fs ho ev' op args)"
  unfolding eval_fs_def by (intro mono_intros)

lemma eval_thread_le [mono_intros]: "le_run (eval_thread cx ho ev op args) (eval_thread cx ho ev' op args)"
  unfolding eval_thread_def by (cases op) (auto intro!: mono_intros)

lemma eval_env_le [mono_intros]: "le_run (eval_env cx ev op args) (eval_env cx ev' op args)"
  unfolding eval_env_def by (intro mono_intros)

lemma eval_str_le [mono_intros]: "le_run (eval_str cx ev op args) (eval_str cx ev' op args)"
  unfolding eval_str_def by (intro mono_intros)

lemma eval_abort_le [mono_intros]: "le_run (eval_abort ev args) (eval_abort ev' args)"
  unfolding eval_abort_def by (intro mono_intros)

lemma eval_op_le [mono_intros]: "le_run (eval_op cx ho ev op args) (eval_op cx ho ev' op args)"
  unfolding eval_op_def binary_def unary_def by (cases op) (auto intro!: mono_intros)

lemma check_contract_le [mono_intros]: "le_run (check_contract ev name f own r ke) (check_contract ev' name f own r ke)"
  unfolding check_contract_def by (intro mono_intros)

lemma entry_contracts_le [mono_intros]: "le_run (entry_contracts ev name f cs) (entry_contracts ev' name f cs)"
  by (induction cs) (auto intro!: mono_intros)

lemma exit_contracts_le [mono_intros]: "le_run (exit_contracts ev name f r cs) (exit_contracts ev' name f r cs)"
  by (induction cs) (auto intro!: mono_intros)

lemma run_body_le [mono_intros]: "le_run (run_body ev v es) (run_body ev' v es)"
proof (induction es arbitrary: v)
  case (Cons e es)
  then show ?case
    by (simp only: run_body.simps, intro mono_intros) (auto split: flow.split intro!: mono_intros)
qed (simp add: mono_intros)

lemma invoke_body_le [mono_intros]: "le_run (invoke_body cx ev n vs) (invoke_body cx ev' n vs)"
  unfolding invoke_body_def by (intro mono_intros)

lemma invoke_function_le: "le_run (invoke_function cx ev n vs) (invoke_function cx ev' n vs)"
  using invoke_body_le [of cx n vs]
  by (auto simp: le_run_def invoke_function_def split: option.splits)

lemma invoke_le [mono_intros]: "le_run (invoke cx ho ev n vs) (invoke cx ho ev' n vs)"
  using invoke_function_le [of cx n vs]
  by (auto simp: le_run_def invoke_def)

lemma iteration_le [mono_intros]: "le_run (iteration ev body) (iteration ev' body)"
  unfolding iteration_def by (intro mono_intros)

lemma for_loop_le [mono_intros]: "n \<le> n' \<Longrightarrow> le_run (for_loop n ev x a b body) (for_loop n' ev' x a b body)"
proof (induction n arbitrary: n')
  case (Suc n)
  then obtain k where "n' = Suc k" "n \<le> k" by (cases n') auto
  with Suc.IH show ?case by (auto intro!: mono_intros)
qed (simp add: mono_intros)

lemma while_loop_le [mono_intros]: "n \<le> n' \<Longrightarrow> le_run (while_loop n ev c body) (while_loop n' ev' c body)"
proof (induction n arbitrary: n')
  case (Suc n)
  then obtain k where "n' = Suc k" "n \<le> k" by (cases n') auto
  with Suc.IH show ?case by (auto intro!: mono_intros)
qed (simp add: mono_intros)

lemma eval_match_le [mono_intros]: "le_run (eval_match cx ev e arms els) (eval_match cx ev' e arms els)"
  unfolding eval_match_def eval_chosen_def
  by (intro mono_intros, auto split: "value.split" option.split intro!: mono_intros)

lemma eval_match_result_le [mono_intros]:
  "le_run (eval_match_result ev e x b1 y b2) (eval_match_result ev' e x b1 y b2)"
  unfolding eval_match_result_def by (intro mono_intros, auto split: "value.split" intro!: mono_intros)

lemma eval_pointer_le [mono_intros]: "le_run (eval_pointer cx ev e) (eval_pointer cx ev' e)"
  unfolding eval_pointer_def by (intro mono_intros)

lemma array_index_le [mono_intros]: "le_run (array_index ev p e) (array_index ev' p e)"
  unfolding array_index_def by (intro mono_intros)

lemma eval_get_le [mono_intros]: "le_run (eval_get cx ev sn f e) (eval_get cx ev' sn f e)"
  unfolding eval_get_def by (intro mono_intros)

lemma eval_put_le [mono_intros]: "le_run (eval_put cx ev sn f e v path) (eval_put cx ev' sn f e v path)"
  unfolding eval_put_def by (intro mono_intros)

lemma eval_arr_get_le [mono_intros]: "le_run (eval_arr_get cx ev t e i) (eval_arr_get cx ev' t e i)"
  unfolding eval_arr_get_def by (intro mono_intros)

lemma eval_arr_set_le [mono_intros]: "le_run (eval_arr_set cx ev t e i v path) (eval_arr_set cx ev' t e i v path)"
  unfolding eval_arr_set_def by (intro mono_intros)

lemma eval_arr_len_le [mono_intros]: "le_run (eval_arr_len cx ev e) (eval_arr_len cx ev' e)"
  unfolding eval_arr_len_def by (intro mono_intros)

lemma eval_cast_le [mono_intros]: "le_run (eval_cast ev t e g) (eval_cast ev' t e g)"
  unfolding eval_cast_def Let_def
  by (cases t) (auto split: "value.split" intro!: mono_intros)

lemma eval_addr_le [mono_intros]: "le_run (eval_addr ev e k) (eval_addr ev' e k)"
  unfolding eval_addr_def by (intro mono_intros)

lemma eval_with_le [mono_intros]: "le_run (eval_with cx ev sn f e v) (eval_with cx ev' sn f e v)"
  unfolding eval_with_def by (intro mono_intros, auto split: "value.split" intro!: mono_intros)

lemma eval_inner_le [mono_intros]:
  "n \<le> n' \<Longrightarrow> le_run (eval_inner cx ho n ev e) (eval_inner cx ho n' ev' e)"
  unfolding eval_inner_def eval_let_def eval_set_def eval_if_def eval_for_def eval_while_def
    eval_make_def eval_return_def eval_block_def
  by (cases e) (auto split: "value.split" option.split intro!: mono_intros)

end

lemma eval_finer: "finer (eval cx ho n) (eval cx ho (Suc n))"
proof (induction n)
  case 0
  show ?case by (standard) (simp add: mono_intros)
next
  case (Suc n)
  show ?case
    by standard (simp only: eval.simps, intro le_run_around finer.eval_inner_le [OF Suc] le_SucI order_refl)
qed

interpretation fuel: finer "eval cx ho n" "eval cx ho (Suc n)" for cx ho n
  by (rule eval_finer)

lemma eval_le: "n \<le> n' \<Longrightarrow> le_run (eval cx ho n e) (eval cx ho n' e)"
proof (induction n' rule: nat_induct_at_least)
  case (Suc k)
  show ?case by (rule le_run_trans [OF Suc.IH fuel.ev_le])
qed (rule le_run_refl)

interpretation more_fuel: finer "eval cx ho n" "eval cx ho (n + k)" for cx ho n k
  by standard (simp add: eval_le)

lemma run_le: "n \<le> n' \<Longrightarrow> le_run (run cx ho n f vs) (run cx ho n' f vs)"
  unfolding run_def by (rule finer.invoke_le, standard, erule eval_le)

end
