(* ===== verification/Memory_Facts.thy ===== *)
theory Memory_Facts
  imports Memory
begin

text \<open>
  What every operation on the linear memory keeps (\<open>mem_ok\<close>: a whole number of pages, at most
  2 GiB), that memory never shrinks (\<open>mem_le\<close>), what the allocator hands out, and that a load
  after a store gives the value back.
\<close>

section \<open>The shape of the memory\<close>

definition mem_ok :: "mem \<Rightarrow> bool" where
  "mem_ok m \<longleftrightarrow> page_size dvd length (mm_bytes m) \<and> page_size \<le> length (mm_bytes m)
     \<and> length (mm_bytes m) \<le> max_pages * page_size \<and> mm_max_pages m \<le> max_pages"

definition mem_le :: "mem \<Rightarrow> mem \<Rightarrow> bool" where
  "mem_le m m' \<longleftrightarrow> mm_max_pages m' = mm_max_pages m \<and>
     (mem_ok m \<longrightarrow> mem_ok m' \<and> length (mm_bytes m) \<le> length (mm_bytes m'))"

lemma mem_le_refl [simp, wf_intros]: "mem_le m m"
  by (simp add: mem_le_def)

lemma mem_le_trans: "mem_le m n \<Longrightarrow> mem_le n k \<Longrightarrow> mem_le m k"
  by (auto simp: mem_le_def)

lemma mem_ok_new: "mem_ok mem_new"
  by (simp add: mem_ok_def mem_new_def page_size_def max_pages_def initial_pages_def heap_ptr_addr_def)

lemma length_write_raw [simp]:
  "in_memory m a (length bs) \<Longrightarrow> length (mm_bytes (write_raw a bs m)) = length (mm_bytes m)"
  by (simp add: write_raw_def in_memory_def)

lemma in_memory_write_raw [simp]:
  "in_memory m a (length bs) \<Longrightarrow> in_memory (write_raw a bs m) b n = in_memory m b n"
  by (simp add: in_memory_def)

lemma write_raw_max [simp]: "mm_max_pages (write_raw a bs m) = mm_max_pages m"
  by (simp add: write_raw_def)

lemma mem_le_write_raw [wf_intros]: "in_memory m a (length bs) \<Longrightarrow> mem_le m (write_raw a bs m)"
  by (simp add: mem_le_def mem_ok_def)

lemma length_resize [simp]: "length (resize n bs) = n"
  by (simp add: resize_def)

lemma mem_le_resize:
  assumes "length (mm_bytes m) div page_size + n \<le> mm_max_pages m"
  shows "mem_le m (m\<lparr>mm_bytes := resize ((length (mm_bytes m) div page_size + n) * page_size) (mm_bytes m)\<rparr>)"
  using assms
  by (auto simp: mem_le_def mem_ok_def page_size_def max_pages_def elim!: dvdE)

lemma mem_le_grow_for [wf_intros]: "mem_le m (grow_for nxt m)"
  by (auto simp: grow_for_def Let_def intro: mem_le_resize)

text \<open>An operation keeps the memory's shape whatever it returns.\<close>

definition mem_step :: "'a memop \<Rightarrow> bool" where
  "mem_step f \<longleftrightarrow> (\<forall>m. mem_le m (snd (f m)))"

lemma mem_step_mret [wf_intros]: "mem_step (mret x)"
  by (simp add: mem_step_def mret_def)

lemma mem_step_mfail [wf_intros]: "mem_step (mfail e)"
  by (simp add: mem_step_def mfail_def)

lemma mem_step_mlift [wf_intros]: "mem_step (mlift r)"
  by (simp add: mem_step_def mlift_def)

lemma mem_step_mbind [wf_intros]: "mem_step f \<Longrightarrow> (\<And>x. mem_step (g x)) \<Longrightarrow> mem_step (mbind f g)"
  unfolding mem_step_def mbind_def
  by (auto split: prod.split sum.split) (metis mem_le_trans snd_conv)+

lemma mem_step_write_bytes [wf_intros]: "mem_step (write_bytes a bs)"
  by (simp add: mem_step_def write_bytes_def mem_le_write_raw)

lemma mem_step_store_raw [wf_intros]: "mem_step (store_raw a bs)"
  by (simp add: mem_step_def store_raw_def mem_le_write_raw)

lemma mem_step_store_at [wf_intros]:
  "(\<And>b. bs = Some b \<Longrightarrow> length b = n) \<Longrightarrow> mem_step (store_at a n t v bs)"
  by (auto simp: mem_step_def store_at_def mem_le_write_raw split: option.split)

lemma mem_step_alloc [wf_intros]: "mem_step (alloc_bytes n)"
  unfolding mem_step_def alloc_bytes_def Let_def
  by (auto intro!: mem_le_trans [OF mem_le_write_raw mem_le_grow_for])

lemma mem_step_mem_alloc [wf_intros]: "mem_step (mem_alloc i)"
  unfolding mem_alloc_def
  by (rule mem_step_mbind [OF mem_step_alloc]) (simp add: mem_step_def)

lemma mem_step_mem_grow [wf_intros]: "mem_step (mem_grow i)"
  by (auto simp: mem_step_def mem_grow_def Let_def intro!: mem_le_resize)

lemma mem_step_materialize [wf_intros]: "mem_step (materialize_str strs s)"
proof (cases "strs s")
  case None
  have "mem_le m (write_raw (b + 4) bs (write_raw b (le_bytes 4 (w :: u32)) m))"
    if "b + 4 + length bs \<le> length (mm_bytes m)" for b bs w m
    using that by (intro mem_le_trans [OF mem_le_write_raw mem_le_write_raw]) (simp_all add: in_memory_def)
  then show ?thesis unfolding materialize_str_def None option.case Let_def
    by (intro mem_step_mbind [OF mem_step_alloc]) (auto simp: mem_step_def)
qed (simp add: materialize_str_def mem_step_mret)

lemma scalar_bytes_length:
  "word_bytes v = Some b \<Longrightarrow> length b = 4" "bool_bytes v = Some b \<Longrightarrow> length b = 4"
  "long_bytes v = Some b \<Longrightarrow> length b = 8" "f32_bytes v = Some b \<Longrightarrow> length b = 4"
  "f64_bytes v = Some b \<Longrightarrow> length b = 8"
  "narrow_bytes (narrow_size n) v = Some b \<Longrightarrow> length b = narrow_size n"
  by (cases v; auto; cases n; auto)+

lemma mem_step_store_scalar [wf_intros]: "mem_step (store_scalar a t v)"
  unfolding store_scalar_def
  by (cases t) (auto intro!: wf_intros dest: scalar_bytes_length)

lemma mem_step_str_value [wf_intros]: "mem_step (str_value strs t v)"
  unfolding str_value_def by (auto split: ty.split "value.split" intro!: wf_intros)

lemma mem_step_store_slots [wf_intros]: "mem_step (store_slots a slots vs)"
  by (induction a slots vs rule: store_slots.induct) (auto intro!: wf_intros)

lemma mem_step_store_val [wf_intros]:
  "mem_step (store_val_at st strs a t v)"
  "mem_step (store_fields st strs a def fs vs)"
proof (induction st strs a t v and st strs a def fs vs rule: store_val_at_store_fields.induct)
  case (1 st strs a t v)
  then show ?case
    by (subst store_val_at.simps)
      (auto split: option.split "value.split" intro!: wf_intros)
qed (auto intro!: wf_intros split: prod.split)

lemma mem_step_wasi_write: "mem_step (wasi_write ss a b)"
  by (induction ss arbitrary: a b) (auto intro!: wf_intros)

lemma mem_step_wasi [wf_intros]: "mem_step (wasi_strings items sizes a b)"
proof -
  have "mem_step (mbind (wasi_write items a b) (\<lambda>_. mret (VInt 0)))"
    by (intro wf_intros mem_step_wasi_write)
  moreover have "mem_step (mbind (write_bytes a (le_bytes 4 (word_of_nat (length items) :: u32)))
      (\<lambda>_. mbind (write_bytes b (le_bytes 4 (word_of_nat (wasi_total items) :: u32))) (\<lambda>_. mret (VInt 0))))"
    by (intro wf_intros)
  ultimately show ?thesis unfolding mem_step_def wasi_strings_def Let_def by simp
qed

end
