(* ===== verification/Safety.thy ===== *)
theory Safety
  imports Fuel Memory_Facts
begin

text \<open>
  What every evaluation keeps, whatever it returns and whatever the program does: the memory
  stays a whole number of pages within the cap and never shrinks, the call depth is restored,
  and no variable of the scope goes away. \<open>safe K m\<close> states it for a step \<open>m\<close> and the
  variables \<open>K\<close>; the locale \<open>safe_evaluator\<close> derives it for every handler, and \<open>eval\<close>
  interprets it.
\<close>

named_theorems safe_intros "rules for safe"

definition evolves :: "string set \<Rightarrow> 'h vm \<times> scope \<Rightarrow> 'h vm \<times> scope \<Rightarrow> bool" where
  "evolves K s s' \<longleftrightarrow> mem_le (vm_mem (fst s)) (vm_mem (fst s')) \<and> vm_depth (fst s') = vm_depth (fst s)
     \<and> K \<subseteq> dom (snd s')"

definition safe :: "string set \<Rightarrow> ('h, 'a) vmm \<Rightarrow> bool" where
  "safe K m \<longleftrightarrow> (\<forall>s r s'. K \<subseteq> dom (snd s) \<longrightarrow> m s = Some (r, s') \<longrightarrow> evolves K s s')"

lemma evolves_trans: "evolves K s t \<Longrightarrow> evolves K t u \<Longrightarrow> evolves K s u"
  by (auto simp: evolves_def intro: mem_le_trans)

lemma safe_ret [safe_intros]: "safe K (ret x)"
  by (simp add: safe_def ret_def evolves_def)

lemma safe_fail [safe_intros]: "safe K (fail e)"
  by (simp add: safe_def fail_def evolves_def)

lemma safe_diverge [safe_intros]: "safe K diverge"
  by (simp add: safe_def diverge_def)

lemma safe_lift_res [safe_intros]: "safe K (lift_res r)"
  by (simp add: safe_def lift_res_def evolves_def)

lemma safe_read_mem [safe_intros]: "safe K (read_mem f)"
  by (simp add: safe_def read_mem_def evolves_def split: prod.split)

lemma safe_run_mem [safe_intros]: "mem_step f \<Longrightarrow> safe K (run_mem f)"
  by (auto simp: safe_def run_mem_def evolves_def mem_step_def split: prod.splits) (metis snd_conv)

lemma safe_get_flow [safe_intros]: "safe K get_flow"
  by (simp add: safe_def get_flow_def evolves_def split: prod.split)

lemma safe_get_scope: "safe K get_scope"
  by (simp add: safe_def get_scope_def evolves_def split: prod.split)

lemma safe_set_flow [safe_intros]: "safe K (set_flow f)"
  by (simp add: safe_def set_flow_def evolves_def split: prod.split)

lemma safe_set_error_at [safe_intros]: "safe K (set_error_at p)"
  by (simp add: safe_def set_error_at_def evolves_def split: prod.split)

lemma safe_insert_var [safe_intros]: "safe K (insert_var x a)"
  by (auto simp: safe_def insert_var_def evolves_def)

lemma safe_bindm [safe_intros]:
  assumes "safe K m" "\<And>x. safe K (f x)"
  shows "safe K (bindm m f)"
  unfolding safe_def
proof (intro allI impI)
  fix s r s' assume K: "K \<subseteq> dom (snd s)" and b: "bindm m f s = Some (r, s')"
  then obtain q t where m: "m s = Some (q, t)" by (auto simp: bindm_def split: option.splits)
  from assms(1) K m have e: "evolves K s t" unfolding safe_def by blast
  show "evolves K s s'"
  proof (cases q)
    case (Inl a)
    with b m e show ?thesis by (simp add: bindm_def)
  next
    case (Inr x)
    with b m have "f x t = Some (r, s')" by (simp add: bindm_def)
    moreover have "K \<subseteq> dom (snd t)" using e by (simp add: evolves_def)
    ultimately have "evolves K t s'" using assms(2) unfolding safe_def by blast
    with e show ?thesis by (rule evolves_trans)
  qed
qed

text \<open>The scope that is read binds the variables of \<open>K\<close>, so cutting a scope back to it keeps them.\<close>

lemma safe_bind_get_scope [safe_intros]:
  "(\<And>before. K \<subseteq> dom before \<Longrightarrow> safe K (f before)) \<Longrightarrow> safe K (bindm get_scope f)"
  by (auto simp: safe_def bindm_def get_scope_def split: prod.splits)

lemma safe_retain [safe_intros]: "K \<subseteq> dom before \<Longrightarrow> safe K (retain before)"
  by (auto simp: safe_def retain_def evolves_def keep_keys_def)

lemma safe_retaining [safe_intros]: "K \<subseteq> dom before \<Longrightarrow> safe K m \<Longrightarrow> safe K (retaining before m)"
  by (auto simp: safe_def retaining_def evolves_def keep_keys_def; blast)

lemma safe_in_scope [safe_intros]: "safe {} m \<Longrightarrow> safe K (in_scope own m)"
  by (auto simp: safe_def in_scope_def evolves_def; metis fst_conv)

lemma safe_if [safe_intros]: "(b \<Longrightarrow> safe K m) \<Longrightarrow> (\<not> b \<Longrightarrow> safe K n) \<Longrightarrow> safe K (if b then m else n)"
  by simp

lemma safe_option [safe_intros]:
  "safe K m \<Longrightarrow> (\<And>y. safe K (f y)) \<Longrightarrow> safe K (case x of None \<Rightarrow> m | Some y \<Rightarrow> f y)"
  by (cases x) simp_all

lemma safe_prod [safe_intros]: "(\<And>a b. safe K (f a b)) \<Longrightarrow> safe K (case p of (a, b) \<Rightarrow> f a b)"
  by (cases p) simp

lemma safe_list [safe_intros]:
  "safe K m \<Longrightarrow> (\<And>y ys. safe K (f y ys)) \<Longrightarrow> safe K (case x of [] \<Rightarrow> m | y # ys \<Rightarrow> f y ys)"
  by (cases x) simp_all

lemma safe_value [safe_intros]:
  assumes "\<And>a. safe K (f1 a)" "\<And>a. safe K (f2 a)" "\<And>a. safe K (f3 a)" "\<And>a. safe K (f4 a)"
    "\<And>a. safe K (f5 a)" "\<And>a. safe K (f6 a)" "\<And>a. safe K (f7 a)" "\<And>a b. safe K (f8 a b)"
    "\<And>a. safe K (f9 a)" "\<And>a. safe K (f10 a)" "safe K f11"
  shows "safe K (case_value f1 f2 f3 f4 f5 f6 f7 f8 f9 f10 f11 v)"
  using assms by (cases v) simp_all

lemma safe_around [safe_intros]:
  assumes "safe K m"
  shows "safe K (around e m)"
  unfolding safe_def
proof (intro allI impI)
  fix s r s' assume K: "K \<subseteq> dom (snd s)" and a: "around e m s = Some (r, s')"
  obtain v sc where s: "s = (v, sc)" by fastforce
  show "evolves K s s'"
  proof (cases "vm_flow v = None")
    case True
    with a obtain q v' sc' where m: "m s = Some (q, v', sc')"
      by (auto simp: around_def s split: option.splits)
    with assms K have "evolves K s (v', sc')" unfolding safe_def by blast
    with a m True show ?thesis
      by (auto simp: around_def s evolves_def split: sum.splits if_splits)
  qed (use a K in \<open>auto simp: around_def s evolves_def\<close>)
qed

lemma mem_step_host_writes [wf_intros]: "mem_step (host_writes ws)"
  by (induction ws rule: host_writes.induct) (auto intro!: wf_intros)

lemma safe_host_call [safe_intros]: "safe K (host_call ho op vs)"
  unfolding safe_def
proof (intro allI impI)
  fix s r s' assume K: "K \<subseteq> dom (snd s)" and c: "host_call ho op vs s = Some (r, s')"
  obtain v sc where s: "s = (v, sc)" by fastforce
  obtain q h ws where h: "ho_call ho op vs (vm_host v) (vm_mem v) = (q, h, ws)" by (metis prod_cases3)
  have "safe K (bindm (run_mem (host_writes ws)) (\<lambda>_. lift_res q) :: ('a, value) vmm)"
    by (intro safe_intros wf_intros)
  with K c have "evolves K (v\<lparr>vm_host := h\<rparr>, sc) s'"
    unfolding safe_def host_call_def s by (cases s') (auto simp: h)
  then show "evolves K s s'" by (simp add: evolves_def s)
qed

lemma mem_step_spawn_record [wf_intros]: "mem_step (spawn_record cx name x)"
  unfolding spawn_record_def Let_def by (intro wf_intros)

lemma safe_fill_random [safe_intros]: "safe K (fill_random ho p n)"
  by (auto simp: safe_def fill_random_def evolves_def Let_def mem_le_write_raw split: prod.splits option.splits if_splits)

lemma mem_step_poll_clock [wf_intros]: "mem_step (poll_clock a b c d)"
proof -
  have "mem_step (mbind (write_bytes b x) (\<lambda>_. mbind (write_bytes d (le_bytes 4 (1 :: u32))) (\<lambda>_. mret (VInt 0))))" for x
    by (intro wf_intros)
  then show ?thesis unfolding mem_step_def poll_clock_def Let_def by simp
qed

lemma mem_step_atomics [wf_intros]:
  "mem_step (atomic_add p x)" "mem_step (atomic_cas p x y)" "mem_step (lock_attempt p)" "mem_step (atomic_unlock p)"
  by (auto simp: mem_step_def atomic_add_def atomic_cas_def lock_attempt_def atomic_unlock_def read_bytes_def
      Let_def mem_le_write_raw)

lemma mem_step_store_int [wf_intros]: "mem_step (store_int op f p v)" "mem_step (store_int64 p v)"
  unfolding store_int_def store_int64_def by (cases v; auto intro!: wf_intros)+

locale safe_evaluator =
  fixes ev :: "'h evaluator"
  assumes ev_safe [safe_intros]: "safe K (ev e)"
begin

lemma arg_safe [safe_intros]: "safe K (arg ev args i)"
  unfolding arg_def by (intro safe_intros)

lemma eval_seq_safe [safe_intros]: "safe K (eval_seq ev v es)"
  by (induction es arbitrary: v) (auto intro!: safe_intros)

lemma eval_args_safe [safe_intros]: "safe K (eval_args ev es)"
  by (induction es) (auto intro!: safe_intros)

lemma int_arg_safe [safe_intros]: "safe K (int_arg ev op args i)"
  unfolding int_arg_def by (intro safe_intros)

lemma int_args_safe [safe_intros]: "safe K (int_args ev op args i n)"
  by (induction n arbitrary: i) (auto intro!: safe_intros)

lemma print_args_safe [safe_intros]: "safe K (print_args ev es)"
proof (induction es)
  case (Cons e es)
  have "safe K (\<lambda>(v, sc). Some (Inr (), v\<lparr>vm_out := vm_out v @ [x]\<rparr>, sc))" for x
    by (auto simp: safe_def evolves_def)
  with Cons show ?case by (auto intro!: safe_intros)
qed (simp add: safe_intros)

lemma env_addrs_safe [safe_intros]: "safe K (env_addrs ev op es)"
proof (induction es)
  case (Cons e es)
  then show ?case unfolding env_addrs.simps by (intro safe_intros)
qed (simp add: safe_intros)

lemma eval_mem_safe [safe_intros]: "safe K (eval_mem cx ev op args)"
  unfolding eval_mem_def load_op_def store_op_def by (cases op) (auto intro!: safe_intros wf_intros)

lemma eval_atomic_safe [safe_intros]: "safe K (eval_atomic cx ev op args)"
  unfolding eval_atomic_def atomic_ptr_def Let_def by (cases op) (auto intro!: safe_intros wf_intros)

lemma eval_logic_safe [safe_intros]: "safe K (eval_logic ev op args)"
  unfolding eval_logic_def by (intro safe_intros)

lemma fn_ref_name_safe [safe_intros]: "safe K (fn_ref_name cx ev e)"
  unfolding fn_ref_name_def by (intro safe_intros)

lemma eval_sys_safe [safe_intros]: "safe K (eval_sys ho ev op args)"
  unfolding eval_sys_def by (cases op) (auto intro!: safe_intros wf_intros)

lemma eval_fs_safe [safe_intros]: "safe K (eval_fs ho ev op args)"
  unfolding eval_fs_def by (intro safe_intros)

lemma eval_thread_safe [safe_intros]: "safe K (eval_thread cx ho ev op args)"
  unfolding eval_thread_def by (cases op) (auto intro!: safe_intros wf_intros)

lemma eval_env_safe [safe_intros]: "safe K (eval_env cx ev op args)"
  unfolding eval_env_def Let_def by (intro safe_intros wf_intros)

lemma eval_str_safe [safe_intros]: "safe K (eval_str cx ev op args)"
  unfolding eval_str_def by (cases op) (auto intro!: safe_intros wf_intros)

lemma eval_abort_safe [safe_intros]: "safe K (eval_abort ev args)"
  unfolding eval_abort_def by (intro safe_intros)

lemma eval_op_safe [safe_intros]: "safe K (eval_op cx ho ev op args)"
  unfolding eval_op_def binary_def unary_def by (cases op) (auto intro!: safe_intros)

lemma check_contract_safe [safe_intros]: "safe K (check_contract ev name f own r ke)"
  unfolding check_contract_def by (intro safe_intros)

lemma entry_contracts_safe [safe_intros]: "safe K (entry_contracts ev name f cs)"
  by (induction cs) (auto intro!: safe_intros)

lemma exit_contracts_safe [safe_intros]: "safe K (exit_contracts ev name f r cs)"
  by (induction cs) (auto intro!: safe_intros)

lemma run_body_safe [safe_intros]: "safe K (run_body ev v es)"
proof (induction es arbitrary: v)
  case (Cons e es)
  then show ?case
    by (simp only: run_body.simps, intro safe_intros) (auto split: flow.split intro!: safe_intros)
qed (simp add: safe_intros)

lemma invoke_body_safe: "safe K (invoke_body cx ev n vs)"
  unfolding invoke_body_def by (intro safe_intros)

lemma invoke_function_safe: "safe K (invoke_function cx ev n vs)"
  unfolding safe_def invoke_function_def
proof (intro allI impI, goal_cases)
  case (1 s r s')
  then obtain q v sc where b: "invoke_body cx ev n vs s = Some (q, v, sc)"
    by (auto split: option.splits)
  with invoke_body_safe [of K cx n vs] 1(1) have "evolves K s (v, sc)"
    unfolding safe_def by blast
  with 1(2) b show ?case
    by (auto simp: evolves_def push_frame_def split: sum.splits if_splits)
qed

lemma invoke_safe [safe_intros]: "safe K (invoke cx ho ev n vs)"
  unfolding safe_def
proof (intro allI impI)
  fix s r s' assume K: "K \<subseteq> dom (snd s)" and i: "invoke cx ho ev n vs s = Some (r, s')"
  obtain v sc where s: "s = (v, sc)" by fastforce
  show "evolves K s s'"
  proof (cases "vm_flow v \<noteq> None \<or> vm_depth v \<noteq> 0 \<and> ho_exhausted ho (vm_depth v)")
    case True
    with i K show ?thesis by (auto simp: invoke_def s evolves_def split: if_splits)
  next
    case False
    define w where "w = (if vm_depth v = 0 then v\<lparr>vm_error_at := None, vm_trace := [], vm_depth := 1\<rparr>
                         else v\<lparr>vm_depth := Suc (vm_depth v)\<rparr>)"
    from i False obtain v' sc' where f: "invoke_function cx ev n vs (w, sc) = Some (r, v', sc')"
      and s': "s' = (v'\<lparr>vm_depth := vm_depth v\<rparr>, sc')"
      by (auto simp: invoke_def s w_def split: if_splits)
    from invoke_function_safe [of K cx n vs] f K have "evolves K (w, sc) (v', sc')"
      unfolding safe_def s by auto
    then show ?thesis by (auto simp: evolves_def s s' w_def split: if_splits)
  qed
qed

lemma after_body_safe [safe_intros]: "safe K after_body"
  unfolding after_body_def by (intro safe_intros) (auto split: flow.split intro!: safe_intros)

lemma iteration_safe [safe_intros]: "safe K (iteration ev body)"
  unfolding iteration_def by (intro safe_intros)

lemma loop_var_safe [safe_intros]: "safe K (loop_var x)" "safe K (loop_int v)"
  unfolding loop_var_def loop_int_def by (intro safe_intros)+

lemma for_loop_safe [safe_intros]: "safe K (for_loop n ev x a b body)"
  by (induction n) (auto intro!: safe_intros)

lemma while_loop_safe [safe_intros]: "safe K (while_loop n ev c body)"
  by (induction n) (auto intro!: safe_intros)

lemma eval_for_safe [safe_intros]: "safe K (eval_for n ev x a b c body)"
  unfolding eval_for_def by (intro safe_intros)

lemma eval_while_safe [safe_intros]: "safe K (eval_while n ev c body)"
  unfolding eval_while_def by (intro safe_intros)

lemma insert_vars_safe [safe_intros]: "safe K (insert_vars bs)"
  by (induction bs rule: insert_vars.induct) (auto intro!: safe_intros)

lemma eval_match_safe [safe_intros]: "safe K (eval_match cx ev e arms els)"
  unfolding eval_match_def eval_chosen_def by (intro safe_intros)

lemma eval_match_result_safe [safe_intros]: "safe K (eval_match_result ev e x b1 y b2)"
  unfolding eval_match_result_def by (intro safe_intros)

lemma eval_pointer_safe [safe_intros]: "safe K (eval_pointer cx ev e)"
  unfolding eval_pointer_def by (intro safe_intros)

lemma array_index_safe [safe_intros]: "safe K (array_index ev p e)"
  unfolding array_index_def by (intro safe_intros)

lemma eval_struct_safe [safe_intros]:
  "safe K (eval_get cx ev sn f e)" "safe K (eval_put cx ev sn f e v path)"
  "safe K (eval_arr_get cx ev t e i)" "safe K (eval_arr_set cx ev t e i v path)"
  "safe K (eval_arr_len cx ev e)"
  unfolding eval_get_def eval_put_def eval_arr_get_def eval_arr_set_def eval_arr_len_def the_struct_def elem_size_def
  by (intro safe_intros wf_intros)+

lemma eval_sizeof_safe [safe_intros]: "safe K (eval_sizeof cx t)"
  unfolding eval_sizeof_def the_struct_def by (intro safe_intros) (auto split: ty.split intro!: safe_intros)

lemma eval_cast_safe [safe_intros]: "safe K (eval_cast ev t e g)"
  unfolding eval_cast_def Let_def by (cases t) (auto intro!: safe_intros)

lemma eval_addr_safe [safe_intros]: "safe K (eval_addr ev e k)"
  unfolding eval_addr_def Let_def by (cases k) (auto intro!: safe_intros)

lemma eval_with_safe [safe_intros]: "safe K (eval_with cx ev sn f e v)"
  unfolding eval_with_def the_struct_def by (intro safe_intros)

lemma eval_inner_safe: "safe K (eval_inner cx ho n ev e)"
  unfolding eval_inner_def eval_let_def eval_set_def eval_if_def eval_make_def eval_return_def
    eval_block_def eval_var_def eval_ref_def
  by (cases e) (auto intro!: safe_intros)

end

interpretation vm: safe_evaluator "eval cx ho n" for cx ho n
proof (induction n)
  case 0
  show ?case by unfold_locales (simp add: safe_intros)
next
  case (Suc n)
  show ?case
    by unfold_locales (simp only: eval.simps, intro safe_around safe_evaluator.eval_inner_safe [OF Suc])
qed

end
