(* ===== verification/Vm_Facts.thy ===== *)
theory Vm_Facts
  imports Eval Memory_Facts
begin

text \<open>
  What the VM's operations compute: arithmetic is exact or an error, results stay canonical,
  \<^verbatim>\<open>and\<close> and \<^verbatim>\<open>or\<close> evaluate no more than they need, a pointer is followed only when its
  generation matches, an array is read only inside its length, and what the guard on writes
  lets through.
\<close>

section \<open>A machine to try things on\<close>

definition demo_array :: mem where
  "demo_array = \<lparr>mm_bytes = replicate 12 0 @ [2, 0, 0, 0] @ [7, 0, 0, 0] @ [9, 0, 0, 0], mm_max_pages = 1\<rparr>"

definition demo_cx :: ctx where
  "demo_cx = \<lparr>cx_functions = Map.empty, cx_order = [], cx_structs = \<lparr>st_defs = [], st_unions = [], st_by_value = []\<rparr>,
     cx_enums = Map.empty, cx_strings = Map.empty, cx_heap_start = 1024, cx_args = [], cx_env = []\<rparr>"

definition demo_ev :: "value \<Rightarrow> unit evaluator" where
  "demo_ev i = (\<lambda>e s. Some (Inr (if e = EBreak (1, 1) then VInt64 16 else i), s))"

definition demo_vm :: "mem \<Rightarrow> unit vm" where
  "demo_vm m = \<lparr>vm_mem = m, vm_flow = None, vm_depth = 0, vm_error_at = None, vm_trace = [], vm_out = [], vm_host = ()\<rparr>"

lemma demo_vm_sel [simp]: "vm_mem (demo_vm m) = m"
  by (simp add: demo_vm_def)

section \<open>Arithmetic\<close>

lemma sint_word_of_int_fits:
  "fits_signed TYPE('a) r \<Longrightarrow> sint (word_of_int r :: 'a::len word) = r"
  by (simp add: fits_signed_def sint_sbintrunc' signed_take_bit_int_eq_self)

lemma sint_fits: "fits_signed TYPE('a) (sint (w :: 'a::len word))"
  unfolding fits_signed_def using sint_greater_eq [of w] sint_less [of w] by simp

lemma sint_eqI: "sint w = sint v \<Longrightarrow> w = (v :: 'a::len word)"
  by (rule signed_word_eqI)

lemma checked_iff:
  "checked op x y = Inr (w :: 'a::len word) \<longleftrightarrow> sint w = exact_op op (sint x) (sint y)"
proof
  assume "checked op x y = Inr w"
  then show "sint w = exact_op op (sint x) (sint y)"
    by (auto simp: checked_def Let_def sint_word_of_int_fits split: if_splits)
next
  assume w: "sint w = exact_op op (sint x) (sint y)"
  have "word_of_int (sint w) = w" by (rule sint_eqI) (simp add: sint_word_of_int_fits sint_fits)
  with w show "checked op x y = Inr w"
    using sint_fits [of w] by (simp add: checked_def Let_def)
qed

lemma checked_error:
  "checked op x (y :: 'a::len word) = Inl e \<longleftrightarrow>
     e = EOverflow (OpChecked op) \<and> \<not> fits_signed TYPE('a) (exact_op op (sint x) (sint y))"
  by (auto simp: checked_def Let_def)

lemma trunc_div_mod: "y \<noteq> 0 \<Longrightarrow> trunc_div x y * y + trunc_mod x y = x"
proof -
  assume "y \<noteq> 0"
  have "trunc_div x y * y + trunc_mod x y = sgn x * (\<bar>x\<bar> div \<bar>y\<bar> * (sgn y * y) + \<bar>x\<bar> mod \<bar>y\<bar>)"
    by (simp add: trunc_div_def trunc_mod_def algebra_simps)
  also have "\<dots> = sgn x * \<bar>x\<bar>" by (simp add: abs_sgn mult.commute)
  finally show ?thesis by (simp add: sgn_mult_abs)
qed

lemma trunc_mod_bound: "y \<noteq> 0 \<Longrightarrow> \<bar>trunc_mod x y\<bar> < \<bar>y\<bar>"
  by (cases "x = 0") (auto simp: trunc_mod_def abs_mult abs_sgn_eq)

lemma trunc_mod_sgn: "y \<noteq> 0 \<Longrightarrow> trunc_mod x y = 0 \<or> sgn (trunc_mod x y) = sgn x"
proof -
  assume "y \<noteq> 0"
  then have "0 \<le> \<bar>x\<bar> mod \<bar>y\<bar>" by simp
  then have "\<bar>x\<bar> mod \<bar>y\<bar> = 0 \<or> sgn (\<bar>x\<bar> mod \<bar>y\<bar>) = 1" by (auto simp: sgn_if)
  then show ?thesis unfolding trunc_mod_def sgn_mult by auto
qed

lemma sint_int_min: "sint (int_min :: 'a::len word) = - (2 ^ (LENGTH('a) - 1))"
proof -
  have eq: "(int_min :: 'a word) = word_of_int (- (2 ^ (LENGTH('a) - 1)))"
    unfolding int_min_def minus_exp_eq_not_mask
    by (rule bit_word_eqI) (auto simp: bit_simps)
  show ?thesis unfolding eq by (rule sint_word_of_int_fits) (simp add: fits_signed_def)
qed

lemma trunc_div_fits:
  fixes x y :: "'a::len word"
  assumes "y \<noteq> 0" "\<not> (x = int_min \<and> y = - 1)"
  shows "fits_signed TYPE('a) (trunc_div (sint x) (sint y))"
proof -
  let ?m = "2 ^ (LENGTH('a) - 1) :: int"
  have x: "- ?m \<le> sint x" "sint x < ?m" using sint_fits [of x] by (simp_all add: fits_signed_def)
  have y: "sint y \<noteq> 0" using assms(1) sint_eqI [of y 0] by auto
  show ?thesis
  proof (cases "2 \<le> \<bar>sint y\<bar>")
    case True
    have "\<bar>sint x\<bar> div \<bar>sint y\<bar> \<le> \<bar>sint x\<bar> div 2" using True by (intro zdiv_mono2) auto
    moreover have "\<bar>sint x\<bar> div 2 < ?m" using x by linarith
    moreover have "\<bar>trunc_div (sint x) (sint y)\<bar> \<le> \<bar>sint x\<bar> div \<bar>sint y\<bar>"
      by (auto simp: trunc_div_def abs_mult abs_sgn_eq pos_imp_zdiv_nonneg_iff)
    ultimately show ?thesis unfolding fits_signed_def by linarith
  next
    case False
    with y consider "sint y = 1" | "sint y = - 1" by linarith
    then show ?thesis
    proof cases
      case 1
      then show ?thesis using x by (simp add: trunc_div_def fits_signed_def sgn_mult_abs)
    next
      case 2
      then have "y = - 1" by (intro sint_eqI) simp
      with assms have "sint x \<noteq> - ?m" using sint_eqI [of x int_min] by (auto simp: sint_int_min)
      with 2 x show ?thesis by (simp add: trunc_div_def fits_signed_def sgn_mult_abs)
    qed
  qed
qed

lemma trunc_mod_fits:
  fixes x y :: "'a::len word"
  assumes "y \<noteq> 0"
  shows "fits_signed TYPE('a) (trunc_mod (sint x) (sint y))"
proof -
  have y: "sint y \<noteq> 0" using assms sint_eqI [of y 0] by auto
  have "\<bar>sint y\<bar> \<le> 2 ^ (LENGTH('a) - 1)" using sint_fits [of y] unfolding fits_signed_def by linarith
  then show ?thesis using trunc_mod_bound [OF y, of "sint x"] unfolding fits_signed_def by linarith
qed

text \<open>Quotient and remainder of one division, for a word of any width.\<close>

lemma signed_division:
  fixes x y :: "'a::len word"
  assumes "y \<noteq> 0" "\<not> (x = int_min \<and> y = - 1)"
  obtains q r where "div_signed op x y = Inr q" "mod_signed x y = Inr r"
    "sint x = sint y * sint q + sint r" "\<bar>sint r\<bar> < \<bar>sint y\<bar>" "sint r = 0 \<or> sgn (sint r) = sgn (sint x)"
proof -
  let ?q = "word_of_int (trunc_div (sint x) (sint y)) :: 'a word"
  let ?r = "word_of_int (trunc_mod (sint x) (sint y)) :: 'a word"
  have y: "sint y \<noteq> 0" using assms(1) sint_eqI [of y 0] by auto
  have q: "sint ?q = trunc_div (sint x) (sint y)" by (rule sint_word_of_int_fits [OF trunc_div_fits [OF assms]])
  have r: "sint ?r = trunc_mod (sint x) (sint y)" by (rule sint_word_of_int_fits [OF trunc_mod_fits [OF assms(1)]])
  show ?thesis
  proof (rule that [of ?q ?r])
    show "div_signed op x y = Inr ?q" "mod_signed x y = Inr ?r"
      unfolding div_signed_def mod_signed_def if_not_P [OF assms(1)] if_not_P [OF assms(2)] by (rule refl)+
    show "sint x = sint y * sint ?q + sint ?r"
      using trunc_div_mod [OF y, of "sint x"] unfolding q r by (simp add: mult.commute)
  qed (use trunc_mod_bound [OF y] trunc_mod_sgn [OF y] in \<open>simp_all only: r\<close>)
qed

lemma narrow_int32: "narrow32 i \<Longrightarrow> \<exists>w. i = of_i32 w"
  by (metis narrow32_def)

text \<open>
  \<^verbatim>\<open>checked.add\<close>, \<^verbatim>\<open>checked.sub\<close> and \<^verbatim>\<open>checked.mul\<close> on 32 and on 64 bits return the
  mathematical result exactly when it fits the width, and the overflow error exactly when it does
  not.
\<close>

theorem checked_exact:
  "(apply_checked op (int32 x) (int32 y) = Inr v \<longleftrightarrow> (\<exists>w. v = int32 w \<and> sint w = exact_op op (sint x) (sint y)))
   \<and> (apply_checked op (VInt64 a) (VInt64 b) = Inr v \<longleftrightarrow> (\<exists>w. v = VInt64 w \<and> sint w = exact_op op (sint a) (sint b)))
   \<and> (apply_checked op (int32 x) (int32 y) = Inl e \<longleftrightarrow> e = EOverflow (OpChecked op)
       \<and> \<not> (- (2 ^ 31) \<le> exact_op op (sint x) (sint y) \<and> exact_op op (sint x) (sint y) < 2 ^ 31))
   \<and> (apply_checked op (VInt64 a) (VInt64 b) = Inl e \<longleftrightarrow> e = EOverflow (OpChecked op)
       \<and> \<not> (- (2 ^ 63) \<le> exact_op op (sint a) (sint b) \<and> exact_op op (sint a) (sint b) < 2 ^ 63))"
  by (auto simp: apply_checked_def int_op_def checked_iff checked_error bind_res_Inl_iff fits_signed_def)

text \<open>
  Signed division is truncated: unless the divisor is 0 or the quotient overflows, \<^verbatim>\<open>/\<close> and
  \<^verbatim>\<open>%\<close> return a quotient and a remainder of one division whose remainder is smaller than
  the divisor and has the dividend's sign.
\<close>

theorem division_truncates:
  assumes "y \<noteq> 0" "\<not> (x = int_min \<and> y = - 1)"
  shows "\<exists>q r. apply_arith Div (int32 x) (int32 y) = Inr (int32 q) \<and> apply_arith Mod (int32 x) (int32 y) = Inr (int32 r)
    \<and> sint x = sint y * sint q + sint r \<and> \<bar>sint r\<bar> < \<bar>sint y\<bar> \<and> (sint r = 0 \<or> sgn (sint r) = sgn (sint x))"
  by (rule signed_division [OF assms, of "OpArith Div"]) (auto simp: apply_arith_def num_op_def int_op_def)

text \<open>The hypotheses hold of \<open>-7 / 2\<close>.\<close>

lemma division_truncates_witness:
  "\<exists>q r. apply_arith Div (int32 (- 7)) (int32 2) = Inr (int32 q) \<and> apply_arith Mod (int32 (- 7)) (int32 2) = Inr (int32 r)
    \<and> sint (- 7 :: i32) = sint (2 :: i32) * sint q + sint r \<and> \<bar>sint r\<bar> < \<bar>sint (2 :: i32)\<bar>
    \<and> (sint r = 0 \<or> sgn (sint r) = sgn (sint (- 7 :: i32)))"
  by (rule division_truncates) simp_all

section \<open>Results stay canonical\<close>

text \<open>An \<open>Int\<close> result is a sign extension, whatever 32-bit word it comes from.\<close>

lemma narrow32_small: "sint i < 2 ^ 31 \<Longrightarrow> - (2 ^ 31) \<le> sint i \<Longrightarrow> narrow32 i"
  by (simp add: narrow32_iff)

lemma narrow32_of_nat: "n < 2 ^ 31 \<Longrightarrow> narrow32 (word_of_nat n)"
proof -
  assume "n < 2 ^ 31"
  then have "sint (word_of_int (int n) :: i64) = int n"
    by (intro sint_word_of_int_fits) (simp add: fits_signed_def)
  with \<open>n < 2 ^ 31\<close> show ?thesis by (simp add: narrow32_iff)
qed

lemma bit_counts:
  "leading_zeros (w :: i32) < 2 ^ 31" "trailing_zeros (w :: i32) < 2 ^ 31" "count_ones (w :: i32) < 2 ^ 31"
proof -
  have "leading_zeros w \<le> length (rev [0..<32 :: nat])"
    unfolding leading_zeros_def by (rule order_trans [OF length_takeWhile_le]) simp
  moreover have "trailing_zeros w \<le> length [0..<32 :: nat]"
    unfolding trailing_zeros_def by (rule order_trans [OF length_takeWhile_le]) simp
  moreover have "count_ones w \<le> length [0..<32 :: nat]"
    unfolding count_ones_def by (rule order_trans [OF length_filter_le]) simp
  ultimately show "leading_zeros w < 2 ^ 31" "trailing_zeros w < 2 ^ 31" "count_ones w < 2 ^ 31" by simp_all
qed

lemma int_op_canonical: "int_op op f g a b = Inr v \<Longrightarrow> canonical v"
  by (auto simp: int_op_def split: "value.splits")

lemma shift_op_canonical: "shift_op op f g a b = Inr v \<Longrightarrow> canonical v"
  by (auto simp: shift_op_def split: "value.splits")

lemma num_op_canonical: "num_op op f g h k a b = Inr v \<Longrightarrow> canonical v"
  unfolding num_op_def by (auto split: "value.splits" dest: int_op_canonical)

lemma trunc_to_canonical: "trunc_to op 32 x = Inr t \<Longrightarrow> narrow32 (word_of_int t)"
proof -
  assume "trunc_to op 32 x = Inr t"
  then have "- (2 ^ 31) \<le> t" "t < 2 ^ 31" by (auto simp: trunc_to_def Let_def split: fnum.splits if_splits)
  then show ?thesis by (simp add: narrow32_iff sint_word_of_int_fits fits_signed_def)
qed

lemma cmp_canonical: "apply_cmp op a b = Inr v \<Longrightarrow> canonical v"
  by (cases op) (auto simp: apply_cmp_def signed_cmp_def unsigned_cmp_def split: "value.splits")

text \<open>
  C25. The value operations give no \<open>Int\<close> wider than 32 bits, whatever they are given: arithmetic with
  shifts and rotations, checked arithmetic, comparisons, bit counts, \<^verbatim>\<open>not\<close> and conversions, when they give a
  value, give a canonical one. Nothing is said of the values that loads, strings, atomics and the host give.
\<close>

theorem operations_canonical:
  "(apply_arith a x y = Inr v \<longrightarrow> canonical v) \<and> (apply_checked c x y = Inr v \<longrightarrow> canonical v)
   \<and> (apply_cmp d x y = Inr v \<longrightarrow> canonical v) \<and> (apply_bit b x = Inr v \<longrightarrow> canonical v)
   \<and> (apply_not x = Inr v \<longrightarrow> canonical v) \<and> (apply_conv k x = Inr v \<longrightarrow> canonical v)"
proof (intro conjI impI)
  show "canonical v" if "apply_arith a x y = Inr v"
    using that by (cases a) (auto simp: apply_arith_def dest: num_op_canonical int_op_canonical shift_op_canonical)
  show "canonical v" if "apply_checked c x y = Inr v"
    using that unfolding apply_checked_def by (rule int_op_canonical)
  show "canonical v" if "apply_cmp d x y = Inr v" using that by (rule cmp_canonical)
  show "canonical v" if "apply_bit b x = Inr v"
    using that bit_counts by (cases b) (auto simp: apply_bit_def Let_def narrow32_of_nat split: "value.splits")
  show "canonical v" if "apply_not x = Inr v" using that by (auto simp: apply_not_def split: "value.splits")
  show "canonical v" if "apply_conv k x = Inr v"
    using that by (cases k; cases x) (auto simp: apply_conv_def dest: trunc_to_canonical)
qed

lemma operations_canonical_witness:
  "canonical (int32 (2147483647 + 1)) \<and> canonical (VBool True)"
proof -
  have "apply_arith Add (int32 2147483647) (int32 1) = Inr (int32 (2147483647 + 1))"
    by (simp add: apply_arith_def num_op_def int_op_def pure2_def)
  moreover have "apply_cmp Lt (int32 1) (int32 2) = Inr (VBool True)"
    by (simp add: apply_cmp_def signed_cmp_def int_cmp_def)
  ultimately show ?thesis
    using operations_canonical [of Add "int32 2147483647" "int32 1"] operations_canonical [of _ _ _ _ _ Lt] by blast
qed

text \<open>
  Conversions lose nothing they need not: extending an \<open>Int\<close> to 64 bits (either way) and
  wrapping it back is the identity, rotating left and right by the same amount is too, and so is
  reinterpreting bits.
\<close>

theorem conversions_invert:
  "bind_res (apply_conv I64ExtendS (int32 w)) (apply_conv I32Wrap) = Inr (int32 w)
   \<and> bind_res (apply_conv I64ExtendU (int32 w)) (apply_conv I32Wrap) = Inr (int32 w)
   \<and> bind_res (apply_conv F32ReinterpretI32 (int32 w)) (apply_conv I32ReinterpretF32) = Inr (int32 w)
   \<and> bind_res (apply_conv F64ReinterpretI64 (VInt64 d)) (apply_conv I64ReinterpretF64) = Inr (VInt64 d)
   \<and> bind_res (apply_arith Rotl (int32 w) (VInt k)) (\<lambda>r. apply_arith Rotr r (VInt k)) = Inr (int32 w)
   \<and> bind_res (apply_arith Rotl (VInt64 d) (VInt64 k)) (\<lambda>r. apply_arith Rotr r (VInt64 k)) = Inr (VInt64 d)"
proof -
  have "as_i32 (ucast w) = w" unfolding as_i32_def by (rule bit_word_eqI) (auto simp: bit_simps)
  then show ?thesis
    by (simp add: apply_conv_def apply_arith_def shift_op_def word_rol_def word_ror_def)
qed

section \<open>Logic\<close>

text \<open>
  \<^verbatim>\<open>and\<close> and \<^verbatim>\<open>or\<close> are short-circuit: when the first operand decides the result, the second
  is not evaluated (the state is the one the first left); else the result is the second's.
\<close>

theorem short_circuit:
  assumes "ev a s = Some (Inr (VBool x), s1)"
  shows "eval_logic ev op [a, b] s =
    (if x = (op = Or) then Some (Inr (VBool x), s1)
     else case ev b s1 of
            Some (Inr (VBool y), s2) \<Rightarrow> Some (Inr (VBool (if op = Or then x \<or> y else x \<and> y)), s2)
          | Some (Inr v, s2) \<Rightarrow> Some (Inl (EOperands (OpLogic op)), s2)
          | Some (Inl e, s2) \<Rightarrow> Some (Inl e, s2)
          | None \<Rightarrow> None)"
proof (cases op)
  case And
  with assms show ?thesis
    by (auto simp: eval_logic_def arg_def nth_opt_def bindm_def ret_def fail_def
        split: option.split sum.split "value.split")
next
  case Or
  with assms show ?thesis
    by (auto simp: eval_logic_def arg_def nth_opt_def bindm_def ret_def fail_def
        split: option.split sum.split "value.split")
qed

lemma short_circuit_witness:
  "eval_logic (\<lambda>e s. if e = EBreak (1, 1) then Some (Inr (VBool False), s) else None) And
     [EBreak (1, 1), EContinue (1, 2)] (demo_vm demo_array, Map.empty) = Some (Inr (VBool False), demo_vm demo_array, Map.empty)"
  by (subst short_circuit [where x = False and ?s1.0 = "(demo_vm demo_array, Map.empty)"]) simp_all

section \<open>Pointers and arrays\<close>

lemma load_scalar_word: "load_scalar m a TI32 = load_at m a 4 (\<lambda>bs. int32 (of_le bs))"
  by (simp add: load_scalar_def)

text \<open>
  C8. A pointer is followed exactly when it is not null, the word eight bytes before its target
  is inside the memory, and that word is the pointer's generation (or the pointer was made
  unchecked); a stale pointer is the use-after-free error.
\<close>

theorem deref_exact:
  fixes addr gen :: u32
  defines "fat \<equiv> or (ucast addr :: u64) (push_bit 32 (ucast gen))"
  assumes "mem_ok m"
  shows "(deref st m (VInt64 fat) = Inr p \<longleftrightarrow>
     p = unat addr \<and> 8 \<le> p \<and> p \<le> length (mm_bytes m) + 4
       \<and> (of_le (slice_at (mm_bytes m) (p - 8) 4) = gen \<or> gen = gen_unchecked))
   \<and> (deref st m (VInt64 fat) = Inl EUseAfterFree \<longleftrightarrow>
     8 \<le> unat addr \<and> unat addr \<le> length (mm_bytes m) + 4
       \<and> of_le (slice_at (mm_bytes m) (unat addr - 8) 4) \<noteq> gen \<and> gen \<noteq> gen_unchecked)"
proof -
  have low: "(ucast fat :: u32) = addr"
    unfolding fat_def by (rule bit_word_eqI) (auto simp: bit_simps)
  have high: "(ucast (drop_bit 32 fat) :: u32) = gen"
    unfolding fat_def by (rule bit_word_eqI) (auto simp: bit_simps dest: bit_imp_le_length)
  have nonzero: "unat addr = 0 \<longleftrightarrow> addr = 0" by (simp add: unat_eq_0)
  have "length (mm_bytes m) \<le> 2 ^ 31" using assms(2) by (simp add: mem_ok_def max_pages_def page_size_def)
  then have far: "\<not> in_memory m (wrapping_sub8 (unat addr)) 4" if "unat addr < 8"
    using that by (simp add: in_memory_def wrapping_sub8_def)
  have near: "wrapping_sub8 (unat addr) = unat addr - 8"
      "in_memory m (unat addr - 8) 4 \<longleftrightarrow> unat addr \<le> length (mm_bytes m) + 4" if "8 \<le> unat addr"
    using that by (auto simp: wrapping_sub8_def in_memory_def)
  have d: "deref st m (VInt64 fat) =
      (if unat addr = 0 then Inl ENullPointer
       else if in_memory m (wrapping_sub8 (unat addr)) 4
            then if of_le (slice_at (mm_bytes m) (wrapping_sub8 (unat addr)) 4) \<noteq> gen \<and> gen \<noteq> gen_unchecked
                 then Inl EUseAfterFree else Inr (unat addr)
            else Inl (ELoadBounds (wrapping_sub8 (unat addr))))"
    unfolding deref_def "value.case" low high Let_def load_scalar_word load_at_def by simp
  show ?thesis
  proof (cases "unat addr < 8")
    case True
    then show ?thesis using far unfolding d by auto
  next
    case False
    then have "8 \<le> unat addr" by simp
    then show ?thesis unfolding d near(1) [OF \<open>8 \<le> unat addr\<close>] near(2) [OF \<open>8 \<le> unat addr\<close>] by auto
  qed
qed

text \<open>A fresh memory is zero past its cursor: the pointer to 1024 of generation 0 is followed.\<close>

lemma slice_mem_new:
  "4 \<le> a \<Longrightarrow> a + n \<le> 1048576 \<Longrightarrow> slice_at (mm_bytes mem_new) a n = replicate n 0"
  by (rule nth_equalityI)
    (auto simp: mem_new_def nth_slice_at nth_splice initial_pages_def page_size_def heap_ptr_addr_def)

lemma of_le_zeros: "of_le (replicate n 0) = 0"
  by (induction n) simp_all

lemma deref_exact_witness:
  "deref \<lparr>st_defs = [], st_unions = [], st_by_value = []\<rparr> mem_new
     (VInt64 (or (ucast (1024 :: u32)) (push_bit 32 (ucast (0 :: u32))))) = Inr 1024"
proof -
  have len: "length (mm_bytes mem_new) = 1048576"
    by (simp add: mem_new_def initial_pages_def page_size_def heap_ptr_addr_def)
  show ?thesis
    by (rule deref_exact [THEN conjunct1, THEN iffD2])
      (simp_all add: mem_ok_new slice_mem_new len of_le_zeros)
qed

lemma as_usize_nonneg: "0 \<le> sint i \<Longrightarrow> as_usize i = nat (sint i)"
proof -
  assume "0 \<le> sint i"
  then have "uint i = sint i" using sint_less [of i] by (simp add: uint_sint take_bit_int_eq_self)
  then show ?thesis by (simp add: as_usize_def unat_eq_nat_uint)
qed

text \<open>
  C9. An array element is read, or written, only at an index inside the array: \<^verbatim>\<open>arr.get\<close> returns
  the element at \<open>p + i * size\<close> when \<open>0 \<le> i < length\<close> and the index error otherwise, and
  \<^verbatim>\<open>arr.set\<close> outside the length fails before it evaluates the value, the memory untouched.
\<close>

theorem array_bounds:
  assumes "ev e s = Some (Inr pv, v1, sc1)" "deref (cx_structs cx) (vm_mem v1) pv = Inr p" "4 \<le> p"
    and "ev index (v1, sc1) = Some (Inr (VInt i), v2, sc2)"
    and "array_len_at (vm_mem v2) p = Inr count"
    and "type_size_and_align (cx_structs cx) t = Inr (n, al)"
  shows "eval_arr_get cx ev t e index s =
      Some (if 0 \<le> sint i \<and> sint i < sint count
            then load_val_at (cx_structs cx) (vm_mem v2) (p + nat (sint i) * n) t
            else Inl (EIndex i count), v2, sc2)
    \<and> (\<not> (0 \<le> sint i \<and> sint i < sint count) \<longrightarrow>
         eval_arr_set cx ev t e index val path s = Some (Inl (EIndex i count), v2, sc2))"
proof -
  have ix: "array_index ev p index (v1, sc1) =
      Some (if 0 \<le> sint i \<and> sint i < sint count then Inr (as_usize i) else Inl (EIndex i count), v2, sc2)"
    using assms(3-5) by (auto simp: array_index_def bindm_def read_mem_def ret_def fail_def)
  have p: "eval_pointer cx ev e s = Some (Inr p, v1, sc1)"
    using assms(1,2) by (simp add: eval_pointer_def bindm_def read_mem_def)
  show ?thesis
    unfolding eval_arr_get_def eval_arr_set_def
    by (simp add: bindm_def [of "eval_pointer cx ev e"] p bindm_def [of "array_index ev p index"] ix as_usize_nonneg)
      (simp add: bindm_def elem_size_def lift_res_def ret_def read_mem_def assms(6))
qed

lemma array_bounds_witness:
  "eval_arr_get demo_cx (demo_ev (VInt 1)) TI32 (EBreak (1, 1)) (EContinue (1, 2)) (demo_vm demo_array, Map.empty)
     = Some (Inr (VInt 9), demo_vm demo_array, Map.empty)"
proof -
  let ?v = "demo_vm demo_array"
  have a: "deref (cx_structs demo_cx) (vm_mem ?v) (VInt64 16) = Inr 16"
    by (simp add: deref_def Let_def load_scalar_word load_at_def in_memory_def wrapping_sub8_def demo_array_def slice_at_def of_le_zeros)
  have b: "array_len_at (vm_mem ?v) 16 = Inr 2"
    by (simp add: array_len_at_def read_bytes_def in_memory_def demo_array_def slice_at_def of_i32_def)
  have w: "(of_le [9, 0, 0, 0] :: i32) = 9" by simp
  have c: "load_val_at (cx_structs demo_cx) (vm_mem ?v) (16 + nat (sint (1 :: i64)) * 4) TI32 = Inr (VInt 9)"
    by (simp add: load_val_at_def load_fuel_def value_struct_def load_scalar_word load_at_def in_memory_def
        demo_array_def slice_at_def of_i32_def demo_cx_def)
  show ?thesis
    using array_bounds [where ev = "demo_ev (VInt 1)" and e = "EBreak (1, 1)" and index = "EContinue (1, 2)"
        and s = "(?v, Map.empty)" and cx = demo_cx and t = TI32 and pv = "VInt64 16" and p = 16 and count = 2,
        OF _ a _ _ b, of Map.empty 1 Map.empty 4 4, THEN conjunct1] c
    by (simp add: demo_ev_def type_size_and_align_def)
qed

section \<open>Writes\<close>

text \<open>The operand of a store, evaluated.\<close>

lemma store_op_runs:
  assumes "ev a s = Some (Inr (VInt i), v1, sc1)" "0 \<le> sint i"
    and "check_write_address (as_usize i) (cx_heap_start cx) = Inr ()"
    and "ev b (v1, sc1) = Some (Inr x, v2, sc2)" "f (as_usize i) x (vm_mem v2) = (Inr (), m)"
  shows "store_op cx ev op [a, b] f s = Some (Inr VVoid, v2\<lparr>vm_mem := m\<rparr>, sc2)"
  using assms
  by (simp add: store_op_def int_arg_def arg_def nth_opt_def bindm_def ret_def lift_res_def guarded_ptr_def
      checked_ptr_def run_mem_def)

text \<open>
  C26. A store through \<^verbatim>\<open>mem.store\<close> happens only when its first byte is not in the cursor's word,
  the reserved block 64..1023, or the string literals: at any other address it fails before
  its value is evaluated, and nothing has changed.
\<close>

theorem store_guarded:
  assumes "ev a s = Some (Inr (VInt i), v1, sc1)"
    and "\<not> (0 \<le> sint i \<and> 4 \<le> sint i \<and> (sint i < 64 \<or> 1024 \<le> sint i \<and> int (cx_heap_start cx) \<le> sint i))"
    and "op \<in> {MemStore8, MemStore16, MemStore32, MemStore64}"
  shows "\<exists>e. eval_mem cx ev op [a, b] s = Some (Inl e, v1, sc1)
    \<and> e \<in> {EStoreBounds (as_usize i), EHeapCursor (as_usize i), EReserved (as_usize i), ELiterals (as_usize i)}"
proof -
  obtain e where e: "guarded_ptr cx i = Inl e"
    "e \<in> {EStoreBounds (as_usize i), EHeapCursor (as_usize i), EReserved (as_usize i), ELiterals (as_usize i)}"
  proof (cases "0 \<le> sint i")
    case True
    with assms(2) have "\<not> (4 \<le> as_usize i \<and> (as_usize i < 64 \<or> 1024 \<le> as_usize i \<and> cx_heap_start cx \<le> as_usize i))"
      by (auto simp: as_usize_nonneg)
    then have "check_write_address (as_usize i) (cx_heap_start cx) \<noteq> Inr ()" by (simp add: check_write_address_iff)
    with True that show ?thesis
      by (auto simp: guarded_ptr_def checked_ptr_def check_write_address_def split: if_splits)
  qed (use that in \<open>simp add: guarded_ptr_def checked_ptr_def\<close>)
  have "store_op cx ev o1 [a, b] f s = Some (Inl e, v1, sc1)" for o1 f
    by (simp add: store_op_def int_arg_def arg_def nth_opt_def bindm_def ret_def lift_res_def e(1) assms(1))
  with assms(3) e(2) show ?thesis by (auto simp: eval_mem_def)
qed

lemma store_guarded_witness:
  "\<exists>e. eval_mem demo_cx (demo_ev (VInt 64)) MemStore32 [EContinue (1, 2), EContinue (1, 3)] (demo_vm demo_array, Map.empty)
      = Some (Inl e, demo_vm demo_array, Map.empty)
    \<and> e \<in> {EStoreBounds (as_usize 64), EHeapCursor (as_usize 64), EReserved (as_usize 64), ELiterals (as_usize 64)}"
  by (rule store_guarded) (simp_all add: demo_ev_def demo_cx_def)

text \<open>
  C27. The guard looks at the first byte only: a \<^verbatim>\<open>mem.store64\<close> at 60 is let through and writes
  the bytes 64 to 67 of the reserved block, which no store is meant to reach.
\<close>

theorem store64_reaches_reserved:
  assumes "mem_ok (vm_mem v2)" "ev a s = Some (Inr (VInt 60), v1, sc1)" "ev b (v1, sc1) = Some (Inr (VInt64 w), v2, sc2)"
  shows "\<exists>v3. eval_mem cx ev MemStore64 [a, b] s = Some (Inr VVoid, v3, sc2)
    \<and> slice_at (mm_bytes (vm_mem v3)) 64 4 = drop 4 (le_bytes 8 w)"
proof -
  let ?m = "write_raw 60 (le_bytes 8 w) (vm_mem v2)"
  have len: "68 \<le> length (mm_bytes (vm_mem v2))" using assms(1) by (simp add: mem_ok_def page_size_def)
  have "store_int64 60 (VInt64 w) (vm_mem v2) = (Inr (), ?m)"
    using len by (simp add: store_int64_def store_raw_def in_memory_def)
  with assms(2,3) have "store_op cx ev MemStore64 [a, b] store_int64 s = Some (Inr VVoid, v2\<lparr>vm_mem := ?m\<rparr>, sc2)"
    by (intro store_op_runs [where i = 60]) (simp_all add: check_write_address_def as_usize_def)
  moreover have "slice_at (mm_bytes ?m) 64 4 = drop 4 (le_bytes 8 w)"
    using len by (intro nth_equalityI) (auto simp: write_raw_def nth_slice_at nth_splice)
  ultimately show ?thesis by (auto simp: eval_mem_def)
qed

definition demo_seq :: "value list \<Rightarrow> unit evaluator" where
  "demo_seq vs = (\<lambda>e s. Some (case e of EBreak (i, _) \<Rightarrow> Inr (vs ! i) | _ \<Rightarrow> Inl EPanic, s))"

lemma store64_reaches_reserved_witness:
  "\<exists>v3. eval_mem demo_cx (demo_seq [VInt 60, VInt64 (- 1)]) MemStore64 [EBreak (0, 1), EBreak (1, 1)]
       (demo_vm mem_new, Map.empty) = Some (Inr VVoid, v3, Map.empty)
    \<and> slice_at (mm_bytes (vm_mem v3)) 64 4 = drop 4 (le_bytes 8 (- 1 :: i64))"
  by (rule store64_reaches_reserved [where ?v2.0 = "demo_vm mem_new"]) (simp_all add: mem_ok_new demo_seq_def)

section \<open>Atomics\<close>

text \<open>
  C28. An atomic operation past the end of memory is handled two ways: \<^verbatim>\<open>atomic.lock\<close> and
  \<^verbatim>\<open>atomic.unlock\<close> return the bounds error, \<^verbatim>\<open>atomic.add\<close> and \<^verbatim>\<open>atomic.cas\<close> panic.
\<close>

theorem atomics_out_of_bounds:
  assumes "\<not> in_memory m p 4"
  shows "lock_attempt p m = (Inl (ELoadBounds p), m) \<and> atomic_unlock p m = (Inl (ELoadBounds p), m)
    \<and> atomic_add p x m = (Inl EPanic, m) \<and> atomic_cas p x y m = (Inl EPanic, m)"
  using assms by (simp add: lock_attempt_def atomic_unlock_def atomic_add_def atomic_cas_def read_bytes_def)

lemma atomics_out_of_bounds_witness:
  "lock_attempt 1024 demo_array = (Inl (ELoadBounds 1024), demo_array)
   \<and> atomic_unlock 1024 demo_array = (Inl (ELoadBounds 1024), demo_array)
   \<and> atomic_add 1024 1 demo_array = (Inl EPanic, demo_array) \<and> atomic_cas 1024 1 2 demo_array = (Inl EPanic, demo_array)"
  by (rule atomics_out_of_bounds) (simp add: in_memory_def demo_array_def)

end
