(* ===== verification/Calls.thy ===== *)
theory Calls
  imports Safety Vm_Facts
begin

text \<open>
  Function calls and jumps: a call's contracts are all checked and the first that fails is
  blamed, a call leaves its caller's variables and depth alone, an error carries a position and
  a call chain, a pending jump stops evaluation and never leaves a call, and blocks, branches
  and matches give back the scope they were entered with.
\<close>

section \<open>Contracts\<close>

text \<open>The contracts that are checked, in order, each true in the state the one before left.\<close>

fun all_true :: "'h evaluator \<Rightarrow> expr list \<Rightarrow> 'h vm \<times> scope \<Rightarrow> 'h vm \<times> scope \<Rightarrow> bool" where
  "all_true ev [] s s' \<longleftrightarrow> s' = s"
| "all_true ev (e # es) s s' \<longleftrightarrow> (\<exists>s1. ev e s = Some (Inr (VBool True), s1) \<and> all_true ev es s1 s')"

text \<open>On exit each is checked in a copy of the scope with \<^verbatim>\<open>res\<close> bound.\<close>

fun exit_true :: "'h evaluator \<Rightarrow> value \<Rightarrow> scope \<Rightarrow> expr list \<Rightarrow> 'h vm \<Rightarrow> 'h vm \<Rightarrow> bool" where
  "exit_true ev r sc [] v v' \<longleftrightarrow> v' = v"
| "exit_true ev r sc (e # es) v v' \<longleftrightarrow>
     (\<exists>v1 own. ev e (v, sc(''res'' \<mapsto> r)) = Some (Inr (VBool True), v1, own) \<and> exit_true ev r sc es v1 v')"

text \<open>What has to be true before the body and after it.\<close>

definition entry_exprs :: "contract list \<Rightarrow> expr list" where
  "entry_exprs cs = concat (map (\<lambda>c. case c of Requires e \<Rightarrow> [e] | Invariant e \<Rightarrow> [e] | Ensures _ \<Rightarrow> []) cs)"

definition exit_exprs :: "contract list \<Rightarrow> expr list" where
  "exit_exprs cs = concat (map (\<lambda>c. case c of Ensures e \<Rightarrow> [e] | Invariant e \<Rightarrow> [e] | Requires _ \<Rightarrow> []) cs)"

lemma exprs_Cons [simp]:
  "entry_exprs [] = []" "exit_exprs [] = []"
  "entry_exprs (c # cs) = (case entry_contract c of None \<Rightarrow> [] | Some ke \<Rightarrow> [snd ke]) @ entry_exprs cs"
  "exit_exprs (c # cs) = (case exit_contract c of None \<Rightarrow> [] | Some ke \<Rightarrow> [snd ke]) @ exit_exprs cs"
  by (simp_all add: entry_exprs_def exit_exprs_def entry_contract_def exit_contract_def split: contract.split option.split)

lemma bindm_Inr:
  "bindm m f s = Some (Inr x, s') \<longleftrightarrow> (\<exists>y s1. m s = Some (Inr y, s1) \<and> f y s1 = Some (Inr x, s'))"
  by (auto simp: bindm_def split: option.splits sum.splits)

lemma ret_Inr [simp]: "ret x s = Some (Inr y, s') \<longleftrightarrow> y = x \<and> s' = s"
  by (auto simp: ret_def)

lemma fail_Inr [simp]: "fail e s \<noteq> Some (Inr y, s')"
  by (simp add: fail_def)

lemma check_contract_entry:
  "check_contract ev name f None res ke s = Some (Inr u, s') \<longleftrightarrow> ev (snd ke) s = Some (Inr (VBool True), s')"
  by (auto simp: check_contract_def bindm_Inr set_error_at_def get_scope_def split: if_splits)

lemma check_contract_exit:
  "check_contract ev name f (Some own) res ke (v, sc) = Some (Inr u, s') \<longleftrightarrow>
     (\<exists>v1 own'. ev (snd ke) (v, own) = Some (Inr (VBool True), v1, own') \<and> s' = (v1, sc))"
  by (auto simp: check_contract_def bindm_Inr set_error_at_def get_scope_def in_scope_def split: if_splits)

lemma entry_contracts_iff:
  "entry_contracts ev name f cs s = Some (Inr u, s') \<longleftrightarrow> all_true ev (entry_exprs cs) s s'"
  by (induction cs arbitrary: s)
    (auto simp: bindm_Inr check_contract_entry split: option.split)

lemma exit_contracts_iff:
  "exit_contracts ev name f r cs (v, sc) = Some (Inr u, s') \<longleftrightarrow> (\<exists>v'. s' = (v', sc) \<and> exit_true ev r sc (exit_exprs cs) v v')"
  by (induction cs arbitrary: v)
    (auto simp: bindm_Inr check_contract_exit get_scope_def split: option.split)

lemma invoke_body_Inr:
  "invoke_body cx ev name vs (v, sc) = Some (Inr r, v', sc') \<longleftrightarrow> sc' = sc \<and>
     (\<exists>f s1 v2 sc2. cx_functions cx name = Some f \<and> length vs = length (fd_params f)
        \<and> all_true ev (entry_exprs (fd_contracts f)) (v, bind_params (fd_params f) vs) s1
        \<and> run_body ev VVoid (fd_body f) s1 = Some (Inr r, v2, sc2)
        \<and> exit_true ev r sc2 (exit_exprs (fd_contracts f)) v2 v')"
proof (cases "cx_functions cx name")
  case (Some f)
  show ?thesis
  proof (cases "length vs = length (fd_params f)")
    case True
    have "invoke_body cx ev name vs (v, sc) = Some (Inr r, v', sc') \<longleftrightarrow> sc' = sc \<and>
        (\<exists>own. bindm (entry_contracts ev name f (fd_contracts f)) (\<lambda>_.
               bindm (run_body ev VVoid (fd_body f)) (\<lambda>r.
               bindm (exit_contracts ev name f r (fd_contracts f)) (\<lambda>_. ret r))) (v, bind_params (fd_params f) vs)
             = Some (Inr r, v', own))"
      by (auto simp: invoke_body_def Some True in_scope_def)
    then show ?thesis
      by (auto simp: bindm_Inr entry_contracts_iff exit_contracts_iff Some True)
  qed (simp add: invoke_body_def Some)
qed (simp add: invoke_body_def)

text \<open>
  What a body gives, step by step: its last value; the value of a \<^verbatim>\<open>return\<close>, which ends it; the value at
  hand when a \<^verbatim>\<open>break\<close> or \<^verbatim>\<open>continue\<close> ends it. No jump is left pending.
\<close>

inductive body_gives :: "'h evaluator \<Rightarrow> value \<Rightarrow> expr list \<Rightarrow> 'h vm \<times> scope \<Rightarrow> value \<Rightarrow> 'h vm \<times> scope \<Rightarrow> bool" for ev where
  last: "body_gives ev prev [] s prev s"
| step: "ev e s = Some (Inr v, w, sc) \<Longrightarrow> vm_flow w = None \<Longrightarrow> body_gives ev v es (w, sc) r s' \<Longrightarrow> body_gives ev prev (e # es) s r s'"
| return: "ev e s = Some (Inr v, w, sc) \<Longrightarrow> vm_flow w = Some (FReturn r) \<Longrightarrow> body_gives ev prev (e # es) s r (w\<lparr>vm_flow := None\<rparr>, sc)"
| jump: "ev e s = Some (Inr v, w, sc) \<Longrightarrow> vm_flow w \<in> {Some FBreak, Some FContinue} \<Longrightarrow>
    body_gives ev prev (e # es) s v (w\<lparr>vm_flow := None\<rparr>, sc)"

inductive_simps body_gives_Nil: "body_gives ev prev [] s r s'"
inductive_simps body_gives_Cons: "body_gives ev prev (e # es) s r s'"

lemma flow_unchanged: "vm_flow w = None \<Longrightarrow> w\<lparr>vm_flow := None\<rparr> = w"
  by (cases w) simp

lemma run_body_iff: "run_body ev prev es s = Some (Inr r, s') \<longleftrightarrow> body_gives ev prev es s r s'"
proof (induction es arbitrary: prev s)
  case Nil
  then show ?case by (auto simp: body_gives_Nil)
next
  case (Cons e es)
  show ?case
  proof (cases "\<exists>v w sc. ev e s = Some (Inr v, w, sc)")
    case True
    then obtain v w sc where e: "ev e s = Some (Inr v, w, sc)" by blast
    show ?thesis
    proof (cases "vm_flow w")
      case None
      then show ?thesis using e Cons.IH [of v "(w, sc)"]
        by (simp add: body_gives_Cons bindm_def get_flow_def set_flow_def flow_unchanged)
    next
      case (Some j)
      then show ?thesis using e
        by (cases j) (auto simp: body_gives_Cons bindm_def get_flow_def set_flow_def)
    qed
  next
    case False
    then show ?thesis by (auto simp: body_gives_Cons bindm_def split: option.splits sum.splits)
  qed
qed

text \<open>
  C3. A call returns \<open>r\<close> exactly when the function exists and takes as many arguments as it is given,
  every \<^verbatim>\<open>req\<close> and \<^verbatim>\<open>inv\<close> is true, in order, in a scope that holds the parameters only, the body then gives
  \<open>r\<close> (the value of its \<^verbatim>\<open>return\<close>, or its last), and every \<^verbatim>\<open>ens\<close> and \<^verbatim>\<open>inv\<close> is true, in order, with \<^verbatim>\<open>res\<close>
  bound to \<open>r\<close> in a copy of the scope the body leaves. The caller's scope comes back as it was.
\<close>

theorem call_succeeds:
  "invoke_body cx ev name vs (v, sc) = Some (Inr r, v', sc') \<longleftrightarrow> sc' = sc \<and>
     (\<exists>f s1 v2 sc2. cx_functions cx name = Some f \<and> length vs = length (fd_params f)
        \<and> all_true ev (entry_exprs (fd_contracts f)) (v, Map.empty(map fst (fd_params f) [\<mapsto>] vs)) s1
        \<and> body_gives ev VVoid (fd_body f) s1 r (v2, sc2)
        \<and> exit_true ev r sc2 (exit_exprs (fd_contracts f)) v2 v')"
  unfolding invoke_body_Inr run_body_iff bind_params_def map_upds_def by simp

text \<open>
  C5. The first contract that is not true ends the call with an error that names it, the function
  and the parameters' values, at the contract's position: the body is not run.
\<close>

theorem precondition_blamed:
  assumes "cx_functions cx name = Some f" "length vs = length (fd_params f)"
    and "fd_contracts f = pre @ c # post" "entry_contract c = Some (kind, e)"
    and "all_true ev (entry_exprs pre) (v, bind_params (fd_params f) vs) s1"
    and "ev e s1 = Some (Inr x, v2, sc2)" "x \<noteq> VBool True"
  shows "invoke_body cx ev name vs (v, sc) =
    Some (Inl (EContract kind name e (shown_bindings f sc2 None)), v2\<lparr>vm_error_at := Some (expr_span e)\<rparr>, sc)"
proof -
  have "entry_contracts ev name f (pre @ c # post) s =
      Some (Inl (EContract kind name e (shown_bindings f sc2 None)), v2\<lparr>vm_error_at := Some (expr_span e)\<rparr>, sc2)"
    if "all_true ev (entry_exprs pre) s s1" for s
    using that
  proof (induction pre arbitrary: s)
    case Nil
    then show ?case using assms(4,6,7)
      by (simp add: bindm_def check_contract_def set_error_at_def get_scope_def fail_def)
  next
    case (Cons d pre)
    show ?case
    proof (cases "entry_contract d")
      case None
      with Cons show ?thesis by simp
    next
      case (Some ke)
      with Cons.prems obtain s2 where t: "ev (snd ke) s = Some (Inr (VBool True), s2)" "all_true ev (entry_exprs pre) s2 s1"
        by auto
      then have "check_contract ev name f None None ke s = Some (Inr (), s2)" by (simp add: check_contract_entry)
      with Some Cons.IH [OF t(2)] show ?thesis by (simp add: bindm_def [of "check_contract ev name f None None ke"])
    qed
  qed
  from this [OF assms(5)] assms(1,2,3) show ?thesis
    by (simp add: invoke_body_def in_scope_def bindm_def)
qed

section \<open>What every evaluation keeps\<close>

text \<open>
  C2. Whatever an expression does, and whether it ends in a value or an error: the memory stays a
  whole number of 64 KiB pages within 2 GiB, never shrinks, and keeps its cap; the call depth
  is the one it was; and no variable of the scope goes away.
\<close>

theorem evaluation_preserves:
  assumes "eval cx ho n e (v, sc) = Some (r, v', sc')" "mem_ok (vm_mem v)"
  shows "mem_ok (vm_mem v') \<and> length (mm_bytes (vm_mem v)) \<le> length (mm_bytes (vm_mem v'))
    \<and> mm_max_pages (vm_mem v') = mm_max_pages (vm_mem v) \<and> vm_depth v' = vm_depth v \<and> dom sc \<subseteq> dom sc'"
proof -
  have "evolves (dom sc) (v, sc) (v', sc')"
    using vm.ev_safe [of "dom sc" cx ho n e] assms(1) unfolding safe_def by fastforce
  with assms(2) show ?thesis by (simp add: evolves_def mem_le_def)
qed

definition demo_host :: "unit host" where
  "demo_host = \<lparr>ho_call = (\<lambda>op vs h m. (Inl (EHost ''none''), h, [])), ho_random = (\<lambda>n h. (None, h)), ho_exhausted = (\<lambda>d. d > 1000)\<rparr>"

lemma eval_numeral [simp]:
  "eval cx ho (numeral k) e = around e (eval_inner cx ho (pred_numeral k) (eval cx ho (pred_numeral k)) e)"
  by (simp add: numeral_eq_Suc)

lemmas run_defs = around_def eval_inner_def bindm_def ret_def fail_def lift_res_def get_flow_def set_flow_def
  get_scope_def insert_var_def

lemma evaluation_preserves_witness:
  "\<exists>v' sc'. eval demo_cx demo_host 2 (ELet ''x'' TBool (ELit (LBool True) (1, 1)) (1, 1)) (demo_vm mem_new, Map.empty)
     = Some (Inr VVoid, v', sc') \<and> mem_ok (vm_mem v')"
proof -
  have e: "eval demo_cx demo_host 2 (ELet ''x'' TBool (ELit (LBool True) (1, 1)) (1, 1)) (demo_vm mem_new, Map.empty)
      = Some (Inr VVoid, demo_vm mem_new, [''x'' \<mapsto> VBool True])"
    by (simp add: run_defs eval_let_def eval_lit_def demo_vm_def)
  with evaluation_preserves [OF e] show ?thesis by (simp add: mem_ok_new)
qed

text \<open>
  Fuel is only a bound: a call that returns with some fuel returns the same result, in the same
  state, with any more.
\<close>

theorem more_fuel_same_result:
  assumes "run cx ho n f vs s = Some x" "n \<le> n'"
  shows "run cx ho n' f vs s = Some x"
  using run_le [OF assms(2), of cx ho f vs] assms(1) unfolding le_run_def by blast

definition demo_fn :: fn_def where
  "demo_fn = \<lparr>fd_name = ''inc'', fd_params = [(''x'', TI32)], fd_return_type = TI32,
     fd_contracts = [Requires (EOp (OpCmp Lt) [EVar ''x'' (1, 1), ELit (LInt 100) (1, 2)] (1, 3))],
     fd_body = [EOp (OpArith Add) [EVar ''x'' (2, 1), ELit (LInt 1) (2, 2)] (2, 3)],
     fd_span = (1, 0), fd_is_unsafe = False, fd_is_no_leak = False\<rparr>"

definition demo_prog :: ctx where
  "demo_prog = demo_cx\<lparr>cx_functions := [''inc'' \<mapsto> demo_fn], cx_order := [''inc'']\<rparr>"

lemmas call_defs = run_defs run_def invoke_def invoke_function_def invoke_body_def in_scope_def bind_params_def
  check_contract_def shown_bindings_def set_error_at_def entry_contract_def exit_contract_def eval_op_def
  binary_def arg_def nth_opt_def eval_var_def eval_lit_def apply_cmp_def signed_cmp_def int_cmp_def
  apply_arith_def num_op_def int_op_def pure2_def push_frame_def demo_prog_def demo_cx_def demo_fn_def
  demo_host_def demo_vm_def of_i32_def as_i32_def is_panic_def

lemma demo_call:
  "run demo_prog demo_host 3 ''inc'' [VInt 7] (demo_vm mem_new, Map.empty)
     = Some (Inr (VInt 8), demo_vm mem_new, Map.empty)"
  by (simp add: call_defs)

lemma more_fuel_same_result_witness:
  "run demo_prog demo_host 50 ''inc'' [VInt 7] (demo_vm mem_new, Map.empty)
     = Some (Inr (VInt 8), demo_vm mem_new, Map.empty)"
  by (rule more_fuel_same_result [OF demo_call]) simp

lemma demo_bad_call:
  "run demo_prog demo_host 3 ''inc'' [VInt 100] (demo_vm mem_new, Map.empty)
     = Some (Inl (EContract PreCondition ''inc'' (EOp (OpCmp Lt) [EVar ''x'' (1, 1), ELit (LInt 100) (1, 2)] (1, 3))
          [(''x'', VInt 100)]),
        (demo_vm mem_new)\<lparr>vm_trace := [(''inc'', Some (1, 3))]\<rparr>, Map.empty)"
  by (simp add: call_defs)

lemma precondition_blamed_witness:
  "invoke_body demo_prog (eval demo_prog demo_host 2) ''inc'' [VInt 100] (demo_vm mem_new, Map.empty) =
    Some (Inl (EContract PreCondition ''inc''
         (EOp (OpCmp Lt) [EVar ''x'' (1, 1), ELit (LInt 100) (1, 2)] (1, 3))
         (shown_bindings demo_fn [''x'' \<mapsto> VInt 100] None)),
       (demo_vm mem_new)\<lparr>vm_error_at := Some (expr_span (EOp (OpCmp Lt) [EVar ''x'' (1, 1), ELit (LInt 100) (1, 2)] (1, 3)))\<rparr>,
       Map.empty)"
proof (rule precondition_blamed [where pre = "[]" and post = "[]" and x = "VBool False"
      and ?s1.0 = "(demo_vm mem_new, [''x'' \<mapsto> VInt 100])"])
  show "cx_functions demo_prog ''inc'' = Some demo_fn" by (simp add: demo_prog_def)
  show "fd_contracts demo_fn = [] @ Requires (EOp (OpCmp Lt) [EVar ''x'' (1, 1), ELit (LInt 100) (1, 2)] (1, 3)) # []"
    by (simp add: demo_fn_def)
  show "eval demo_prog demo_host 2 (EOp (OpCmp Lt) [EVar ''x'' (1, 1), ELit (LInt 100) (1, 2)] (1, 3))
      (demo_vm mem_new, [''x'' \<mapsto> VInt 100]) = Some (Inr (VBool False), demo_vm mem_new, [''x'' \<mapsto> VInt 100])"
    by (simp add: call_defs)
qed (simp_all add: demo_fn_def entry_contract_def bind_params_def)

section \<open>Calls and their callers\<close>

lemma in_scope_keeps: "in_scope own m (v, sc) = Some (r, v', sc') \<Longrightarrow> sc' = sc"
  by (auto simp: in_scope_def)

lemma invoke_body_scope: "invoke_body cx ev f vs (v, sc) = Some (r, v', sc') \<Longrightarrow> sc' = sc"
  by (auto simp: invoke_body_def fail_def dest: in_scope_keeps split: option.splits if_splits)

lemma invoke_function_scope: "invoke_function cx ev f vs (v, sc) = Some (r, v', sc') \<Longrightarrow> sc' = sc"
  by (auto simp: invoke_function_def dest: invoke_body_scope split: option.splits sum.splits)

text \<open>
  A call never touches its caller's variables, whatever it returns, and gives back the depth
  of calls it was made at, also when it fails.
\<close>

theorem call_isolated:
  assumes "run cx ho n f vs (v, sc) = Some (r, v', sc')"
  shows "sc' = sc \<and> vm_depth v' = vm_depth v"
  using assms unfolding run_def invoke_def
  by (auto dest: invoke_function_scope split: if_splits)

lemma call_isolated_witness: "vm_depth ((demo_vm mem_new)\<lparr>vm_trace := [(''inc'', Some (1, 3))]\<rparr>) = vm_depth (demo_vm mem_new)"
  using call_isolated [OF demo_bad_call] by simp

lemma around_located:
  assumes "around e m s = Some (Inl err, v', sc')" "\<not> is_panic err"
  shows "vm_error_at v' \<noteq> None \<and> vm_flow v' = None"
proof -
  obtain v sc where s: "s = (v, sc)" by fastforce
  show ?thesis using assms
    by (auto simp: around_def s split: if_splits option.splits sum.splits)
qed

text \<open>
  C29. An error that comes out of an expression has a position, and no jump is pending with it:
  the failure of an expression a jump already left is not reported.
\<close>

theorem errors_located:
  assumes "eval cx ho n e s = Some (Inl err, v', sc')" "\<not> is_panic err"
  shows "vm_error_at v' \<noteq> None \<and> vm_flow v' = None"
proof (cases n)
  case (Suc k)
  with assms around_located show ?thesis by fastforce
qed (use assms in \<open>simp add: diverge_def\<close>)

lemma errors_located_witness:
  "vm_error_at ((demo_vm mem_new)\<lparr>vm_error_at := Some (3, 4)\<rparr>) \<noteq> None
    \<and> vm_flow ((demo_vm mem_new)\<lparr>vm_error_at := Some (3, 4)\<rparr>) = None"
proof -
  have "eval demo_prog demo_host 1 (EVar ''y'' (3, 4)) (demo_vm mem_new, Map.empty)
      = Some (Inl (ENotInScope ''y''), (demo_vm mem_new)\<lparr>vm_error_at := Some (3, 4)\<rparr>, Map.empty)"
    by (simp add: call_defs)
  then show ?thesis by (rule errors_located) (simp add: is_panic_def)
qed

text \<open>
  The call chain of a failed call from outside ends with the function that was called: its
  frame is pushed last, after those of the calls it was waiting for.
\<close>

theorem call_chain:
  assumes "run cx ho n f vs (v, sc) = Some (Inl err, v', sc')" "\<not> is_panic err"
    and "vm_flow v = None" "vm_depth v = 0"
  shows "\<exists>chain p. vm_trace v' = chain @ [(f, p)] \<and> vm_error_at v' = None"
  using assms unfolding run_def invoke_def invoke_function_def
  by (auto simp: push_frame_def split: option.splits sum.splits prod.splits)

lemma call_chain_witness:
  "\<exists>chain p. vm_trace ((demo_vm mem_new)\<lparr>vm_trace := [(''inc'', Some (1, 3))]\<rparr>) = chain @ [(''inc'', p)]
    \<and> vm_error_at ((demo_vm mem_new)\<lparr>vm_trace := [(''inc'', Some (1, 3))]\<rparr>) = None"
  by (rule call_chain [OF demo_bad_call]) (simp_all add: is_panic_def demo_vm_def)

section \<open>Jumps\<close>

lemma jump_skips: "vm_flow v \<noteq> None \<Longrightarrow> eval cx ho (Suc n) e (v, sc) = Some (Inr VVoid, v, sc)"
  by (simp add: around_def)

text \<open>
  After a jump nothing of the rest of a sequence happens: once an element leaves a jump
  pending, the sequence ends in the state that element left.
\<close>

theorem sequence_stops_at_jump:
  assumes "eval cx ho n e s = Some (Inr x, v', sc')" "vm_flow v' \<noteq> None"
  shows "eval_seq (eval cx ho n) y (e # es) s = Some (Inr x, v', sc')"
  using assms by (simp add: bindm_def get_flow_def ret_def)

lemma sequence_stops_at_jump_witness:
  "eval_seq (eval demo_prog demo_host 2) VVoid [EReturn (Some (ELit (LBool True) (1, 1))) (1, 1), EVar ''y'' (1, 2)]
     (demo_vm mem_new, Map.empty)
   = Some (Inr VVoid, (demo_vm mem_new)\<lparr>vm_flow := Some (FReturn (VBool True))\<rparr>, Map.empty)"
  by (rule sequence_stops_at_jump) (simp_all add: call_defs eval_return_def)

lemma after_body_run:
  "after_body (v, sc) = Some
     (case vm_flow v of
        None \<Rightarrow> (Inr True, v, sc)
      | Some FBreak \<Rightarrow> (Inr False, v\<lparr>vm_flow := None\<rparr>, sc)
      | Some FContinue \<Rightarrow> (Inr True, v\<lparr>vm_flow := None\<rparr>, sc)
      | Some (FReturn r) \<Rightarrow> (Inr False, v, sc))"
  by (auto simp: after_body_def bindm_def get_flow_def set_flow_def ret_def split: option.split flow.split)

text \<open>
  A loop consumes its own jumps: after an iteration of a body, no \<^verbatim>\<open>break\<close> or \<^verbatim>\<open>continue\<close>
  is pending, the loop goes on exactly when the iteration ended normally or by \<^verbatim>\<open>continue\<close>,
  and only a \<^verbatim>\<open>return\<close> stays for the function.
\<close>

theorem iteration_jumps:
  assumes "iteration ev body s = Some (Inr go, v', sc')"
  shows "if go then vm_flow v' = None else vm_flow v' = None \<or> (\<exists>r. vm_flow v' = Some (FReturn r))"
proof -
  from assms obtain v sc where "after_body (v, sc) = Some (Inr go, v', sc')"
    by (auto simp: iteration_def bindm_Inr)
  then show ?thesis unfolding after_body_run by (auto split: option.splits flow.splits)
qed

lemma iteration_jumps_witness:
  "iteration (eval demo_prog demo_host 1) [EContinue (1, 1)] (demo_vm mem_new, Map.empty)
     = Some (Inr True, demo_vm mem_new, Map.empty) \<and> vm_flow (demo_vm mem_new) = None"
proof -
  have i: "iteration (eval demo_prog demo_host 1) [EContinue (1, 1)] (demo_vm mem_new, Map.empty)
     = Some (Inr True, demo_vm mem_new, Map.empty)"
    by (simp add: call_defs iteration_def after_body_def retain_def keep_keys_def)
  with iteration_jumps [OF i] show ?thesis by simp
qed

text \<open>A body clears the jump of each of its expressions.\<close>

lemma run_body_flow:
  "run_body ev y es (v, sc) = Some (Inr r, v', sc') \<Longrightarrow> vm_flow v = None \<Longrightarrow> vm_flow v' = None"
proof (induction es arbitrary: y v sc)
  case (Cons e es)
  from Cons.prems(1) obtain x v1 sc1 where "ev e (v, sc) = Some (Inr x, v1, sc1)"
    and rest: "(case vm_flow v1 of None \<Rightarrow> run_body ev x es | Some (FReturn r) \<Rightarrow> ret r | Some _ \<Rightarrow> ret x)
        (v1\<lparr>vm_flow := None\<rparr>, sc1) = Some (Inr r, v', sc')"
    by (auto simp: bindm_Inr get_flow_def set_flow_def)
  show ?case
  proof (cases "vm_flow v1")
    case None
    with rest Cons.IH [of x "v1\<lparr>vm_flow := None\<rparr>" sc1] show ?thesis by simp
  next
    case (Some j)
    with rest show ?thesis by (cases j) auto
  qed
qed simp

text \<open>An expression that leaves no jump pending.\<close>

definition calm :: "'h evaluator \<Rightarrow> expr \<Rightarrow> bool" where
  "calm ev e \<longleftrightarrow> (\<forall>v sc x v' sc'. ev e (v, sc) = Some (x, v', sc') \<longrightarrow> vm_flow v = None \<longrightarrow> vm_flow v' = None)"

lemma all_true_calm:
  "all_true ev es (v, sc) (v', sc') \<Longrightarrow> \<forall>e \<in> set es. calm ev e \<Longrightarrow> vm_flow v = None \<Longrightarrow> vm_flow v' = None"
proof (induction es arbitrary: v sc)
  case (Cons e es)
  from Cons.prems(1) obtain v1 sc1 where e: "ev e (v, sc) = Some (Inr (VBool True), v1, sc1)"
    and rest: "all_true ev es (v1, sc1) (v', sc')" by auto
  from e Cons.prems(2,3) have "vm_flow v1 = None" unfolding calm_def by fastforce
  with Cons.IH [OF rest] Cons.prems(2) show ?case by simp
qed simp

lemma exit_true_calm:
  "exit_true ev r own es v v' \<Longrightarrow> \<forall>e \<in> set es. calm ev e \<Longrightarrow> vm_flow v = None \<Longrightarrow> vm_flow v' = None"
proof (induction es arbitrary: v)
  case (Cons e es)
  from Cons.prems(1) obtain v1 sc1 where e: "ev e (v, own(''res'' \<mapsto> r)) = Some (Inr (VBool True), v1, sc1)"
    and rest: "exit_true ev r own es v1 v'" by auto
  from e Cons.prems(2,3) have "vm_flow v1 = None" unfolding calm_def by fastforce
  with Cons.IH [OF rest] Cons.prems(2) show ?case by simp
qed simp

lemma invoke_body_calm:
  assumes "invoke_body cx ev f vs (v, sc) = Some (Inr r, v', sc')" "vm_flow v = None" "cx_functions cx f = Some fd"
    and "\<forall>e \<in> set (entry_exprs (fd_contracts fd)). calm ev e" "\<forall>e \<in> set (exit_exprs (fd_contracts fd)). calm ev e"
  shows "vm_flow v' = None"
proof -
  from assms(1,3) obtain v1 sc1 v2 sc2 where
    "all_true ev (entry_exprs (fd_contracts fd)) (v, bind_params (fd_params fd) vs) (v1, sc1)"
    "run_body ev VVoid (fd_body fd) (v1, sc1) = Some (Inr r, v2, sc2)"
    "exit_true ev r sc2 (exit_exprs (fd_contracts fd)) v2 v'"
    unfolding invoke_body_Inr by auto
  with assms(2,4,5) show ?thesis
    by (meson all_true_calm exit_true_calm run_body_flow)
qed

text \<open>
  C30. No jump leaves a function whose contracts leave none pending: a call that returns a value, in a
  state without a pending jump, leaves nothing pending. The body's jumps are cleared when it ends, but
  nothing clears one that an \<^verbatim>\<open>ens\<close> or \<^verbatim>\<open>inv\<close> leaves, which is why the contracts must be calm.
\<close>

theorem no_jump_leaves_call:
  assumes "run cx ho n f vs (v, sc) = Some (Inr r, v', sc')" "vm_flow v = None" "cx_functions cx f = Some fd"
    and "\<forall>e \<in> set (entry_exprs (fd_contracts fd)). calm (eval cx ho n) e"
    and "\<forall>e \<in> set (exit_exprs (fd_contracts fd)). calm (eval cx ho n) e"
  shows "vm_flow v' = None"
proof -
  obtain w w' where "invoke_function cx (eval cx ho n) f vs (w, sc) = Some (Inr r, w', sc')"
      "vm_flow w = None" "vm_flow w' = vm_flow v'"
    using assms(1,2) unfolding run_def invoke_def by (auto split: if_splits)
  then have "invoke_body cx (eval cx ho n) f vs (w, sc) = Some (Inr r, w', sc')"
    by (auto simp: invoke_function_def split: option.splits sum.splits)
  from invoke_body_calm [OF this \<open>vm_flow w = None\<close> assms(3,4,5)] \<open>vm_flow w' = vm_flow v'\<close> show ?thesis by simp
qed

definition demo_jumper :: fn_def where
  "demo_jumper = \<lparr>fd_name = ''f'', fd_params = [], fd_return_type = TBool, fd_contracts = [Requires (ELit (LBool True) (1, 3)), Ensures (EVar ''res'' (1, 4))],
     fd_body = [EReturn (Some (ELit (LBool True) (1, 1))) (1, 1), EVar ''y'' (1, 2)],
     fd_span = (1, 0), fd_is_unsafe = False, fd_is_no_leak = False\<rparr>"

lemma no_jump_leaves_call_witness:
  "run (demo_cx\<lparr>cx_functions := [''f'' \<mapsto> demo_jumper]\<rparr>) demo_host 3 ''f'' [] (demo_vm mem_new, Map.empty)
     = Some (Inr (VBool True), demo_vm mem_new, Map.empty) \<and> vm_flow (demo_vm mem_new) = None"
proof -
  let ?cx = "demo_cx\<lparr>cx_functions := [''f'' \<mapsto> demo_jumper]\<rparr>"
  have r: "run ?cx demo_host 3 ''f'' [] (demo_vm mem_new, Map.empty) = Some (Inr (VBool True), demo_vm mem_new, Map.empty)"
    by (simp add: call_defs demo_jumper_def eval_return_def)
  moreover have "vm_flow (demo_vm mem_new) = None"
    by (rule no_jump_leaves_call [OF r, where fd = demo_jumper])
      (simp_all add: demo_vm_def demo_jumper_def entry_contract_def exit_contract_def calm_def around_def eval_inner_def
        ret_def eval_var_def bindm_def get_scope_def lift_res_def split: if_splits option.splits sum.splits)
  ultimately show ?thesis by simp
qed

section \<open>Scopes\<close>

text \<open>
  A block gives back the variables it was entered with, however it ends: what it binds goes
  away, and nothing of the scope around it is lost.
\<close>

theorem block_scoped:
  assumes "eval cx ho (Suc n) (EBlock es p) (v, sc) = Some (r, v', sc')"
  shows "dom sc' = dom sc"
proof -
  have "dom sc \<subseteq> dom sc'"
    using vm.ev_safe [of "dom sc" cx ho "Suc n" "EBlock es p"] assms unfolding safe_def evolves_def by fastforce
  moreover have "dom sc' \<subseteq> dom sc"
    using assms by (auto simp: around_def eval_inner_def eval_block_def bindm_def get_scope_def retaining_def
        keep_keys_def split: if_splits option.splits sum.splits)
  ultimately show ?thesis by auto
qed

lemma block_scoped_witness:
  "eval demo_prog demo_host 3 (EBlock [ELet ''y'' TBool (ELit (LBool True) (1, 1)) (1, 1)] (1, 1))
     (demo_vm mem_new, [''x'' \<mapsto> VBool False]) = Some (Inr VVoid, demo_vm mem_new, [''x'' \<mapsto> VBool False])
   \<and> dom [''x'' \<mapsto> VBool False] = {''x''}"
proof -
  have r: "eval demo_prog demo_host (Suc 2) (EBlock [ELet ''y'' TBool (ELit (LBool True) (1, 1)) (1, 1)] (1, 1))
     (demo_vm mem_new, [''x'' \<mapsto> VBool False]) = Some (Inr VVoid, demo_vm mem_new, [''x'' \<mapsto> VBool False])"
    by (simp add: call_defs eval_block_def eval_let_def retaining_def keep_keys_def fun_eq_iff)
  with block_scoped [OF r] show ?thesis by (simp add: eval_nat_numeral)
qed

end
