(* ===== verification/Scalars.thy ===== *)
theory Scalars
  imports Values
begin

text \<open>
  The passage between a value and its scalars loses nothing: for every value of a type
  (\<open>val_ty\<close>), \<open>to_scalars\<close> gives one scalar per slot, each of its slot's kind, and
  \<open>from_scalars\<close> rebuilds the value, also from slots in which a boolean was stored as its word
  (\<open>slot_eq\<close>), which is what the memory gives back.
\<close>

section \<open>Values of a type\<close>

definition narrow_fits :: "narrow \<Rightarrow> i64 \<Rightarrow> bool" where
  "narrow_fits n i =
     (case n of
        NU8 \<Rightarrow> i = ucast (ucast i :: u8) | NI8 \<Rightarrow> i = scast (ucast i :: u8)
      | NU16 \<Rightarrow> i = ucast (ucast i :: u16) | NI16 \<Rightarrow> i = scast (ucast i :: u16))"

definition word_ty :: "ty \<Rightarrow> i64 \<Rightarrow> bool" where
  "word_ty t i =
     (case t of TI32 \<Rightarrow> True | TEnum _ \<Rightarrow> True | TFn _ _ _ \<Rightarrow> True | TNarrow n \<Rightarrow> narrow_fits n i | _ \<Rightarrow> False)"

definition long_ty :: "ty \<Rightarrow> bool" where
  "long_ty t = (case t of TI64 \<Rightarrow> True | TPtr _ \<Rightarrow> True | TArray _ \<Rightarrow> True | _ \<Rightarrow> False)"

fun val_ty :: "structs \<Rightarrow> ty \<Rightarrow> value \<Rightarrow> bool"
and val_tys :: "structs \<Rightarrow> struct_field list \<Rightarrow> value list \<Rightarrow> bool" where
  "val_ty st t (VInt i) = (narrow32 i \<and> word_ty t i)"
| "val_ty st t (VInt64 i) = long_ty t"
| "val_ty st t (VFloat x) = (t = TF64)"
| "val_ty st t (VFloat32 x) = (t = TF32)"
| "val_ty st t (VBool b) = (t = TBool)"
| "val_ty st t (VStr s) = (t = TStr)"
| "val_ty st t (VRecord vs) =
     (case t of
        TStruct n \<Rightarrow>
          (case get_struct st n of
             Some d \<Rightarrow> sd_is_value d \<and> \<not> isl (scalars st t) \<and> val_tys st (sd_fields d) vs
           | None \<Rightarrow> False)
      | _ \<Rightarrow> False)"
| "val_ty st t (VUnion tag vs) =
     (case t of
        TUnion n \<Rightarrow>
          (case (map_of (st_by_value st) n, get_union st n) of
             (Some l, Some u) \<Rightarrow>
               tag < length (ud_variants u) \<and> tag < 2 ^ 31 \<and> sum_layout st (ud_variants u) = Inr l
               \<and> val_tys st (vr_fields (ud_variants u ! tag)) vs
           | _ \<Rightarrow> False)
      | _ \<Rightarrow> False)"
| "val_ty st t (VOk v) =
     (case t of
        TResult a b \<Rightarrow> (case result_layout st a b of Inr (Some l) \<Rightarrow> val_ty st a v | _ \<Rightarrow> False)
      | _ \<Rightarrow> False)"
| "val_ty st t (VErr v) =
     (case t of
        TResult a b \<Rightarrow> (case result_layout st a b of Inr (Some l) \<Rightarrow> val_ty st b v | _ \<Rightarrow> False)
      | _ \<Rightarrow> False)"
| "val_ty st t VVoid = False"
| "val_tys st (f # fs) (v # vs) = (val_ty st (sf_ty f) v \<and> val_tys st fs vs)"
| "val_tys st [] [] = True"
| "val_tys st _ _ = False"

fun vdepth :: "value \<Rightarrow> nat" where
  "vdepth (VRecord vs) = Suc (foldr max (map vdepth vs) 0)"
| "vdepth (VUnion t vs) = Suc (foldr max (map vdepth vs) 0)"
| "vdepth (VOk v) = Suc (vdepth v)"
| "vdepth (VErr v) = Suc (vdepth v)"
| "vdepth _ = 1"

lemma foldr_max_le: "foldr max (map f vs) 0 \<le> (d :: nat) \<longleftrightarrow> (\<forall>v \<in> set vs. f v \<le> d)"
  by (induction vs) auto

section \<open>Slots\<close>

definition kind_ok :: "ty \<Rightarrow> value \<Rightarrow> bool" where
  "kind_ok k v =
     (case v of
        VInt i \<Rightarrow> k = TI32 \<and> narrow32 i | VBool _ \<Rightarrow> k = TI32 | VStr _ \<Rightarrow> k = TI32
      | VInt64 _ \<Rightarrow> k = TI64 | VFloat32 _ \<Rightarrow> k = TF32 | VFloat _ \<Rightarrow> k = TF64 | _ \<Rightarrow> False)"

definition slot_eq :: "value \<Rightarrow> value \<Rightarrow> bool" where
  "slot_eq x y \<longleftrightarrow> y = x \<or> (\<exists>b. x = VBool b \<and> y = VInt (if b then 1 else 0))"

lemma slot_eq_refl [simp]: "slot_eq x x"
  by (simp add: slot_eq_def)

lemma slot_eqs_refl [simp]: "list_all2 slot_eq xs xs"
  by (simp add: list_all2_refl)

lemma slot_eq_word [simp]:
  "slot_eq (VInt i) y \<longleftrightarrow> y = VInt i" "slot_eq (VInt64 j) y \<longleftrightarrow> y = VInt64 j"
  "slot_eq (VFloat a) y \<longleftrightarrow> y = VFloat a" "slot_eq (VFloat32 b) y \<longleftrightarrow> y = VFloat32 b"
  "slot_eq (VStr s) y \<longleftrightarrow> y = VStr s"
  by (auto simp: slot_eq_def)

lemma slot_kind_in [simp]: "slot_kind t \<in> set kinds"
  by (cases t) (simp_all add: kinds_def)

lemma slot_kind_id [simp]: "t \<in> set kinds \<Longrightarrow> slot_kind t = t"
  by (auto simp: kinds_def)

lemma zero_kind: "t \<in> set kinds \<Longrightarrow> kind_ok t (zero_of t)"
  by (auto simp: kinds_def zero_of_def kind_ok_def narrow32_iff)

lemma put_slots_spec:
  assumes "distinct slots" "\<forall>s \<in> set slots. s < length out" "length xs = length slots"
  shows "\<exists>out'. put_slots out slots xs = Inr out' \<and> length out' = length out
    \<and> (\<forall>i < length slots. out' ! (slots ! i) = xs ! i) \<and> (\<forall>j. j \<notin> set slots \<longrightarrow> out' ! j = out ! j)"
  using assms
proof (induction slots arbitrary: out xs)
  case (Cons s slots)
  from Cons.prems(3) obtain x xs' where xs: "xs = x # xs'" by (cases xs) auto
  have "\<exists>out'. put_slots (out[s := x]) slots xs' = Inr out' \<and> length out' = length (out[s := x])
      \<and> (\<forall>i < length slots. out' ! (slots ! i) = xs' ! i) \<and> (\<forall>j. j \<notin> set slots \<longrightarrow> out' ! j = out[s := x] ! j)"
    by (rule Cons.IH) (use Cons.prems xs in auto)
  then obtain out' where o: "put_slots (out[s := x]) slots xs' = Inr out'" "length out' = length out"
      "\<forall>i < length slots. out' ! (slots ! i) = xs' ! i" "\<forall>j. j \<notin> set slots \<longrightarrow> out' ! j = out[s := x] ! j"
    by auto
  have s: "s < length out" "s \<notin> set slots" using Cons.prems by auto
  have "\<forall>i < length (s # slots). out' ! ((s # slots) ! i) = xs ! i"
    using o s xs by (auto simp: nth_Cons split: nat.split)
  moreover have "\<forall>j. j \<notin> set (s # slots) \<longrightarrow> out' ! j = out ! j" using o(4) by auto
  ultimately show ?case using o(1,2) s xs by (auto simp: put_at_def)
qed auto

lemma put_at_0: "xs \<noteq> [] \<Longrightarrow> put_at xs 0 x = Inr (xs[0 := x])"
  by (simp add: put_at_def)

lemma as_usize_small: "k < 2 ^ 31 \<Longrightarrow> as_usize (of_i32 (word_of_nat k)) = k"
proof -
  assume k: "k < 2 ^ 31"
  then have s: "sint (word_of_nat k :: i32) = int k"
    by (simp add: signed_of_nat signed_take_bit_int_eq_self)
  have "sint (of_i32 (word_of_nat k)) = int k" by (simp add: s)
  moreover have "sint (word_of_nat k :: i64) = int k"
    using k by (simp add: signed_of_nat signed_take_bit_int_eq_self)
  ultimately have "of_i32 (word_of_nat k) = word_of_nat k" by (metis signed_word_eqI)
  then show ?thesis using k by (simp add: as_usize_def unsigned_of_nat take_bit_nat_eq_self)
qed

lemma kinds_layout_kinds: "set (sl_slots (kinds_layout per)) \<subseteq> set kinds"
proof -
  have "fst (build_slots kinds [a, b, c, d] [TI32] []) = TI32 # replicate a TI32 @ replicate b TF32
      @ replicate c TI64 @ replicate d TF64" for a b c d
    by (simp add: build_slots_kinds)
  then show ?thesis
    by (auto simp: kinds_layout_def kinds_def split: prod.splits)
qed

text \<open>A sum's slots, for the variant \<open>tag\<close> with scalars \<open>inner\<close>.\<close>

lemma sum_slots_spec:
  assumes l: "l = kinds_layout per" and per: "\<And>v. v \<in> set per \<Longrightarrow> set v \<subseteq> set kinds"
    and tag: "tag < length per" "tag < 2 ^ 31" and inner: "list_all2 kind_ok (per ! tag) inner"
  obtains xs where "sum_slots l tag inner = Inr xs" "list_all2 kind_ok (sl_slots l) xs"
    "xs \<noteq> []" "xs ! 0 = int32 (word_of_nat tag)" "tag < length (sl_variants l)"
    "\<forall>s \<in> set (sl_variants l ! tag). s < length xs" "map ((!) xs) (sl_variants l ! tag) = inner"
proof -
  let ?slots = "sl_variants l ! tag" let ?zeros = "map zero_of (sl_slots l)"
  let ?tagged = "?zeros[0 := int32 (word_of_nat tag)]"
  have ok: "slots_ok l per" using kinds_layout_slots_ok [OF per] l by simp
  have ne: "sl_slots l \<noteq> []" "sl_slots l ! 0 = TI32" using kinds_layout_tag [of per] l by auto
  have kinds: "\<forall>t \<in> set (sl_slots l). t \<in> set kinds" using l kinds_layout_kinds by auto
  have v: "tag < length (sl_variants l)" "length ?slots = length (per ! tag)" "distinct ?slots"
      "\<forall>i < length (per ! tag). 0 < ?slots ! i \<and> ?slots ! i < length (sl_slots l) \<and> sl_slots l ! (?slots ! i) = per ! tag ! i"
    using ok tag(1) unfolding slots_ok_def by auto
  have len: "length inner = length ?slots" using inner v(2) by (simp add: list_all2_lengthD)
  have below: "\<forall>s \<in> set ?slots. s < length ?tagged \<and> s \<noteq> 0"
    using v(2,4) by (auto simp: in_set_conv_nth)
  obtain xs where xs: "put_slots ?tagged ?slots inner = Inr xs" "length xs = length (sl_slots l)"
      "\<forall>i < length ?slots. xs ! (?slots ! i) = inner ! i" "\<forall>j. j \<notin> set ?slots \<longrightarrow> xs ! j = ?tagged ! j"
    using put_slots_spec [OF v(3) _ len, of ?tagged] below by auto
  show ?thesis
  proof
    show "sum_slots l tag inner = Inr xs"
      using ne v(1) xs(1) by (simp add: sum_slots_def put_at_0 at_def)
    show "xs \<noteq> []" using xs(2) ne by auto
    show "xs ! 0 = int32 (word_of_nat tag)" using xs(4) below ne by auto
    show "tag < length (sl_variants l)" by (rule v(1))
    show "\<forall>s \<in> set ?slots. s < length xs" using below xs(2) by auto
    show "map ((!) xs) ?slots = inner" using xs(3) len by (intro nth_equalityI) auto
    show "list_all2 kind_ok (sl_slots l) xs"
    proof (rule list_all2_all_nthI)
      fix j assume j: "j < length (sl_slots l)"
      show "kind_ok (sl_slots l ! j) (xs ! j)"
      proof (cases "j \<in> set ?slots")
        case True
        then obtain i where i: "i < length ?slots" "?slots ! i = j" by (auto simp: in_set_conv_nth)
        then have "kind_ok (per ! tag ! i) (inner ! i)"
          using inner v(2) by (auto dest: list_all2_nthD)
        with i v(2,4) xs(3) show ?thesis by auto
      next
        case False
        then show ?thesis
          using xs(4) j kinds ne zero_kind by (cases j) (auto simp: kind_ok_def)
      qed
    qed (simp add: xs(2))
  qed
qed

text \<open>What the sum gives back, from its slots or from slots equal to them.\<close>

lemma sum_slots_read:
  assumes "xs \<noteq> []" "xs ! 0 = int32 (word_of_nat tag)" "tag < 2 ^ 31"
    and below: "\<forall>s \<in> set slots. s < length xs" and m: "map ((!) xs) slots = inner"
    and ys: "list_all2 slot_eq xs ys"
  obtains zs where "tag_of ys = Inr tag" "pick_slots ys slots = Inr zs" "list_all2 slot_eq inner zs"
proof -
  have len: "length ys = length xs" using ys by (simp add: list_all2_lengthD)
  have "slot_eq (xs ! 0) (ys ! 0)" using ys assms(1) by (simp add: list_all2_nthD)
  then have "ys ! 0 = int32 (word_of_nat tag)" using assms(2) by simp
  then have t: "tag_of ys = Inr tag"
    using len assms(1,3) by (simp add: tag_of_def at_def nth_opt_def as_usize_small)
  have "map (at ys) slots = map Inr (map ((!) ys) slots)"
    using below len by (simp add: at_def nth_opt_def)
  then have p: "pick_slots ys slots = Inr (map ((!) ys) slots)"
    unfolding pick_slots_def by (simp only: seq_res_Inr)
  have "list_all2 slot_eq inner (map ((!) ys) slots)"
    using m below ys by (auto simp: list_all2_conv_all_nth)
  with t p that show ?thesis by blast
qed

section \<open>The round trip\<close>

lemma scalars_n_Suc: "scalars_n d st t = Inr ts \<Longrightarrow> scalars_n (Suc d) st t = Inr ts"
proof (induction d st t arbitrary: ts rule: scalars_n.induct)
  case (1 d st t)
  show ?case
  proof (cases t)
    case (TStruct n)
    show ?thesis
    proof (cases "\<exists>def. get_struct st n = Some def \<and> sd_is_value def")
      case True
      then obtain def where def: "get_struct st n = Some def" "sd_is_value def" by blast
      with "1.prems" TStruct obtain d' tss where d: "d = Suc d'"
        and tss: "map (\<lambda>f. scalars_n d' st (sf_ty f)) (sd_fields def) = map Inr tss" "ts = concat tss"
        by (auto simp: scalars_n_struct seq_res_Inr split: nat.splits)
      have "map (\<lambda>f. scalars_n (Suc d') st (sf_ty f)) (sd_fields def) = map Inr tss"
        using tss(1) "1.IH"(1) [OF TStruct def d]
        by (auto simp: list_eq_iff_nth_eq)
      then have "seq_res (map (\<lambda>f. scalars_n (Suc d') st (sf_ty f)) (sd_fields def)) = Inr tss"
        by (simp only: seq_res_Inr)
      with TStruct def d tss(2) show ?thesis by (simp add: scalars_n_struct)
    qed (use TStruct "1.prems" in \<open>auto simp: scalars_n_struct split: option.splits\<close>)
  next
    case (TResult a b)
    with "1.prems" "1.IH"(2,3) [OF TResult] show ?thesis
      by (auto simp: scalars_n_result Let_def)
  qed (use "1.prems" in auto)
qed

lemma scalars_value_struct:
  assumes "get_struct st n = Some def" "sd_is_value def" "scalars st (TStruct n) = Inr ts"
  obtains tss where "map (\<lambda>f. scalars st (sf_ty f)) (sd_fields def) = map Inr tss" "ts = concat tss"
proof -
  from assms obtain d' tss where d: "nest_fuel st = Suc d'"
    and tss: "map (\<lambda>f. scalars_n d' st (sf_ty f)) (sd_fields def) = map Inr tss" "ts = concat tss"
    by (auto simp: scalars_def scalars_n_struct seq_res_Inr split: nat.splits)
  have "map (\<lambda>f. scalars st (sf_ty f)) (sd_fields def) = map Inr tss"
    unfolding scalars_def d using tss(1)
    by (auto simp: list_eq_iff_nth_eq) (metis length_map nth_map scalars_n_Suc)
  with tss(2) that show ?thesis by blast
qed

definition rebuilds :: "structs \<Rightarrow> ty \<Rightarrow> value \<Rightarrow> ty list \<Rightarrow> value list \<Rightarrow> bool" where
  "rebuilds st t v ts xs \<longleftrightarrow> to_scalars st t v = Inr xs \<and> scalars st t = Inr ts
     \<and> list_all2 kind_ok (map slot_kind ts) xs
     \<and> (\<forall>ys d. list_all2 slot_eq xs ys \<longrightarrow> vdepth v \<le> d \<longrightarrow> from_scalars_n d st t ys = Inr v)"

definition rebuild_fields :: "structs \<Rightarrow> struct_field list \<Rightarrow> value list \<Rightarrow> ty list list \<Rightarrow> value list \<Rightarrow> bool" where
  "rebuild_fields st fs vs tss xs \<longleftrightarrow> fields_to_scalars st fs vs = Inr xs
     \<and> map (\<lambda>f. scalars st (sf_ty f)) fs = map Inr tss
     \<and> list_all2 kind_ok (map slot_kind (concat tss)) xs
     \<and> (\<forall>ys d pre post. list_all2 slot_eq xs ys \<longrightarrow> (\<forall>v \<in> set vs. vdepth v \<le> d) \<longrightarrow>
          fields_from (from_scalars_n d st) st (pre @ ys @ post) (length pre) fs = Inr vs)"

lemma rebuilds_scalar:
  assumes "to_scalars st t v = Inr [v]" "scalars st t = Inr [t]" "kind_ok (slot_kind t) v"
    and "\<And>y d. slot_eq v y \<Longrightarrow> from_scalars_n (Suc d) st t [y] = Inr v" "vdepth v = 1"
  shows "rebuilds st t v [t] [v]"
  unfolding rebuilds_def
proof (intro conjI allI impI)
  fix ys d assume ys: "list_all2 slot_eq [v] ys" and d: "vdepth v \<le> d"
  from ys obtain y where y: "ys = [y]" "slot_eq v y" by (auto simp: list_all2_Cons1)
  from d assms(5) obtain d' where "d = Suc d'" by (cases d) auto
  with assms(4) y show "from_scalars_n d st t ys = Inr v" by simp
qed (use assms(1-3) in simp_all)

lemma rebuild_fieldsD:
  assumes "rebuild_fields st fs vs tss xs" "list_all2 slot_eq xs ys" "\<forall>v \<in> set vs. vdepth v \<le> d"
  shows "fields_from (from_scalars_n d st) st ys 0 fs = Inr vs"
proof -
  have "\<forall>ys d pre post. list_all2 slot_eq xs ys \<longrightarrow> (\<forall>v \<in> set vs. vdepth v \<le> d) \<longrightarrow>
      fields_from (from_scalars_n d st) st (pre @ ys @ post) (length pre) fs = Inr vs"
    using assms(1) unfolding rebuild_fields_def by (elim conjE)
  from this [rule_format, OF assms(2,3) [rule_format], of "[]" "[]"] show ?thesis by simp
qed

lemma rebuild_fields_Cons:
  assumes "rebuilds st (sf_ty f) v ts xs" "rebuild_fields st fs vs tss zs"
  shows "rebuild_fields st (f # fs) (v # vs) (ts # tss) (xs @ zs)"
proof -
  have len: "length ts = length xs"
    using assms(1) unfolding rebuilds_def by (auto dest: list_all2_lengthD)
  have "fields_from (from_scalars_n d st) st (pre @ ys @ post) (length pre) (f # fs) = Inr (v # vs)"
    if ys: "list_all2 slot_eq (xs @ zs) ys" and d: "\<forall>w \<in> set (v # vs). vdepth w \<le> d" for ys d pre post
  proof -
    from ys obtain us ws where y: "ys = us @ ws" "list_all2 slot_eq xs us" "list_all2 slot_eq zs ws"
      by (auto simp: list_all2_append1)
    have lu: "length us = length ts" using y(2) len by (simp add: list_all2_lengthD)
    have "slice_res (pre @ us @ ws @ post) (length pre) (length ts) = Inr us"
      using lu by (simp add: slice_res_def slice_at_def)
    moreover have "from_scalars_n d st (sf_ty f) us = Inr v"
      using assms(1) y(2) d unfolding rebuilds_def by simp
    moreover have "fields_from (from_scalars_n d st) st (pre @ us @ ws @ post) (length pre + length ts) fs = Inr vs"
    proof -
      have "\<forall>ys d pre post. list_all2 slot_eq zs ys \<longrightarrow> (\<forall>v \<in> set vs. vdepth v \<le> d) \<longrightarrow>
          fields_from (from_scalars_n d st) st (pre @ ys @ post) (length pre) fs = Inr vs"
        using assms(2) unfolding rebuild_fields_def by blast
      then have "fields_from (from_scalars_n d st) st ((pre @ us) @ ws @ post) (length (pre @ us)) fs = Inr vs"
        using y(3) d by (metis list.set_intros(2))
      then show ?thesis by (simp add: lu)
    qed
    ultimately show ?thesis
      using assms(1) unfolding rebuilds_def y(1) by simp
  qed
  with assms show ?thesis
    unfolding rebuild_fields_def rebuilds_def by (simp add: list_all2_appendI)
qed

lemma sum_value:
  assumes l: "l = kinds_layout (map (map slot_kind) pers)" and tag: "tag < length pers" "tag < 2 ^ 31"
    and inner: "list_all2 kind_ok (map slot_kind (pers ! tag)) inner"
  obtains xs where "sum_slots l tag inner = Inr xs" "list_all2 kind_ok (map slot_kind (sl_slots l)) xs"
    "tag < length (sl_variants l)"
    "\<forall>ys. list_all2 slot_eq xs ys \<longrightarrow>
       (\<exists>zs. tag_of ys = Inr tag \<and> pick_slots ys (sl_variants l ! tag) = Inr zs \<and> list_all2 slot_eq inner zs)"
proof -
  have kinds: "set v \<subseteq> set kinds" if "v \<in> set (map (map slot_kind) pers)" for v
    using that by auto
  have t: "tag < length (map (map slot_kind) pers)" using tag(1) by simp
  have i: "list_all2 kind_ok (map (map slot_kind) pers ! tag) inner" using inner tag(1) by simp
  from sum_slots_spec [OF l kinds t tag(2) i] obtain xs where
    xs: "sum_slots l tag inner = Inr xs" "list_all2 kind_ok (sl_slots l) xs" "xs \<noteq> []"
      "xs ! 0 = int32 (word_of_nat tag)" "tag < length (sl_variants l)"
      "\<forall>s \<in> set (sl_variants l ! tag). s < length xs" "map ((!) xs) (sl_variants l ! tag) = inner"
    by blast
  have "map slot_kind (sl_slots l) = sl_slots l"
    unfolding l by (intro map_idI slot_kind_id subsetD [OF kinds_layout_kinds])
  moreover have "\<exists>zs. tag_of ys = Inr tag \<and> pick_slots ys (sl_variants l ! tag) = Inr zs \<and> list_all2 slot_eq inner zs"
    if "list_all2 slot_eq xs ys" for ys
    using sum_slots_read [OF xs(3,4) tag(2) xs(6,7) that] by blast
  ultimately show ?thesis using that xs by auto
qed

lemma sum_layout_per:
  assumes "sum_layout st vs = Inr l"
  obtains pers where "l = kinds_layout (map (map slot_kind) pers)" "length pers = length vs"
    "\<forall>i < length vs. scalars_of_fields st (vr_fields (vs ! i)) = Inr (pers ! i)"
proof -
  from assms obtain pers where p: "map (\<lambda>v. scalars_of_fields st (vr_fields v)) vs = map Inr pers"
    and l: "l = kinds_layout (map (map slot_kind) pers)"
    by (auto simp: sum_layout_def seq_res_Inr)
  from p have "length pers = length vs" by (metis length_map)
  moreover have "\<forall>i < length vs. scalars_of_fields st (vr_fields (vs ! i)) = Inr (pers ! i)"
    using p by (auto simp: list_eq_iff_nth_eq)
  ultimately show ?thesis using that l by blast
qed

lemma result_layout_per:
  assumes "result_layout st a b = Inr (Some l)"
  obtains sa sb where "scalars st a = Inr sa" "scalars st b = Inr sb"
    "l = kinds_layout (map (map slot_kind) [sa, sb])" "scalars st (TResult a b) = Inr (sl_slots l)"
proof -
  from assms obtain sa sb where s: "scalars st a = Inr sa" "scalars st b = Inr sb"
    and l: "l = kinds_layout [map slot_kind sa, map slot_kind sb]" "length (sl_slots l) \<le> max_scalars"
    by (auto simp: result_layout_def result_sum_def sum_layout_def scalars_of_fields_def result_side_def
        split: if_splits)
  moreover from this have "scalars st (TResult a b) = Inr (sl_slots l)"
    by (simp add: scalars_def scalars_n_result Let_def)
  ultimately show ?thesis using that by simp
qed

lemma from_record:
  assumes "get_struct st n = Some def" "sd_is_value def"
    and "fields_from (from_scalars_n d st) st ys 0 (sd_fields def) = Inr vs"
  shows "from_scalars_n (Suc d) st (TStruct n) ys = Inr (VRecord vs)"
  using assms by simp

lemma rebuild_record:
  assumes def: "get_struct st n = Some def" "sd_is_value def" and s: "\<not> isl (scalars st (TStruct n))"
    and f: "rebuild_fields st (sd_fields def) vs tss xs"
  shows "rebuilds st (TStruct n) (VRecord vs) (concat tss) xs"
proof -
  from s obtain ts where "scalars st (TStruct n) = Inr ts" by (cases "scalars st (TStruct n)") auto
  moreover from scalars_value_struct [OF def this] obtain tss'
    where "map (\<lambda>f. scalars st (sf_ty f)) (sd_fields def) = map Inr tss'" "ts = concat tss'" .
  moreover have "inj (Inr :: ty list \<Rightarrow> lay_error + ty list)" by simp
  ultimately have ts: "scalars st (TStruct n) = Inr (concat tss)"
    using f unfolding rebuild_fields_def by (metis inj_map_eq_map)
  have "from_scalars_n d st (TStruct n) ys = Inr (VRecord vs)"
    if ys: "list_all2 slot_eq xs ys" and d: "vdepth (VRecord vs) \<le> d" for ys d
  proof -
    from d obtain k where k: "d = Suc k" "\<forall>v \<in> set vs. vdepth v \<le> k"
      by (cases d) (auto simp: foldr_max_le)
    show ?thesis unfolding k(1) by (rule from_record [OF def rebuild_fieldsD [OF f ys k(2)]])
  qed
  then show ?thesis
    using ts f def unfolding rebuilds_def rebuild_fields_def by (simp del: from_scalars_n.simps)
qed

lemma rebuild_union:
  assumes l: "map_of (st_by_value st) n = Some l" and u: "get_union st n = Some u"
    and tag: "tag < length (ud_variants u)" "tag < 2 ^ 31" and sl: "sum_layout st (ud_variants u) = Inr l"
    and f: "rebuild_fields st (vr_fields (ud_variants u ! tag)) vs tss inner"
  shows "\<exists>xs. rebuilds st (TUnion n) (VUnion tag vs) (sl_slots l) xs"
proof -
  from sum_layout_per [OF sl] obtain pers where p: "l = kinds_layout (map (map slot_kind) pers)"
      "length pers = length (ud_variants u)"
      "\<forall>i < length (ud_variants u). scalars_of_fields st (vr_fields (ud_variants u ! i)) = Inr (pers ! i)" .
  have "map (\<lambda>f. scalars st (sf_ty f)) (vr_fields (ud_variants u ! tag)) = map Inr tss"
    using f unfolding rebuild_fields_def by blast
  then have "scalars_of_fields st (vr_fields (ud_variants u ! tag)) = Inr (concat tss)"
    by (simp add: scalars_of_fields_def seq_res_Inr)
  with p tag(1) have "pers ! tag = concat tss" by simp
  with f have k: "list_all2 kind_ok (map slot_kind (pers ! tag)) inner"
    unfolding rebuild_fields_def by simp
  have t: "tag < length pers" using p(2) tag(1) by simp
  from sum_value [OF p(1) t tag(2) k] obtain xs where
    xs: "sum_slots l tag inner = Inr xs" "list_all2 kind_ok (map slot_kind (sl_slots l)) xs"
      "tag < length (sl_variants l)"
      "\<forall>ys. list_all2 slot_eq xs ys \<longrightarrow>
        (\<exists>zs. tag_of ys = Inr tag \<and> pick_slots ys (sl_variants l ! tag) = Inr zs \<and> list_all2 slot_eq inner zs)" .
  have v: "at (ud_variants u) tag = Inr (ud_variants u ! tag)" "at (sl_variants l) tag = Inr (sl_variants l ! tag)"
    using tag(1) xs(3) by (simp_all add: at_def nth_opt_def)
  have "from_scalars_n d st (TUnion n) ys = Inr (VUnion tag vs)"
    if ys: "list_all2 slot_eq xs ys" and d: "vdepth (VUnion tag vs) \<le> d" for ys d
  proof -
    from d obtain d' where d': "d = Suc d'" "\<forall>v \<in> set vs. vdepth v \<le> d'"
      by (cases d) (auto simp: foldr_max_le)
    from xs(4) ys obtain zs where zs: "tag_of ys = Inr tag" "pick_slots ys (sl_variants l ! tag) = Inr zs"
      "list_all2 slot_eq inner zs" by blast
    from rebuild_fieldsD [OF f zs(3) d'(2)] l u v zs(1,2) d'(1) show ?thesis by simp
  qed
  then have "rebuilds st (TUnion n) (VUnion tag vs) (sl_slots l) xs"
    using l u v f xs(1,2) unfolding rebuilds_def rebuild_fields_def
    by (simp add: scalars_def del: from_scalars_n.simps)
  then show ?thesis ..
qed

lemma rebuild_result:
  assumes l: "result_layout st a b = Inr (Some l)" and tag: "tag < (2 :: nat)"
    and s: "side = (if tag = 0 then a else b)" and r: "rebuilds st side v ts inner"
    and w: "w = (if tag = 0 then VOk v else VErr v)"
  shows "\<exists>xs. rebuilds st (TResult a b) w (sl_slots l) xs"
proof -
  from result_layout_per [OF l] obtain sa sb where sc: "scalars st a = Inr sa" "scalars st b = Inr sb"
    and k: "l = kinds_layout (map (map slot_kind) [sa, sb])" "scalars st (TResult a b) = Inr (sl_slots l)" .
  have t: "tag = 0 \<or> tag = 1" using tag by auto
  have "[sa, sb] ! tag = ts" using sc s r t unfolding rebuilds_def by auto
  with r have i: "list_all2 kind_ok (map slot_kind ([sa, sb] ! tag)) inner" unfolding rebuilds_def by simp
  have "tag < length [sa, sb]" "tag < 2 ^ 31" using tag by auto
  from sum_value [OF k(1) this i] obtain xs where
    xs: "sum_slots l tag inner = Inr xs" "list_all2 kind_ok (map slot_kind (sl_slots l)) xs"
      "tag < length (sl_variants l)"
      "\<forall>ys. list_all2 slot_eq xs ys \<longrightarrow>
        (\<exists>zs. tag_of ys = Inr tag \<and> pick_slots ys (sl_variants l ! tag) = Inr zs \<and> list_all2 slot_eq inner zs)" .
  have v: "at (sl_variants l) tag = Inr (sl_variants l ! tag)"
    using xs(3) by (simp add: at_def nth_opt_def)
  have "to_scalars st (TResult a b) w = Inr xs"
    using r l xs(1) t unfolding rebuilds_def s w by auto
  moreover have "from_scalars_n d st (TResult a b) ys = Inr w"
    if ys: "list_all2 slot_eq xs ys" and d: "vdepth w \<le> d" for ys d
  proof -
    from d obtain d' where d': "d = Suc d'" "vdepth v \<le> d'"
      by (cases d) (auto simp: w split: if_splits)
    from xs(4) ys obtain zs where zs: "tag_of ys = Inr tag" "pick_slots ys (sl_variants l ! tag) = Inr zs"
      "list_all2 slot_eq inner zs" by blast
    have "from_scalars_n d' st side zs = Inr v" using r zs(3) d'(2) unfolding rebuilds_def by blast
    with l v zs(1,2) d'(1) s w show ?thesis by simp
  qed
  ultimately have "rebuilds st (TResult a b) w (sl_slots l) xs"
    using k(2) xs(2) unfolding rebuilds_def by simp
  then show ?thesis ..
qed

lemma rebuild:
  "val_ty st t v \<Longrightarrow> \<exists>ts xs. rebuilds st t v ts xs"
  "val_tys st fs vs \<Longrightarrow> \<exists>tss xs. rebuild_fields st fs vs tss xs"
proof (induction st t v and st fs vs rule: val_ty_val_tys.induct)
  case (1 st t i)
  then have "rebuilds st t (VInt i) [t] [VInt i]"
    by (intro rebuilds_scalar; cases t) (auto simp: word_ty_def scalars_def kind_ok_def at_def nth_opt_def)
  then show ?case by blast
next
  case (2 st t i)
  then have "rebuilds st t (VInt64 i) [t] [VInt64 i]"
    by (intro rebuilds_scalar; cases t) (auto simp: long_ty_def scalars_def kind_ok_def at_def nth_opt_def)
  then show ?case by blast
next
  case (3 st t x)
  then have "rebuilds st t (VFloat x) [t] [VFloat x]"
    by (intro rebuilds_scalar) (auto simp: scalars_def kind_ok_def at_def nth_opt_def)
  then show ?case by blast
next
  case (4 st t x)
  then have "rebuilds st t (VFloat32 x) [t] [VFloat32 x]"
    by (intro rebuilds_scalar) (auto simp: scalars_def kind_ok_def at_def nth_opt_def)
  then show ?case by blast
next
  case (5 st t b)
  then have "rebuilds st t (VBool b) [t] [VBool b]"
    by (intro rebuilds_scalar) (auto simp: scalars_def kind_ok_def at_def nth_opt_def slot_eq_def as_i32_def)
  then show ?case by blast
next
  case (6 st t s)
  then have "rebuilds st t (VStr s) [t] [VStr s]"
    by (intro rebuilds_scalar) (auto simp: scalars_def kind_ok_def at_def nth_opt_def)
  then show ?case by blast
next
  case (7 st t vs)
  then obtain n d where t: "t = TStruct n" "get_struct st n = Some d" "sd_is_value d"
      "\<not> isl (scalars st (TStruct n))" "val_tys st (sd_fields d) vs"
    by (auto split: ty.splits option.splits)
  from "7.IH" [OF t(1,2,5)] obtain tss xs where "rebuild_fields st (sd_fields d) vs tss xs" by blast
  from rebuild_record [OF t(2-4) this] t(1) show ?case by blast
next
  case (8 st t tag vs)
  from "8.prems" obtain n l u where t: "t = TUnion n" "map_of (st_by_value st) n = Some l" "get_union st n = Some u"
    and v: "tag < length (ud_variants u)" "tag < 2 ^ 31" "sum_layout st (ud_variants u) = Inr l"
      "val_tys st (vr_fields (ud_variants u ! tag)) vs"
    by (auto split: ty.splits option.splits)
  from "8.IH" [OF t(1) _ refl refl, unfolded t(2,3)] v
  obtain tss xs where "rebuild_fields st (vr_fields (ud_variants u ! tag)) vs tss xs" by auto
  from rebuild_union [OF t(2,3) v(1-3) this] t(1) show ?case by blast
next
  case (9 st t v)
  from "9.prems" obtain a b l where t: "t = TResult a b" "result_layout st a b = Inr (Some l)" "val_ty st a v"
    by (auto split: ty.splits sum.splits option.splits)
  from "9.IH" [OF t(1,2) refl t(3)] obtain ts xs where "rebuilds st a v ts xs" by blast
  from rebuild_result [OF t(2) _ _ this, of 0] t(1) show ?case by fastforce
next
  case (10 st t v)
  from "10.prems" obtain a b l where t: "t = TResult a b" "result_layout st a b = Inr (Some l)" "val_ty st b v"
    by (auto split: ty.splits sum.splits option.splits)
  from "10.IH" [OF t(1,2) refl t(3)] obtain ts xs where "rebuilds st b v ts xs" by blast
  from rebuild_result [OF t(2) _ _ this, of 1] t(1) show ?case by fastforce
next
  case (12 st f fs v vs)
  then show ?case by (auto dest: rebuild_fields_Cons)
next
  case (13 st)
  have "rebuild_fields st [] [] [] []" by (simp add: rebuild_fields_def)
  then show ?case by blast
qed simp_all

end
