(* ===== verification/Store_Load.thy ===== *)
theory Store_Load
  imports Memory_Facts Scalars
begin

text \<open>
  What \<open>store_val_at\<close> writes, \<open>load_val_at\<close> reads back, for every value of a storable type
  without strings (a string is copied to the heap and read back through its address): scalars at
  their width, value structs field by field, sums slot by slot. A store changes no byte outside
  the value's own.
\<close>

section \<open>Regions\<close>

definition agree :: "nat \<Rightarrow> nat \<Rightarrow> mem \<Rightarrow> mem \<Rightarrow> bool" where
  "agree a n m m' \<longleftrightarrow> length (mm_bytes m') = length (mm_bytes m)
     \<and> (\<forall>i. a \<le> i \<and> i < a + n \<longrightarrow> mm_bytes m' ! i = mm_bytes m ! i)"

definition changes_only :: "nat \<Rightarrow> nat \<Rightarrow> mem \<Rightarrow> mem \<Rightarrow> bool" where
  "changes_only a n m m' \<longleftrightarrow> length (mm_bytes m') = length (mm_bytes m) \<and> mm_max_pages m' = mm_max_pages m
     \<and> (\<forall>i. i < a \<or> a + n \<le> i \<longrightarrow> mm_bytes m' ! i = mm_bytes m ! i)"

lemma changes_only_refl [simp]: "changes_only a n m m"
  by (simp add: changes_only_def)

lemma changes_only_trans: "changes_only a n m k \<Longrightarrow> changes_only a n k l \<Longrightarrow> changes_only a n m l"
  by (simp add: changes_only_def)

lemma changes_only_wider: "changes_only b k m m' \<Longrightarrow> a \<le> b \<Longrightarrow> b + k \<le> a + n \<Longrightarrow> changes_only a n m m'"
  by (simp add: changes_only_def)

lemma agree_changes: "changes_only b k m m' \<Longrightarrow> a + n \<le> b \<or> b + k \<le> a \<Longrightarrow> agree a n m m'"
  by (auto simp: agree_def changes_only_def)

lemma agree_trans: "agree a n m k \<Longrightarrow> agree a n k l \<Longrightarrow> agree a n m l"
  by (simp add: agree_def)

lemma agree_within: "agree a n m m' \<Longrightarrow> a \<le> b \<Longrightarrow> b + k \<le> a + n \<Longrightarrow> agree b k m m'"
  by (simp add: agree_def)

lemma agree_slice: "agree a n m m' \<Longrightarrow> in_memory m a n \<Longrightarrow> slice_at (mm_bytes m') a n = slice_at (mm_bytes m) a n"
  by (rule nth_equalityI) (auto simp: agree_def in_memory_def nth_slice_at)

lemma agree_in_memory: "agree a n m m' \<Longrightarrow> in_memory m' b k = in_memory m b k"
  by (simp add: agree_def in_memory_def)

lemma write_raw_changes: "in_memory m a (length bs) \<Longrightarrow> changes_only a (length bs) m (write_raw a bs m)"
  by (auto simp: changes_only_def write_raw_def in_memory_def nth_splice)

text \<open>Stores into disjoint regions, one after another.\<close>

fun seq_mem :: "unit memop list \<Rightarrow> unit memop" where
  "seq_mem [] = mret ()"
| "seq_mem (f # fs) = mbind f (\<lambda>_. seq_mem fs)"

definition region_ok :: "nat \<Rightarrow> nat \<Rightarrow> nat \<Rightarrow> unit memop \<Rightarrow> (mem \<Rightarrow> bool) \<Rightarrow> bool" where
  "region_ok L b n f P \<longleftrightarrow>
     (\<forall>m. length (mm_bytes m) = L \<longrightarrow> (\<exists>m'. f m = (Inr (), m') \<and> changes_only b n m m' \<and> P m'))
     \<and> (\<forall>m m'. P m \<longrightarrow> agree b n m m' \<longrightarrow> P m')"

definition changes_at :: "(nat \<Rightarrow> nat) \<Rightarrow> (nat \<Rightarrow> nat) \<Rightarrow> nat \<Rightarrow> mem \<Rightarrow> mem \<Rightarrow> bool" where
  "changes_at b n k m m' \<longleftrightarrow> length (mm_bytes m') = length (mm_bytes m) \<and> mm_max_pages m' = mm_max_pages m
     \<and> (\<forall>x. (\<forall>i < k. x < b i \<or> b i + n i \<le> x) \<longrightarrow> mm_bytes m' ! x = mm_bytes m ! x)"

lemma changes_at_Suc:
  assumes "changes_only (b 0) (n 0) m k" "changes_at (\<lambda>i. b (Suc i)) (\<lambda>i. n (Suc i)) j k l"
  shows "changes_at b n (Suc j) m l"
proof -
  have "mm_bytes l ! x = mm_bytes m ! x" if "\<forall>i < Suc j. x < b i \<or> b i + n i \<le> x" for x
    using assms that by (auto simp: changes_only_def changes_at_def less_Suc_eq_0_disj)
  with assms show ?thesis by (simp add: changes_only_def changes_at_def)
qed

lemma changes_at_only:
  assumes "changes_at b n j m m'" "\<And>i. i < j \<Longrightarrow> lo \<le> b i \<and> b i + n i \<le> lo + k"
  shows "changes_only lo k m m'"
  unfolding changes_only_def
proof (intro conjI allI impI)
  fix x assume "x < lo \<or> lo + k \<le> x"
  then have "\<forall>i < j. x < b i \<or> b i + n i \<le> x" using assms(2) by (meson le_trans less_le_trans)
  with assms(1) show "mm_bytes m' ! x = mm_bytes m ! x" unfolding changes_at_def by blast
qed (use assms(1) in \<open>simp_all add: changes_at_def\<close>)

lemma seq_regions:
  assumes "\<And>i. i < length fs \<Longrightarrow> region_ok L (b i) (n i) (fs ! i) (P i)"
    and "\<And>i j. i < length fs \<Longrightarrow> j < length fs \<Longrightarrow> i \<noteq> j \<Longrightarrow> b i + n i \<le> b j \<or> b j + n j \<le> b i"
    and "length (mm_bytes m) = L"
  shows "\<exists>m'. seq_mem fs m = (Inr (), m') \<and> changes_at b n (length fs) m m' \<and> (\<forall>i < length fs. P i m')"
  using assms
proof (induction fs arbitrary: b n P m)
  case Nil
  then show ?case by (simp add: mret_def changes_at_def)
next
  case (Cons f fs)
  have r0: "region_ok L (b 0) (n 0) f (P 0)" using Cons.prems(1) [of 0] by simp
  with Cons.prems(3) obtain m1 where m1: "f m = (Inr (), m1)" "changes_only (b 0) (n 0) m m1" "P 0 m1"
    unfolding region_ok_def by blast
  have "\<exists>m'. seq_mem fs m1 = (Inr (), m') \<and> changes_at (\<lambda>i. b (Suc i)) (\<lambda>i. n (Suc i)) (length fs) m1 m'
      \<and> (\<forall>i < length fs. P (Suc i) m')"
  proof (rule Cons.IH)
    show "region_ok L (b (Suc i)) (n (Suc i)) (fs ! i) (P (Suc i))" if "i < length fs" for i
      using Cons.prems(1) [of "Suc i"] that by simp
    show "b (Suc i) + n (Suc i) \<le> b (Suc j) \<or> b (Suc j) + n (Suc j) \<le> b (Suc i)"
      if "i < length fs" "j < length fs" "i \<noteq> j" for i j
      using Cons.prems(2) [of "Suc i" "Suc j"] that by simp
    show "length (mm_bytes m1) = L" using m1(2) Cons.prems(3) by (simp add: changes_only_def)
  qed
  then obtain m' where m': "seq_mem fs m1 = (Inr (), m')"
      "changes_at (\<lambda>i. b (Suc i)) (\<lambda>i. n (Suc i)) (length fs) m1 m'" "\<forall>i < length fs. P (Suc i) m'"
    by blast
  have apart: "b 0 + n 0 \<le> b (Suc i) \<or> b (Suc i) + n (Suc i) \<le> b 0" if "i < length fs" for i
    using Cons.prems(2) [of 0 "Suc i"] that by simp
  have "agree (b 0) (n 0) m1 m'"
    unfolding agree_def
  proof (intro conjI allI impI)
    fix x assume "b 0 \<le> x \<and> x < b 0 + n 0"
    then have "\<forall>i < length fs. x < b (Suc i) \<or> b (Suc i) + n (Suc i) \<le> x"
      using apart by (meson le_less_trans less_le_trans not_le)
    with m'(2) show "mm_bytes m' ! x = mm_bytes m1 ! x" unfolding changes_at_def by blast
  qed (use m'(2) in \<open>simp add: changes_at_def\<close>)
  with r0 m1(3) have "P 0 m'" unfolding region_ok_def by blast
  with m'(3) have "\<forall>i < length (f # fs). P i m'" by (auto simp: less_Suc_eq_0_disj)
  moreover have "changes_at b n (length (f # fs)) m m'"
    using changes_at_Suc [OF m1(2) m'(2)] by simp
  ultimately show ?case using m1(1) m'(1) by (auto simp: mbind_def)
qed

section \<open>Scalars\<close>

lemma of_le_bytes_to: "(of_le (le_bytes k (w :: 'a::len word)) :: 'b::len word) = take_bit (8 * k) (ucast w)"
proof (rule bit_word_eqI)
  fix i assume "i < LENGTH('b)"
  have "i div 8 < k \<longleftrightarrow> i < 8 * k" by (simp add: div_less_iff_less_mult mult.commute)
  moreover have "8 * (i div 8) + i mod 8 = i" by simp
  ultimately show "bit (of_le (le_bytes k w) :: 'b word) i = bit (take_bit (8 * k) (ucast w :: 'b word)) i"
    using \<open>i < LENGTH('b)\<close> by (auto simp: bit_of_le le_bytes_def bit_simps dest: bit_imp_le_length)
qed

lemma take_le_bytes: "k \<le> n \<Longrightarrow> take k (le_bytes n w) = le_bytes k w"
  by (simp add: le_bytes_def take_map)

lemma ucast_as_i32 [simp]:
  "(ucast (as_i32 i) :: u8) = ucast i" "(ucast (as_i32 i) :: u16) = ucast i"
  unfolding as_i32_def by (rule bit_word_eqI, auto simp: bit_simps)+

lemma take_bit_full [simp]: "take_bit 8 (w :: u8) = w" "take_bit 16 (x :: u16) = x"
  "take_bit 32 (y :: u32) = y" "take_bit 64 (z :: u64) = z"
  by (simp_all add: take_bit_word_eq_self)

lemma load_narrow_bytes:
  "narrow_fits n i \<Longrightarrow> load_narrow n (take (narrow_size n) (le_bytes 4 (as_i32 i))) = VInt i"
  by (cases n) (simp_all add: load_narrow_def take_le_bytes of_le_bytes_to narrow_fits_def)

fun scalar_val :: "value \<Rightarrow> bool" where
  "scalar_val (VInt i) = True"
| "scalar_val (VInt64 i) = True"
| "scalar_val (VFloat x) = True"
| "scalar_val (VFloat32 x) = True"
| "scalar_val (VBool b) = True"
| "scalar_val _ = False"

text \<open>\<open>writes n t v y bs\<close>: storing \<open>v\<close> as a \<open>t\<close> writes the \<open>n\<close> bytes \<open>bs\<close>, which load as \<open>y\<close>.\<close>

definition writes :: "nat \<Rightarrow> ty \<Rightarrow> value \<Rightarrow> value \<Rightarrow> u8 list \<Rightarrow> bool" where
  "writes n t v y bs \<longleftrightarrow> length bs = n
     \<and> (\<forall>a m. in_memory m a n \<longrightarrow> store_scalar a t v m = (Inr (), write_raw a bs m))
     \<and> (\<forall>a m. in_memory m a n \<longrightarrow> slice_at (mm_bytes m) a n = bs \<longrightarrow> load_scalar m a t = Inr y)"

lemma writes_region:
  assumes "writes n t v y bs" "a + n \<le> L"
  shows "region_ok L a n (store_scalar a t v) (\<lambda>m. in_memory m a n \<and> load_scalar m a t = Inr y
    \<and> slice_at (mm_bytes m) a n = bs)"
  unfolding region_ok_def
proof (intro conjI allI impI)
  fix m :: mem assume "length (mm_bytes m) = L"
  then have i: "in_memory m a n" "length bs = n" using assms by (simp_all add: in_memory_def writes_def)
  have "slice_at (mm_bytes (write_raw a bs m)) a n = bs"
    using i by (simp add: write_raw_def in_memory_def)
  with assms(1) i have "load_scalar (write_raw a bs m) a t = Inr y" unfolding writes_def by simp
  with i assms(1) \<open>slice_at _ a n = bs\<close> show "\<exists>m'. store_scalar a t v m = (Inr (), m') \<and> changes_only a n m m'
      \<and> in_memory m' a n \<and> load_scalar m' a t = Inr y \<and> slice_at (mm_bytes m') a n = bs"
    using write_raw_changes [of m a bs] unfolding writes_def by auto
next
  fix m m' assume p: "in_memory m a n \<and> load_scalar m a t = Inr y \<and> slice_at (mm_bytes m) a n = bs"
    and g: "agree a n m m'"
  then show i: "in_memory m' a n" by (simp add: agree_in_memory)
  show s: "slice_at (mm_bytes m') a n = bs" using agree_slice [OF g] p by simp
  with i assms(1) show "load_scalar m' a t = Inr y" unfolding writes_def by blast
qed

lemma scalar_writes:
  assumes "val_ty st t v" "scalar_val v"
  shows "\<exists>n al bs. type_size_and_align st t = Inr (n, al) \<and> writes n t v v bs
    \<and> sum_of st t = Inr None \<and> value_struct st t = None"
proof (cases v)
  case (VInt i)
  show ?thesis
  proof (cases "\<exists>w. t = TNarrow w")
    case True
    with assms VInt obtain w where "t = TNarrow w" "narrow_fits w i" by (auto simp: word_ty_def)
    moreover have "narrow_size w \<le> 4" by (cases w) simp_all
    ultimately have "writes (narrow_size w) t v v (take (narrow_size w) (le_bytes 4 (as_i32 i)))"
      using VInt by (auto simp: writes_def store_scalar_def store_at_def load_scalar_def load_at_def load_narrow_bytes)
    with \<open>t = TNarrow w\<close> show ?thesis by (auto simp: type_size_and_align_def value_struct_def)
  next
    case False
    have "writes 4 t v v (le_bytes 4 (as_i32 i))"
      using assms VInt False
      by (cases t) (auto simp: word_ty_def writes_def store_scalar_def store_at_def load_scalar_def load_at_def narrow32_def)
    moreover have "type_size_and_align st t = Inr (4, 4) \<and> sum_of st t = Inr None \<and> value_struct st t = None"
      using assms VInt False by (cases t) (auto simp: word_ty_def type_size_and_align_def value_struct_def)
    ultimately show ?thesis by blast
  qed
next
  case (VInt64 i)
  have "writes 8 t v v (le_bytes 8 i)"
    using assms VInt64
    by (cases t) (auto simp: long_ty_def writes_def store_scalar_def store_at_def load_scalar_def load_at_def)
  moreover have "type_size_and_align st t = Inr (8, 8) \<and> sum_of st t = Inr None \<and> value_struct st t = None"
    using assms VInt64 by (cases t) (auto simp: long_ty_def type_size_and_align_def value_struct_def)
  ultimately show ?thesis by blast
next
  case (VFloat x)
  then have "writes 8 t v v (le_bytes 8 x)"
    using assms by (auto simp: writes_def store_scalar_def store_at_def load_scalar_def load_at_def)
  with assms VFloat show ?thesis by (auto simp: type_size_and_align_def value_struct_def)
next
  case (VFloat32 x)
  then have "writes 4 t v v (le_bytes 4 x)"
    using assms by (auto simp: writes_def store_scalar_def store_at_def load_scalar_def load_at_def)
  with assms VFloat32 show ?thesis by (auto simp: type_size_and_align_def value_struct_def)
next
  case (VBool b)
  then have "writes 4 t v v (le_bytes 4 (if b then 1 else 0 :: i32))"
    using assms by (auto simp: writes_def store_scalar_def store_at_def load_scalar_def load_at_def)
  with assms VBool show ?thesis by (auto simp: type_size_and_align_def value_struct_def)
qed (use assms in auto)

lemma of_i32_1 [simp]: "of_i32 1 = 1" "of_i32 0 = 0"
  by (simp_all add: of_i32_def)

lemma kind_writes:
  assumes "kind_ok k x" "scalar_val x"
  shows "\<exists>y bs. writes (slot_size k) k x y bs \<and> slot_eq x y"
proof (cases x)
  case (VInt i)
  then have "writes (slot_size k) k x x (le_bytes 4 (as_i32 i))"
    using assms by (auto simp: kind_ok_def slot_size_def writes_def store_scalar_def store_at_def load_scalar_def
      load_at_def narrow32_def)
  then show ?thesis by fastforce
next
  case (VBool b)
  then have "writes (slot_size k) k x (VInt (if b then 1 else 0)) (le_bytes 4 (if b then 1 else 0 :: i32))"
    using assms by (auto simp: kind_ok_def slot_size_def writes_def store_scalar_def store_at_def load_scalar_def load_at_def)
  moreover have "slot_eq x (VInt (if b then 1 else 0))" using VBool by (simp add: slot_eq_def)
  ultimately show ?thesis by blast
next
  case (VInt64 i)
  then have "writes (slot_size k) k x x (le_bytes 8 i)"
    using assms by (auto simp: kind_ok_def slot_size_def writes_def store_scalar_def store_at_def load_scalar_def load_at_def)
  then show ?thesis by fastforce
next
  case (VFloat i)
  then have "writes (slot_size k) k x x (le_bytes 8 i)"
    using assms by (auto simp: kind_ok_def slot_size_def writes_def store_scalar_def store_at_def load_scalar_def load_at_def)
  then show ?thesis by fastforce
next
  case (VFloat32 i)
  then have "writes (slot_size k) k x x (le_bytes 4 i)"
    using assms by (auto simp: kind_ok_def slot_size_def writes_def store_scalar_def store_at_def load_scalar_def load_at_def)
  then show ?thesis by fastforce
qed (use assms in auto)

section \<open>Values\<close>

fun no_str :: "value \<Rightarrow> bool" where
  "no_str (VStr s) = False"
| "no_str (VRecord vs) = (\<forall>v \<in> set vs. no_str v)"
| "no_str (VUnion t vs) = (\<forall>v \<in> set vs. no_str v)"
| "no_str (VOk v) = no_str v"
| "no_str (VErr v) = no_str v"
| "no_str _ = True"

text \<open>How deep records nest directly in one another: what \<open>load_val_n\<close> recurses through.\<close>

fun rdepth :: "value \<Rightarrow> nat" where
  "rdepth (VRecord vs) = Suc (foldr max (map rdepth vs) 0)"
| "rdepth _ = 1"

definition loads :: "structs \<Rightarrow> nat \<Rightarrow> ty \<Rightarrow> value \<Rightarrow> mem \<Rightarrow> bool" where
  "loads st a t v m \<longleftrightarrow> (\<forall>d. rdepth v \<le> d \<longrightarrow> load_val_n d st m a t = Inr v)"

definition store_ok :: "structs \<Rightarrow> (string \<rightharpoonup> nat) \<Rightarrow> nat \<Rightarrow> ty \<Rightarrow> value \<Rightarrow> bool" where
  "store_ok st strs n t v \<longleftrightarrow> (\<forall>L a. a + n \<le> L \<longrightarrow>
     (\<exists>P. region_ok L a n (store_val_at st strs a t v) P \<and> (\<forall>m. P m \<longrightarrow> loads st a t v m)))"

lemma rdepth_pos: "rdepth v \<le> d \<Longrightarrow> \<exists>d'. d = Suc d'"
  by (cases d; cases v) auto

lemma scalar_store_ok:
  assumes "val_ty st t v" "scalar_val v" "type_size_and_align st t = Inr (n, al)"
  shows "store_ok st strs n t v"
  unfolding store_ok_def
proof (intro allI impI)
  fix L a assume L: "a + n \<le> L"
  from scalar_writes [OF assms(1,2)] assms(3) obtain bs
    where w: "writes n t v v bs" and s: "sum_of st t = Inr None" "value_struct st t = None" by auto
  have str: "str_value strs t v = mret v" using assms(1,2) by (cases v) (auto simp: str_value_def split: ty.split)
  have "store_val_at st strs a t v = store_scalar a t v"
    by (rule ext) (subst store_val_at.simps, simp add: s str mbind_def mret_def mlift_def)
  with writes_region [OF w L] have "region_ok L a n (store_val_at st strs a t v)
      (\<lambda>m. in_memory m a n \<and> load_scalar m a t = Inr v \<and> slice_at (mm_bytes m) a n = bs)" by simp
  moreover have "loads st a t v m" if "load_scalar m a t = Inr v" for m
    unfolding loads_def using that s by (auto dest!: rdepth_pos)
  ultimately show "\<exists>P. region_ok L a n (store_val_at st strs a t v) P \<and> (\<forall>m. P m \<longrightarrow> loads st a t v m)"
    by blast
qed

text \<open>The scalars of a value without strings have none.\<close>

lemma put_slots_scalar:
  "put_slots out slots xs = Inr r \<Longrightarrow> \<forall>x \<in> set out. scalar_val x \<Longrightarrow> \<forall>x \<in> set xs. scalar_val x
     \<Longrightarrow> \<forall>x \<in> set r. scalar_val x"
proof (induction out slots xs rule: put_slots.induct)
  case (1 out s slots x xs)
  then obtain out' where o: "put_at out s x = Inr out'" "put_slots out' slots xs = Inr r" by auto
  then have "set out' \<subseteq> insert x (set out)"
    by (auto simp: put_at_def split: if_splits dest: set_update_subset_insert [THEN subsetD])
  with o "1.IH" [OF o(1)] "1.prems" show ?case by auto
qed auto

lemma zero_scalar: "scalar_val (zero_of t)"
  by (cases t) (simp_all add: zero_of_def)

lemma sum_slots_scalar:
  "sum_slots l tag inner = Inr xs \<Longrightarrow> \<forall>x \<in> set inner. scalar_val x \<Longrightarrow> \<forall>x \<in> set xs. scalar_val x"
  unfolding sum_slots_def
  by (auto simp: put_at_def at_def split: if_splits dest!: put_slots_scalar
      intro!: zero_scalar dest: set_update_subset_insert [THEN subsetD])

lemma to_scalars_scalar:
  "val_ty st t v \<Longrightarrow> no_str v \<Longrightarrow> to_scalars st t v = Inr xs \<Longrightarrow> \<forall>x \<in> set xs. scalar_val x"
  "val_tys st fs vs \<Longrightarrow> \<forall>v \<in> set vs. no_str v \<Longrightarrow> fields_to_scalars st fs vs = Inr xs \<Longrightarrow> \<forall>x \<in> set xs. scalar_val x"
proof (induction st t v and st fs vs arbitrary: xs and xs rule: val_ty_val_tys.induct)
  case (7 st t vs)
  then show ?case by (auto split: ty.splits option.splits)
next
  case (8 st t tag vs)
  from "8.prems"(1) obtain n l u where t: "t = TUnion n" "map_of (st_by_value st) n = Some l" "get_union st n = Some u"
    and v: "tag < length (ud_variants u)" "val_tys st (vr_fields (ud_variants u ! tag)) vs"
      "tag < 2 ^ 31" "sum_layout st (ud_variants u) = Inr l"
    by (auto split: ty.splits option.splits)
  with "8.prems"(3) obtain inner where "fields_to_scalars st (vr_fields (ud_variants u ! tag)) vs = Inr inner"
    and s: "sum_slots l tag inner = Inr xs"
    by (auto simp: at_def)
  with "8.IH" [OF t(1) _ refl refl, unfolded t(2,3)] v "8.prems"(2) have "\<forall>x \<in> set inner. scalar_val x" by auto
  from sum_slots_scalar [OF s this] show ?case .
next
  case (9 st t v)
  from "9.prems"(1) obtain a b l where t: "t = TResult a b" "result_layout st a b = Inr (Some l)" "val_ty st a v"
    by (auto split: ty.splits sum.splits option.splits)
  with "9.prems"(3) obtain inner where i: "to_scalars st a v = Inr inner" "sum_slots l 0 inner = Inr xs" by auto
  with "9.IH" [OF t(1,2) refl t(3)] "9.prems"(2) show ?case by (auto dest: sum_slots_scalar)
next
  case (10 st t v)
  from "10.prems"(1) obtain a b l where t: "t = TResult a b" "result_layout st a b = Inr (Some l)" "val_ty st b v"
    by (auto split: ty.splits sum.splits option.splits)
  with "10.prems"(3) obtain inner where i: "to_scalars st b v = Inr inner" "sum_slots l 1 inner = Inr xs" by auto
  with "10.IH" [OF t(1,2) refl t(3)] "10.prems"(2) show ?case by (auto dest: sum_slots_scalar)
next
  case (12 st f fs v vs)
  then show ?case by fastforce
qed auto

section \<open>Sums\<close>

lemma region_seq:
  assumes "\<And>i. i < length fs \<Longrightarrow> region_ok L (b i) (n i) (fs ! i) (P i)"
    and "\<And>i j. i < length fs \<Longrightarrow> j < length fs \<Longrightarrow> i \<noteq> j \<Longrightarrow> b i + n i \<le> b j \<or> b j + n j \<le> b i"
    and within: "\<And>i. i < length fs \<Longrightarrow> lo \<le> b i \<and> b i + n i \<le> lo + k"
  shows "region_ok L lo k (seq_mem fs) (\<lambda>m. \<forall>i < length fs. P i m)"
  unfolding region_ok_def
proof (intro conjI allI impI)
  fix m :: mem assume "length (mm_bytes m) = L"
  from seq_regions [OF assms(1,2) this] within
  show "\<exists>m'. seq_mem fs m = (Inr (), m') \<and> changes_only lo k m m' \<and> (\<forall>i < length fs. P i m')"
    by (metis changes_at_only)
next
  fix m m' i assume "\<forall>i < length fs. P i m" "agree lo k m m'" "i < length fs"
  then show "P i m'" using assms(1) within agree_within unfolding region_ok_def by blast
qed

lemma mbind_mlift [simp]: "mbind (mlift (Inr x)) g = g x"
  by (rule ext) (simp add: mbind_def mlift_def)

lemma store_slots_seq:
  "length xs = length ps \<Longrightarrow>
     store_slots a ps xs = seq_mem (map2 (\<lambda>p x. store_scalar (a + snd p) (fst p) x) ps xs)"
proof (induction a ps xs rule: store_slots.induct)
  case (1 a t off slots v vs)
  then show ?case by simp
qed auto

lemma sum_store_ok:
  assumes sum: "sum_of st t = Inr (Some l)" and l: "l = kinds_layout per"
    and xs: "to_scalars st t v = Inr xs" "list_all2 kind_ok (sl_slots l) xs" "\<forall>x \<in> set xs. scalar_val x"
    and rebuilt: "\<And>ys. list_all2 slot_eq xs ys \<Longrightarrow> from_scalars st t ys = Inr v"
  shows "store_ok st strs (sl_size l) t v"
  unfolding store_ok_def
proof (intro allI impI)
  fix L a assume L: "a + sl_size l \<le> L"
  let ?N = "length (sl_slots l)"
  have off: "offsets_ok 0 (sl_size l) (sl_offsets l) (sl_slots l)" using kinds_layout_offsets [of per] l by simp
  have len: "length xs = ?N" "length (sl_offsets l) = ?N"
    using xs(2) off by (simp_all add: list_all2_lengthD offsets_ok_def)
  have "\<forall>i < ?N. \<exists>y bs. writes (slot_size (sl_slots l ! i)) (sl_slots l ! i) (xs ! i) y bs \<and> slot_eq (xs ! i) y"
    using xs(2,3) len kind_writes by (metis list_all2_nthD nth_mem)
  then obtain y bs where w: "\<And>i. i < ?N \<Longrightarrow> writes (slot_size (sl_slots l ! i)) (sl_slots l ! i) (xs ! i) (y i) (bs i)
      \<and> slot_eq (xs ! i) (y i)" by metis
  let ?ps = "zip (sl_slots l) (sl_offsets l)"
  let ?fs = "map2 (\<lambda>p x. store_scalar (a + snd p) (fst p) x) ?ps xs"
  let ?b = "\<lambda>i. a + sl_offsets l ! i" and ?n = "\<lambda>i. slot_size (sl_slots l ! i)"
  let ?P = "\<lambda>i m. in_memory m (?b i) (?n i) \<and> load_scalar m (?b i) (sl_slots l ! i) = Inr (y i)
      \<and> slice_at (mm_bytes m) (?b i) (?n i) = bs i"
  have N: "length ?fs = ?N" using len by simp
  have inside: "sl_offsets l ! i + ?n i \<le> sl_size l" if "i < ?N" for i
    using off that by (auto simp: offsets_ok_def)
  have r: "region_ok L a (sl_size l) (seq_mem ?fs) (\<lambda>m. \<forall>i < length ?fs. ?P i m)"
  proof (rule region_seq)
    fix i assume "i < length ?fs"
    then have i: "i < ?N" using N by simp
    from writes_region [OF conjunct1 [OF w [OF i]], of "?b i" L] inside [OF i] L i len
    show "region_ok L (?b i) (?n i) (?fs ! i) (?P i)" by simp
    show "a \<le> ?b i \<and> ?b i + ?n i \<le> a + sl_size l" using inside [OF i] by simp
    fix j assume "j < length ?fs" "i \<noteq> j"
    with i N show "?b i + ?n i \<le> ?b j \<or> ?b j + ?n j \<le> ?b i"
      using off unfolding offsets_ok_def by (metis add.assoc linorder_neqE_nat nat_add_left_cancel_le)
  qed
  have "store_val_at st strs a t v = store_slots a ?ps xs"
    by (rule ext) (subst store_val_at.simps, simp add: sum xs(1) mbind_def mlift_def)
  then have s: "store_val_at st strs a t v = seq_mem ?fs" using store_slots_seq [of xs ?ps a] len by simp
  have "loads st a t v m" if P: "\<forall>i < length ?fs. ?P i m" for m
  proof -
    have "map (\<lambda>(t, off). load_scalar m (a + off) t) ?ps = map Inr (map y [0..<?N])"
      using P N len by (intro nth_equalityI) auto
    then have "load_slots m a l = Inr (map y [0..<?N])" unfolding load_slots_def by (simp only: seq_res_Inr)
    moreover have "list_all2 slot_eq xs (map y [0..<?N])"
      using w len by (auto simp: list_all2_conv_all_nth)
    ultimately show ?thesis
      unfolding loads_def using sum rebuilt by (auto dest!: rdepth_pos)
  qed
  with r s show "\<exists>P. region_ok L a (sl_size l) (store_val_at st strs a t v) P \<and> (\<forall>m. P m \<longrightarrow> loads st a t v m)"
    by auto
qed

section \<open>Value structs\<close>

lemma layout_at_shallower: "layout_at st t d = Inr sa \<Longrightarrow> d' \<le> d \<Longrightarrow> layout_at st t d' = Inr sa"
proof (induction st t d arbitrary: sa d' rule: layout_at.induct)
  case (1 st t d)
  show ?case
  proof (cases t)
    case (TStruct n)
    with "1.prems"(1) obtain def sas where def: "get_struct st n = Some def" "sd_is_value def" "d < 64"
      and sas: "map (\<lambda>f. layout_at st (sf_ty f) (d + 1)) (sd_fields def) = map Inr sas"
      and sa: "(let (offset, max_align) = lay_fields 0 1 sas in Inr (align_up offset max_align, max_align)) = (Inr sa :: lay_error + nat \<times> nat)"
      by (auto simp: layout_at_struct seq_res_Inr split: option.splits if_splits)
    have "layout_at st (sf_ty f) (d' + 1) = layout_at st (sf_ty f) (d + 1)" if f: "f \<in> set (sd_fields def)" for f
    proof -
      have "layout_at st (sf_ty f) (d + 1) \<in> set (map (\<lambda>f. layout_at st (sf_ty f) (d + 1)) (sd_fields def))"
        using f by simp
      then obtain x where x: "layout_at st (sf_ty f) (d + 1) = Inr x" unfolding sas by auto
      with "1.IH" [OF TStruct def(3,1,2) f x] "1.prems"(2) show ?thesis by simp
    qed
    then have "map (\<lambda>f. layout_at st (sf_ty f) (d' + 1)) (sd_fields def) = map Inr sas"
      using sas by (metis (no_types, lifting) map_eq_conv)
    then have "seq_res (map (\<lambda>f. layout_at st (sf_ty f) (d' + 1)) (sd_fields def)) = Inr sas"
      by (simp only: seq_res_Inr)
    with TStruct def sa "1.prems"(2) show ?thesis by (simp add: layout_at_struct)
  qed (use "1.prems" in \<open>auto simp: layout_at_result\<close>)
qed

lemma field_offset_nth:
  assumes "distinct (map sf_name fs)" "i < length fs"
    and "map (\<lambda>f. type_size_and_align st (sf_ty f)) fs = map Inr sas"
  shows "\<exists>p. field_offset st sn (sf_name (fs ! i)) lo fs = Inr (p, sf_ty (fs ! i))"
  using assms
proof (induction fs arbitrary: i lo sas)
  case (Cons f fs)
  from Cons.prems(3) obtain s a sas' where f: "type_size_and_align st (sf_ty f) = Inr (s, a)"
    and fs: "map (\<lambda>f. type_size_and_align st (sf_ty f)) fs = map Inr sas'"
    by (cases sas) auto
  show ?case
  proof (cases i)
    case 0
    with f show ?thesis by simp
  next
    case (Suc j)
    with Cons.prems(1,2) have "sf_name f \<noteq> sf_name (fs ! j)" by (auto simp: nth_mem)
    with Cons.IH [OF _ _ fs] Cons.prems(1,2) Suc f show ?thesis by simp
  qed
qed simp

definition names_ok :: "structs \<Rightarrow> bool" where
  "names_ok st \<longleftrightarrow> (\<forall>n d. get_struct st n = Some d \<longrightarrow> distinct (map sf_name (sd_fields d)))"

lemma value_struct_layout:
  assumes ok: "structs_ok st" "names_ok st" and def: "get_struct st n = Some def"
    and size: "type_size_and_align st (TStruct n) = Inr (k, al)"
  obtains p s where
    "\<And>i. i < length (sd_fields def) \<Longrightarrow>
       get_field_offset st def (sf_name (sd_fields def ! i)) = Inr (p i, sf_ty (sd_fields def ! i))
       \<and> (\<exists>a. type_size_and_align st (sf_ty (sd_fields def ! i)) = Inr (s i, a)) \<and> p i + s i \<le> k"
    "\<And>i j. i < length (sd_fields def) \<Longrightarrow> j < length (sd_fields def) \<Longrightarrow> i \<noteq> j \<Longrightarrow>
       p i + s i \<le> p j \<or> p j + s j \<le> p i"
proof -
  let ?fs = "sd_fields def"
  from size def obtain sas where m1: "map (\<lambda>f. layout_at st (sf_ty f) 1) ?fs = map Inr sas"
    and sa: "(let (offset, max_align) = lay_fields 0 1 sas in Inr (align_up offset max_align, max_align))
      = (Inr (k, al) :: lay_error + nat \<times> nat)"
    by (auto simp: type_size_and_align_def layout_at_struct seq_res_Inr split: if_splits)
  from sa obtain e where lf: "lay_fields 0 1 sas = (e, al)" and k: "k = align_up e al"
    by (cases "lay_fields 0 1 sas") simp
  have "type_size_and_align st (sf_ty f) = layout_at st (sf_ty f) 1" if "f \<in> set ?fs" for f
  proof -
    have "layout_at st (sf_ty f) 1 \<in> set (map (\<lambda>f. layout_at st (sf_ty f) 1) ?fs)" using that by simp
    then obtain x where "layout_at st (sf_ty f) 1 = Inr x" unfolding m1 by auto
    with layout_at_shallower [OF this, of 0] show ?thesis by (simp add: type_size_and_align_def)
  qed
  then have m: "map (\<lambda>f. type_size_and_align st (sf_ty f)) ?fs = map Inr sas"
    using m1 by (metis (no_types, lifting) map_eq_conv)
  have one: "1 \<in> aligns" by (simp add: aligns_def)
  have d: "distinct (map sf_name ?fs)" using ok(2) def by (simp add: names_ok_def)
  have "0 < al" using type_laid [OF ok(1) size] by (auto simp: laid_def dest: aligns_pos)
  then have ek: "e \<le> k" by (simp add: k align_up_ge)
  have "\<forall>i < length ?fs. \<exists>p. get_field_offset st def (sf_name (?fs ! i)) = Inr (p, sf_ty (?fs ! i))"
    unfolding get_field_offset_def using field_offset_nth [OF d _ m] by blast
  then obtain p where p: "\<And>i. i < length ?fs \<Longrightarrow> get_field_offset st def (sf_name (?fs ! i)) = Inr (p i, sf_ty (?fs ! i))"
    by metis
  have "\<forall>i < length ?fs. type_size_and_align st (sf_ty (?fs ! i)) = Inr (fst (sas ! i), snd (sas ! i))"
    using m by (metis length_map nth_map prod.collapse)
  then have s: "\<And>i. i < length ?fs \<Longrightarrow> type_size_and_align st (sf_ty (?fs ! i)) = Inr (fst (sas ! i), snd (sas ! i))"
    by blast
  show ?thesis
  proof (rule that [of p "\<lambda>i. fst (sas ! i)"])
    fix i assume i: "i < length ?fs"
    have "p i + fst (sas ! i) \<le> e"
      using field_offset_bounds [OF ok(1) _ m one lf s [OF i]] p [OF i] by (simp add: get_field_offset_def)
    with p [OF i] s [OF i] ek show "get_field_offset st def (sf_name (?fs ! i)) = Inr (p i, sf_ty (?fs ! i))
        \<and> (\<exists>a. type_size_and_align st (sf_ty (?fs ! i)) = Inr (fst (sas ! i), a)) \<and> p i + fst (sas ! i) \<le> k"
      using le_trans by blast
    fix j assume j: "j < length ?fs" "i \<noteq> j"
    then have "sf_name (?fs ! i) \<noteq> sf_name (?fs ! j)" using d i by (auto simp: distinct_conv_nth)
    from fields_disjoint [OF ok(1) this _ _ m s [OF i] s [OF j(1)]] p [OF i] p [OF j(1)]
    show "p i + fst (sas ! i) \<le> p j \<or> p j + fst (sas ! j) \<le> p i" by (simp add: get_field_offset_def)
  qed
qed

lemma store_fields_seq:
  assumes "length fs = length vs"
    and "\<And>i. i < length fs \<Longrightarrow> get_field_offset st def (sf_name (fs ! i)) = Inr (p i, sf_ty (fs ! i))"
  shows "store_fields st strs a def fs vs =
    seq_mem (map (\<lambda>i. store_val_at st strs (a + p i) (sf_ty (fs ! i)) (vs ! i)) [0..<length fs])"
  using assms
proof (induction fs vs arbitrary: p rule: list_induct2)
  case (Cons f fs v vs)
  have "map (\<lambda>i. store_val_at st strs (a + p i) (sf_ty ((f # fs) ! i)) ((v # vs) ! i)) [0..<length (f # fs)]
      = store_val_at st strs (a + p 0) (sf_ty f) v
        # map (\<lambda>i. store_val_at st strs (a + p (Suc i)) (sf_ty (fs ! i)) (vs ! i)) [0..<length fs]"
    by (simp add: upt_conv_Cons map_Suc_upt [symmetric] comp_def del: upt_Suc)
  moreover have "store_fields st strs a def fs vs =
      seq_mem (map (\<lambda>i. store_val_at st strs (a + p (Suc i)) (sf_ty (fs ! i)) (vs ! i)) [0..<length fs])"
    by (rule Cons.IH) (use Cons.prems [of "Suc _"] in simp)
  moreover have "get_field_offset st def (sf_name f) = Inr (p 0, sf_ty f)" using Cons.prems [of 0] by simp
  ultimately show ?case by (simp only: store_fields.simps seq_mem.simps lift_lay_simps mbind_mlift prod.case)
qed simp

lemma val_tys_nth: "val_tys st fs vs \<longleftrightarrow> length fs = length vs \<and> (\<forall>i < length fs. val_ty st (sf_ty (fs ! i)) (vs ! i))"
  by (induction fs vs rule: list_induct2') (auto simp: less_Suc_eq_0_disj)

lemma struct_store_ok:
  assumes ok: "structs_ok st" "names_ok st" and def: "get_struct st n = Some def" "sd_is_value def"
    and size: "type_size_and_align st (TStruct n) = Inr (k, al)" and len: "length (sd_fields def) = length vs"
    and fields: "\<And>i s a. i < length vs \<Longrightarrow> type_size_and_align st (sf_ty (sd_fields def ! i)) = Inr (s, a)
      \<Longrightarrow> store_ok st strs s (sf_ty (sd_fields def ! i)) (vs ! i)"
  shows "store_ok st strs k (TStruct n) (VRecord vs)"
  unfolding store_ok_def
proof (intro allI impI)
  fix L a assume L: "a + k \<le> L"
  let ?fs = "sd_fields def"
  obtain p s where f: "\<And>i. i < length ?fs \<Longrightarrow> get_field_offset st def (sf_name (?fs ! i)) = Inr (p i, sf_ty (?fs ! i))
       \<and> (\<exists>a. type_size_and_align st (sf_ty (?fs ! i)) = Inr (s i, a)) \<and> p i + s i \<le> k"
    and apart: "\<And>i j. i < length ?fs \<Longrightarrow> j < length ?fs \<Longrightarrow> i \<noteq> j \<Longrightarrow> p i + s i \<le> p j \<or> p j + s j \<le> p i"
    using value_struct_layout [OF ok def(1) size] by metis
  have "\<forall>i < length ?fs. \<exists>P. region_ok L (a + p i) (s i) (store_val_at st strs (a + p i) (sf_ty (?fs ! i)) (vs ! i)) P
      \<and> (\<forall>m. P m \<longrightarrow> loads st (a + p i) (sf_ty (?fs ! i)) (vs ! i) m)"
  proof (intro allI impI)
    fix i assume i: "i < length ?fs"
    then have "store_ok st strs (s i) (sf_ty (?fs ! i)) (vs ! i)" using f [OF i] fields len by auto
    moreover have "a + p i + s i \<le> L" using f [OF i] L by simp
    ultimately show "\<exists>P. region_ok L (a + p i) (s i) (store_val_at st strs (a + p i) (sf_ty (?fs ! i)) (vs ! i)) P
      \<and> (\<forall>m. P m \<longrightarrow> loads st (a + p i) (sf_ty (?fs ! i)) (vs ! i) m)" unfolding store_ok_def by blast
  qed
  then obtain P where P: "\<And>i. i < length ?fs \<Longrightarrow>
      region_ok L (a + p i) (s i) (store_val_at st strs (a + p i) (sf_ty (?fs ! i)) (vs ! i)) (P i)
      \<and> (\<forall>m. P i m \<longrightarrow> loads st (a + p i) (sf_ty (?fs ! i)) (vs ! i) m)" by metis
  let ?ops = "map (\<lambda>i. store_val_at st strs (a + p i) (sf_ty (?fs ! i)) (vs ! i)) [0..<length ?fs]"
  have r: "region_ok L a k (seq_mem ?ops) (\<lambda>m. \<forall>i < length ?ops. P i m)"
  proof (rule region_seq)
    fix i assume "i < length ?ops"
    then have i: "i < length ?fs" by simp
    with P [OF i] show "region_ok L (a + p i) (s i) (?ops ! i) (P i)" by simp
    show "a \<le> a + p i \<and> a + p i + s i \<le> a + k" using f [OF i] by simp
    fix j assume "j < length ?ops" "i \<noteq> j"
    with apart [OF i, of j] show "a + p i + s i \<le> a + p j \<or> a + p j + s j \<le> a + p i" by auto
  qed
  have "value_struct st (TStruct n) = Some def" using def by (simp add: value_struct_def)
  then have "store_val_at st strs a (TStruct n) (VRecord vs) = store_fields st strs a def ?fs vs"
    by (intro ext) (subst store_val_at.simps, simp add: mbind_def mlift_def)
  then have st: "store_val_at st strs a (TStruct n) (VRecord vs) = seq_mem ?ops"
    using store_fields_seq [OF len] f by simp
  have "loads st a (TStruct n) (VRecord vs) m" if m: "\<forall>i < length ?ops. P i m" for m
    unfolding loads_def
  proof (intro allI impI)
    fix d assume "rdepth (VRecord vs) \<le> d"
    then obtain d' where d: "d = Suc d'" "\<forall>v \<in> set vs. rdepth v \<le> d'" by (cases d) (auto simp: foldr_max_le)
    let ?g = "\<lambda>f. bind_res (lift_lay (get_field_offset st def (sf_name f))) (\<lambda>(off, ft). load_val_n d' st m (a + off) ft)"
    have "?g (?fs ! i) = Inr (vs ! i)" if i: "i < length ?fs" for i
    proof -
      have "loads st (a + p i) (sf_ty (?fs ! i)) (vs ! i) m" using P [OF i] m i by simp
      then show ?thesis using f [OF i] d(2) len i by (simp add: loads_def)
    qed
    then have "map ?g ?fs = map Inr vs" using len by (auto simp: list_eq_iff_nth_eq)
    then have "seq_res (map ?g ?fs) = Inr vs" by (simp only: seq_res_Inr)
    with \<open>value_struct st (TStruct n) = Some def\<close> d(1) show "load_val_n d st m a (TStruct n) = Inr (VRecord vs)"
      by simp
  qed
  with r st show "\<exists>P. region_ok L a k (store_val_at st strs a (TStruct n) (VRecord vs)) P
      \<and> (\<forall>m. P m \<longrightarrow> loads st a (TStruct n) (VRecord vs) m)"
    by auto
qed

section \<open>Every value\<close>

definition fuel_ok :: "structs \<Rightarrow> bool" where
  "fuel_ok st \<longleftrightarrow> (\<forall>t v. val_ty st t v \<longrightarrow> vdepth v \<le> from_fuel st t)"

lemma sum_value_store_ok:
  assumes "val_ty st t v" "no_str v" "fuel_ok st" "sum_of st t = Inr (Some l)"
    and "l = kinds_layout per" "scalars st t = Inr (sl_slots l)"
  shows "store_ok st strs (sl_size l) t v"
proof -
  from rebuild(1) [OF assms(1)] assms(6) obtain xs where r: "rebuilds st t v (sl_slots l) xs"
    by (auto simp: rebuilds_def)
  show ?thesis
  proof (rule sum_store_ok [OF assms(4,5)])
    show x: "to_scalars st t v = Inr xs" using r by (simp add: rebuilds_def)
    show "\<forall>x \<in> set xs. scalar_val x" by (rule to_scalars_scalar(1) [OF assms(1,2) x])
    have "map slot_kind (sl_slots l) = sl_slots l"
      unfolding assms(5) by (intro map_idI slot_kind_id subsetD [OF kinds_layout_kinds])
    with r show "list_all2 kind_ok (sl_slots l) xs" by (simp add: rebuilds_def)
    show "from_scalars st t ys = Inr v" if "list_all2 slot_eq xs ys" for ys
      using r that assms(1,3) unfolding from_scalars_def rebuilds_def fuel_ok_def by blast
  qed
qed

lemma store_ok:
  assumes "structs_ok st" "names_ok st" "fuel_ok st"
  shows "val_ty st t v \<Longrightarrow> no_str v \<Longrightarrow> type_size_and_align st t = Inr (n, al) \<Longrightarrow> store_ok st strs n t v"
    and "val_tys st fs vs \<Longrightarrow> \<forall>v \<in> set vs. no_str v \<Longrightarrow>
      \<forall>i < length vs. \<forall>s a. type_size_and_align st (sf_ty (fs ! i)) = Inr (s, a)
        \<longrightarrow> store_ok st strs s (sf_ty (fs ! i)) (vs ! i)"
  using assms
proof (induction st t v and st fs vs arbitrary: n al and rule: val_ty_val_tys.induct)
  case (7 st t vs)
  from "7.prems"(1) obtain n' d where t: "t = TStruct n'" "get_struct st n' = Some d" "sd_is_value d"
      "val_tys st (sd_fields d) vs"
    by (auto split: ty.splits option.splits)
  from "7.IH" [OF t(1,2,4)] "7.prems"
  have f: "\<And>i s a. i < length vs \<Longrightarrow> type_size_and_align st (sf_ty (sd_fields d ! i)) = Inr (s, a)
      \<Longrightarrow> store_ok st strs s (sf_ty (sd_fields d ! i)) (vs ! i)" by auto
  have len: "length (sd_fields d) = length vs" using t(4) by (simp add: val_tys_nth)
  show ?case unfolding t(1)
    by (rule struct_store_ok [OF "7.prems"(4,5) t(2,3) "7.prems"(3) [unfolded t(1)] len f])
next
  case (8 st t tag vs)
  from "8.prems"(1) obtain n' l u where t: "t = TUnion n'" "map_of (st_by_value st) n' = Some l"
      "sum_layout st (ud_variants u) = Inr l" "get_union st n' = Some u"
    by (auto split: ty.splits option.splits)
  from sum_layout_per [OF t(3)] obtain pers where p: "l = kinds_layout (map (map slot_kind) pers)" by blast
  have "n = sl_size l" using "8.prems"(3) t by (simp add: type_size_and_align_def)
  with sum_value_store_ok [OF "8.prems"(1,2,6) _ p] t show ?case by (simp add: scalars_def)
next
  case (9 st t v)
  from "9.prems"(1) obtain a b l where t: "t = TResult a b" "result_layout st a b = Inr (Some l)"
    by (auto split: ty.splits sum.splits option.splits)
  from result_layout_per [OF t(2)] obtain sa sb where
    p: "l = kinds_layout (map (map slot_kind) [sa, sb])" "scalars st (TResult a b) = Inr (sl_slots l)" .
  have "n = sl_size l" using "9.prems"(3) t by (simp add: type_size_and_align_def layout_at_result)
  with sum_value_store_ok [OF "9.prems"(1,2,6) _ p(1)] p(2) t show ?case by (simp add: sum_of_def)
next
  case (10 st t v)
  from "10.prems"(1) obtain a b l where t: "t = TResult a b" "result_layout st a b = Inr (Some l)"
    by (auto split: ty.splits sum.splits option.splits)
  from result_layout_per [OF t(2)] obtain sa sb where
    p: "l = kinds_layout (map (map slot_kind) [sa, sb])" "scalars st (TResult a b) = Inr (sl_slots l)" .
  have "n = sl_size l" using "10.prems"(3) t by (simp add: type_size_and_align_def layout_at_result)
  with sum_value_store_ok [OF "10.prems"(1,2,6) _ p(1)] p(2) t show ?case by (simp add: sum_of_def)
next
  case (12 st f fs v vs)
  then show ?case by (auto simp: less_Suc_eq_0_disj)
qed (auto intro: scalar_store_ok)

section \<open>The fuel is enough\<close>

fun inline_names :: "ty \<Rightarrow> string set" where
  "inline_names (TStruct n) = {n}"
| "inline_names (TUnion n) = {n}"
| "inline_names (TResult a b) = inline_names a \<union> inline_names b"
| "inline_names _ = {}"

text \<open>A rank that the types held inline go down in: nothing contains itself.\<close>

definition inline_fields :: "structs \<Rightarrow> string \<Rightarrow> struct_field set" where
  "inline_fields st n =
     {f. \<exists>d. get_struct st n = Some d \<and> f \<in> set (sd_fields d)}
     \<union> {f. \<exists>u w. get_union st n = Some u \<and> w \<in> set (ud_variants u) \<and> f \<in> set (vr_fields w)}"

definition inline_ranked :: "structs \<Rightarrow> (string \<Rightarrow> nat) \<Rightarrow> bool" where
  "inline_ranked st rank \<longleftrightarrow>
     (\<forall>n f m. f \<in> inline_fields st n \<longrightarrow> m \<in> inline_names (sf_ty f) \<longrightarrow> rank m < rank n)
     \<and> (\<forall>n. rank n < length (st_defs st) + length (st_unions st))"

lemma foldr_max_ge: "x \<in> set xs \<Longrightarrow> x \<le> foldr max xs (k :: nat)"
  by (induction xs) auto

lemma decl_depth_ge: "f \<in> inline_fields st n \<Longrightarrow> result_depth (sf_ty f) \<le> decl_depth st"
proof -
  assume "f \<in> inline_fields st n"
  then consider (s) d where "(n, d) \<in> set (st_defs st)" "f \<in> set (sd_fields d)"
    | (u) u w where "(n, u) \<in> set (st_unions st)" "w \<in> set (ud_variants u)" "f \<in> set (vr_fields w)"
    unfolding inline_fields_def by (auto dest: map_of_SomeD)
  then show ?thesis
  proof cases
    case s
    have "result_depth (sf_ty f) \<le> foldr max (map (\<lambda>f. result_depth (sf_ty f)) (sd_fields d)) 1"
      using s(2) by (intro foldr_max_ge) auto
    also have "\<dots> \<le> decl_depth st" unfolding decl_depth_def using s(1) by (intro foldr_max_ge) force
    finally show ?thesis .
  next
    case u
    have "result_depth (sf_ty f)
        \<le> foldr max (map (\<lambda>f. result_depth (sf_ty f)) (concat (map vr_fields (ud_variants u)))) 1"
      using u(2,3) by (intro foldr_max_ge) auto
    also have "\<dots> \<le> decl_depth st" unfolding decl_depth_def using u(1) by (intro foldr_max_ge) force
    finally show ?thesis .
  qed
qed

lemma result_depth_pos: "1 \<le> result_depth t"
  by (cases t) auto

lemma foldr_depth_le: "(\<And>v. v \<in> set vs \<Longrightarrow> vdepth v \<le> k) \<Longrightarrow> vdepth (VRecord vs) \<le> Suc k \<and> vdepth (VUnion t vs) \<le> Suc k"
  by (simp add: foldr_max_le)

lemma vdepth_rank:
  assumes "inline_ranked st rank"
  shows "val_ty st t v \<Longrightarrow> (\<forall>m \<in> inline_names t. rank m < k) \<Longrightarrow> vdepth v \<le> result_depth t + k * decl_depth st"
    and "val_tys st fs vs \<Longrightarrow> (\<forall>f \<in> set fs. f \<in> inline_fields st n) \<Longrightarrow>
      \<forall>v \<in> set vs. vdepth v \<le> Suc (rank n) * decl_depth st"
  using assms
proof (induction st t v and st fs vs arbitrary: k and n rule: val_ty_val_tys.induct)
  case (7 st t vs)
  from "7.prems"(1) obtain n d where t: "t = TStruct n" "get_struct st n = Some d" "val_tys st (sd_fields d) vs"
    by (auto split: ty.splits option.splits)
  have "\<forall>f \<in> set (sd_fields d). f \<in> inline_fields st n" using t(2) by (auto simp: inline_fields_def)
  from "7.IH" [OF t this "7.prems"(3)] have "vdepth (VRecord vs) \<le> Suc (Suc (rank n) * decl_depth st)"
    using foldr_depth_le by blast
  moreover have "Suc (rank n) * decl_depth st \<le> k * decl_depth st" using "7.prems"(2) t(1) by (intro mult_le_mono1) simp
  ultimately show ?case using t(1) by simp
next
  case (8 st t tag vs)
  from "8.prems"(1) obtain n l u where t: "t = TUnion n" "map_of (st_by_value st) n = Some l" "get_union st n = Some u"
    and v: "tag < length (ud_variants u)" "val_tys st (vr_fields (ud_variants u ! tag)) vs"
      "tag < 2 ^ 31" "sum_layout st (ud_variants u) = Inr l"
    by (auto split: ty.splits option.splits)
  have "\<forall>f \<in> set (vr_fields (ud_variants u ! tag)). f \<in> inline_fields st n"
    using t(3) v(1) by (auto simp: inline_fields_def)
  from "8.IH" [OF t(1) _ refl refl _ this "8.prems"(3), unfolded t(2,3)] v
  have "vdepth (VUnion tag vs) \<le> Suc (Suc (rank n) * decl_depth st)"
    by (intro conjunct2 [OF foldr_depth_le]) auto
  moreover have "Suc (rank n) * decl_depth st \<le> k * decl_depth st" using "8.prems"(2) t(1) by (intro mult_le_mono1) simp
  ultimately show ?case using t(1) by simp
next
  case (9 st t v)
  from "9.prems"(1) obtain a b l where t: "t = TResult a b" "result_layout st a b = Inr (Some l)" "val_ty st a v"
    by (auto split: ty.splits sum.splits option.splits)
  have "\<forall>m \<in> inline_names a. rank m < k" using "9.prems"(2) t(1) by simp
  from "9.IH" [OF t(1,2) refl t(3) this "9.prems"(3)] t(1) show ?case by simp
next
  case (10 st t v)
  from "10.prems"(1) obtain a b l where t: "t = TResult a b" "result_layout st a b = Inr (Some l)" "val_ty st b v"
    by (auto split: ty.splits sum.splits option.splits)
  have "\<forall>m \<in> inline_names b. rank m < k" using "10.prems"(2) t(1) by simp
  from "10.IH" [OF t(1,2) refl t(3) this "10.prems"(3)] t(1) show ?case by simp
next
  case (12 st f fs v vs)
  have f: "f \<in> inline_fields st n" using "12.prems"(2) by simp
  have "\<forall>m \<in> inline_names (sf_ty f). rank m < rank n" using f "12.prems"(3) by (auto simp: inline_ranked_def)
  then have "vdepth v \<le> result_depth (sf_ty f) + rank n * decl_depth st" using "12.IH"(1) "12.prems" by simp
  also have "\<dots> \<le> Suc (rank n) * decl_depth st" using decl_depth_ge [OF f] by simp
  finally show ?case using "12.IH"(2) "12.prems" by simp
qed (use trans_le_add1 [OF result_depth_pos] in auto)

lemma ranked_fuel_ok:
  assumes "inline_ranked st rank"
  shows "fuel_ok st"
  unfolding fuel_ok_def from_fuel_def
proof (intro allI impI)
  fix t v assume "val_ty st t v"
  moreover have "\<forall>m \<in> inline_names t. rank m < length (st_defs st) + length (st_unions st)"
    using assms by (auto simp: inline_ranked_def)
  ultimately show "vdepth v \<le> result_depth t + (length (st_defs st) + length (st_unions st)) * decl_depth st"
    by (rule vdepth_rank(1) [OF assms])
qed

text \<open>A record's declaration flattens, so records nest no deeper than there are structs.\<close>

lemma rdepth_scalars:
  "scalars_n d st t = Inr ts \<Longrightarrow> val_ty st t v \<Longrightarrow> rdepth v \<le> Suc d"
proof (induction d arbitrary: t ts v)
  case 0
  then show ?case by (cases v) (auto simp: scalars_n_struct split: ty.splits option.splits)
next
  case (Suc d)
  show ?case
  proof (cases v)
    case (VRecord vs)
    with Suc.prems(2) obtain n def where t: "t = TStruct n" "get_struct st n = Some def" "sd_is_value def"
        "val_tys st (sd_fields def) vs"
      by (auto split: ty.splits option.splits)
    with Suc.prems(1) obtain xs where xs: "map (\<lambda>f. scalars_n d st (sf_ty f)) (sd_fields def) = map Inr xs"
      by (auto simp: scalars_n_struct seq_res_Inr)
    have "rdepth w \<le> Suc d" if w: "w \<in> set vs" for w
    proof -
      from w obtain i where i: "i < length vs" "w = vs ! i" by (auto simp: in_set_conv_nth)
      then have f: "i < length (sd_fields def)" "val_ty st (sf_ty (sd_fields def ! i)) w"
        using t(4) by (auto simp: val_tys_nth)
      then have "scalars_n d st (sf_ty (sd_fields def ! i)) = Inr (xs ! i)"
        using arg_cong [OF xs, of "\<lambda>l. l ! i"] map_eq_imp_length_eq [OF xs] by simp
      with Suc.IH f(2) show ?thesis by blast
    qed
    then show ?thesis by (simp add: VRecord foldr_max_le)
  qed (use Suc.prems in auto)
qed

lemma rdepth_load_fuel: "val_ty st t v \<Longrightarrow> rdepth v \<le> load_fuel st"
proof (cases v)
  case (VRecord vs)
  assume v: "val_ty st t v"
  with VRecord obtain ts where "scalars st t = Inr ts"
    by (cases "scalars st t") (auto split: ty.splits option.splits)
  with rdepth_scalars [OF _ v] show ?thesis by (simp add: scalars_def nest_fuel_def load_fuel_def)
qed (simp_all add: load_fuel_def)

end
