(* ===== verification/Alloc.thy ===== *)
theory Alloc
  imports Memory_Facts
begin

text \<open>
  The allocator: what \<open>alloc_bytes\<close> and \<open>mem_alloc\<close> hand out, when memory grows and by how much,
  and that every byte but the cursor word keeps its value.
\<close>

lemma and_not_mask: "and (w :: 'a::len word) (not (mask k)) = push_bit k (drop_bit k w)"
  by (rule bit_word_eqI) (auto simp: bit_simps)

lemma and_not_7: "and (w :: i32) (- 8) = push_bit 3 (drop_bit 3 w)"
proof -
  have "(- 8 :: i32) = not (mask 3)" by (simp add: mask_eq_exp_minus_1 not_eq_complement)
  with and_not_mask [of w 3] show ?thesis by simp
qed

lemma unat_and_not_7: "unat (and (w :: i32) (- 8)) = unat w div 8 * 8"
proof -
  have "unat (drop_bit 3 w) = unat w div 8" by (simp add: drop_bit_eq_div unat_div)
  moreover have "unat w div 8 * 8 < 2 ^ 32"
    using unsigned_less [of w, where ?'a = nat] by (intro le_less_trans [OF div_times_less_eq_dividend]) simp
  ultimately have "unat (push_bit 3 (drop_bit 3 w)) = unat w div 8 * 8"
    unfolding unsigned_push_bit_eq by (simp add: push_bit_eq_mult take_bit_nat_eq_self)
  then show ?thesis by (simp add: and_not_7)
qed

lemma unat_of_small: "n < 2 ^ 32 \<Longrightarrow> unat (word_of_nat n :: u32) = n"
  by (simp add: unsigned_of_nat take_bit_nat_eq_self)

lemma unat_block_size:
  assumes "n + 7 < 2 ^ 32"
  shows "unat (block_size n) = align_up n 8"
proof -
  have "block_size n = and (word_of_nat (n + 7)) (- 8)" by (simp add: block_size_def)
  then have "unat (block_size n) = (n + 7) div 8 * 8"
    by (simp only: unat_and_not_7 unat_of_small [OF assms])
  then show ?thesis by (simp add: align_up_def)
qed

lemma heap_cursor_write [simp]:
  "in_memory m 0 4 \<Longrightarrow> heap_cursor (write_raw 0 (le_bytes 4 w) m) = w"
  by (simp add: heap_cursor_def heap_ptr_addr_def write_raw_def in_memory_def)

lemma grow_bytes:
  assumes "mem_ok m"
  shows "i < length (mm_bytes m) \<Longrightarrow> mm_bytes (grow_for nxt m) ! i = mm_bytes m ! i"
    and "length (mm_bytes m) \<le> length (mm_bytes (grow_for nxt m))"
    and "length (mm_bytes m) \<le> i \<Longrightarrow> i < length (mm_bytes (grow_for nxt m)) \<Longrightarrow> mm_bytes (grow_for nxt m) ! i = 0"
proof -
  have "page_size * (length (mm_bytes m) div page_size) = length (mm_bytes m)"
    using assms by (simp add: mem_ok_def)
  then have len: "(length (mm_bytes m) div page_size + p) * page_size = length (mm_bytes m) + p * page_size" for p
    by (simp add: algebra_simps)
  show "i < length (mm_bytes m) \<Longrightarrow> mm_bytes (grow_for nxt m) ! i = mm_bytes m ! i"
    by (simp add: grow_for_def Let_def resize_def len nth_append)
  show "length (mm_bytes m) \<le> length (mm_bytes (grow_for nxt m))"
    by (simp add: grow_for_def Let_def len)
  show "length (mm_bytes m) \<le> i \<Longrightarrow> i < length (mm_bytes (grow_for nxt m)) \<Longrightarrow> mm_bytes (grow_for nxt m) ! i = 0"
    by (auto simp: grow_for_def Let_def resize_def len nth_append split: if_splits)
qed


lemma page_le: "(n + 65535) div 65536 \<le> k \<longleftrightarrow> n \<le> k * (65536 :: nat)"
proof -
  have "(n + 65535) div 65536 < Suc k \<longleftrightarrow> n + 65535 < Suc k * 65536"
    by (rule div_less_iff_less_mult) simp
  then show ?thesis by auto
qed

text \<open>Memory grows to the page that holds the new cursor, if the cap allows it.\<close>

lemma grow_for_length:
  assumes ok: "mem_ok m"
  shows "length (mm_bytes (grow_for nxt m)) =
    (if length (mm_bytes m) < unat nxt \<and> unat nxt \<le> mm_max_pages m * page_size
     then (unat nxt + 65535) div page_size * page_size else length (mm_bytes m))"
proof -
  obtain k where k: "length (mm_bytes m) = k * page_size"
    using ok by (auto simp: mem_ok_def dvd_def mult.commute)
  then have kb: "length (mm_bytes m) \<le> 2 ^ 31"
    using ok by (simp add: mem_ok_def max_pages_def page_size_def)
  have have_val: "unat (word_of_nat (length (mm_bytes m)) :: u32) = length (mm_bytes m)"
    using kb by (intro unat_of_small) simp
  have less: "(word_of_nat (length (mm_bytes m)) :: u32) < nxt \<longleftrightarrow> length (mm_bytes m) < unat nxt"
    by (simp add: word_less_nat_alt have_val)
  show ?thesis
  proof (cases "length (mm_bytes m) < unat nxt")
    case True
    let ?d = "nxt - word_of_nat (length (mm_bytes m)) :: u32"
    have d: "unat ?d = unat nxt - length (mm_bytes m)"
      using True by (simp add: unat_sub word_le_nat_alt have_val)
    have "unat (?d + 65535) = unat ?d + 65535"
    proof -
      have "65536 \<le> length (mm_bytes m)" using ok by (simp add: mem_ok_def page_size_def)
      moreover have "unat nxt < 4294967296" using unsigned_less [of nxt, where ?'a = nat] by simp
      ultimately have "unat ?d + 65535 < 4294967296" using True unfolding d by linarith
      then show ?thesis by (subst unat_word_ariths) simp
    qed
    then have "unat (drop_bit 16 (?d + 65535)) = (unat nxt - length (mm_bytes m) + 65535) div 65536"
      by (simp add: drop_bit_eq_div unat_div d)
    moreover have "k + (unat nxt - length (mm_bytes m) + 65535) div 65536 = (unat nxt + 65535) div 65536"
      using True k by (simp add: page_size_def div_add_self1 flip: div_add_self2)
    ultimately show ?thesis using True less k
      by (simp add: grow_for_def Let_def page_size_def flip: page_le)
  qed (simp add: grow_for_def less)
qed

text \<open>
  What a block of \<open>n\<close> bytes costs: the block starts at the cursor, the cursor moves past it
  rounded up to 8, memory grows to hold it when the cap allows, and no byte but the cursor changes.
\<close>

definition alloc_fits :: "nat \<Rightarrow> mem \<Rightarrow> bool" where
  "alloc_fits n m \<longleftrightarrow> unat (heap_cursor m) + n + 65542 < 2 ^ 32"

definition alloc_end :: "nat \<Rightarrow> mem \<Rightarrow> nat" where
  "alloc_end n m = unat (heap_cursor m) + align_up n 8"

lemma mem_ok_cursor: "mem_ok m \<Longrightarrow> in_memory m heap_ptr_addr 4"
  by (auto simp: mem_ok_def in_memory_def heap_ptr_addr_def page_size_def)

lemma align_up_8: "align_up n 8 \<le> n + 7" "n \<le> align_up n 8" "8 dvd align_up n 8"
  by (auto simp: align_up_def)

lemma alloc_cursor:
  assumes "alloc_fits n m"
  shows "unat (heap_cursor m + block_size n) = alloc_end n m"
proof -
  have "unat (block_size n) = align_up n 8" "unat (heap_cursor m) + align_up n 8 < 2 ^ 32"
    using assms align_up_8 [of n] by (simp_all add: alloc_fits_def unat_block_size)
  then show ?thesis by (subst unat_word_ariths) (simp add: alloc_end_def)
qed

lemma alloc_bytes_run:
  assumes "mem_ok m"
  shows "alloc_bytes n m = (Inr (heap_cursor m),
    grow_for (heap_cursor m + block_size n)
      (write_raw heap_ptr_addr (le_bytes 4 (heap_cursor m + block_size n)) m))"
  using mem_ok_cursor [OF assms] by (simp add: alloc_bytes_def Let_def)

lemma cursor_grow:
  assumes "mem_ok m"
  shows "heap_cursor (grow_for nxt m) = heap_cursor m"
proof -
  have "take 4 (mm_bytes (grow_for nxt m)) = take 4 (mm_bytes m)"
    using assms grow_bytes(1) [OF assms] grow_bytes(2) [OF assms, of nxt]
    by (intro nth_equalityI) (auto simp: mem_ok_def page_size_def)
  then show ?thesis by (simp add: heap_cursor_def slice_at_def heap_ptr_addr_def)
qed

lemma alloc_bytes_spec:
  assumes ok: "mem_ok m" and fits: "alloc_fits n m"
    and run: "alloc_bytes n m = (r, m')"
  shows "r = Inr (heap_cursor m)" "mem_ok m'" "unat (heap_cursor m') = alloc_end n m"
    "length (mm_bytes m') = (if length (mm_bytes m) < alloc_end n m \<and> alloc_end n m \<le> mm_max_pages m * page_size
       then (alloc_end n m + 65535) div page_size * page_size else length (mm_bytes m))"
    "4 \<le> i \<Longrightarrow> i < length (mm_bytes m) \<Longrightarrow> mm_bytes m' ! i = mm_bytes m ! i"
proof -
  let ?nxt = "heap_cursor m + block_size n"
  let ?w = "write_raw heap_ptr_addr (le_bytes 4 ?nxt) m"
  have in0: "in_memory m heap_ptr_addr 4" by (rule mem_ok_cursor [OF ok])
  have wok: "mem_ok ?w" using mem_le_write_raw [of m heap_ptr_addr "le_bytes 4 ?nxt"] ok in0
    by (simp add: mem_le_def)
  have m': "r = Inr (heap_cursor m)" "m' = grow_for ?nxt ?w"
    using run by (simp_all add: alloc_bytes_run [OF ok])
  have len: "length (mm_bytes ?w) = length (mm_bytes m)" using in0 by simp
  have nxt: "unat ?nxt = alloc_end n m" by (rule alloc_cursor [OF fits])
  show "r = Inr (heap_cursor m)" by (rule m')
  show "mem_ok m'" using mem_le_grow_for [of ?w ?nxt] wok m' by (simp add: mem_le_def)
  show "unat (heap_cursor m') = alloc_end n m"
    using in0 nxt unfolding m' cursor_grow [OF wok] by (simp add: heap_ptr_addr_def)
  show "length (mm_bytes m') = (if length (mm_bytes m) < alloc_end n m \<and> alloc_end n m \<le> mm_max_pages m * page_size
       then (alloc_end n m + 65535) div page_size * page_size else length (mm_bytes m))"
    by (simp only: m' grow_for_length [OF wok] nxt len write_raw_max)
  show "mm_bytes m' ! i = mm_bytes m ! i" if "4 \<le> i" "i < length (mm_bytes m)"
    using that in0 grow_bytes(1) [OF wok, of i ?nxt]
    by (simp add: m' len) (simp add: write_raw_def heap_ptr_addr_def nth_splice in_memory_def)
qed




lemma heap_cursor_new: "heap_cursor mem_new = 1024"
  by (simp add: heap_cursor_def mem_new_def heap_ptr_addr_def heap_start_default_def initial_pages_def page_size_def)


fun alloc_all :: "nat list \<Rightarrow> i32 list memop" where
  "alloc_all [] = mret []"
| "alloc_all (n # ns) = mbind (alloc_bytes n) (\<lambda>p. mbind (alloc_all ns) (\<lambda>ps. mret (p # ps)))"

text \<open>
  C11. Blocks allocated one after the other start at multiples of 8, at the cursor or after it, and
  do not overlap: each ends before the next begins.
\<close>

theorem alloc_all_spec:
  assumes "mem_ok m" "unat (heap_cursor m) + sum_list (map (\<lambda>n. align_up n 8) ns) + 65542 < 2 ^ 32"
    "8 dvd unat (heap_cursor m)"
  shows "\<exists>ps m'. alloc_all ns m = (Inr ps, m') \<and> length ps = length ns
    \<and> (\<forall>p \<in> set ps. 8 dvd unat p \<and> unat (heap_cursor m) \<le> unat p)
    \<and> (\<forall>i j. i < j \<longrightarrow> j < length ps \<longrightarrow> unat (ps ! i) + ns ! i \<le> unat (ps ! j))"
  using assms
proof (induction ns arbitrary: m)
  case Nil
  then show ?case by (simp add: mret_def)
next
  case (Cons n ns)
  have fits: "alloc_fits n m" using Cons.prems(2) align_up_8(2) [of n] by (simp add: alloc_fits_def)
  obtain r m1 where run: "alloc_bytes n m = (r, m1)" by fastforce
  note spec = alloc_bytes_spec [OF Cons.prems(1) fits run]
  have c: "unat (heap_cursor m1) = unat (heap_cursor m) + align_up n 8"
    using spec(3) by (simp add: alloc_end_def)
  have "unat (heap_cursor m1) + sum_list (map (\<lambda>n. align_up n 8) ns) + 65542 < 2 ^ 32" "8 dvd unat (heap_cursor m1)"
    using Cons.prems(2,3) align_up_8(3) [of n] by (simp_all add: c)
  from Cons.IH [OF spec(2) this] obtain ps m' where rest: "alloc_all ns m1 = (Inr ps, m')" "length ps = length ns"
    and ge: "\<forall>p \<in> set ps. 8 dvd unat p \<and> unat (heap_cursor m1) \<le> unat p"
    and sep: "\<forall>i j. i < j \<longrightarrow> j < length ps \<longrightarrow> unat (ps ! i) + ns ! i \<le> unat (ps ! j)" by blast
  have "alloc_all (n # ns) m = (Inr (heap_cursor m # ps), m')"
    by (simp add: mbind_def run spec(1) rest mret_def)
  moreover have "unat ((heap_cursor m # ps) ! i) + (n # ns) ! i \<le> unat ((heap_cursor m # ps) ! j)"
    if "i < j" "j < length (heap_cursor m # ps)" for i j
  proof (cases i)
    case 0
    with that obtain k where k: "j = Suc k" "k < length ps" by (cases j) auto
    then have "unat (heap_cursor m1) \<le> unat (ps ! k)" using ge by simp
    then show ?thesis using 0 k align_up_8(2) [of n] by (simp add: c)
  next
    case (Suc k)
    then show ?thesis using that sep by (cases j) auto
  qed
  moreover have "\<forall>p \<in> set (heap_cursor m # ps). 8 dvd unat p \<and> unat (heap_cursor m) \<le> unat p"
    using ge Cons.prems(3) by (auto simp: c)
  ultimately show ?case using rest(2) by auto
qed

lemma alloc_all_spec_witness:
  "\<exists>ps m'. alloc_all [5, 16, 1] mem_new = (Inr ps, m') \<and> length ps = length [5 :: nat, 16, 1]
    \<and> (\<forall>p \<in> set ps. 8 dvd unat p \<and> unat (heap_cursor mem_new) \<le> unat p)
    \<and> (\<forall>i j. i < j \<longrightarrow> j < length ps \<longrightarrow> unat (ps ! i) + [5, 16, 1] ! i \<le> unat (ps ! j))"
  by (rule alloc_all_spec) (simp_all add: mem_ok_new heap_cursor_new align_up_def)

text \<open>
  C12. An allocation moves the cursor past the block, grows memory to the page the new cursor is
  in when the cap allows it, and changes no byte but the cursor's.
\<close>

theorem alloc_frame:
  assumes "mem_ok m" "alloc_fits n m" "alloc_bytes n m = (r, m')"
  shows "r = Inr (heap_cursor m) \<and> unat (heap_cursor m') = alloc_end n m
    \<and> length (mm_bytes m') = (if length (mm_bytes m) < alloc_end n m \<and> alloc_end n m \<le> mm_max_pages m * page_size
         then (alloc_end n m + 65535) div page_size * page_size else length (mm_bytes m))
    \<and> (\<forall>i. 4 \<le> i \<longrightarrow> i < length (mm_bytes m) \<longrightarrow> mm_bytes m' ! i = mm_bytes m ! i)"
  using alloc_bytes_spec [OF assms] by blast

lemma alloc_frame_witness:
  "fst (alloc_bytes 24 mem_new) = Inr 1024 \<and> unat (heap_cursor (snd (alloc_bytes 24 mem_new))) = 1048"
proof -
  obtain r m' where a: "alloc_bytes 24 mem_new = (r, m')" by fastforce
  have "alloc_fits 24 mem_new" by (simp add: alloc_fits_def heap_cursor_new)
  from alloc_frame [OF mem_ok_new this a] a show ?thesis
    by (simp add: heap_cursor_new alloc_end_def align_up_def)
qed

end
