(* ===== verification/Worklist.thy ===== *)
theory Worklist
  imports Main
begin

text \<open>
  The contract of the worklist searches of the checker (\<^verbatim>\<open>reaches\<close> over unions,
  \<^verbatim>\<open>check_value_struct\<close> over value structs): pop a name; stop if it is the target; skip it if
  it was seen; otherwise push its successors and mark it seen. Any search with these equations
  decides reachability.
\<close>

lemma rtrancl_exit:
  assumes "(x, t) \<in> r\<^sup>*" "x \<in> S" "t \<notin> S"
  shows "\<exists>y z. y \<in> S \<and> z \<notin> S \<and> (y, z) \<in> r \<and> (z, t) \<in> r\<^sup>*"
  using assms
proof (induction rule: converse_rtrancl_induct)
  case (step x y)
  then show ?case by (cases "y \<in> S") blast+
qed simp

definition succ_rel :: "('a \<Rightarrow> 'a list) \<Rightarrow> ('a \<times> 'a) set" where
  "succ_rel succ = {(a, b). b \<in> set (succ a)}"

lemma succ_rel_iff [simp]: "(a, b) \<in> succ_rel succ \<longleftrightarrow> b \<in> set (succ a)"
  by (simp add: succ_rel_def)

locale worklist =
  fixes succ :: "'a \<Rightarrow> 'a list"
    and target :: 'a
    and search :: "'a list \<Rightarrow> 'a list \<Rightarrow> bool"
  assumes search_Nil: "\<not> search [] seen"
    and search_hit: "search (target # todo) seen"
    and search_seen: "n \<noteq> target \<Longrightarrow> n \<in> set seen \<Longrightarrow> search (n # todo) seen = search todo seen"
    and search_new: "n \<noteq> target \<Longrightarrow> n \<notin> set seen \<Longrightarrow>
      search (n # todo) seen = search (rev (succ n) @ todo) (seen @ [n])"
    and finite_succ: "finite {n. succ n \<noteq> []}"
begin

lemma search_induct [case_names Nil hit seen new]:
  assumes "\<And>seen. P [] seen"
    and "\<And>todo seen. P (target # todo) seen"
    and "\<And>n todo seen. n \<noteq> target \<Longrightarrow> n \<in> set seen \<Longrightarrow> P todo seen \<Longrightarrow> P (n # todo) seen"
    and "\<And>n todo seen. n \<noteq> target \<Longrightarrow> n \<notin> set seen \<Longrightarrow> P (rev (succ n) @ todo) (seen @ [n])
          \<Longrightarrow> P (n # todo) seen"
  shows "P todo seen"
proof -
  let ?m = "\<lambda>p :: 'a list \<times> 'a list. card ({n. succ n \<noteq> []} - set (snd p))"
  have "P (fst p) (snd p)" for p :: "'a list \<times> 'a list"
  proof (induction p rule: wf_induct_rule [OF wf_measures [of "[?m, \<lambda>p. length (fst p)]"]])
    case (1 p)
    obtain todo seen where p: "p = (todo, seen)" by fastforce
    show ?case
    proof (cases todo)
      case Nil
      with assms(1) p show ?thesis by simp
    next
      case (Cons n rest)
      show ?thesis
      proof (cases "n = target \<or> n \<in> set seen")
        case True
        have "P rest seen" using "1.IH" [of "(rest, seen)"] p Cons by simp
        with True assms(2,3) p Cons show ?thesis by (cases "n = target") auto
      next
        case False
        have "?m (rev (succ n) @ rest, seen @ [n]) < ?m (n # rest, seen) \<or> succ n = []"
        proof (cases "succ n = []")
          case False
          then have "{n. succ n \<noteq> []} - set (seen @ [n]) \<subset> {n. succ n \<noteq> []} - set seen"
            using \<open>\<not> (n = target \<or> n \<in> set seen)\<close> by auto
          from psubset_card_mono [OF finite_Diff [OF finite_succ] this] show ?thesis by simp
        qed simp
        moreover have "?m (rev (succ n) @ rest, seen @ [n]) \<le> ?m (n # rest, seen)"
          by (simp, intro card_mono finite_Diff finite_succ) auto
        ultimately have "P (rev (succ n) @ rest) (seen @ [n])"
          using "1.IH" [of "(rev (succ n) @ rest, seen @ [n])"] p Cons by auto
        with False assms(4) p Cons show ?thesis by simp
      qed
    qed
  qed
  from this [of "(todo, seen)"] show ?thesis by simp
qed

lemma search_sound: "search todo seen \<Longrightarrow> \<exists>n \<in> set todo. (n, target) \<in> (succ_rel succ)\<^sup>*"
proof (induction todo seen rule: search_induct)
  case (new n todo seen)
  then obtain m where m: "m \<in> set (rev (succ n) @ todo)" "(m, target) \<in> (succ_rel succ)\<^sup>*"
    by (auto simp: search_new)
  then show ?case by (auto intro: converse_rtrancl_into_rtrancl)
qed (simp_all add: search_Nil search_seen)

lemma search_complete:
  assumes "n \<in> set todo" "(n, target) \<in> (succ_rel succ)\<^sup>*" "target \<notin> set seen"
    and "\<forall>s \<in> set seen. set (succ s) \<subseteq> set seen \<union> set todo"
  shows "search todo seen"
  using assms
proof (induction todo seen arbitrary: n rule: search_induct)
  case (seen k todo seen)
  have closed: "\<forall>s \<in> set seen. set (succ s) \<subseteq> set seen \<union> set todo"
    using seen.prems(4) seen.hyps by auto
  have "\<exists>m \<in> set todo. (m, target) \<in> (succ_rel succ)\<^sup>*"
  proof (cases "n \<in> set todo")
    case False
    with seen.prems(1) seen.hyps have "n \<in> set seen" by simp
    from rtrancl_exit [OF seen.prems(2) this seen.prems(3)] closed show ?thesis by auto
  qed (use seen.prems(2) in blast)
  then obtain m where "m \<in> set todo" "(m, target) \<in> (succ_rel succ)\<^sup>*" ..
  from seen.IH [OF this seen.prems(3) closed] seen.hyps show ?case by (simp add: search_seen)
next
  case (new k todo seen)
  obtain m where m: "m \<in> set (rev (succ k) @ todo)" "(m, target) \<in> (succ_rel succ)\<^sup>*"
  proof (cases "n = k")
    case True
    with new.prems(2) new.hyps(1) obtain m where "(k, m) \<in> succ_rel succ" "(m, target) \<in> (succ_rel succ)\<^sup>*"
      by (metis converse_rtranclE)
    with that show ?thesis by auto
  qed (use new.prems(1,2) that in auto)
  have "search (rev (succ k) @ todo) (seen @ [k])"
    by (rule new.IH [OF m]) (use new.prems(3,4) new.hyps in auto)
  with new.hyps show ?case by (simp add: search_new)
qed (simp_all add: search_hit)

lemma search_iff: "search todo [] \<longleftrightarrow> (\<exists>n \<in> set todo. (n, target) \<in> (succ_rel succ)\<^sup>*)"
  using search_sound search_complete [where seen = "[]"] by auto

end

end
