(* ===== verification/Sums.thy ===== *)
theory Sums
  imports Layout_Facts Worklist
begin

text \<open>
  Which unions are held by value (\<^verbatim>\<open>union_layouts\<close>, \<^verbatim>\<open>reaches\<close>, \<^verbatim>\<open>union_error\<close> and
  \<^verbatim>\<open>Structs::new\<close> of \<^verbatim>\<open>src/checker.rs\<close>), and the rule that a value struct does not contain
  itself (\<^verbatim>\<open>check_value_struct\<close>). The Rust worklists are vectors popped at the end; here the
  end of the vector is the head of a list.
\<close>

section \<open>The unions a union holds\<close>

definition union_field :: "struct_field \<Rightarrow> string list" where
  "union_field f = (case sf_ty f of TUnion n \<Rightarrow> [n] | _ \<Rightarrow> [])"

definition holds :: "union_def \<Rightarrow> string list" where
  "holds u = concat (map union_field (concat (map vr_fields (ud_variants u))))"

lemma finite_unions [simp]: "finite {n. get_union st n \<noteq> None}"
  using finite_dom_map_of [of "st_unions st"] by (simp add: dom_def)

function reach_loop :: "structs \<Rightarrow> string \<Rightarrow> string list \<Rightarrow> string list \<Rightarrow> bool" where
  "reach_loop st target [] seen = False"
| "reach_loop st target (n # todo) seen =
     (if n = target then True
      else if n \<in> set seen then reach_loop st target todo seen
      else case get_union st n of
             Some u \<Rightarrow> reach_loop st target (rev (holds u) @ todo) (seen @ [n])
           | None \<Rightarrow> reach_loop st target todo (seen @ [n]))"
  by pat_completeness auto

termination
proof (relation "measures [\<lambda>(st, t, todo, seen). card ({n. get_union st n \<noteq> None} - set seen),
    \<lambda>(st, t, todo, seen). length todo]", goal_cases)
  case (3 st target n todo seen)
  then have "{n. get_union st n \<noteq> None} - set (seen @ [n]) = {n. get_union st n \<noteq> None} - set seen"
    by auto
  then show ?case by simp
next
  case (4 st target n todo seen u)
  then have "{n. get_union st n \<noteq> None} - set (seen @ [n]) \<subset> {n. get_union st n \<noteq> None} - set seen"
    by auto
  then have "card ({n. get_union st n \<noteq> None} - set (seen @ [n])) < card ({n. get_union st n \<noteq> None} - set seen)"
    by (rule psubset_card_mono [OF finite_Diff [OF finite_unions]])
  then show ?case by simp
qed auto

definition reaches :: "structs \<Rightarrow> string list \<Rightarrow> string \<Rightarrow> bool" where
  "reaches st from target =
     reach_loop st target
       (rev (concat (map holds (List.map_filter (get_union st) from)))) []"

text \<open>The relation it searches: a union and a union it holds inline.\<close>

definition held_by :: "structs \<Rightarrow> string \<Rightarrow> string list" where
  "held_by st n = (case get_union st n of Some u \<Rightarrow> holds u | None \<Rightarrow> [])"

abbreviation holds_rel :: "structs \<Rightarrow> (string \<times> string) set" where
  "holds_rel st \<equiv> succ_rel (held_by st)"

interpretation ws_union: worklist "held_by st" target "reach_loop st target" for st target
proof unfold_locales
  have "{n. held_by st n \<noteq> []} \<subseteq> {n. get_union st n \<noteq> None}"
    by (auto simp: held_by_def split: option.splits)
  then show "finite {n. held_by st n \<noteq> []}" by (rule finite_subset) (rule finite_unions)
qed (auto simp: held_by_def split: option.splits)

lemma reaches_iff:
  "reaches st from target \<longleftrightarrow> (\<exists>n \<in> set from. (n, target) \<in> (holds_rel st)\<^sup>+)"
proof -
  have first: "m \<in> set (rev (concat (map holds (List.map_filter (get_union st) from))))
      \<longleftrightarrow> (\<exists>n \<in> set from. (n, m) \<in> holds_rel st)" for m
    by (induction "from") (auto simp: List.map_filter_simps held_by_def split: option.split)
  have "reaches st from target \<longleftrightarrow>
      (\<exists>m. (\<exists>n \<in> set from. (n, m) \<in> holds_rel st) \<and> (m, target) \<in> (holds_rel st)\<^sup>*)"
    by (simp only: reaches_def ws_union.search_iff Bex_def first)
  then show ?thesis by (metis tranclD rtrancl_into_trancl2)
qed

section \<open>Which unions are values\<close>

fun fold_res :: "('s \<Rightarrow> 'a \<Rightarrow> 'e + 's) \<Rightarrow> 's \<Rightarrow> 'a list \<Rightarrow> 'e + 's" where
  "fold_res f s [] = Inr s"
| "fold_res f s (x # xs) = bind_res (f s x) (\<lambda>s'. fold_res f s' xs)"

lemma fold_res_invariant:
  assumes "\<And>s x s'. P s \<Longrightarrow> x \<in> set xs \<Longrightarrow> f s x = Inr s' \<Longrightarrow> P s'"
  shows "fold_res f s xs = Inr t \<Longrightarrow> P s \<Longrightarrow> P t"
  using assms
proof (induction xs arbitrary: s)
  case (Cons x xs)
  from Cons.prems(1) obtain s' where s': "f s x = Inr s'" "fold_res f s' xs = Inr t" by auto
  from Cons.prems(2,3) s'(1) have "P s'" by auto
  show ?case by (rule Cons.IH [OF s'(2) \<open>P s'\<close>]) (use Cons.prems(3) in auto)
qed simp

definition add_layout :: "string \<Rightarrow> slot_layout \<Rightarrow> structs \<Rightarrow> structs" where
  "add_layout n l st = (if length (sl_slots l) \<le> max_scalars then st\<lparr>st_by_value := (n, l) # st_by_value st\<rparr> else st)"

fun decide :: "nat \<Rightarrow> string list \<Rightarrow> structs \<times> string list \<Rightarrow> string \<Rightarrow> lay_error + structs \<times> string list" where
  "decide fuel candidates (st, decided) n =
     (if n \<in> set decided then Inr (st, decided)
      else case fuel of
             0 \<Rightarrow> Inl LayFuel
           | Suc fuel' \<Rightarrow>
               (case get_union st n of
                  None \<Rightarrow> Inr (st, decided)
                | Some u \<Rightarrow>
                    bind_res
                      (fold_res (decide fuel' candidates) (st, decided @ [n])
                         (filter (\<lambda>m. m \<in> set candidates) (holds u)))
                      (\<lambda>(st, decided).
                         bind_res (sum_layout st (ud_variants u))
                           (\<lambda>l. Inr (add_layout n l st, decided)))))"

declare decide.simps [simp del]

definition candidates :: "structs \<Rightarrow> string list" where
  "candidates st =
     filter (\<lambda>n. \<not> reaches st [n] n) (sort (remdups (map fst (st_unions st))))"

definition union_layouts :: "structs \<Rightarrow> lay_error + (string \<times> slot_layout) list" where
  "union_layouts st =
     (let cs = candidates st
      in bind_res (fold_res (decide (length cs) cs) (st\<lparr>st_by_value := []\<rparr>, []) cs)
           (\<lambda>(st', decided). Inr (st_by_value st')))"

definition structs_new :: "struct_def list \<Rightarrow> union_def list \<Rightarrow> lay_error + structs" where
  "structs_new ss us =
     (let st = \<lparr>st_defs = rev (map (\<lambda>s. (sd_name s, s)) ss),
                st_unions = rev (map (\<lambda>u. (ud_name u, u)) us), st_by_value = []\<rparr>
      in bind_res (union_layouts st) (\<lambda>ls. Inr (st\<lparr>st_by_value := ls\<rparr>)))"

lemma fold_res_error:
  assumes "\<And>s x s'. P s \<Longrightarrow> x \<in> set xs \<Longrightarrow> f s x = Inr s' \<Longrightarrow> P s'"
  shows "fold_res f s xs = Inl e \<Longrightarrow> P s \<Longrightarrow> \<exists>s' x. P s' \<and> x \<in> set xs \<and> f s' x = Inl e"
  using assms
proof (induction xs arbitrary: s)
  case (Cons x xs)
  show ?case
  proof (cases "f s x")
    case (Inl a)
    with Cons.prems show ?thesis by auto
  next
    case (Inr s')
    then have s': "P s'" "fold_res f s' xs = Inl e"
      using Cons.prems(1) Cons.prems(3) [OF Cons.prems(2) _ Inr] by auto
    have "\<exists>s'' y. P s'' \<and> y \<in> set xs \<and> f s'' y = Inl e"
      by (rule Cons.IH [OF s'(2,1)]) (use Cons.prems(3) in auto)
    then show ?thesis by auto
  qed
qed simp

lemma seq_res_Inl: "seq_res rs = Inl e \<Longrightarrow> Inl e \<in> set rs"
  by (induction rs) (auto simp: bind_res_Inl_iff)

lemma scalars_n_error: "scalars_n d st t = Inl e \<Longrightarrow> e = LayOverflow"
proof (induction d st t rule: scalars_n.induct)
  case (1 d st t)
  show ?case
  proof (cases t)
    case (TStruct n)
    with "1.prems" show ?thesis
      using "1.IH"(1) [OF TStruct]
      by (auto simp: scalars_n_struct bind_res_Inl_iff dest!: seq_res_Inl
          split: option.splits if_splits nat.splits)
  next
    case (TResult a b)
    with "1.prems" "1.IH"(2,3) [OF TResult] show ?thesis
      by (auto simp: scalars_n_result bind_res_Inl_iff Let_def)
  qed (use "1.prems" in auto)
qed

lemma sum_layout_error: "sum_layout st vs = Inl e \<Longrightarrow> e = LayOverflow"
  by (auto simp: sum_layout_def scalars_of_fields_def scalars_def bind_res_Inl_iff dest!: seq_res_Inl)
    (metis scalars_n_error)

text \<open>What deciding one union does to the state: it adds layouts of decided unions only, each of at most 8 slots.\<close>

definition decided_ok :: "structs \<times> string list \<Rightarrow> bool" where
  "decided_ok = (\<lambda>(st, decided). structs_ok st
     \<and> (\<forall>(n, l) \<in> set (st_by_value st). n \<in> set decided \<and> length (sl_slots l) \<le> max_scalars))"

definition extends :: "structs \<times> string list \<Rightarrow> structs \<times> string list \<Rightarrow> bool" where
  "extends s t \<longleftrightarrow> st_defs (fst t) = st_defs (fst s) \<and> st_unions (fst t) = st_unions (fst s)
     \<and> set (snd s) \<subseteq> set (snd t) \<and> (decided_ok s \<longrightarrow> decided_ok t)"

lemma extends_refl [simp]: "extends s s"
  by (simp add: extends_def)

lemma extends_trans: "extends s t \<Longrightarrow> extends t u \<Longrightarrow> extends s u"
  by (auto simp: extends_def)

lemma sum_layout_kinds: "sum_layout st vs = Inr l \<Longrightarrow> \<exists>per. l = kinds_layout per"
  by (auto simp: sum_layout_def)

lemma extends_add_layout:
  assumes "sum_layout st vs = Inr l" "n \<in> set decided"
  shows "extends (st, decided) (add_layout n l st, decided)"
  using assms sum_layout_kinds [OF assms(1)]
  by (auto simp: extends_def add_layout_def decided_ok_def structs_ok_def)

lemma extends_decided: "extends (st, decided) (st, decided @ ns)"
  by (auto simp: extends_def decided_ok_def)

lemma decide_extends: "decide fuel cs s n = Inr t \<Longrightarrow> extends s t"
proof (induction fuel arbitrary: s n t)
  case 0
  then show ?case by (cases s) (auto simp: decide.simps split: if_splits)
next
  case (Suc fuel)
  obtain st decided where s: "s = (st, decided)" by fastforce
  show ?case
  proof (cases "n \<in> set decided \<or> get_union st n = None")
    case True
    with Suc.prems show ?thesis by (auto simp: s decide.simps split: if_splits)
  next
    case False
    then obtain u where u: "n \<notin> set decided" "get_union st n = Some u" by blast
    with Suc.prems obtain st1 decided1 l where
      f: "fold_res (decide fuel cs) (st, decided @ [n]) (filter (\<lambda>m. m \<in> set cs) (holds u)) = Inr (st1, decided1)"
      and l: "sum_layout st1 (ud_variants u) = Inr l" and t: "t = (add_layout n l st1, decided1)"
      by (auto simp: s decide.simps)
    have e1: "extends (st, decided @ [n]) (st1, decided1)"
      by (rule fold_res_invariant [OF _ f, where P = "extends (st, decided @ [n])"])
        (auto intro: extends_trans Suc.IH)
    then have "n \<in> set decided1" by (auto simp: extends_def)
    from extends_add_layout [OF l this] e1 show ?thesis
      unfolding s t by (meson extends_trans extends_decided)
  qed
qed

lemma decide_fuel:
  assumes "n \<in> set cs" "card (set cs - set (snd s)) \<le> fuel"
  shows "decide fuel cs s n \<noteq> Inl LayFuel"
  using assms
proof (induction fuel arbitrary: s n)
  case 0
  then show ?case by (cases s) (auto simp: decide.simps)
next
  case (Suc fuel)
  obtain st decided where s: "s = (st, decided)" by fastforce
  show ?case
  proof
    assume err: "decide (Suc fuel) cs s n = Inl LayFuel"
    then obtain u where u: "n \<notin> set decided" "get_union st n = Some u"
      and b: "fold_res (decide fuel cs) (st, decided @ [n]) (filter (\<lambda>m. m \<in> set cs) (holds u)) = Inl LayFuel"
      by (auto simp: s decide.simps bind_res_Inl_iff split: if_splits option.splits dest: sum_layout_error)
    have "\<exists>s' m. extends (st, decided @ [n]) s' \<and> m \<in> set (filter (\<lambda>m. m \<in> set cs) (holds u))
        \<and> decide fuel cs s' m = Inl LayFuel"
      by (rule fold_res_error [OF _ b]) (auto intro: extends_trans decide_extends)
    then obtain s' m where m: "extends (st, decided @ [n]) s'" "m \<in> set cs" "decide fuel cs s' m = Inl LayFuel"
      by auto
    have "set cs - set (snd s') \<subset> set cs - set (snd s)"
      using m(1) u(1) Suc.prems(1) by (auto simp: extends_def s)
    then have "card (set cs - set (snd s')) < card (set cs - set (snd s))"
      by (intro psubset_card_mono) simp_all
    with Suc.prems(2) have "card (set cs - set (snd s')) \<le> fuel" by simp
    from Suc.IH [OF m(2) this] m(3) show False ..
  qed
qed

lemma candidates_distinct: "distinct (candidates st)"
  by (simp add: candidates_def)

lemma union_layouts_fuel: "union_layouts st \<noteq> Inl LayFuel"
proof
  let ?cs = "candidates st" let ?s = "(st\<lparr>st_by_value := []\<rparr>, [] :: string list)"
  assume "union_layouts st = Inl LayFuel"
  then have b: "fold_res (decide (length ?cs) ?cs) ?s ?cs = Inl LayFuel"
    by (auto simp: union_layouts_def Let_def bind_res_Inl_iff)
  have "\<exists>s' n. True \<and> n \<in> set ?cs \<and> decide (length ?cs) ?cs s' n = Inl LayFuel"
    by (rule fold_res_error [OF _ b]) auto
  then obtain s' n where n: "n \<in> set ?cs" "decide (length ?cs) ?cs s' n = Inl LayFuel" by blast
  have "card (set ?cs - set (snd s')) \<le> length ?cs"
    by (rule le_trans [OF card_mono card_length]) auto
  from decide_fuel [OF n(1) this] n(2) show False ..
qed

section \<open>Value structs do not contain themselves\<close>

datatype vs_error =
    VsNoFields
  | VsField string ty
  | VsContainsItself string
  | VsTooMany nat
  | VsOverflow

definition value_field :: "structs \<Rightarrow> ty \<Rightarrow> string option" where
  "value_field st t = (case t of TStruct n \<Rightarrow> if is_value_struct st n then Some n else None | _ \<Rightarrow> None)"

definition value_fields :: "structs \<Rightarrow> struct_field list \<Rightarrow> string list" where
  "value_fields st fs = List.map_filter (\<lambda>f. value_field st (sf_ty f)) fs"

lemma value_fields_Nil [simp]: "value_fields st [] = []"
  by (simp add: value_fields_def List.map_filter_def)

definition fields_of :: "structs \<Rightarrow> string \<Rightarrow> struct_field list" where
  "fields_of st n = (case get_struct st n of Some d \<Rightarrow> sd_fields d | None \<Rightarrow> [])"

text \<open>The loop: the stack holds a struct's name and the field of \<open>self\<close> it was reached through.\<close>

lemma finite_structs [simp]: "finite {n. get_struct st n \<noteq> None}"
  using finite_dom_map_of [of "st_defs st"] by (simp add: dom_def)

function contains_loop :: "structs \<Rightarrow> string \<Rightarrow> (string \<times> string) list \<Rightarrow> string list \<Rightarrow> string option" where
  "contains_loop st self [] seen = None"
| "contains_loop st self ((n, first) # stack) seen =
     (if n = self then Some first
      else if n \<in> set seen then contains_loop st self stack seen
      else case get_struct st n of
             Some d \<Rightarrow> contains_loop st self
               (rev (map (\<lambda>m. (m, first)) (value_fields st (sd_fields d))) @ stack) (seen @ [n])
           | None \<Rightarrow> contains_loop st self stack (seen @ [n]))"
  by pat_completeness auto
termination
proof (relation "measures [\<lambda>(st, self, stack, seen). card ({n. get_struct st n \<noteq> None} - set seen),
    \<lambda>(st, self, stack, seen). length stack]", goal_cases)
  case (3 st self n first stack seen)
  then have "{n. get_struct st n \<noteq> None} - set (seen @ [n]) = {n. get_struct st n \<noteq> None} - set seen"
    by auto
  then show ?case by simp
next
  case (4 st self n first stack seen d)
  then have "{n. get_struct st n \<noteq> None} - set (seen @ [n]) \<subset> {n. get_struct st n \<noteq> None} - set seen"
    by auto
  then have "card ({n. get_struct st n \<noteq> None} - set (seen @ [n])) < card ({n. get_struct st n \<noteq> None} - set seen)"
    by (rule psubset_card_mono [OF finite_Diff [OF finite_structs]])
  then show ?case by simp
qed auto

definition contains_itself :: "structs \<Rightarrow> struct_def \<Rightarrow> string option" where
  "contains_itself st s =
     contains_loop st (sd_name s)
       (rev (List.map_filter (\<lambda>f. map_option (\<lambda>n. (n, sf_name f)) (value_field st (sf_ty f))) (sd_fields s))) []"

text \<open>How many scalars a value is, its value structs flattened (\<^verbatim>\<open>TypeChecker::scalars\<close>).\<close>

fun count_scalars :: "nat \<Rightarrow> structs \<Rightarrow> ty \<Rightarrow> lay_error + nat" where
  "count_scalars d st (TStruct n) =
     (case get_struct st n of
        Some def \<Rightarrow>
          if sd_is_value def
          then (case d of 0 \<Rightarrow> Inl LayOverflow
                | Suc d' \<Rightarrow> bind_res (seq_res (map (\<lambda>f. count_scalars d' st (sf_ty f)) (sd_fields def)))
                             (\<lambda>ns. Inr (sum_list ns)))
          else Inr 1
      | None \<Rightarrow> Inr 1)"
| "count_scalars d st _ = Inr 1"

definition bad_value_field :: "ty \<Rightarrow> bool" where
  "bad_value_field t =
     (case t of TStr \<Rightarrow> True | TUnion _ \<Rightarrow> True | TResult _ _ \<Rightarrow> True | TVoid \<Rightarrow> True | TNarrow _ \<Rightarrow> True
      | _ \<Rightarrow> False)"

definition check_value_struct :: "structs \<Rightarrow> struct_def \<Rightarrow> vs_error + unit" where
  "check_value_struct st s =
     (if sd_fields s = [] then Inl VsNoFields
      else case List.find (\<lambda>f. bad_value_field (sf_ty f)) (sd_fields s) of
             Some f \<Rightarrow> Inl (VsField (sf_name f) (sf_ty f))
           | None \<Rightarrow>
               (case contains_itself st s of
                  Some f \<Rightarrow> Inl (VsContainsItself f)
                | None \<Rightarrow>
                    (case count_scalars (nest_fuel st) st (TStruct (sd_name s)) of
                       Inl _ \<Rightarrow> Inl VsOverflow
                     | Inr n \<Rightarrow> if n > 8 then Inl (VsTooMany n) else Inr ())))"

definition value_succ :: "structs \<Rightarrow> string \<Rightarrow> string list" where
  "value_succ st n = value_fields st (fields_of st n)"

lemma contains_loop_fst:
  "map fst s1 = map fst s2 \<Longrightarrow> contains_loop st self s1 seen = None \<longleftrightarrow> contains_loop st self s2 seen = None"
proof (induction st self s1 seen arbitrary: s2 rule: contains_loop.induct)
  case (2 st self n first stack seen)
  then obtain f2 rest where s2: "s2 = (n, f2) # rest" "map fst stack = map fst rest" by auto
  show ?case
  proof (cases "n = self \<or> n \<in> set seen")
    case False
    show ?thesis
    proof (cases "get_struct st n")
      case None
      with False s2 "2.IH"(2) show ?thesis by simp
    next
      case (Some d)
      have "map fst (rev (map (\<lambda>m. (m, first)) (value_fields st (sd_fields d))) @ stack) =
          map fst (rev (map (\<lambda>m. (m, f2)) (value_fields st (sd_fields d))) @ rest)"
        using s2(2) by (simp add: rev_map [symmetric] comp_def)
      with False Some s2 "2.IH"(3) show ?thesis by simp
    qed
  qed (use s2 "2.IH"(1) in auto)
qed auto

interpretation ws_struct: worklist "value_succ st" self
  "\<lambda>todo seen. contains_loop st self (map (\<lambda>n. (n, [])) todo) seen \<noteq> None" for st self
proof unfold_locales
  have "{n. value_succ st n \<noteq> []} \<subseteq> {n. get_struct st n \<noteq> None}"
    by (auto simp: value_succ_def fields_of_def split: option.splits)
  then show "finite {n. value_succ st n \<noteq> []}" by (rule finite_subset) (rule finite_structs)
next
  fix n seen todo
  assume n: "n \<noteq> self" "n \<notin> set seen"
  show "contains_loop st self (map (\<lambda>n. (n, [])) (n # todo)) seen \<noteq> None \<longleftrightarrow>
      contains_loop st self (map (\<lambda>n. (n, [])) (rev (value_succ st n) @ todo)) (seen @ [n]) \<noteq> None"
    using n by (cases "get_struct st n") (simp_all add: value_succ_def fields_of_def rev_map)
qed auto

text \<open>A value struct is refused exactly when its own name is reachable through its value fields.\<close>

lemma contains_itself_iff:
  assumes "get_struct st (sd_name s) = Some s"
  shows "contains_itself st s \<noteq> None \<longleftrightarrow> (sd_name s, sd_name s) \<in> (succ_rel (value_succ st))\<^sup>+"
proof -
  let ?ms = "value_fields st (sd_fields s)"
  have "map fst (rev (List.map_filter (\<lambda>f. map_option (\<lambda>n. (n, sf_name f)) (value_field st (sf_ty f))) (sd_fields s)))
      = map fst (map (\<lambda>n. (n, [])) (rev ?ms))"
  proof -
    have "map fst (List.map_filter (\<lambda>f. map_option (\<lambda>n. (n, sf_name f)) (value_field st (sf_ty f))) fs)
        = value_fields st fs" for fs
      by (induction fs) (simp_all add: value_fields_def List.map_filter_simps split: option.split)
    then show ?thesis by (simp add: rev_map [symmetric] comp_def)
  qed
  from contains_loop_fst [OF this, of st "sd_name s" "[]"]
  have "contains_itself st s \<noteq> None \<longleftrightarrow>
      contains_loop st (sd_name s) (map (\<lambda>n. (n, [])) (rev ?ms)) [] \<noteq> None"
    by (simp only: contains_itself_def)
  also have "\<dots> \<longleftrightarrow> (\<exists>n \<in> set (rev ?ms). (n, sd_name s) \<in> (succ_rel (value_succ st))\<^sup>*)"
    by (rule ws_struct.search_iff)
  also have "\<dots> \<longleftrightarrow> (sd_name s, sd_name s) \<in> (succ_rel (value_succ st))\<^sup>+"
  proof -
    have "value_succ st (sd_name s) = ?ms"
      using assms by (simp add: value_succ_def fields_of_def)
    then show ?thesis by (metis set_rev succ_rel_iff tranclD rtrancl_into_trancl2)
  qed
  finally show ?thesis .
qed

end
