(* ===== verification/Layout_Properties.thy ===== *)
theory Layout_Properties
  imports Sums Scalars
begin

text \<open>
  What the layout code promises the VM and the compiler: sizes and offsets are aligned, fields
  and slots do not overlap, the searches through the declarations end and answer the question
  they are asked, and a value struct the checker accepts has at most eight scalars.
\<close>

section \<open>Declarations to try things on\<close>

definition demo_point :: struct_def where
  "demo_point = \<lparr>sd_name = ''P'', sd_fields = [\<lparr>sf_name = ''a'', sf_ty = TI32\<rparr>, \<lparr>sf_name = ''b'', sf_ty = TI64\<rparr>],
     sd_span = (1, 1), sd_is_value = True\<rparr>"

definition demo_union :: union_def where
  "demo_union = \<lparr>ud_name = ''U'', ud_variants =
     [\<lparr>vr_name = ''none'', vr_fields = []\<rparr>, \<lparr>vr_name = ''at'', vr_fields = [\<lparr>sf_name = ''p'', sf_ty = TStruct ''P''\<rparr>]\<rparr>],
     ud_span = (2, 1)\<rparr>"

definition demo_layout :: slot_layout where
  "demo_layout = \<lparr>sl_slots = [TI32, TI32, TI64], sl_offsets = [0, 4, 8], sl_size = 16, sl_align = 8,
     sl_variants = [[], [1, 2]]\<rparr>"

definition demo_structs :: structs where
  "demo_structs = \<lparr>st_defs = [(''P'', demo_point)], st_unions = [(''U'', demo_union)], st_by_value = [(''U'', demo_layout)]\<rparr>"

lemma demo_layout_kinds: "demo_layout = kinds_layout [[], [TI32, TI64]]"
  by (simp add: demo_layout_def kinds_layout_def kinds_def kind_count_def kind_index_def slot_size_def
      place_slots_Cons align_up_def Let_def)

lemma demo_structs_ok: "structs_ok demo_structs"
  by (auto simp: structs_ok_def demo_structs_def demo_layout_kinds split: if_splits)

lemma demo_field_a: "get_field_offset demo_structs demo_point ''a'' = Inr (0, TI32)"
  by (simp add: get_field_offset_def demo_point_def type_size_and_align_def align_up_def)

lemma demo_field_b: "get_field_offset demo_structs demo_point ''b'' = Inr (8, TI64)"
  by (simp add: get_field_offset_def demo_point_def type_size_and_align_def align_up_def)

lemma demo_size: "get_struct_size demo_structs demo_point = Inr 16"
  by (simp add: get_struct_size_def demo_point_def type_size_and_align_def align_up_def)

section \<open>Structs\<close>

text \<open>
  C19. In a struct's layout every field lies at a multiple of its own alignment and inside the
  struct's size, and two different fields do not overlap.
\<close>

theorem struct_fields_laid:
  assumes ok: "structs_ok st" and n: "get_struct_size st def = Inr n"
    and f1: "get_field_offset st def f1 = Inr (p1, t1)" "type_size_and_align st t1 = Inr (s1, a1)"
    and f2: "get_field_offset st def f2 = Inr (p2, t2)" "type_size_and_align st t2 = Inr (s2, a2)" and ne: "f1 \<noteq> f2"
  shows "a1 dvd p1 \<and> p1 + s1 \<le> n \<and> (p1 + s1 \<le> p2 \<or> p2 + s2 \<le> p1)"
proof -
  from n obtain sas e al where fs: "map (\<lambda>f. type_size_and_align st (sf_ty f)) (sd_fields def) = map Inr sas"
    and l: "lay_fields 0 1 sas = (e, al)" and n': "n = align_up e al" by (rule get_struct_size_fields)
  have one: "1 \<in> aligns" by (simp add: aligns_def)
  have "p1 + s1 \<le> e \<and> a1 dvd p1 \<and> a1 dvd al"
    using field_offset_bounds [OF ok f1(1) [unfolded get_field_offset_def] fs one l f1(2)] by simp
  moreover have "e \<le> align_up e al"
  proof -
    have "laid x" if "x \<in> set sas" for x
    proof -
      have "Inr x \<in> set (map (\<lambda>f. type_size_and_align st (sf_ty f)) (sd_fields def))" using that fs by simp
      then show ?thesis using type_laid [OF ok, of _ x] by auto
    qed
    then have "al \<in> aligns" using lay_fields_align [OF l one] by blast
    then show ?thesis by (intro align_up_ge aligns_pos)
  qed
  moreover have "p1 + s1 \<le> p2 \<or> p2 + s2 \<le> p1"
    by (rule fields_disjoint [OF ok ne f1(1) [unfolded get_field_offset_def] f2(1) [unfolded get_field_offset_def] fs f1(2) f2(2)])
  ultimately show ?thesis unfolding n' by simp
qed

lemma struct_fields_laid_witness: "4 dvd (0 :: nat) \<and> 0 + 4 \<le> (16 :: nat) \<and> (0 + 4 \<le> (8 :: nat) \<or> 8 + 8 \<le> (0 :: nat))"
  by (rule struct_fields_laid [OF demo_structs_ok demo_size demo_field_a _ demo_field_b])
    (simp_all add: type_size_and_align_def)

text \<open>
  Every type that has a layout has a power-of-two alignment of at most 8 that divides its
  size, so the elements of an array of it are all aligned.
\<close>

theorem layout_aligned:
  assumes "structs_ok st" "type_size_and_align st t = Inr (n, al)"
  shows "al \<in> {1, 2, 4, 8} \<and> al dvd n"
  using type_laid [OF assms] by (simp add: laid_def aligns_def)

lemma layout_aligned_witness: "(8 :: nat) \<in> {1, 2, 4, 8} \<and> 8 dvd (16 :: nat)"
  by (rule layout_aligned [OF demo_structs_ok, of "TStruct ''P''"])
    (simp add: type_size_and_align_def layout_at_struct demo_structs_def demo_point_def align_up_def)

section \<open>Sums\<close>

text \<open>
  C18. The slots of a union: each scalar of each variant has a slot of its own kind that is not the
  tag's, no two scalars of a variant share one, and in memory the slots are aligned, in order,
  disjoint, and inside the union's size.
\<close>

theorem sum_slots_laid:
  assumes "sum_layout st vs = Inr l"
  shows "\<exists>per. map (\<lambda>v. scalars_of_fields st (vr_fields v)) vs = map Inr per
    \<and> slots_ok l (map (map slot_kind) per) \<and> offsets_ok 0 (sl_size l) (sl_offsets l) (sl_slots l)
    \<and> sl_slots l ! 0 = TI32 \<and> sl_align l \<in> {4, 8} \<and> sl_align l dvd sl_size l"
proof -
  from assms obtain per where per: "map (\<lambda>v. scalars_of_fields st (vr_fields v)) vs = map Inr per"
    and l: "l = kinds_layout (map (map slot_kind) per)"
    by (auto simp: sum_layout_def seq_res_Inr)
  have "slots_ok l (map (map slot_kind) per)" unfolding l by (rule kinds_layout_slots_ok) auto
  with per show ?thesis
    using kinds_layout_offsets [of "map (map slot_kind) per"] kinds_layout_tag [of "map (map slot_kind) per"] l by blast
qed

lemma demo_sum: "sum_layout demo_structs (ud_variants demo_union) = Inr demo_layout"
  by (simp add: demo_layout_kinds sum_layout_def scalars_of_fields_def scalars_def nest_fuel_def demo_structs_def
      demo_union_def scalars_n_struct demo_point_def)

lemma sum_slots_laid_witness:
  "\<exists>per. map (\<lambda>v. scalars_of_fields demo_structs (vr_fields v)) (ud_variants demo_union) = map Inr per
    \<and> slots_ok demo_layout (map (map slot_kind) per)
    \<and> offsets_ok 0 (sl_size demo_layout) (sl_offsets demo_layout) (sl_slots demo_layout)
    \<and> sl_slots demo_layout ! 0 = TI32 \<and> sl_align demo_layout \<in> {4, 8} \<and> sl_align demo_layout dvd sl_size demo_layout"
  by (rule sum_slots_laid [OF demo_sum])

text \<open>The value structs that a value struct holds in its fields.\<close>

definition value_holds :: "structs \<Rightarrow> (string \<times> string) set" where
  "value_holds st =
     {(m, n). \<exists>d f. get_struct st n = Some d \<and> sd_is_value d \<and> f \<in> set (sd_fields d)
        \<and> m \<in> value_structs_in (sf_ty f) \<and> is_value_struct st m}"

lemma value_holds_below:
  assumes "acyclic (value_holds st)"
  shows "\<exists>rank. holds_below st rank \<and> (\<forall>n. is_value_struct st n \<longrightarrow> rank n < nest_fuel st)"
proof -
  define A where "A = {n. is_value_struct st n}"
  define below where "below n = {m. (m, n) \<in> (value_holds st)\<^sup>+}" for n
  have A: "A \<subseteq> fst ` set (st_defs st)"
    unfolding A_def is_value_struct_def by (auto split: option.splits dest!: map_of_SomeD intro: rev_image_eqI)
  have "finite A" by (rule finite_subset [OF A]) simp
  have sub: "below n \<subseteq> A" for n
    unfolding below_def A_def by (auto dest!: tranclD simp: value_holds_def)
  have irrefl: "n \<notin> below n" for n using assms by (simp add: below_def acyclic_def)
  have "card (below m) < card (below n)" if "(m, n) \<in> value_holds st" for m n
  proof (rule psubset_card_mono)
    show "finite (below n)" using sub \<open>finite A\<close> by (rule finite_subset)
    have "below m \<subseteq> below n" using that unfolding below_def by (auto intro: trancl_into_trancl)
    moreover have "m \<in> below n" using that unfolding below_def by auto
    ultimately show "below m \<subset> below n" using irrefl [of m] by blast
  qed
  then have "holds_below st (\<lambda>n. card (below n))"
    unfolding holds_below_def value_holds_def by blast
  moreover have "card (below n) < nest_fuel st" if "is_value_struct st n" for n
  proof -
    have "below n \<subset> A" using sub [of n] irrefl [of n] that unfolding A_def by blast
    then have "card (below n) < card A" by (rule psubset_card_mono [OF \<open>finite A\<close>])
    also have "card A \<le> card (fst ` set (st_defs st))" by (rule card_mono [OF _ A]) simp
    also have "\<dots> \<le> length (st_defs st)" using card_image_le [of "set (st_defs st)" fst] card_length [of "st_defs st"] by simp
    finally show ?thesis by (simp add: nest_fuel_def)
  qed
  ultimately show ?thesis by blast
qed

lemma value_holds_same: "st_defs st' = st_defs st \<Longrightarrow> value_holds st' = value_holds st"
  by (simp add: value_holds_def is_value_struct_def)

lemma scalars_end: "acyclic (value_holds st) \<Longrightarrow> \<exists>ts. scalars st t = Inr ts"
  unfolding scalars_def using value_holds_below scalars_n_total by blast

lemma seq_res_all: "(\<And>x. x \<in> set xs \<Longrightarrow> \<exists>y. f x = Inr y) \<Longrightarrow> \<exists>ys. seq_res (map f xs) = Inr ys"
  by (induction xs) auto

lemma sum_layout_end:
  assumes "acyclic (value_holds st)"
  shows "\<exists>l. sum_layout st vs = Inr l"
proof -
  have "\<exists>ts. scalars_of_fields st fs = Inr ts" for fs
    using seq_res_all [of fs "\<lambda>f. scalars st (sf_ty f)"] scalars_end [OF assms] by (auto simp: scalars_of_fields_def)
  then show ?thesis
    using seq_res_all [of vs "\<lambda>v. scalars_of_fields st (vr_fields v)"] by (auto simp: sum_layout_def)
qed

lemma decide_error:
  "decide fuel cs s n = Inl e \<Longrightarrow> acyclic (value_holds (fst s)) \<Longrightarrow> e = LayFuel"
proof (induction fuel arbitrary: s n)
  case 0
  then show ?case by (cases s) (auto simp: decide.simps split: if_splits)
next
  case (Suc fuel)
  obtain st decided where s: "s = (st, decided)" by fastforce
  obtain u where u: "bind_res (fold_res (decide fuel cs) (st, decided @ [n]) (filter (\<lambda>m. m \<in> set cs) (holds u)))
      (\<lambda>(st, decided). bind_res (sum_layout st (ud_variants u)) (\<lambda>l. Inr (add_layout n l st, decided))) = Inl e"
    using Suc.prems(1) by (auto simp: s decide.simps split: if_splits option.splits)
  have defs: "st_defs (fst t) = st_defs st" if "extends (st, decided @ [n]) t" for t
    using that by (simp add: extends_def)
  show ?case
  proof (cases "fold_res (decide fuel cs) (st, decided @ [n]) (filter (\<lambda>m. m \<in> set cs) (holds u))")
    case (Inl e')
    then have b: "fold_res (decide fuel cs) (st, decided @ [n]) (filter (\<lambda>m. m \<in> set cs) (holds u)) = Inl e" using u by simp
    have "\<exists>s' m. extends (st, decided @ [n]) s' \<and> m \<in> set (filter (\<lambda>m. m \<in> set cs) (holds u)) \<and> decide fuel cs s' m = Inl e"
      by (rule fold_res_error [OF _ b]) (auto intro: extends_trans decide_extends)
    then show ?thesis using Suc.IH Suc.prems(2) defs value_holds_same s by (metis fst_conv)
  next
    case (Inr t)
    have "extends (st, decided @ [n]) t"
      by (rule fold_res_invariant [OF _ Inr, where P = "extends (st, decided @ [n])"]) (auto intro: extends_trans decide_extends)
    then have "acyclic (value_holds (fst t))" using defs value_holds_same Suc.prems(2) s by (metis fst_conv)
    then obtain l where "sum_layout (fst t) (ud_variants u) = Inr l" using sum_layout_end by blast
    then show ?thesis using u Inr by (cases t) simp
  qed
qed

lemma union_layouts_total:
  assumes "acyclic (value_holds st)"
  shows "\<exists>ls. union_layouts st = Inr ls"
proof (cases "union_layouts st")
  case (Inl e)
  let ?cs = "candidates st" let ?s = "(st\<lparr>st_by_value := []\<rparr>, [] :: string list)"
  from Inl have b: "fold_res (decide (length ?cs) ?cs) ?s ?cs = Inl e"
    by (auto simp: union_layouts_def Let_def bind_res_Inl_iff)
  have "\<exists>s' n. extends ?s s' \<and> n \<in> set ?cs \<and> decide (length ?cs) ?cs s' n = Inl e"
    by (rule fold_res_error [OF _ b]) (auto intro: extends_trans decide_extends)
  then obtain s' n where n: "extends ?s s'" "decide (length ?cs) ?cs s' n = Inl e" by blast
  have "value_holds (fst s') = value_holds st" by (rule value_holds_same) (use n(1) in \<open>simp add: extends_def\<close>)
  then have "e = LayFuel" using decide_error [OF n(2)] assms by simp
  then show ?thesis using Inl union_layouts_fuel [of st] by simp
qed simp

text \<open>
  C22. Deciding which unions are values ends with a table of layouts on every program in which no value
  struct holds itself, through the fields of value structs or the results in them, also when unions hold
  each other or themselves. The programs left out are the ones in which a value struct does: when a union
  holds one, the Rust code recurses through its fields for ever.
\<close>

theorem union_layouts_end:
  assumes "acyclic (value_holds st)"
  shows "\<exists>ls. union_layouts st = Inr ls"
  by (rule union_layouts_total [OF assms])

lemma union_layouts_end_witness:
  "\<exists>ls. union_layouts \<lparr>st_defs = [(''P'', demo_point)], st_unions = [(''U'', demo_union)], st_by_value = []\<rparr> = Inr ls"
proof (rule union_layouts_end)
  have "value_holds \<lparr>st_defs = [(''P'', demo_point)], st_unions = [(''U'', demo_union)], st_by_value = []\<rparr> = {}"
    by (auto simp: value_holds_def demo_point_def split: if_splits)
  then show "acyclic (value_holds \<lparr>st_defs = [(''P'', demo_point)], st_unions = [(''U'', demo_union)], st_by_value = []\<rparr>)"
    by (simp add: acyclic_def)
qed

text \<open>
  C21. \<^verbatim>\<open>reaches\<close> answers reachability: a union is found from the given ones exactly when a chain of
  one or more union-typed fields leads to it.
\<close>

theorem reaches_is_reachability:
  "reaches st from target \<longleftrightarrow> (\<exists>n \<in> set from. (n, target) \<in> {(a, b). b \<in> set (held_by st a)}\<^sup>+)"
  using reaches_iff [of st "from" target] by (simp add: succ_rel_def)

lemma decide_candidates:
  "decide fuel cs s n = Inr t \<Longrightarrow> n \<in> set cs \<Longrightarrow> set (snd s) \<subseteq> set cs \<Longrightarrow> set (snd t) \<subseteq> set cs"
proof (induction fuel arbitrary: s n t)
  case 0
  then show ?case by (cases s) (auto simp: decide.simps split: if_splits)
next
  case (Suc fuel)
  obtain st dec where s: "s = (st, dec)" by fastforce
  show ?case
  proof (cases "n \<in> set dec \<or> get_union st n = None")
    case True
    with Suc.prems show ?thesis by (auto simp: s decide.simps split: if_splits)
  next
    case False
    then obtain u where u: "n \<notin> set dec" "get_union st n = Some u" by auto
    with Suc.prems(1) obtain st1 dec1 where
      f: "fold_res (decide fuel cs) (st, dec @ [n]) (filter (\<lambda>m. m \<in> set cs) (holds u)) = Inr (st1, dec1)"
      and t: "snd t = dec1"
      by (auto simp: s decide.simps)
    have "set (snd (st1, dec1)) \<subseteq> set cs"
      by (rule fold_res_invariant [where P = "\<lambda>q. set (snd q) \<subseteq> set cs", OF _ f])
        (use Suc.IH Suc.prems s in auto)
    with t show ?thesis by simp
  qed
qed

lemma structs_new_decided:
  assumes "structs_new ss us = Inr st"
  obtains st0 st1 dec where "structs_ok st" "st_unions st = st_unions st0" "st_by_value st = st_by_value st1"
    "decided_ok (st1, dec)" "set dec \<subseteq> set (candidates st0)" "st_by_value st0 = []"
proof -
  define st0 where "st0 = \<lparr>st_defs = rev (map (\<lambda>s. (sd_name s, s)) ss),
      st_unions = rev (map (\<lambda>u. (ud_name u, u)) us), st_by_value = []\<rparr>"
  let ?cs = "candidates st0"
  from assms obtain st1 dec where
    f: "fold_res (decide (length ?cs) ?cs) (st0\<lparr>st_by_value := []\<rparr>, []) ?cs = Inr (st1, dec)"
    and st: "st = st0\<lparr>st_by_value := st_by_value st1\<rparr>"
    unfolding structs_new_def union_layouts_def Let_def st0_def [symmetric] by auto
  have d: "decided_ok (st1, dec)"
  proof (rule fold_res_invariant [where P = decided_ok, OF _ f])
    show "decided_ok q'" if "decided_ok q" "decide (length ?cs) ?cs q n = Inr q'" for q q' n
      using decide_extends [OF that(2)] that(1) by (simp add: extends_def)
    show "decided_ok (st0\<lparr>st_by_value := []\<rparr>, [])" by (simp add: decided_ok_def structs_ok_def)
  qed
  have c: "set dec \<subseteq> set ?cs"
    using fold_res_invariant [where P = "\<lambda>q. set (snd q) \<subseteq> set ?cs", OF _ f] decide_candidates by fastforce
  show ?thesis
    by (rule that [of st0 st1 dec]) (use d c st in \<open>simp_all add: decided_ok_def structs_ok_def st0_def\<close>)
qed

text \<open>
  C20. A table of declarations built by \<^verbatim>\<open>Structs::new\<close> holds well-formed layouts only, each of
  at most eight slots, and no union of its by-value table holds itself.
\<close>

theorem structs_new_ok:
  assumes "structs_new ss us = Inr st" "map_of (st_by_value st) n = Some l"
  shows "(\<exists>per. l = kinds_layout per) \<and> length (sl_slots l) \<le> max_scalars
    \<and> (n, n) \<notin> {(a, b). b \<in> set (held_by st a)}\<^sup>+"
proof -
  obtain st0 st1 dec where st: "structs_ok st" "st_unions st = st_unions st0" "st_by_value st = st_by_value st1"
    and d: "decided_ok (st1, dec)" "set dec \<subseteq> set (candidates st0)"
    by (rule structs_new_decided [OF assms(1)])
  have m: "(n, l) \<in> set (st_by_value st1)" using assms(2) st(3) by (auto dest: map_of_SomeD)
  then have n: "n \<in> set dec" "length (sl_slots l) \<le> max_scalars" using d(1) by (auto simp: decided_ok_def)
  then have "\<not> reaches st0 [n] n" using d(2) by (auto simp: candidates_def)
  then have "(n, n) \<notin> (holds_rel st0)\<^sup>+" by (simp add: reaches_iff)
  moreover have "held_by st = held_by st0" by (simp add: held_by_def st(2) fun_eq_iff)
  ultimately have "(n, n) \<notin> (holds_rel st)\<^sup>+" by simp
  then show ?thesis using n(2) structs_okD [OF st(1) assms(2)] by (metis succ_rel_def)
qed

lemma demo_structs_new: "structs_new [demo_point] [demo_union] = Inr demo_structs"
proof -
  define st where "st = \<lparr>st_defs = [(''P'', demo_point)], st_unions = [(''U'', demo_union)], st_by_value = []\<rparr>"
  have h: "holds demo_union = []" by (simp add: holds_def demo_union_def union_field_def)
  have c: "candidates st = [''U'']" by (simp add: candidates_def st_def reaches_def List.map_filter_simps h)
  have l: "sum_layout st (ud_variants demo_union) = Inr demo_layout"
    by (simp add: st_def demo_layout_kinds sum_layout_def scalars_of_fields_def scalars_def nest_fuel_def
        demo_union_def scalars_n_struct demo_point_def)
  have "decide 1 [''U''] (st, []) ''U'' = Inr (add_layout ''U'' demo_layout st, [''U''])"
    by (simp add: decide.simps h l) (simp add: st_def h l [unfolded st_def])
  then have "union_layouts st = Inr [(''U'', demo_layout)]"
    by (simp add: union_layouts_def c Let_def) (simp add: st_def add_layout_def demo_layout_def max_scalars_def)
  moreover have "\<lparr>st_defs = rev (map (\<lambda>s. (sd_name s, s)) [demo_point]), st_unions = rev (map (\<lambda>u. (ud_name u, u)) [demo_union]),
      st_by_value = []\<rparr> = st"
    by (simp add: st_def demo_point_def demo_union_def)
  ultimately show ?thesis by (simp only: structs_new_def Let_def) (simp add: st_def demo_structs_def)
qed

lemma structs_new_ok_witness:
  "(\<exists>per. demo_layout = kinds_layout per) \<and> length (sl_slots demo_layout) \<le> max_scalars
    \<and> (''U'', ''U'') \<notin> {(a, b). b \<in> set (held_by demo_structs a)}\<^sup>+"
  by (rule structs_new_ok [OF demo_structs_new]) (simp add: demo_structs_def)

section \<open>Value structs\<close>

text \<open>What the checker demands of every value struct it is shown.\<close>

definition all_checked :: "structs \<Rightarrow> bool" where
  "all_checked st \<longleftrightarrow> (\<forall>n d. get_struct st n = Some d \<longrightarrow> sd_is_value d \<longrightarrow>
     sd_name d = n \<and> check_value_struct st d = Inr ())"

lemma find_None: "List.find p xs = None \<Longrightarrow> x \<in> set xs \<Longrightarrow> \<not> p x"
  by (auto simp: find_None_iff)

lemma all_checked_fields:
  assumes "all_checked st" "get_struct st n = Some d" "sd_is_value d" "f \<in> set (sd_fields d)"
  shows "\<not> bad_value_field (sf_ty f)"
proof -
  have "check_value_struct st d = Inr ()" using assms unfolding all_checked_def by blast
  then have "List.find (\<lambda>f. bad_value_field (sf_ty f)) (sd_fields d) = None"
    by (auto simp: check_value_struct_def split: if_splits option.splits)
  then show ?thesis using assms(4) by (rule find_None)
qed

lemma length_concat_scalars:
  assumes "\<And>f k. f \<in> set fs \<Longrightarrow> g f = Inr k \<Longrightarrow> \<exists>ts. h f = Inr ts \<and> length ts = k"
    and "seq_res (map g fs) = Inr ns"
  shows "\<exists>tss. seq_res (map h fs) = Inr tss \<and> length (concat tss) = sum_list ns"
  using assms
proof (induction fs arbitrary: ns)
  case (Cons f fs)
  from Cons.prems(2) obtain k ks where k: "g f = Inr k" "seq_res (map g fs) = Inr ks" "ns = k # ks" by auto
  from Cons.prems(1) [OF _ k(1)] obtain ts where "h f = Inr ts" "length ts = k" by auto
  moreover from Cons.IH [OF _ k(2)] Cons.prems(1) obtain tss where
    "seq_res (map h fs) = Inr tss" "length (concat tss) = sum_list ks" by auto
  ultimately show ?case using k(3) by auto
qed simp

lemma count_is_length:
  assumes "all_checked st"
  shows "count_scalars d st t = Inr k \<Longrightarrow> \<not> bad_value_field t \<Longrightarrow> \<exists>ts. scalars_n d st t = Inr ts \<and> length ts = k"
proof (induction d arbitrary: t k)
  case 0
  then show ?case
    by (cases t) (auto simp: bad_value_field_def scalars_n_struct split: option.splits if_splits)
next
  case (Suc d)
  show ?case
  proof (cases "\<exists>n def. t = TStruct n \<and> get_struct st n = Some def \<and> sd_is_value def")
    case True
    then obtain n def where t: "t = TStruct n" "get_struct st n = Some def" "sd_is_value def" by blast
    with Suc.prems(1) obtain ns where
      ns: "seq_res (map (\<lambda>f. count_scalars d st (sf_ty f)) (sd_fields def)) = Inr ns" "k = sum_list ns" by auto
    have "\<exists>ts. scalars_n d st (sf_ty f) = Inr ts \<and> length ts = j"
      if "f \<in> set (sd_fields def)" "count_scalars d st (sf_ty f) = Inr j" for f j
      using Suc.IH that(2) all_checked_fields [OF assms t(2,3) that(1)] by blast
    from length_concat_scalars [where h = "\<lambda>f. scalars_n d st (sf_ty f)", OF this ns(1)] obtain tss where
      "seq_res (map (\<lambda>f. scalars_n d st (sf_ty f)) (sd_fields def)) = Inr tss" "length (concat tss) = sum_list ns" by blast
    then show ?thesis using t ns(2) by (simp add: scalars_n_struct)
  next
    case False
    with Suc.prems show ?thesis
      by (cases t) (auto simp: bad_value_field_def scalars_n_struct split: option.splits if_splits)
  qed
qed

text \<open>
  When every value struct passes the checker's test, each is flattened into at most eight
  scalars, and the flattening ends: the count the checker makes is the count the layout uses.
\<close>

theorem checked_value_struct_small:
  assumes "all_checked st" "get_struct st n = Some d" "sd_is_value d"
  shows "\<exists>ts. scalars st (TStruct n) = Inr ts \<and> length ts \<le> 8
    \<and> count_scalars (nest_fuel st) st (TStruct n) = Inr (length ts)"
proof -
  have "sd_name d = n" "check_value_struct st d = Inr ()" using assms unfolding all_checked_def by blast+
  then obtain k where k: "count_scalars (nest_fuel st) st (TStruct n) = Inr k" "k \<le> 8"
    by (auto simp: check_value_struct_def simp del: count_scalars.simps split: if_splits option.splits sum.splits)
  from count_is_length [OF assms(1) k(1)] k show ?thesis
    by (auto simp: scalars_def bad_value_field_def)
qed

lemma demo_all_checked: "all_checked demo_structs"
proof -
  have "contains_itself demo_structs demo_point = None"
    by (simp add: contains_itself_def demo_point_def value_field_def List.map_filter_simps)
  moreover have "count_scalars (nest_fuel demo_structs) demo_structs (TStruct (sd_name demo_point)) = Inr 2"
    by (simp add: nest_fuel_def demo_structs_def demo_point_def)
  moreover have "List.find (\<lambda>f. bad_value_field (sf_ty f)) (sd_fields demo_point) = None" "sd_fields demo_point \<noteq> []"
    by (simp_all add: demo_point_def bad_value_field_def)
  ultimately have "check_value_struct demo_structs demo_point = Inr ()"
    by (simp add: check_value_struct_def del: count_scalars.simps)
  then show ?thesis by (auto simp: all_checked_def) (auto simp: demo_structs_def demo_point_def split: if_splits)
qed

lemma checked_value_struct_small_witness:
  "\<exists>ts. scalars demo_structs (TStruct ''P'') = Inr ts \<and> length ts \<le> 8
    \<and> count_scalars (nest_fuel demo_structs) demo_structs (TStruct ''P'') = Inr (length ts)"
  by (rule checked_value_struct_small [OF demo_all_checked, where d = demo_point])
    (simp_all add: demo_structs_def demo_point_def)

text \<open>
  C23. The test for a struct that contains itself is exact: it names a field exactly when a chain of
  value-struct fields leads from the struct back to itself.
\<close>

theorem contains_itself_exact:
  assumes "get_struct st (sd_name s) = Some s"
  shows "contains_itself st s \<noteq> None \<longleftrightarrow> (sd_name s, sd_name s) \<in> {(a, b). b \<in> set (value_succ st a)}\<^sup>+"
  using contains_itself_iff [OF assms] by (simp add: succ_rel_def)

definition loop_struct :: "string \<Rightarrow> string \<Rightarrow> struct_def" where
  "loop_struct n m = \<lparr>sd_name = n, sd_fields = [\<lparr>sf_name = ''t'', sf_ty = TStruct m\<rparr>], sd_span = (1, 1), sd_is_value = True\<rparr>"

definition loop_structs :: structs where
  "loop_structs = \<lparr>st_defs = [(''A'', loop_struct ''A'' ''T''), (''T'', loop_struct ''T'' ''T'')], st_unions = [], st_by_value = []\<rparr>"

lemma contains_itself_exact_witness:
  "(''T'', ''T'') \<in> {(a, b). b \<in> set (value_succ loop_structs a)}\<^sup>+"
proof -
  have "contains_itself loop_structs (loop_struct ''T'' ''T'') \<noteq> None"
    by (simp add: contains_itself_def loop_struct_def loop_structs_def value_field_def is_value_struct_def)
  moreover have "get_struct loop_structs (sd_name (loop_struct ''T'' ''T'')) = Some (loop_struct ''T'' ''T'')"
    by (simp add: loop_structs_def loop_struct_def)
  ultimately show ?thesis
    using contains_itself_exact [of loop_structs "loop_struct ''T'' ''T''"] by (simp add: loop_struct_def)
qed

text \<open>
  C24. The test misses a cycle that does not come back to the struct it started from: for \<open>A\<close> that
  holds \<open>T\<close>, and \<open>T\<close> that holds itself, the search from \<open>A\<close> finds nothing, and counting \<open>A\<close>'s
  scalars then recurses without end.
\<close>

theorem value_struct_cycle_missed:
  "contains_itself loop_structs (loop_struct ''A'' ''T'') = None
   \<and> scalars loop_structs (TStruct ''A'') = Inl LayOverflow
   \<and> check_value_struct loop_structs (loop_struct ''A'' ''T'') = Inl VsOverflow"
proof -
  have c: "contains_itself loop_structs (loop_struct ''A'' ''T'') = None"
    by (simp add: contains_itself_def loop_struct_def loop_structs_def value_field_def is_value_struct_def
        value_fields_def)
  moreover have "scalars loop_structs (TStruct ''A'') = Inl LayOverflow"
    by (simp add: scalars_def nest_fuel_def loop_structs_def loop_struct_def scalars_n_struct)
  moreover have "check_value_struct loop_structs (loop_struct ''A'' ''T'') = Inl VsOverflow"
  proof -
    have "count_scalars (nest_fuel loop_structs) loop_structs (TStruct (sd_name (loop_struct ''A'' ''T''))) = Inl LayOverflow"
      by (simp add: nest_fuel_def loop_structs_def loop_struct_def)
    moreover have "List.find (\<lambda>f. bad_value_field (sf_ty f)) (sd_fields (loop_struct ''A'' ''T'')) = None"
        "sd_fields (loop_struct ''A'' ''T'') \<noteq> []"
      by (simp_all add: loop_struct_def bad_value_field_def)
    ultimately show ?thesis using c by (simp add: check_value_struct_def del: count_scalars.simps)
  qed
  ultimately show ?thesis by simp
qed

section \<open>Values and their scalars\<close>

text \<open>
  C4. Taking a value apart into scalars and putting them together gives the value back, for every
  value of a type that fits the fuel: one scalar per slot, each of its slot's kind, also when
  a boolean comes back from memory as its word.
\<close>

theorem scalars_round_trip:
  assumes "val_ty st t v" "vdepth v \<le> from_fuel st t"
  shows "\<exists>ts xs. scalars st t = Inr ts \<and> to_scalars st t v = Inr xs \<and> list_all2 kind_ok (map slot_kind ts) xs
    \<and> (\<forall>ys. list_all2 slot_eq xs ys \<longrightarrow> from_scalars st t ys = Inr v)"
proof -
  from rebuild(1) [OF assms(1)] obtain ts xs where "rebuilds st t v ts xs" by blast
  then show ?thesis using assms(2) unfolding rebuilds_def from_scalars_def by blast
qed

definition demo_value :: "value" where
  "demo_value = VUnion 1 [VRecord [VInt 7, VInt64 9]]"

lemma demo_value_ty: "val_ty demo_structs (TUnion ''U'') demo_value"
proof -
  have "\<not> isl (scalars demo_structs (TStruct ''P''))"
    by (simp add: scalars_def nest_fuel_def demo_structs_def scalars_n_struct demo_point_def)
  then show ?thesis
    using demo_sum by (simp add: demo_value_def)
      (simp add: demo_structs_def demo_union_def demo_point_def narrow32_iff word_ty_def long_ty_def)
qed

lemma scalars_round_trip_witness:
  "from_scalars demo_structs (TUnion ''U'') [VInt 1, VInt 7, VInt64 9] = Inr demo_value"
proof -
  have "vdepth demo_value \<le> from_fuel demo_structs (TUnion ''U'')"
    by (simp add: demo_value_def from_fuel_def decl_depth_def demo_structs_def demo_point_def demo_union_def)
  from scalars_round_trip [OF demo_value_ty this] obtain xs where
    xs: "to_scalars demo_structs (TUnion ''U'') demo_value = Inr xs"
    and r: "\<And>ys. list_all2 slot_eq xs ys \<Longrightarrow> from_scalars demo_structs (TUnion ''U'') ys = Inr demo_value" by blast
  have "xs = [VInt 1, VInt 7, VInt64 9]"
    using xs by (simp add: demo_value_def demo_structs_def demo_union_def demo_point_def demo_layout_def at_def nth_opt_def
        sum_slots_def put_at_def zero_of_def of_i32_def)
  then show ?thesis by (intro r) (simp add: slot_eq_def)
qed

end
