(* ===== verification/Memory_Properties.thy ===== *)
theory Memory_Properties
  imports Store_Load Alloc Layout_Properties
begin

text \<open>
  What memory gives back: a stored value is loaded as it was stored and nothing around it
  changes, a string copied to the heap is read back from a cell that points at it, what
  \<^verbatim>\<open>args.*\<close> and \<^verbatim>\<open>env.*\<close> write is the arguments, and text read from memory is always valid.
\<close>

section \<open>Store, then load\<close>

text \<open>
  C1. A value that holds no string, stored at an address, is loaded back unchanged, and the store changes
  no byte outside the size of its type: scalars, pointers, arrays, value structs, unions and results held by
  value, nested as deep as the declarations nest, of declarations that do not hold themselves inline. A
  value with a string in it is another matter, and not claimed here: storing a string copies it to the
  heap, so it allocates and changes bytes outside the size of its type, and the code refuses to store one
  that is a field of a union or the payload of a result.
\<close>

theorem store_then_load:
  assumes "structs_ok st" "names_ok st" "inline_ranked st rank"
    and "val_ty st t v" "no_str v" "type_size_and_align st t = Inr (n, al)"
    and "a + n \<le> length (mm_bytes m)"
  shows "\<exists>m'. store_val_at st strs a t v m = (Inr (), m') \<and> changes_only a n m m' \<and> load_val_at st m' a t = Inr v"
proof -
  have "store_ok st strs n t v"
    by (rule store_ok(1) [OF assms(1,2) ranked_fuel_ok [OF assms(3)] assms(4-6)])
  with assms(7) obtain P where r: "region_ok (length (mm_bytes m)) a n (store_val_at st strs a t v) P"
    and l: "\<forall>m. P m \<longrightarrow> loads st a t v m" unfolding store_ok_def by blast
  from r obtain m' where "store_val_at st strs a t v m = (Inr (), m')" "changes_only a n m m'" "P m'"
    unfolding region_ok_def by blast
  with l rdepth_load_fuel [OF assms(4)] show ?thesis unfolding loads_def load_val_at_def by blast
qed

definition demo_mem :: mem where
  "demo_mem = \<lparr>mm_bytes = replicate 64 0, mm_max_pages = 1\<rparr>"

lemma store_then_load_witness:
  "\<exists>m'. store_val_at demo_structs Map.empty 16 (TUnion ''U'') demo_value demo_mem = (Inr (), m')
    \<and> changes_only 16 16 demo_mem m' \<and> load_val_at demo_structs m' 16 (TUnion ''U'') = Inr demo_value"
proof (rule store_then_load [OF demo_structs_ok, where rank = "\<lambda>n. if n = ''U'' then 1 else 0" and al = 8])
  show "names_ok demo_structs" by (auto simp: names_ok_def demo_structs_def demo_point_def split: if_splits)
  show "inline_ranked demo_structs (\<lambda>n. if n = ''U'' then 1 else 0)"
    by (auto simp: inline_ranked_def inline_fields_def demo_structs_def demo_point_def demo_union_def split: if_splits)
  show "val_ty demo_structs (TUnion ''U'') demo_value" by (rule demo_value_ty)
qed (simp_all add: demo_value_def type_size_and_align_def demo_structs_def demo_layout_def demo_mem_def)

section \<open>Strings\<close>

lemma slice_write_other:
  "in_memory m a (length bs) \<Longrightarrow> in_memory m b n \<Longrightarrow> b + n \<le> a \<or> a + length bs \<le> b \<Longrightarrow>
     slice_at (mm_bytes (write_raw a bs m)) b n = slice_at (mm_bytes m) b n"
  by (auto simp: write_raw_def in_memory_def intro!: slice_splice_other)

lemma slice_write_same:
  "in_memory m a (length bs) \<Longrightarrow> slice_at (mm_bytes (write_raw a bs m)) a (length bs) = bs"
  by (simp add: write_raw_def in_memory_def)

text \<open>The heap copy of a string: its length, then its bytes, at the old cursor.\<close>

lemma materialize_spec:
  assumes "mem_ok m" "strs s = None" "alloc_fits (4 + length s) m" "materialize_str strs s m = (Inr p, m')"
  shows "p = unat (heap_cursor m) + 4" "p + length s \<le> length (mm_bytes m')" "length (mm_bytes m') \<le> 2 ^ 31"
    "slice_at (mm_bytes m') (p - 4) 4 = le_bytes 4 (word_of_nat (length s) :: u32)"
    "slice_at (mm_bytes m') p (length s) = string_bytes s"
    "length (mm_bytes m) \<le> length (mm_bytes m')"
proof -
  let ?n = "4 + length s" and ?b = "unat (heap_cursor m)"
  obtain r m1 where run: "alloc_bytes ?n m = (r, m1)" by fastforce
  note spec = alloc_bytes_spec [OF assms(1,3) run]
  let ?m2 = "write_raw ?b (le_bytes 4 (word_of_nat (length s) :: u32)) m1"
  have fit: "?b + 4 + length s \<le> length (mm_bytes m1)"
    and p: "p = ?b + 4" and m': "m' = write_raw (?b + 4) (string_bytes s) ?m2"
    using assms(2,4) run spec(1) by (auto simp: materialize_str_def mbind_def Let_def split: if_splits)
  have in1: "in_memory m1 ?b (length (le_bytes 4 (word_of_nat (length s) :: u32)))" using fit by (simp add: in_memory_def)
  then have in2: "in_memory ?m2 (?b + 4) (length (string_bytes s))" using fit by (simp add: in_memory_def)
  have len: "length (mm_bytes m') = length (mm_bytes m1)" using in1 in2 by (simp add: m')
  show "p = ?b + 4" by (rule p)
  show "p + length s \<le> length (mm_bytes m')" using fit by (simp add: len p)
  show "length (mm_bytes m') \<le> 2 ^ 31" using spec(2) by (simp add: len mem_ok_def max_pages_def page_size_def)
  show "slice_at (mm_bytes m') (p - 4) 4 = le_bytes 4 (word_of_nat (length s) :: u32)"
    using slice_write_same [OF in1] slice_write_other [OF in2, of ?b 4] fit by (simp add: m' p in_memory_def)
  show "slice_at (mm_bytes m') p (length s) = string_bytes s"
    using slice_write_same [OF in2] by (simp add: m' p)
  show "length (mm_bytes m) \<le> length (mm_bytes m')"
    using mem_step_alloc [of ?n] run assms(1) unfolding len by (auto simp: mem_step_def mem_le_def)
qed

text \<open>
  A string stored in a cell is read back: the heap copy the store makes has the string's
  length before its bytes, and loading a \<^verbatim>\<open>str\<close> from the cell gives the same text.
\<close>

theorem string_round_trip:
  assumes "mem_ok m" "strs s = None" "alloc_fits (4 + length s) m" "utf8_valid (string_bytes s)"
    and "materialize_str strs s m = (Inr p, m')" "a + 4 \<le> unat (heap_cursor m)"
  shows "\<exists>m''. store_scalar a TStr (VInt (word_of_nat p)) m' = (Inr (), m'') \<and> load_scalar m'' a TStr = Inr (VStr s)"
proof -
  note spec = materialize_spec [OF assms(1,2,3,5)]
  let ?w = "le_bytes 4 (as_i32 (word_of_nat p))"
  have p31: "p < 2 ^ 32" using spec(2,3) by simp
  have n32: "length s < 2 ^ 32" using spec(2,3) by simp
  have ina: "in_memory m' a (length ?w)" using assms(6) spec(1,2) by (simp add: in_memory_def)
  have store: "store_scalar a TStr (VInt (word_of_nat p)) m' = (Inr (), write_raw a ?w m')"
    using ina by (simp add: store_scalar_def store_at_def)
  let ?m = "write_raw a ?w m'"
  have "(of_le ?w :: u32) = ucast (word_of_nat p :: i64)" by (simp add: as_i32_def)
  also have "\<dots> = word_of_nat p" by (rule bit_word_eqI) (simp add: bit_simps)
  finally have ptr: "unat (of_le (slice_at (mm_bytes ?m) a 4) :: u32) = p"
    using slice_write_same [OF ina] by (simp add: unat_of_small [OF p31])
  have "slice_at (mm_bytes ?m) (p - 4) 4 = le_bytes 4 (word_of_nat (length s) :: u32)"
    using slice_write_other [OF ina, of "p - 4" 4] assms(6) spec(1,2,4) by (simp add: in_memory_def)
  then have len: "unat (of_le (slice_at (mm_bytes ?m) (p - 4) 4) :: u32) = length s"
    by (simp add: unat_of_small [OF n32])
  have bytes: "slice_at (mm_bytes ?m) p (length s) = string_bytes s"
    using slice_write_other [OF ina, of p "length s"] assms(6) spec(1,2,5) by (simp add: in_memory_def)
  have "load_scalar ?m a TStr = Inr (VStr s)"
  proof -
    have "in_memory ?m a 4" "in_memory ?m p (length s)" "\<not> p < 4" "\<not> length (mm_bytes ?m) < p"
      using ina spec(1,2) by (simp_all add: in_memory_def)
    then show ?thesis
      unfolding load_scalar_def ty.case load_str_def Let_def ptr len bytes
      by (simp add: utf8_lossy_id [OF assms(4)])
  qed
  with store show ?thesis by blast
qed

lemma demo_string: "materialize_str Map.empty ''hi'' mem_new = (Inr 1028, snd (materialize_str Map.empty ''hi'' mem_new))"
proof -
  have f: "alloc_fits 6 mem_new" by (simp add: alloc_fits_def heap_cursor_new)
  obtain r m1 where run: "alloc_bytes 6 mem_new = (r, m1)" by fastforce
  note spec = alloc_bytes_spec [OF mem_ok_new f run]
  have "1048576 \<le> length (mm_bytes m1)"
  proof -
    have "length (mm_bytes mem_new) = 1048576"
      by (simp add: mem_new_def initial_pages_def page_size_def heap_ptr_addr_def)
    moreover have "alloc_end 6 mem_new = 1032" by (simp add: alloc_end_def heap_cursor_new align_up_def)
    ultimately show ?thesis using spec(4) by simp
  qed
  then show ?thesis
    by (simp add: materialize_str_def mbind_def Let_def run spec(1) heap_cursor_new)
qed

lemma string_round_trip_witness:
  "\<exists>m''. store_scalar 1016 TStr (VInt (word_of_nat 1028)) (snd (materialize_str Map.empty ''hi'' mem_new)) = (Inr (), m'')
    \<and> load_scalar m'' 1016 TStr = Inr (VStr ''hi'')"
proof (rule string_round_trip [OF mem_ok_new _ _ _ demo_string])
  show "utf8_valid (string_bytes ''hi'')"
    by (simp add: string_bytes_def of_char_of utf8_valid.simps utf8_len_def)
qed (simp_all add: alloc_fits_def heap_cursor_new)

text \<open>
  Text read from memory is always valid UTF-8, whatever the bytes are, and valid bytes are
  read as they are.
\<close>

theorem lossy_text_valid:
  "utf8_valid (utf8_lossy bs) \<and> (utf8_valid bs \<longleftrightarrow> utf8_lossy bs = bs)"
  using utf8_lossy_valid [of bs] utf8_lossy_id [of bs] by auto

end
