(* ===== verification/Format_Spec.thy ===== *)
theory Format_Spec
  imports Ast
begin

text \<open>
  The format after the colon of a placeholder (\<^verbatim>\<open>Spec\<close> of \<^verbatim>\<open>src/formats.rs\<close>):
  \<^verbatim>\<open>[[fill]align][+][0][width][.decimals][x|X|b]\<close>. \<open>spec_parse\<close> reads it, \<open>spec_word\<close> packs it
  into the one \<open>i32\<close> the printing library takes, \<open>misfit\<close> says whether it fits a type. The
  index into the text of the Rust code is the rest of the text here.
\<close>

section \<open>Parsing\<close>

record spec =
  sp_fill :: u8
  sp_align :: u8
  sp_plus :: bool
  sp_zero :: bool
  sp_width :: u32
  sp_decimals :: "u32 option"
  sp_base :: u8

definition spec_default :: spec where
  "spec_default = \<lparr>sp_fill = 0, sp_align = 0, sp_plus = False, sp_zero = False, sp_width = 0,
     sp_decimals = None, sp_base = 0\<rparr>"

datatype spec_error = BadFormat string | WideFormat string | ManyDecimals string

definition align_of :: "char \<Rightarrow> u8 option" where
  "align_of c = (if c = CHR ''<'' then Some 1 else if c = CHR ''>'' then Some 2
     else if c = CHR ''^'' then Some 3 else None)"

definition ascii_digit :: "char \<Rightarrow> bool" where
  "ascii_digit c \<longleftrightarrow> 48 \<le> (of_char c :: nat) \<and> (of_char c :: nat) < 58"

text \<open>\<^verbatim>\<open>parse::<u32>().unwrap_or(u32::MAX)\<close> of a run of digits.\<close>

definition run_value :: "string \<Rightarrow> nat" where
  "run_value ds = foldl (\<lambda>n c. 10 * n + (of_char c - 48)) 0 ds"

definition digits :: "string \<Rightarrow> u32 option \<times> string" where
  "digits b =
     (let ds = takeWhile ascii_digit b
      in (if ds = [] then None else Some (word_of_nat (min (run_value ds) (2 ^ 32 - 1))),
          dropWhile ascii_digit b))"

text \<open>The fill and alignment at the start, and what follows them.\<close>

definition parse_align :: "string \<Rightarrow> ((u8 \<times> u8) \<times> string) option" where
  "parse_align b =
     (case b of
        f # a # rest \<Rightarrow>
          (case align_of a of
             Some k \<Rightarrow> if 32 \<le> (of_char f :: nat) \<and> (of_char f :: nat) < 127
                       then Some ((word_of_nat (of_char f), k), rest) else None
           | None \<Rightarrow> (case align_of f of Some k \<Rightarrow> Some ((0, k), a # rest) | None \<Rightarrow> Some ((0, 0), b)))
      | [f] \<Rightarrow> (case align_of f of Some k \<Rightarrow> Some ((0, k), []) | None \<Rightarrow> Some ((0, 0), b))
      | [] \<Rightarrow> Some ((0, 0), b))"

definition eat :: "char \<Rightarrow> string \<Rightarrow> bool \<times> string" where
  "eat c b = (case b of x # rest \<Rightarrow> if x = c then (True, rest) else (False, b) | [] \<Rightarrow> (False, b))"

definition parse_width :: "string \<Rightarrow> string \<Rightarrow> spec_error + u32 \<times> string" where
  "parse_width text b =
     (case digits b of
        (Some w, rest) \<Rightarrow> if w > 4095 then Inl (WideFormat text) else Inr (w, rest)
      | (None, rest) \<Rightarrow> Inr (0, rest))"

definition parse_decimals :: "string \<Rightarrow> string \<Rightarrow> spec_error + u32 option \<times> string" where
  "parse_decimals text b =
     (case eat (CHR ''.'') b of
        (True, rest) \<Rightarrow>
          (case digits rest of
             (None, _) \<Rightarrow> Inl (BadFormat text)
           | (Some d, rest) \<Rightarrow> if d > 40 then Inl (ManyDecimals text) else Inr (Some d, rest))
      | (False, rest) \<Rightarrow> Inr (None, rest))"

definition parse_base :: "string \<Rightarrow> u8 \<times> string" where
  "parse_base b =
     (case b of
        c # rest \<Rightarrow> if c = CHR ''x'' then (1, rest) else if c = CHR ''X'' then (2, rest)
                    else if c = CHR ''b'' then (3, rest) else (0, b)
      | [] \<Rightarrow> (0, b))"

definition spec_parse :: "string \<Rightarrow> spec_error + spec" where
  "spec_parse text =
     bind_res (ok_or (parse_align text) (BadFormat text)) (\<lambda>((fill, align), b).
     let (plus, b) = eat (CHR ''+'') b; (zero, b) = eat (CHR ''0'') b
     in bind_res (parse_width text b) (\<lambda>(width, b).
        bind_res (parse_decimals text b) (\<lambda>(decimals, b).
        let (base, b) = parse_base b
        in if b \<noteq> [] then Inl (BadFormat text)
           else Inr \<lparr>sp_fill = fill, sp_align = align, sp_plus = plus, sp_zero = zero,
                     sp_width = width, sp_decimals = decimals, sp_base = base\<rparr>)))"

section \<open>The word the printing library takes\<close>

definition spec_word :: "spec \<Rightarrow> i32" where
  "spec_word s =
     or (sp_width s)
    (or (push_bit 12 (case sp_decimals s of None \<Rightarrow> 0 | Some d \<Rightarrow> d + 1))
    (or (push_bit 18 (ucast (sp_align s)))
    (or (if sp_zero s then push_bit 20 1 else 0)
    (or (push_bit 21 (ucast (sp_base s)))
    (or (if sp_plus s then push_bit 23 1 else 0)
        (push_bit 24 (ucast (sp_fill s))))))))"

section \<open>Which formats fit which types\<close>

definition prints :: "ty \<Rightarrow> bool" where
  "prints t = (case t of TVoid \<Rightarrow> False | TFn _ _ _ \<Rightarrow> False | _ \<Rightarrow> True)"

definition printable :: "ty \<Rightarrow> bool" where
  "printable t =
     (case t of TI32 \<Rightarrow> True | TI64 \<Rightarrow> True | TF32 \<Rightarrow> True | TF64 \<Rightarrow> True | TBool \<Rightarrow> True | TStr \<Rightarrow> True
      | TEnum _ \<Rightarrow> True | TStruct s \<Rightarrow> s = ''str.Bytes'' | _ \<Rightarrow> False)"

datatype misfit = NoFormat ty | NoDecimals ty | NoBase ty | NoSign ty

definition spec_misfit :: "spec \<Rightarrow> ty \<Rightarrow> misfit option" where
  "spec_misfit s t =
     (let float = (t = TF32 \<or> t = TF64); int = (t = TI32 \<or> t = TI64)
      in if \<not> printable t \<and> s \<noteq> spec_default then Some (NoFormat t)
         else if sp_decimals s \<noteq> None \<and> \<not> float then Some (NoDecimals t)
         else if sp_base s \<noteq> 0 \<and> \<not> int then Some (NoBase t)
         else if (sp_plus s \<or> sp_zero s) \<and> \<not> (float \<or> int) then Some (NoSign t)
         else None)"

section \<open>What a parsed format satisfies\<close>

definition spec_ok :: "spec \<Rightarrow> bool" where
  "spec_ok s \<longleftrightarrow> sp_width s \<le> 4095 \<and> sp_align s \<le> 3 \<and> sp_base s \<le> 3
     \<and> (case sp_decimals s of Some d \<Rightarrow> d \<le> 40 | None \<Rightarrow> True)
     \<and> (sp_fill s \<noteq> 0 \<longrightarrow> 32 \<le> sp_fill s \<and> sp_fill s < 127 \<and> sp_align s \<noteq> 0)"

lemma align_of_le: "align_of c = Some k \<Longrightarrow> k \<le> 3 \<and> k \<noteq> 0"
  by (auto simp: align_of_def split: if_splits)

lemma printable_char_word:
  assumes "32 \<le> (of_char f :: nat)" "(of_char f :: nat) < 127"
  shows "32 \<le> (word_of_nat (of_char f) :: u8) \<and> (word_of_nat (of_char f) :: u8) < 127"
proof -
  have "unat (word_of_nat (of_char f) :: u8) = of_char f"
    using assms by (simp add: unat_of_nat)
  with assms show ?thesis by (simp add: word_le_nat_alt word_less_nat_alt)
qed

lemma parse_align_ok:
  "parse_align b = Some ((f, a), r) \<Longrightarrow> a \<le> 3 \<and> (f \<noteq> 0 \<longrightarrow> 32 \<le> f \<and> f < 127 \<and> a \<noteq> 0)"
  by (auto simp: parse_align_def split: list.splits option.splits if_splits
      dest!: align_of_le printable_char_word)

lemma parse_width_ok: "parse_width text b = Inr (w, r) \<Longrightarrow> w \<le> 4095"
  by (auto simp: parse_width_def split: prod.splits option.splits if_splits)

lemma parse_decimals_ok: "parse_decimals text b = Inr (Some d, r) \<Longrightarrow> d \<le> 40"
  by (auto simp: parse_decimals_def split: prod.splits option.splits if_splits bool.splits)

lemma parse_base_ok: "parse_base b = (k, r) \<Longrightarrow> k \<le> 3"
  by (auto simp: parse_base_def split: list.splits if_splits)

lemma spec_parse_ok:
  assumes "spec_parse text = Inr s"
  shows "spec_ok s"
proof -
  from assms obtain f a b where al: "parse_align text = Some ((f, a), b)"
    by (auto simp: spec_parse_def)
  obtain plus b1 zero b2 where e: "eat (CHR ''+'') b = (plus, b1)" "eat (CHR ''0'') b1 = (zero, b2)"
    by fastforce
  from assms al e obtain w b3 d b4 where w: "parse_width text b2 = Inr (w, b3)" "parse_decimals text b3 = Inr (d, b4)"
    by (auto simp: spec_parse_def)
  obtain k b5 where k: "parse_base b4 = (k, b5)" by fastforce
  from assms al e w k have "s = \<lparr>sp_fill = f, sp_align = a, sp_plus = plus, sp_zero = zero, sp_width = w,
      sp_decimals = d, sp_base = k\<rparr>"
    by (auto simp: spec_parse_def split: if_splits)
  with parse_align_ok [OF al] parse_width_ok [OF w(1)] parse_base_ok [OF k] w(2) show ?thesis
    by (auto simp: spec_ok_def split: option.splits dest: parse_decimals_ok)
qed

section \<open>Reading the word back\<close>

definition spec_field :: "nat \<Rightarrow> nat \<Rightarrow> i32 \<Rightarrow> i32" where
  "spec_field pos n w = take_bit n (drop_bit pos w)"

definition spec_of_word :: "i32 \<Rightarrow> spec" where
  "spec_of_word w =
     \<lparr>sp_fill = ucast (spec_field 24 8 w), sp_align = ucast (spec_field 18 2 w),
      sp_plus = bit w 23, sp_zero = bit w 20, sp_width = spec_field 0 12 w,
      sp_decimals = (let d = spec_field 12 6 w in if d = 0 then None else Some (d - 1)),
      sp_base = ucast (spec_field 21 2 w)\<rparr>"

lemma bit_small:
  fixes w :: "'a::len word"
  assumes "unat w < 2 ^ n" "bit w k"
  shows "k < n"
proof -
  have "unat (take_bit n w) = unat w"
    using assms(1) by (simp add: unsigned_take_bit_eq take_bit_nat_eq_self_iff)
  then have "take_bit n w = w" by (simp only: word_unat_eq_iff)
  with assms(2) show ?thesis by (metis bit_take_bit_iff)
qed

lemma decimals_succ:
  assumes "spec_ok s" "sp_decimals s = Some d"
  shows "unat d \<le> 40 \<and> unat (d + 1) = unat d + 1"
proof -
  have "unat d \<le> 40" using assms by (simp add: spec_ok_def word_le_nat_alt)
  then show ?thesis by (simp add: unat_plus_simple [THEN iffD1] word_le_nat_alt unat_word_ariths)
qed

lemma spec_bits:
  assumes "spec_ok s"
  defines "d \<equiv> (case sp_decimals s of None \<Rightarrow> 0 | Some d \<Rightarrow> d + 1)"
  shows "bit (sp_width s) k \<Longrightarrow> k < 12" "bit d k \<Longrightarrow> k < 6"
    "bit (sp_align s) k \<Longrightarrow> k < 2" "bit (sp_base s) k \<Longrightarrow> k < 2"
proof -
  have w: "unat (sp_width s) < 2 ^ 12" "unat (sp_align s) < 2 ^ 2" "unat (sp_base s) < 2 ^ 2"
    using assms(1) by (simp_all add: spec_ok_def word_le_nat_alt)
  have "unat d < 2 ^ 6"
  proof (cases "sp_decimals s")
    case (Some x)
    with decimals_succ [OF assms(1)] show ?thesis by (auto simp: d_def)
  qed (simp add: d_def)
  then show "bit d k \<Longrightarrow> k < 6" by (rule bit_small)
  show "bit (sp_width s) k \<Longrightarrow> k < 12" by (rule bit_small [OF w(1)])
  show "bit (sp_align s) k \<Longrightarrow> k < 2" by (rule bit_small [OF w(2)])
  show "bit (sp_base s) k \<Longrightarrow> k < 2" by (rule bit_small [OF w(3)])
qed

lemma bit_flag: "n < 32 \<Longrightarrow> bit (if b then push_bit n 1 else 0 :: i32) k \<longleftrightarrow> b \<and> k = n"
  by (auto simp: bit_simps)

lemma less_32: "20 < (32 :: nat)" "23 < (32 :: nat)"
  by simp_all

lemma spec_word_bit:
  "bit (spec_word s) k \<longleftrightarrow> k < 32 \<and> (bit (sp_width s) k
    \<or> 12 \<le> k \<and> bit (case sp_decimals s of None \<Rightarrow> 0 | Some d \<Rightarrow> d + 1) (k - 12)
    \<or> 18 \<le> k \<and> bit (sp_align s) (k - 18) \<or> k = 20 \<and> sp_zero s \<or> 21 \<le> k \<and> bit (sp_base s) (k - 21)
    \<or> k = 23 \<and> sp_plus s \<or> 24 \<le> k \<and> bit (sp_fill s) (k - 24))"
proof (cases "k < 32")
  case True
  then show ?thesis
    unfolding spec_word_def bit_or_iff bit_flag [OF less_32(1)] bit_flag [OF less_32(2)]
    by (simp add: bit_push_bit_iff bit_ucast_iff less_imp_diff_less conj_commute)
next
  case False
  then show ?thesis by (auto dest: bit_imp_le_length)
qed

theorem spec_word_inverse:
  assumes "spec_ok s"
  shows "spec_of_word (spec_word s) = s"
proof -
  note b = spec_bits [OF assms]
  have "ucast (spec_field 24 8 (spec_word s)) = sp_fill s"
    by (rule bit_word_eqI) (auto simp: spec_field_def bit_simps spec_word_bit dest: b)
  moreover have "ucast (spec_field 18 2 (spec_word s)) = sp_align s"
    by (rule bit_word_eqI) (auto simp: spec_field_def bit_simps spec_word_bit dest: b)
  moreover have "ucast (spec_field 21 2 (spec_word s)) = sp_base s"
    by (rule bit_word_eqI) (auto simp: spec_field_def bit_simps spec_word_bit dest: b)
  moreover have "spec_field 0 12 (spec_word s) = sp_width s"
    by (rule bit_word_eqI) (auto simp: spec_field_def bit_simps spec_word_bit dest: b)
  moreover have "spec_field 12 6 (spec_word s) = (case sp_decimals s of None \<Rightarrow> 0 | Some d \<Rightarrow> d + 1)"
    by (rule bit_word_eqI) (auto simp: spec_field_def bit_simps spec_word_bit dest: b)
  moreover have "bit (spec_word s) 23 = sp_plus s" "bit (spec_word s) 20 = sp_zero s"
    by (auto simp: spec_word_bit dest: b)
  moreover have "d + 1 \<noteq> 0" if "sp_decimals s = Some d" for d
    using decimals_succ [OF assms that] by (metis Suc_eq_plus1 nat.distinct(1) unat_0)
  ultimately show ?thesis
    by (cases s) (auto simp: spec_of_word_def Let_def split: option.splits)
qed

section \<open>Properties\<close>

text \<open>
  C36. The word a format is packed into determines the format: for every text the parser accepts,
  the seven fields are read back from the word unchanged, so no field of an accepted format is
  cut off or runs into another.
\<close>

theorem format_word_faithful:
  assumes "spec_parse text = Inr s"
  shows "spec_of_word (spec_word s) = s"
  by (rule spec_word_inverse [OF spec_parse_ok [OF assms]])

lemma format_word_faithful_witness:
  "spec_of_word (spec_word \<lparr>sp_fill = 42, sp_align = 2, sp_plus = True, sp_zero = False, sp_width = 8,
      sp_decimals = Some 2, sp_base = 0\<rparr>)
   = \<lparr>sp_fill = 42, sp_align = 2, sp_plus = True, sp_zero = False, sp_width = 8,
      sp_decimals = Some 2, sp_base = 0\<rparr>"
proof (rule format_word_faithful)
  show "spec_parse ''*>+8.2'' = Inr \<lparr>sp_fill = 42, sp_align = 2, sp_plus = True, sp_zero = False, sp_width = 8,
      sp_decimals = Some 2, sp_base = 0\<rparr>"
    by (simp add: spec_parse_def parse_align_def align_of_def eat_def parse_width_def digits_def run_value_def
        ascii_digit_def parse_decimals_def parse_base_def)
qed

end
