(* ===== verification/Check_Types.thy ===== *)
theory Check_Types
  imports Sums Format_Spec
begin

text \<open>
  The type checker of \<^verbatim>\<open>src/checker.rs\<close>, first part: its context, its faults, the rules on types
  (\<^verbatim>\<open>validate_type\<close>, \<^verbatim>\<open>fits\<close>, \<^verbatim>\<open>meet\<close>, \<^verbatim>\<open>result_fits\<close>, \<^verbatim>\<open>walk_path\<close>), which expressions always leave,
  and the rules on literal addresses and unchecked operations. The cells of the Rust checker that a
  sub-check sets and restores (\<^verbatim>\<open>loop_depth\<close>, \<^verbatim>\<open>unsafe_depth\<close>, \<^verbatim>\<open>in_defer\<close>, \<^verbatim>\<open>return_type\<close>) are
  fields of the context that the sub-check is given changed. A fault is a constructor with what its
  message shows; the text of the messages and their hints is not modelled.
\<close>

section \<open>Context and faults\<close>

record chk =
  ck_fns :: "string \<rightharpoonup> ty list \<times> ty"
  ck_structs :: structs
  ck_enums :: "string \<rightharpoonup> enum_def"
  ck_unions :: "string \<rightharpoonup> union_def"
  ck_unsafe_fns :: "string list"
  ck_leaks :: "(string \<Rightarrow> bool) option"
  ck_return :: "ty option"
  ck_loop :: nat
  ck_unsafe :: nat
  ck_in_unsafe_fn :: bool
  ck_defer :: bool

datatype (plugins only: size code) type_fault =
    FNarrow narrow
  | FValuePtr string
  | FNotStruct string
  | FUnionPtr string
  | FUnknownPtr string
  | FPtrTo ty
  | FByValue string
  | FElement ty
  | FUnionAsEnum string
  | FUnknownUnion string
  | FStructAsEnum string
  | FUnknownType string
  | FSlots ty ty nat
  | FVoidPayload
  | FLayout lay_error
  | FPath string "string \<times> string" ty string

datatype (plugins only: size code) op_fault =
    OUnchecked opcode
  | ONegativeAddress opcode i64
  | OCursorAddress opcode i64
  | OCellAddress opcode i64
  | OReservedAddress opcode i64
  | OArity opcode nat nat
  | OOperand opcode nat ty ty
  | OOperands opcode ty ty
  | OSealed opcode string
  | OMixed opcode ty ty
  | OReference opcode ty
  | OUnion opcode string
  | OStrAdd
  | OInteger opcode ty
  | ONumber opcode ty
  | OEnum opcode string
  | OValueStruct opcode string
  | OStr opcode
  | OOrdered opcode ty
  | OUsage opcode
  | OVoid opcode
  | OPrints ty
  | OSpec spec_error
  | OMisfit misfit
  | OPieceFormat
  | OPiece opcode
  | OWriter ty
  | OWriterVariable
  | OTryContract opcode
  | OTryOperand opcode ty
  | OTryReturn opcode ty
  | OTryError opcode ty ty
  | ODeferJump opcode
  | ODeferPlace

datatype (plugins only: size code) form_fault =
    EUndefined string
  | EShadow string
  | ELetType ty ty
  | ESetType ty ty
  | EIfCondition ty
  | EBranches ty ty
  | EBounds
  | EWhileCondition
  | EDeferReturn
  | EContractReturn
  | EReturnType ty ty
  | EOutsideLoop bool
  | EUnknownFn string
  | EUnsafeFn string
  | EUncheckedForm string
  | EArgs string nat nat
  | EArg string nat ty ty
  | ENeedsType
  | EMatchedResult ty
  | EDropped ty
  | ENeeds ty ty
  | EPutValue string string
  | EWritten "string \<times> string" ty ty
  | ENotValue string
  | EStorable ty
  | EIndexType ty
  | EGeneration ty
  | ESealedCast string
  | ECastOperand ty ty
  | ESignature ty
  | ERefType ty ty
  | EUnknownVariant string string
  | EMatchSealed string
  | EMatchValue ty
  | EArmName string
  | EArmMember string string
  | EArmTwice string string
  | EArmBinds string string
  | EArmNames string string nat nat
  | EElseUseless string
  | EMissing "string list"
  | EArms ty ty
  | EAddress addr_kind ty
  | EMissingTable string
  | EFuel

datatype fault = FType type_fault | FOp op_fault | FForm form_fault

type_synonym chk_error = "span \<times> fault"

section \<open>Names of type parameters\<close>

definition is_sealed :: "string \<Rightarrow> bool" where
  "is_sealed n \<longleftrightarrow> (case n of c # _ \<Rightarrow> c = CHR 0x27 | [] \<Rightarrow> False)"

definition ends_name :: "char \<Rightarrow> bool" where
  "ends_name c \<longleftrightarrow> c \<in> set '' <>,()[]:'' \<or> (9 \<le> (of_char c :: nat) \<and> (of_char c :: nat) \<le> 13)"

function shown :: "string \<Rightarrow> string" where
  "shown [] = []"
| "shown (c # rest) =
     (if c \<noteq> CHR 0x27 then c # shown rest
      else after_dot (takeWhile (\<lambda>x. \<not> ends_name x) rest) @ shown (dropWhile (\<lambda>x. \<not> ends_name x) rest))"
  by pat_completeness auto
termination by (relation "measure length") (auto simp: le_imp_less_Suc length_dropWhile_le)

definition sealed :: "ty \<Rightarrow> string option" where
  "sealed t = (case t of TEnum n \<Rightarrow> if is_sealed n then Some (shown n) else None | _ \<Rightarrow> None)"

section \<open>When types fit\<close>

text \<open>A function type that promises \<^verbatim>\<open>(no_leak)\<close> fits where one that does not is asked for.\<close>

definition fits :: "ty \<Rightarrow> ty \<Rightarrow> bool" where
  "fits got want \<longleftrightarrow> got = want
     \<or> (case (got, want) of (TFn p r True, TFn q s False) \<Rightarrow> p = q \<and> r = s | _ \<Rightarrow> False)"

definition meet :: "ty \<Rightarrow> ty \<Rightarrow> ty option" where
  "meet a b =
     (if a = b then Some a
      else case (a, b) of
             (TFn p r _, TFn q s _) \<Rightarrow> if p = q \<and> r = s then Some (TFn p r False) else None
           | _ \<Rightarrow> None)"

definition result_fits :: "chk \<Rightarrow> span \<Rightarrow> ty \<Rightarrow> ty \<Rightarrow> chk_error + unit" where
  "result_fits cx sp a b =
     (case result_slots (ck_structs cx) a b of
        Inl e \<Rightarrow> Inl (sp, FType (FLayout e))
      | Inr n \<Rightarrow> if n \<le> max_scalars then Inr () else Inl (sp, FType (FSlots a b n)))"

definition check_result_payload :: "span \<Rightarrow> ty \<Rightarrow> chk_error + unit" where
  "check_result_payload sp t = (if t = TVoid then Inl (sp, FType FVoidPayload) else Inr ())"

section \<open>Which types are well formed\<close>

definition is_value :: "chk \<Rightarrow> string \<Rightarrow> bool" where
  "is_value cx n = is_value_struct (ck_structs cx) n"

definition known_struct :: "chk \<Rightarrow> string \<Rightarrow> bool" where
  "known_struct cx n \<longleftrightarrow> get_struct (ck_structs cx) n \<noteq> None"

text \<open>The inner type of a \<^verbatim>\<open>(ptr S)\<close>.\<close>

definition check_target :: "chk \<Rightarrow> ty \<Rightarrow> type_fault option" where
  "check_target cx inner =
     (case inner of
        TStruct n \<Rightarrow>
          (if is_value cx n then Some (FValuePtr n)
           else if known_struct cx n then None
           else if is_sealed n then Some (FNotStruct n)
           else if get_union (ck_structs cx) n \<noteq> None then Some (FUnionPtr n)
           else Some (FUnknownPtr n))
      | other \<Rightarrow> Some (FPtrTo other))"

definition fault_res :: "span \<Rightarrow> type_fault option \<Rightarrow> chk_error + unit" where
  "fault_res sp f = (case f of None \<Rightarrow> Inr () | Some w \<Rightarrow> Inl (sp, FType w))"

fun validate_type :: "chk \<Rightarrow> span \<Rightarrow> ty \<Rightarrow> chk_error + unit"
and validate_types :: "chk \<Rightarrow> span \<Rightarrow> ty list \<Rightarrow> chk_error + unit" where
  "validate_type cx sp (TNarrow n) = Inl (sp, FType (FNarrow n))"
| "validate_type cx sp (TPtr inner) = fault_res sp (check_target cx inner)"
| "validate_type cx sp (TStruct n) = fault_res sp (if is_value cx n then None else Some (FByValue n))"
| "validate_type cx sp (TArray elem) =
     (case elem of
        TNarrow _ \<Rightarrow> Inr ()
      | _ \<Rightarrow> bind_res (validate_type cx sp elem) (\<lambda>_.
            (case memory_layout (ck_structs cx) elem of
               Inl _ \<Rightarrow> Inl (sp, FType (FElement elem))
             | Inr _ \<Rightarrow> Inr ())))"
| "validate_type cx sp (TResult a b) =
     bind_res (validate_type cx sp a) (\<lambda>_.
     bind_res (validate_type cx sp b) (\<lambda>_. result_fits cx sp a b))"
| "validate_type cx sp (TFn params ret _) =
     bind_res (validate_types cx sp params) (\<lambda>_. validate_type cx sp ret)"
| "validate_type cx sp (TEnum n) =
     fault_res sp
       (if ck_enums cx n \<noteq> None then None
        else if ck_unions cx n \<noteq> None then Some (FUnionAsEnum n)
        else if known_struct cx n then Some (FStructAsEnum n)
        else Some (FUnknownType n))"
| "validate_type cx sp (TUnion n) =
     fault_res sp (if ck_unions cx n \<noteq> None then None else Some (FUnknownUnion n))"
| "validate_type cx sp t = Inr ()"
| "validate_types cx sp [] = Inr ()"
| "validate_types cx sp (t # ts) = bind_res (validate_type cx sp t) (\<lambda>_. validate_types cx sp ts)"

section \<open>The path of a put\<close>

fun walk_path :: "chk \<Rightarrow> span \<Rightarrow> string \<Rightarrow> string \<times> string \<Rightarrow> ty \<Rightarrow> (string \<times> string) list
    \<Rightarrow> chk_error + (string \<times> string) \<times> ty" where
  "walk_path cx sp form at ty [] = Inr (at, ty)"
| "walk_path cx sp form at ty ((st, f) # path) =
     (if ty \<noteq> TStruct st \<or> \<not> is_value cx st then Inl (sp, FType (FPath form at ty st))
      else case get_struct (ck_structs cx) st of
             None \<Rightarrow> Inl (sp, FForm (EMissingTable st))
           | Some def \<Rightarrow>
               (case get_field_offset (ck_structs cx) def f of
                  Inl e \<Rightarrow> Inl (sp, FType (FLayout e))
                | Inr (_, next_ty) \<Rightarrow> walk_path cx sp form (st, f) next_ty path))"

section \<open>Expressions that always leave\<close>

fun diverges :: "expr \<Rightarrow> bool"
and body_diverges :: "expr list \<Rightarrow> bool" where
  "diverges (EReturn _ _) = True"
| "diverges (EBreak _) = True"
| "diverges (EContinue _) = True"
| "diverges (EOp op _ _) = (op = OpAbort)"
| "diverges (EBlock es _) = body_diverges es"
| "diverges (EUnsafe es _) = body_diverges es"
| "diverges (EIf _ t e _) = (diverges t \<and> diverges e)"
| "diverges _ = False"
| "body_diverges [] = False"
| "body_diverges [e] = diverges e"
| "body_diverges (_ # es) = body_diverges es"

fun ends_in_jump :: "expr \<Rightarrow> bool"
and body_jumps :: "expr list \<Rightarrow> bool" where
  "ends_in_jump (EReturn _ _) = True"
| "ends_in_jump (EBreak _) = True"
| "ends_in_jump (EContinue _) = True"
| "ends_in_jump (EBlock es _) = body_jumps es"
| "ends_in_jump (EUnsafe es _) = body_jumps es"
| "ends_in_jump _ = False"
| "body_jumps [] = False"
| "body_jumps [e] = ends_in_jump e"
| "body_jumps (_ # es) = body_jumps es"

section \<open>Literal addresses and unchecked operations\<close>

definition is_write_op :: "opcode \<Rightarrow> bool" where
  "is_write_op op =
     (case op of
        OpMem o1 \<Rightarrow> o1 \<in> {MemStore8, MemStore16, MemStore32, MemStore64}
      | OpAtomic _ \<Rightarrow> True
      | _ \<Rightarrow> False)"

definition is_address_op :: "opcode \<Rightarrow> bool" where
  "is_address_op op =
     (case op of OpMem o1 \<Rightarrow> o1 \<noteq> MemAlloc \<and> o1 \<noteq> MemGrow | OpAtomic _ \<Rightarrow> True | _ \<Rightarrow> False)"

definition check_literal_address :: "span \<Rightarrow> opcode \<Rightarrow> expr list \<Rightarrow> chk_error + unit" where
  "check_literal_address sp op args =
     (if \<not> is_address_op op then Inr ()
      else case args of
             ELit (LInt w) _ # _ \<Rightarrow>
               (let a = sint w
                in if a < 0 then Inl (sp, FOp (ONegativeAddress op w))
                   else if a < 4 \<and> is_write_op op then Inl (sp, FOp (OCursorAddress op w))
                   else if 4 \<le> a \<and> a < 64 \<and> a mod 4 \<noteq> 0 then Inl (sp, FOp (OCellAddress op w))
                   else if 64 \<le> a \<and> a < 1024 then Inl (sp, FOp (OReservedAddress op w))
                   else Inr ())
           | _ \<Rightarrow> Inr ())"

definition is_unchecked_op :: "opcode \<Rightarrow> bool" where
  "is_unchecked_op op =
     (case op of
        OpMem o1 \<Rightarrow> o1 \<noteq> MemAlloc \<and> o1 \<noteq> MemGrow
      | OpAtomic _ \<Rightarrow> True
      | OpThread _ \<Rightarrow> True
      | OpFs o1 \<Rightarrow> o1 \<noteq> FsClose
      | OpSys o1 \<Rightarrow> o1 = SysPoll \<or> o1 = SysRandom
      | OpNet _ \<Rightarrow> True
      | OpProc _ \<Rightarrow> True
      | OpEnv _ \<Rightarrow> True
      | _ \<Rightarrow> False)"

definition is_unsafe_context :: "chk \<Rightarrow> bool" where
  "is_unsafe_context cx \<longleftrightarrow> 0 < ck_unsafe cx \<or> ck_in_unsafe_fn cx"

definition require_unsafe :: "chk \<Rightarrow> span \<Rightarrow> fault \<Rightarrow> chk_error + unit" where
  "require_unsafe cx sp w = (if is_unsafe_context cx then Inr () else Inl (sp, w))"

definition require_unsafe_fn :: "chk \<Rightarrow> span \<Rightarrow> string \<Rightarrow> chk_error + unit" where
  "require_unsafe_fn cx sp n =
     (if n \<notin> set (ck_unsafe_fns cx) \<or> is_unsafe_context cx then Inr ()
      else Inl (sp, FForm (EUnsafeFn n)))"

section \<open>Conversions\<close>

definition conversion :: "conv_op \<Rightarrow> ty \<times> ty" where
  "conversion op =
     (case op of
        F64ConvertI64S \<Rightarrow> (TI64, TF64) | F64ReinterpretI64 \<Rightarrow> (TI64, TF64)
      | F64Sqrt \<Rightarrow> (TF64, TF64)
      | I64TruncF64S \<Rightarrow> (TF64, TI64) | I64ReinterpretF64 \<Rightarrow> (TF64, TI64)
      | F32DemoteF64 \<Rightarrow> (TF64, TF32)
      | F64PromoteF32 \<Rightarrow> (TF32, TF64)
      | F32ConvertI32S \<Rightarrow> (TI32, TF32) | F32ReinterpretI32 \<Rightarrow> (TI32, TF32)
      | F32ConvertI64S \<Rightarrow> (TI64, TF32)
      | F64ConvertI32S \<Rightarrow> (TI32, TF64)
      | I32TruncF32S \<Rightarrow> (TF32, TI32) | I32ReinterpretF32 \<Rightarrow> (TF32, TI32)
      | I32TruncF64S \<Rightarrow> (TF64, TI32)
      | I64TruncF32S \<Rightarrow> (TF32, TI64)
      | _ \<Rightarrow> (TVoid, TVoid))"

end
