(* ===== verification/Checker.thy ===== *)
theory Checker
  imports Check_Types
begin

text \<open>
  The type of every expression (\<^verbatim>\<open>infer_expr_type\<close> of \<^verbatim>\<open>src/checker.rs\<close>): one definition per group
  of match arms, with the checker's recursive call as the parameter \<open>tc\<close>, and \<open>infer\<close> at the end,
  which ties the knot. A check takes the variables in scope and gives the type with the variables
  after it, since a \<^verbatim>\<open>let\<close> adds to the scope it stands in; a body with a scope of its own is \<open>scoped\<close>.
  The table of formatting types, which the lowering of the formatting forms reads by address,
  is not modelled.
\<close>

section \<open>Checks\<close>

type_synonym tenv = "string \<rightharpoonup> ty"
type_synonym 'a chkm = "tenv \<Rightarrow> chk_error + 'a \<times> tenv"
type_synonym inferrer = "chk \<Rightarrow> expr \<Rightarrow> ty chkm"

definition cret :: "'a \<Rightarrow> 'a chkm" where "cret x \<Gamma> = Inr (x, \<Gamma>)"
definition cfail :: "span \<Rightarrow> fault \<Rightarrow> 'a chkm" where "cfail sp w \<Gamma> = Inl (sp, w)"
definition clift :: "chk_error + 'a \<Rightarrow> 'a chkm" where "clift r \<Gamma> = bind_res r (\<lambda>x. Inr (x, \<Gamma>))"

definition cbind :: "'a chkm \<Rightarrow> ('a \<Rightarrow> 'b chkm) \<Rightarrow> 'b chkm" where
  "cbind m f \<Gamma> = bind_res (m \<Gamma>) (\<lambda>(x, \<Gamma>'). f x \<Gamma>')"

definition cguard :: "bool \<Rightarrow> span \<Rightarrow> fault \<Rightarrow> unit chkm" where
  "cguard b sp w = (if b then cret () else cfail sp w)"

definition cenv :: "tenv chkm" where "cenv \<Gamma> = Inr (\<Gamma>, \<Gamma>)"
definition cinsert :: "string \<Rightarrow> ty \<Rightarrow> unit chkm" where "cinsert x t \<Gamma> = Inr ((), \<Gamma>(x \<mapsto> t))"

text \<open>A check in a copy of the scope (\<^verbatim>\<open>&mut env.clone()\<close>).\<close>

definition scoped :: "'a chkm \<Rightarrow> 'a chkm" where
  "scoped m \<Gamma> = bind_res (m \<Gamma>) (\<lambda>(x, _). Inr (x, \<Gamma>))"

lemma cbind_Inr [simp]:
  "cbind m f \<Gamma> = Inr y \<longleftrightarrow> (\<exists>x \<Gamma>'. m \<Gamma> = Inr (x, \<Gamma>') \<and> f x \<Gamma>' = Inr y)"
  by (auto simp: cbind_def)

lemma scoped_Inr [simp]: "scoped m \<Gamma> = Inr y \<longleftrightarrow> (\<exists>x \<Gamma>'. m \<Gamma> = Inr (x, \<Gamma>') \<and> y = (x, \<Gamma>))"
  by (auto simp: scoped_def)

lemma cret_Inr [simp]: "cret x \<Gamma> = Inr y \<longleftrightarrow> y = (x, \<Gamma>)"
  by (auto simp: cret_def)

lemma cfail_Inr [simp]: "cfail sp w \<Gamma> \<noteq> Inr y"
  by (simp add: cfail_def)

lemma clift_Inr [simp]: "clift r \<Gamma> = Inr y \<longleftrightarrow> (\<exists>x. r = Inr x \<and> y = (x, \<Gamma>))"
  by (auto simp: clift_def)

lemma cguard_Inr [simp]: "cguard b sp w \<Gamma> = Inr y \<longleftrightarrow> b \<and> y = ((), \<Gamma>)"
  by (simp add: cguard_def)

lemma cenv_Inr [simp]: "cenv \<Gamma> = Inr y \<longleftrightarrow> y = (\<Gamma>, \<Gamma>)"
  by (auto simp: cenv_def)

lemma cinsert_Inr [simp]: "cinsert x t \<Gamma> = Inr y \<longleftrightarrow> y = ((), \<Gamma>(x \<mapsto> t))"
  by (auto simp: cinsert_def)

section \<open>Dropped values\<close>

definition is_option :: "string \<Rightarrow> bool" where
  "is_option u \<longleftrightarrow> prefix ''option.Option<'' u"

definition unused :: "expr \<Rightarrow> ty \<Rightarrow> unit chkm" where
  "unused e t =
     (case t of
        TResult _ _ \<Rightarrow> cfail (expr_span e) (FForm (EDropped t))
      | TUnion u \<Rightarrow> if is_option u then cfail (expr_span e) (FForm (EDropped t)) else cret ()
      | _ \<Rightarrow> cret ())"

text \<open>Statements whose values are all dropped (a loop's body, a defer).\<close>

fun check_stmts :: "inferrer \<Rightarrow> chk \<Rightarrow> expr list \<Rightarrow> unit chkm" where
  "check_stmts tc cx [] = cret ()"
| "check_stmts tc cx (e # es) =
     cbind (tc cx e) (\<lambda>t. cbind (unused e t) (\<lambda>_. check_stmts tc cx es))"

text \<open>A block: its value is the last one's, and the others must not be dropped.\<close>

fun infer_block :: "inferrer \<Rightarrow> chk \<Rightarrow> ty \<Rightarrow> expr list \<Rightarrow> ty chkm" where
  "infer_block tc cx last_ty [] = cret last_ty"
| "infer_block tc cx last_ty (e # es) =
     cbind (tc cx e) (\<lambda>t. cbind (if es \<noteq> [] then unused e t else cret ()) (\<lambda>_. infer_block tc cx t es))"

text \<open>The body of a match arm: its value is the last one's.\<close>

fun infer_body :: "inferrer \<Rightarrow> chk \<Rightarrow> ty \<Rightarrow> expr list \<Rightarrow> ty chkm" where
  "infer_body tc cx last_ty [] = cret last_ty"
| "infer_body tc cx last_ty (e # es) = cbind (tc cx e) (\<lambda>t. infer_body tc cx t es)"

definition check_loop_body :: "inferrer \<Rightarrow> chk \<Rightarrow> expr list \<Rightarrow> unit chkm" where
  "check_loop_body tc cx body = check_stmts tc (cx\<lparr>ck_loop := Suc (ck_loop cx)\<rparr>) body"

definition check_defer :: "inferrer \<Rightarrow> chk \<Rightarrow> expr list \<Rightarrow> unit chkm" where
  "check_defer tc cx body = scoped (check_stmts tc (cx\<lparr>ck_defer := True\<rparr>) body)"

section \<open>Operands\<close>

text \<open>Operands of the types \<open>want\<close>, and of no other (\<open>i\<close> counts them for the message).\<close>

fun check_operands :: "inferrer \<Rightarrow> chk \<Rightarrow> span \<Rightarrow> opcode \<Rightarrow> nat \<Rightarrow> expr list \<Rightarrow> ty list \<Rightarrow> unit chkm" where
  "check_operands tc cx sp op i (a # args) (w # want) =
     cbind (tc cx a) (\<lambda>t.
       if t \<noteq> w then cfail sp (FOp (OOperand op i w t))
       else check_operands tc cx sp op (Suc i) args want)"
| "check_operands tc cx sp op i _ _ = cret ()"

definition expect_operands :: "inferrer \<Rightarrow> chk \<Rightarrow> span \<Rightarrow> opcode \<Rightarrow> expr list \<Rightarrow> ty list \<Rightarrow> unit chkm" where
  "expect_operands tc cx sp op args want =
     (if length args \<noteq> length want then cfail sp (FOp (OArity op (length want) (length args)))
      else check_operands tc cx sp op 1 args want)"

text \<open>One operand and its type; two, both inferred before either type is looked at.\<close>

definition one_operand :: "inferrer \<Rightarrow> chk \<Rightarrow> span \<Rightarrow> opcode \<Rightarrow> expr list \<Rightarrow> ty chkm" where
  "one_operand tc cx sp op args =
     (case args of [a] \<Rightarrow> tc cx a | _ \<Rightarrow> cfail sp (FOp (OArity op 1 (length args))))"

definition two_operands :: "inferrer \<Rightarrow> chk \<Rightarrow> span \<Rightarrow> opcode \<Rightarrow> expr list \<Rightarrow> (ty \<times> ty) chkm" where
  "two_operands tc cx sp op args =
     (case args of
        [a, b] \<Rightarrow> cbind (tc cx a) (\<lambda>t1. cbind (tc cx b) (\<lambda>t2. cret (t1, t2)))
      | _ \<Rightarrow> cfail sp (FOp (OArity op 2 (length args))))"

text \<open>Arguments that fit the parameters' types.\<close>

fun check_args :: "inferrer \<Rightarrow> chk \<Rightarrow> span \<Rightarrow> (nat \<Rightarrow> ty \<Rightarrow> ty \<Rightarrow> fault) \<Rightarrow> nat \<Rightarrow> expr list \<Rightarrow> ty list \<Rightarrow> unit chkm" where
  "check_args tc cx sp w i (a # args) (p # params) =
     cbind (tc cx a) (\<lambda>t.
       if \<not> fits t p then cfail sp (w i p t) else check_args tc cx sp w (Suc i) args params)"
| "check_args tc cx sp w i _ _ = cret ()"

section \<open>Arithmetic\<close>

definition is_special :: "ty \<Rightarrow> bool" where
  "is_special t =
     (case t of TPtr _ \<Rightarrow> True | TArray _ \<Rightarrow> True | TFn _ _ _ \<Rightarrow> True | TEnum _ \<Rightarrow> True | TUnion _ \<Rightarrow> True | _ \<Rightarrow> False)"

definition is_reference :: "ty \<Rightarrow> bool" where
  "is_reference t = (case t of TPtr _ \<Rightarrow> True | TArray _ \<Rightarrow> True | TFn _ _ _ \<Rightarrow> True | _ \<Rightarrow> False)"

definition is_enum :: "ty \<Rightarrow> bool" where
  "is_enum t = (case t of TEnum _ \<Rightarrow> True | _ \<Rightarrow> False)"

definition integer_only :: "arith_op \<Rightarrow> bool" where
  "integer_only op \<longleftrightarrow> \<not> (op = Add \<or> op = Sub \<or> op = Mul \<or> op = Div)"

definition or_else :: "'a option \<Rightarrow> 'a option \<Rightarrow> 'a option" where
  "or_else x y = (case x of None \<Rightarrow> y | Some v \<Rightarrow> Some v)"

definition infer_arith :: "inferrer \<Rightarrow> chk \<Rightarrow> span \<Rightarrow> arith_op \<Rightarrow> expr list \<Rightarrow> ty chkm" where
  "infer_arith tc cx sp aop args =
     (let op = OpArith aop
      in cbind (two_operands tc cx sp op args) (\<lambda>(t1, t2).
           case or_else (sealed t1) (sealed t2) of
             Some p \<Rightarrow> cfail sp (FOp (OSealed op p))
           | None \<Rightarrow>
               let t = (if \<not> is_special t1 \<and> is_special t2 then t2 else t1)
               in if t \<noteq> t2 \<and> \<not> is_special t then cfail sp (FOp (OMixed op t t2))
                  else if is_reference t then cfail sp (FOp (OReference op t))
                  else case t of
                         TUnion u \<Rightarrow> cfail sp (FOp (OUnion op u))
                       | _ \<Rightarrow>
                         if t = TStr \<and> aop = Add then cfail sp (FOp OStrAdd)
                         else if integer_only aop \<and> \<not> (t = TI32 \<or> t = TI64 \<or> is_enum t)
                           then cfail sp (FOp (OInteger op t))
                         else if \<not> (t = TI32 \<or> t = TI64 \<or> t = TF32 \<or> t = TF64 \<or> is_enum t)
                           then cfail sp (FOp (ONumber op t))
                         else case t of TEnum e \<Rightarrow> cfail sp (FOp (OEnum op e)) | _ \<Rightarrow> cret t))"

definition infer_checked :: "inferrer \<Rightarrow> chk \<Rightarrow> span \<Rightarrow> checked_op \<Rightarrow> expr list \<Rightarrow> ty chkm" where
  "infer_checked tc cx sp cop args =
     (let op = OpChecked cop
      in cbind (two_operands tc cx sp op args) (\<lambda>(t1, t2).
           if t1 \<noteq> t2 then cfail sp (FOp (OMixed op t1 t2))
           else if \<not> (t1 = TI32 \<or> t1 = TI64) then cfail sp (FOp (OInteger op t1))
           else cret t1))"

definition infer_bit :: "inferrer \<Rightarrow> chk \<Rightarrow> span \<Rightarrow> bit_op \<Rightarrow> expr list \<Rightarrow> ty chkm" where
  "infer_bit tc cx sp bop args =
     cbind (one_operand tc cx sp (OpBit bop) args) (\<lambda>t.
       if \<not> (t = TI32 \<or> t = TI64) then cfail sp (FOp (OInteger (OpBit bop) t)) else cret t)"

section \<open>Memory and atomics\<close>

definition infer_load :: "inferrer \<Rightarrow> chk \<Rightarrow> span \<Rightarrow> opcode \<Rightarrow> expr list \<Rightarrow> ty \<Rightarrow> ty chkm" where
  "infer_load tc cx sp op args r =
     cbind (one_operand tc cx sp op args) (\<lambda>t.
       if t \<noteq> TI32 then cfail sp (FOp (OOperand op 1 TI32 t)) else cret r)"

definition infer_store :: "inferrer \<Rightarrow> chk \<Rightarrow> span \<Rightarrow> opcode \<Rightarrow> expr list \<Rightarrow> ty \<Rightarrow> ty chkm" where
  "infer_store tc cx sp op args v =
     cbind (two_operands tc cx sp op args) (\<lambda>(t1, t2).
       if t1 \<noteq> TI32 \<or> t2 \<noteq> v then cfail sp (FOp (OOperands op t1 t2)) else cret TVoid)"

definition infer_mem :: "inferrer \<Rightarrow> chk \<Rightarrow> span \<Rightarrow> mem_op \<Rightarrow> expr list \<Rightarrow> ty chkm" where
  "infer_mem tc cx sp mop args =
     (case mop of
        MemLoad64 \<Rightarrow> infer_load tc cx sp (OpMem mop) args TI64
      | MemStore8 \<Rightarrow> infer_store tc cx sp (OpMem mop) args TI32
      | MemStore16 \<Rightarrow> infer_store tc cx sp (OpMem mop) args TI32
      | MemStore32 \<Rightarrow> infer_store tc cx sp (OpMem mop) args TI32
      | MemStore64 \<Rightarrow> infer_store tc cx sp (OpMem mop) args TI64
      | _ \<Rightarrow> infer_load tc cx sp (OpMem mop) args TI32)"

definition infer_atomic :: "inferrer \<Rightarrow> chk \<Rightarrow> span \<Rightarrow> atomic_op \<Rightarrow> expr list \<Rightarrow> ty chkm" where
  "infer_atomic tc cx sp aop args =
     (let op = OpAtomic aop
      in case aop of
           AtomicAdd \<Rightarrow> cbind (expect_operands tc cx sp op args [TI32, TI32]) (\<lambda>_. cret TI32)
         | AtomicCas \<Rightarrow> cbind (expect_operands tc cx sp op args [TI32, TI32, TI32]) (\<lambda>_. cret TBool)
         | _ \<Rightarrow> cbind (expect_operands tc cx sp op args [TI32]) (\<lambda>_. cret TVoid))"

section \<open>Comparisons and logic\<close>

definition is_unsigned_cmp :: "cmp_op \<Rightarrow> bool" where
  "is_unsigned_cmp op \<longleftrightarrow> op = LtU \<or> op = LteU \<or> op = GtU \<or> op = GteU"

definition check_compared :: "span \<Rightarrow> cmp_op \<Rightarrow> ty \<Rightarrow> ty chkm" where
  "check_compared sp c t =
     (let op = OpCmp c; equality = (c = Eq \<or> c = Neq)
      in if is_unsigned_cmp c \<and> \<not> (t = TI32 \<or> t = TI64) then cfail sp (FOp (OInteger op t))
         else case t of
                TUnion u \<Rightarrow> cfail sp (FOp (OUnion op u))
              | TStruct v \<Rightarrow> cfail sp (FOp (OValueStruct op v))
              | TStr \<Rightarrow> cfail sp (FOp (OStr op))
              | _ \<Rightarrow> if (is_reference t \<or> is_enum t) \<and> \<not> equality then cfail sp (FOp (OOrdered op t))
                     else if t = TBool \<and> \<not> equality then cfail sp (FOp (OOrdered op t))
                     else cret TBool)"

definition infer_cmp :: "inferrer \<Rightarrow> chk \<Rightarrow> span \<Rightarrow> cmp_op \<Rightarrow> expr list \<Rightarrow> ty chkm" where
  "infer_cmp tc cx sp c args =
     cbind (two_operands tc cx sp (OpCmp c) args) (\<lambda>(t1, t2).
       case or_else (sealed t1) (sealed t2) of
         Some p \<Rightarrow> cfail sp (FOp (OSealed (OpCmp c) p))
       | None \<Rightarrow>
           (case meet t1 t2 of
              None \<Rightarrow> cfail sp (FOp (OMixed (OpCmp c) t1 t2))
            | Some t \<Rightarrow> check_compared sp c t))"

definition infer_logic :: "inferrer \<Rightarrow> chk \<Rightarrow> span \<Rightarrow> logic_op \<Rightarrow> expr list \<Rightarrow> ty chkm" where
  "infer_logic tc cx sp lop args =
     cbind (expect_operands tc cx sp (OpLogic lop) args [TBool, TBool]) (\<lambda>_. cret TBool)"

definition infer_not :: "inferrer \<Rightarrow> chk \<Rightarrow> span \<Rightarrow> expr list \<Rightarrow> ty chkm" where
  "infer_not tc cx sp args =
     cbind (one_operand tc cx sp OpNot args) (\<lambda>t.
       if t \<noteq> TBool then cfail sp (FOp (OOperand OpNot 1 TBool t)) else cret TBool)"

section \<open>The system's operations\<close>

fun check_printed :: "inferrer \<Rightarrow> chk \<Rightarrow> span \<Rightarrow> expr list \<Rightarrow> unit chkm" where
  "check_printed tc cx sp [] = cret ()"
| "check_printed tc cx sp (a # args) =
     cbind (tc cx a) (\<lambda>t.
       if t \<noteq> TStr then cfail sp (FOp (OPrints t)) else check_printed tc cx sp args)"

definition infer_sys :: "inferrer \<Rightarrow> chk \<Rightarrow> span \<Rightarrow> sys_op \<Rightarrow> expr list \<Rightarrow> ty chkm" where
  "infer_sys tc cx sp sop args =
     (let op = OpSys sop
      in case sop of
           SysPrint \<Rightarrow> cbind (check_printed tc cx sp args) (\<lambda>_. cret TVoid)
         | SysTime \<Rightarrow> if args \<noteq> [] then cfail sp (FOp (OArity op 0 (length args))) else cret TI64
         | SysMonotonic \<Rightarrow> if args \<noteq> [] then cfail sp (FOp (OArity op 0 (length args))) else cret TI64
         | SysRandom \<Rightarrow> cbind (expect_operands tc cx sp op args [TI32, TI32]) (\<lambda>_. cret TI32)
         | SysExit \<Rightarrow> infer_load tc cx sp op args TVoid
         | SysPoll \<Rightarrow> cbind (expect_operands tc cx sp op args [TI32, TI32, TI32, TI32]) (\<lambda>_. cret TI32))"

definition infer_str :: "inferrer \<Rightarrow> chk \<Rightarrow> span \<Rightarrow> str_op \<Rightarrow> expr list \<Rightarrow> ty chkm" where
  "infer_str tc cx sp sop args =
     cbind (one_operand tc cx sp (OpStr sop) args) (\<lambda>t.
       if t \<noteq> TStr then cfail sp (FOp (OOperand (OpStr sop) 1 TStr t)) else cret TI32)"

text \<open>What the file, argument and environment operations take: addresses, lengths, handles.\<close>

definition fs_operands :: "fs_op \<Rightarrow> ty list" where
  "fs_operands op =
     (case op of
        FsOpen \<Rightarrow> [TI32, TI32, TI32] | FsRead \<Rightarrow> [TI32, TI32, TI32] | FsWrite \<Rightarrow> [TI32, TI32, TI32]
      | FsClose \<Rightarrow> [TI32]
      | FsDelete \<Rightarrow> [TI32, TI32]
      | FsChmod \<Rightarrow> [TI32, TI32, TI32]
      | FsMkdir \<Rightarrow> [TI32, TI32]
      | FsRmdir \<Rightarrow> [TI32, TI32]
      | FsRename \<Rightarrow> [TI32, TI32, TI32, TI32]
      | FsOpendir \<Rightarrow> [TI32, TI32]
      | FsReaddir \<Rightarrow> [TI32, TI32, TI32, TI64]
      | FsStat \<Rightarrow> [TI32, TI32, TI32])"

definition net_operands :: "net_op \<Rightarrow> ty list" where
  "net_operands op =
     (case op of
        NetListen \<Rightarrow> [TI32, TI32, TI32]
      | NetAccept \<Rightarrow> [TI32]
      | NetRecv \<Rightarrow> [TI32, TI32, TI32]
      | NetSend \<Rightarrow> [TI32, TI32, TI32]
      | NetClose \<Rightarrow> [TI32]
      | NetConnectHost \<Rightarrow> [TI32, TI32, TI32]
      | NetTlsConnect \<Rightarrow> [TI32, TI32, TI32]
      | NetConnect \<Rightarrow> [TI32, TI32, TI32]
      | NetPoll \<Rightarrow> [TI32, TI32, TI32])"

definition proc_operands :: "proc_op \<Rightarrow> ty list" where
  "proc_operands op =
     (case op of
        ProcSpawn \<Rightarrow> [TI32, TI32, TI32, TI32, TI32]
      | ProcStream \<Rightarrow> [TI32, TI32]
      | ProcRead \<Rightarrow> [TI32, TI32, TI32]
      | ProcWrite \<Rightarrow> [TI32, TI32, TI32]
      | ProcClose \<Rightarrow> [TI32]
      | ProcWait \<Rightarrow> [TI32]
      | ProcPoll \<Rightarrow> [TI32, TI32, TI32]
      | ProcKill \<Rightarrow> [TI32, TI32]
      | ProcTryWait \<Rightarrow> [TI32]
      | ProcExec \<Rightarrow> [TI32, TI32, TI32, TI32])"

definition infer_host :: "inferrer \<Rightarrow> chk \<Rightarrow> span \<Rightarrow> opcode \<Rightarrow> expr list \<Rightarrow> ty list \<Rightarrow> ty chkm" where
  "infer_host tc cx sp op args want = cbind (expect_operands tc cx sp op args want) (\<lambda>_. cret TI32)"

definition worker_type :: ty where
  "worker_type = TFn [TI32] TI32 False"

definition infer_thread :: "inferrer \<Rightarrow> chk \<Rightarrow> span \<Rightarrow> thread_op \<Rightarrow> expr list \<Rightarrow> ty chkm" where
  "infer_thread tc cx sp k args =
     (let op = OpThread k
      in case k of
           ThreadSpawn \<Rightarrow>
             (case args of
                [w, a] \<Rightarrow>
                  cbind (tc cx w) (\<lambda>t.
                    if \<not> fits t worker_type then cfail sp (FOp (OOperand op 1 worker_type t))
                    else cbind (tc cx a) (\<lambda>u.
                      if u \<noteq> TI32 then cfail sp (FOp (OOperand op 2 TI32 u)) else cret TI32))
              | _ \<Rightarrow> cfail sp (FOp (OArity op 2 (length args))))
         | ThreadJoin \<Rightarrow> infer_load tc cx sp op args TI32)"

definition infer_conv :: "inferrer \<Rightarrow> chk \<Rightarrow> span \<Rightarrow> conv_op \<Rightarrow> expr list \<Rightarrow> ty chkm" where
  "infer_conv tc cx sp cop args =
     (let (from, to) = (case cop of I64ExtendS \<Rightarrow> (TI32, TI64) | I64ExtendU \<Rightarrow> (TI32, TI64)
                        | I32Wrap \<Rightarrow> (TI64, TI32) | _ \<Rightarrow> conversion cop)
      in cbind (one_operand tc cx sp (OpConv cop) args) (\<lambda>t.
           if t \<noteq> from then cfail sp (FOp (OOperand (OpConv cop) 1 from t)) else cret to))"

section \<open>Formatting forms, try, drop\<close>

definition check_piece :: "inferrer \<Rightarrow> chk \<Rightarrow> opcode \<Rightarrow> expr \<Rightarrow> unit chkm" where
  "check_piece tc cx op p =
     (case p of
        ELit (LStr _) _ \<Rightarrow> cret ()
      | EOp (OpFormat FormatPiece) [v, fmt] sp \<Rightarrow>
          cbind (tc cx v) (\<lambda>t.
            case fmt of
              ELit (LStr text) _ \<Rightarrow>
                if \<not> prints t then cfail sp (FOp (OPrints t))
                else (case spec_parse text of
                        Inl m \<Rightarrow> cfail sp (FOp (OSpec m))
                      | Inr s \<Rightarrow>
                          (case spec_misfit s t of
                             Some m \<Rightarrow> cfail sp (FOp (OMisfit m))
                           | None \<Rightarrow> cret ()))
            | _ \<Rightarrow> cfail sp (FOp OPieceFormat))
      | other \<Rightarrow> cfail (expr_span other) (FOp (OPiece op)))"

fun check_pieces :: "inferrer \<Rightarrow> chk \<Rightarrow> opcode \<Rightarrow> expr list \<Rightarrow> unit chkm" where
  "check_pieces tc cx op [] = cret ()"
| "check_pieces tc cx op (p # ps) = cbind (check_piece tc cx op p) (\<lambda>_. check_pieces tc cx op ps)"

definition buf_type :: ty where "buf_type = TPtr (TStruct ''buf.Buf'')"
definition writer_type :: ty where "writer_type = TPtr (TStruct ''stream.Writer'')"

definition is_var :: "expr \<Rightarrow> bool" where
  "is_var e = (case e of EVar _ _ \<Rightarrow> True | _ \<Rightarrow> False)"

definition check_writer :: "inferrer \<Rightarrow> chk \<Rightarrow> span \<Rightarrow> expr \<Rightarrow> unit chkm" where
  "check_writer tc cx sp b =
     cbind (tc cx b) (\<lambda>t.
       if t \<noteq> buf_type \<and> t \<noteq> writer_type then cfail sp (FOp (OWriter t))
       else if t = writer_type \<and> \<not> is_var b then cfail sp (FOp OWriterVariable)
       else cret ())"

definition infer_print :: "inferrer \<Rightarrow> chk \<Rightarrow> span \<Rightarrow> format_op \<Rightarrow> expr list \<Rightarrow> ty chkm" where
  "infer_print tc cx sp fop args =
     cbind
       (if fop = FormatTo
        then (case args of
                [] \<Rightarrow> cfail sp (FOp (OUsage (OpFormat fop)))
              | b # _ \<Rightarrow> check_writer tc cx sp b)
        else cret ())
       (\<lambda>_. cbind (check_pieces tc cx (OpFormat fop) (if fop = FormatTo then tl args else args)) (\<lambda>_.
       cret (if fop = FormatStr then TStr else TVoid)))"

text \<open>The left side of a condition that is a comparison is looked at again, to show it when it fails.\<close>

definition shown_side :: "inferrer \<Rightarrow> chk \<Rightarrow> expr \<Rightarrow> unit chkm" where
  "shown_side tc cx cond =
     (case cond of
        EOp (OpCmp c) [a, b] _ \<Rightarrow> if is_unsigned_cmp c then cret () else cbind (tc cx a) (\<lambda>_. cret ())
      | _ \<Rightarrow> cret ())"

definition is_text :: "expr \<Rightarrow> bool" where
  "is_text e = (case e of ELit (LStr _) _ \<Rightarrow> True | _ \<Rightarrow> False)"

definition infer_expect :: "inferrer \<Rightarrow> chk \<Rightarrow> span \<Rightarrow> expr list \<Rightarrow> ty chkm" where
  "infer_expect tc cx sp args =
     (let op = OpFormat FormatExpect
      in case args of
           [text, cond] \<Rightarrow>
             if \<not> is_text text then cfail sp (FOp (OUsage op))
             else cbind (tc cx cond) (\<lambda>t.
                    if t \<noteq> TBool then cfail sp (FOp (OOperand op 1 TBool t))
                    else cbind (shown_side tc cx cond) (\<lambda>_. cret TVoid))
         | _ \<Rightarrow> cfail sp (FOp (OUsage op)))"

definition infer_assert :: "inferrer \<Rightarrow> chk \<Rightarrow> span \<Rightarrow> expr list \<Rightarrow> ty chkm" where
  "infer_assert tc cx sp args =
     (let op = OpFormat FormatAssert
      in case args of
           text # cond # rest \<Rightarrow>
             if \<not> is_text text \<or> 1 < length rest then cfail sp (FOp (OUsage op))
             else cbind (tc cx cond) (\<lambda>t.
                    if t \<noteq> TBool then cfail sp (FOp (OOperand op 1 TBool t))
                    else cbind
                      (case rest of
                         msg # _ \<Rightarrow> cbind (tc cx msg) (\<lambda>m.
                           if m \<noteq> TStr then cfail sp (FOp (OOperand op 2 TStr m)) else cret ())
                       | [] \<Rightarrow> cret ())
                      (\<lambda>_. cbind (shown_side tc cx cond) (\<lambda>_. cret TVoid)))
         | _ \<Rightarrow> cfail sp (FOp (OUsage op)))"

definition infer_dbg :: "inferrer \<Rightarrow> chk \<Rightarrow> span \<Rightarrow> expr list \<Rightarrow> ty chkm" where
  "infer_dbg tc cx sp args =
     (let op = OpFormat FormatDbg
      in case args of
           [text, v] \<Rightarrow>
             if \<not> is_text text then cfail sp (FOp (OUsage op))
             else cbind (tc cx v) (\<lambda>t. if t = TVoid then cfail sp (FOp (OVoid op)) else cret t)
         | _ \<Rightarrow> cfail sp (FOp (OUsage op)))"

definition infer_format :: "inferrer \<Rightarrow> chk \<Rightarrow> span \<Rightarrow> format_op \<Rightarrow> expr list \<Rightarrow> ty chkm" where
  "infer_format tc cx sp fop args =
     (case fop of
        FormatPiece \<Rightarrow> cfail sp (FOp (OUsage (OpFormat fop)))
      | FormatExpect \<Rightarrow> infer_expect tc cx sp args
      | FormatAssert \<Rightarrow> infer_assert tc cx sp args
      | FormatDbg \<Rightarrow> infer_dbg tc cx sp args
      | _ \<Rightarrow> infer_print tc cx sp fop args)"

text \<open>What an \<^verbatim>\<open>option.Option\<close> holds.\<close>

definition option_of :: "chk \<Rightarrow> ty \<Rightarrow> ty option" where
  "option_of cx t =
     (case t of
        TUnion u \<Rightarrow>
          (if \<not> is_option u then None
           else case ck_unions cx u of
                  None \<Rightarrow> None
                | Some def \<Rightarrow>
                    (case List.find (\<lambda>v. vr_name v = ''some'') (ud_variants def) of
                       Some v \<Rightarrow> (case vr_fields v of f # _ \<Rightarrow> Some (sf_ty f) | [] \<Rightarrow> None)
                     | None \<Rightarrow> None))
      | _ \<Rightarrow> None)"

definition try_value :: "chk \<Rightarrow> try_op \<Rightarrow> ty \<Rightarrow> ty option" where
  "try_value cx k t =
     (case k of
        Try \<Rightarrow> (case t of TResult a _ \<Rightarrow> Some a | _ \<Rightarrow> None)
      | _ \<Rightarrow> option_of cx t)"

text \<open>The error an early return gives must be the one the function returns.\<close>

definition check_try_error :: "span \<Rightarrow> opcode \<Rightarrow> ty \<Rightarrow> ty \<Rightarrow> unit chkm" where
  "check_try_error sp op err ret_ty =
     (case ret_ty of
        TResult _ e \<Rightarrow> if e = err then cret () else cfail sp (FOp (OTryError op err e))
      | _ \<Rightarrow> cfail sp (FOp (OTryReturn op ret_ty)))"

definition check_try :: "inferrer \<Rightarrow> chk \<Rightarrow> span \<Rightarrow> try_op \<Rightarrow> expr list \<Rightarrow> ty chkm" where
  "check_try tc cx sp k args =
     (let op = OpTry k; want = (if k = TryOr then 2 else 1)
      in if length args \<noteq> want then cfail sp (FOp (OArity op want (length args)))
         else cbind (tc cx (args ! 0)) (\<lambda>t.
           case ck_return cx of
             None \<Rightarrow> cfail sp (FOp (OTryContract op))
           | Some ret_ty \<Rightarrow>
               (case try_value cx k t of
                  None \<Rightarrow> cfail sp (FOp (OTryOperand op t))
                | Some v \<Rightarrow>
                    cbind
                      (case k of
                         TryOpt \<Rightarrow> if option_of cx ret_ty = None then cfail sp (FOp (OTryReturn op ret_ty)) else cret ()
                       | Try \<Rightarrow> (case t of TResult _ e \<Rightarrow> check_try_error sp op e ret_ty | _ \<Rightarrow> cfail sp (FOp (OTryOperand op t)))
                       | TryOr \<Rightarrow> cbind (tc cx (args ! 1)) (\<lambda>e. check_try_error sp op e ret_ty))
                      (\<lambda>_. cret v))))"

definition infer_try :: "inferrer \<Rightarrow> chk \<Rightarrow> span \<Rightarrow> try_op \<Rightarrow> expr list \<Rightarrow> ty chkm" where
  "infer_try tc cx sp k args =
     (if ck_defer cx then cfail sp (FOp (ODeferJump (OpTry k))) else check_try tc cx sp k args)"

definition infer_drop :: "inferrer \<Rightarrow> chk \<Rightarrow> span \<Rightarrow> expr list \<Rightarrow> ty chkm" where
  "infer_drop tc cx sp args =
     cbind (one_operand tc cx sp OpDrop args) (\<lambda>t.
       if t = TVoid then cfail sp (FOp (OVoid OpDrop)) else cret TVoid)"

definition infer_abort :: "inferrer \<Rightarrow> chk \<Rightarrow> span \<Rightarrow> expr list \<Rightarrow> ty chkm" where
  "infer_abort tc cx sp args =
     cbind (one_operand tc cx sp OpAbort args) (\<lambda>t.
       if t \<noteq> TStr then cfail sp (FOp (OOperand OpAbort 1 TStr t)) else cret TVoid)"

section \<open>Operations\<close>

definition infer_op :: "inferrer \<Rightarrow> chk \<Rightarrow> span \<Rightarrow> opcode \<Rightarrow> expr list \<Rightarrow> ty chkm" where
  "infer_op tc cx sp op args =
     cbind (clift (if is_unchecked_op op then require_unsafe cx sp (FOp (OUnchecked op)) else Inr ())) (\<lambda>_.
     cbind (clift (check_literal_address sp op args)) (\<lambda>_.
       (case op of
          OpFormat o1 \<Rightarrow> infer_format tc cx sp o1 args
        | OpAbort \<Rightarrow> infer_abort tc cx sp args
        | OpTry o1 \<Rightarrow> infer_try tc cx sp o1 args
        | OpDrop \<Rightarrow> infer_drop tc cx sp args
        | OpDefer \<Rightarrow> cfail sp (FOp ODeferPlace)
        | OpChecked o1 \<Rightarrow> infer_checked tc cx sp o1 args
        | OpArith o1 \<Rightarrow> infer_arith tc cx sp o1 args
        | OpBit o1 \<Rightarrow> infer_bit tc cx sp o1 args
        | OpMem o1 \<Rightarrow> infer_mem tc cx sp o1 args
        | OpAtomic o1 \<Rightarrow> infer_atomic tc cx sp o1 args
        | OpCmp o1 \<Rightarrow> infer_cmp tc cx sp o1 args
        | OpLogic o1 \<Rightarrow> infer_logic tc cx sp o1 args
        | OpNot \<Rightarrow> infer_not tc cx sp args
        | OpSys o1 \<Rightarrow> infer_sys tc cx sp o1 args
        | OpStr o1 \<Rightarrow> infer_str tc cx sp o1 args
        | OpFs o1 \<Rightarrow> infer_host tc cx sp op args (fs_operands o1)
        | OpEnv _ \<Rightarrow> infer_host tc cx sp op args [TI32, TI32]
        | OpNet o1 \<Rightarrow> infer_host tc cx sp op args (net_operands o1)
        | OpProc o1 \<Rightarrow> infer_host tc cx sp op args (proc_operands o1)
        | OpThread o1 \<Rightarrow> infer_thread tc cx sp o1 args
        | OpConv o1 \<Rightarrow> infer_conv tc cx sp o1 args)))"

section \<open>Variables and control\<close>

definition infer_lit :: "literal \<Rightarrow> ty" where
  "infer_lit l =
     (case l of LInt _ \<Rightarrow> TI32 | LInt64 _ \<Rightarrow> TI64 | LFloat _ \<Rightarrow> TF64 | LFloat32 _ _ \<Rightarrow> TF32
      | LBool _ \<Rightarrow> TBool | LStr _ \<Rightarrow> TStr)"

definition infer_var :: "span \<Rightarrow> string \<Rightarrow> ty chkm" where
  "infer_var sp x =
     cbind cenv (\<lambda>\<Gamma>. case \<Gamma> x of Some t \<Rightarrow> cret t | None \<Rightarrow> cfail sp (FForm (EUndefined x)))"

definition no_shadow :: "span \<Rightarrow> string \<Rightarrow> unit chkm" where
  "no_shadow sp x = cbind cenv (\<lambda>\<Gamma>. cguard (\<Gamma> x = None) sp (FForm (EShadow x)))"

definition infer_let :: "inferrer \<Rightarrow> chk \<Rightarrow> span \<Rightarrow> string \<Rightarrow> ty \<Rightarrow> expr \<Rightarrow> ty chkm" where
  "infer_let tc cx sp x t v =
     cbind (no_shadow sp x) (\<lambda>_.
     cbind (clift (validate_type cx sp t)) (\<lambda>_.
     cbind (tc cx v) (\<lambda>u.
       if \<not> fits u t then cfail sp (FForm (ELetType t u))
       else cbind (cinsert x t) (\<lambda>_. cret TVoid))))"

definition infer_set :: "inferrer \<Rightarrow> chk \<Rightarrow> span \<Rightarrow> string \<Rightarrow> expr \<Rightarrow> ty chkm" where
  "infer_set tc cx sp x v =
     cbind (infer_var sp x) (\<lambda>t.
     cbind (tc cx v) (\<lambda>u.
       if \<not> fits u t then cfail sp (FForm (ESetType t u)) else cret TVoid))"

text \<open>
  The type of two branches, of which one that always leaves takes the other's.
\<close>

definition join_branches :: "span \<Rightarrow> bool \<Rightarrow> bool \<Rightarrow> ty \<Rightarrow> ty \<Rightarrow> ty chkm" where
  "join_branches sp d1 d2 t1 t2 =
     (if d1 then cret (if d2 then TVoid else t2)
      else if d2 then cret t1
      else if t1 = TVoid \<and> t2 = TVoid then cret TVoid
      else case meet t1 t2 of
             Some t \<Rightarrow> if t1 \<noteq> TVoid \<and> t2 \<noteq> TVoid then cret t else cfail sp (FForm (EBranches t1 t2))
           | None \<Rightarrow> cfail sp (FForm (EBranches t1 t2)))"

definition infer_if :: "inferrer \<Rightarrow> chk \<Rightarrow> span \<Rightarrow> expr \<Rightarrow> expr \<Rightarrow> expr \<Rightarrow> ty chkm" where
  "infer_if tc cx sp c e1 e2 =
     cbind (tc cx c) (\<lambda>ct.
       if ct \<noteq> TBool then cfail sp (FForm (EIfCondition ct))
       else cbind (scoped (tc cx e1)) (\<lambda>t1.
            cbind (scoped (tc cx e2)) (\<lambda>t2.
            join_branches sp (diverges e1) (diverges e2) t1 t2)))"

definition infer_loop :: "inferrer \<Rightarrow> chk \<Rightarrow> span \<Rightarrow> string \<Rightarrow> expr \<Rightarrow> expr \<Rightarrow> expr \<Rightarrow> expr list \<Rightarrow> ty chkm" where
  "infer_loop tc cx sp x start stop step body =
     cbind (tc cx start) (\<lambda>t1.
     cbind (tc cx stop) (\<lambda>t2.
     cbind (tc cx step) (\<lambda>t3.
       if t1 \<noteq> TI32 \<or> t2 \<noteq> TI32 \<or> t3 \<noteq> TI32 then cfail sp (FForm EBounds)
       else cbind (no_shadow sp x) (\<lambda>_.
            cbind (scoped (cbind (cinsert x TI32) (\<lambda>_. check_loop_body tc cx body))) (\<lambda>_. cret TVoid)))))"

definition infer_while :: "inferrer \<Rightarrow> chk \<Rightarrow> span \<Rightarrow> expr \<Rightarrow> expr list \<Rightarrow> ty chkm" where
  "infer_while tc cx sp c body =
     cbind (tc cx c) (\<lambda>t.
       if t \<noteq> TBool then cfail sp (FForm EWhileCondition)
       else cbind (scoped (check_loop_body tc cx body)) (\<lambda>_. cret TVoid))"

definition infer_return :: "inferrer \<Rightarrow> chk \<Rightarrow> span \<Rightarrow> expr option \<Rightarrow> ty chkm" where
  "infer_return tc cx sp v =
     (if ck_defer cx then cfail sp (FForm EDeferReturn)
      else case ck_return cx of
             None \<Rightarrow> cfail sp (FForm EContractReturn)
           | Some want \<Rightarrow>
               cbind (case v of Some e \<Rightarrow> tc cx e | None \<Rightarrow> cret TVoid) (\<lambda>got.
                 if \<not> fits got want then cfail sp (FForm (EReturnType want got)) else cret TVoid))"

definition infer_jump :: "chk \<Rightarrow> span \<Rightarrow> bool \<Rightarrow> ty chkm" where
  "infer_jump cx sp is_break =
     (if ck_loop cx = 0 then cfail sp (FForm (EOutsideLoop is_break)) else cret TVoid)"

section \<open>Calls\<close>

definition infer_call :: "inferrer \<Rightarrow> chk \<Rightarrow> span \<Rightarrow> string \<Rightarrow> expr list \<Rightarrow> ty chkm" where
  "infer_call tc cx sp f args =
     (case ck_fns cx f of
        None \<Rightarrow> cfail sp (FForm (EUnknownFn f))
      | Some (params, ret_ty) \<Rightarrow>
          cbind (clift (require_unsafe_fn cx sp f)) (\<lambda>_.
            if length args \<noteq> length params
            then cfail sp (FForm (EArgs f (length params) (length args)))
            else cbind (check_args tc cx sp (\<lambda>i p t. FForm (EArg f i p t)) 1 args params) (\<lambda>_. cret ret_ty)))"

definition infer_ref :: "chk \<Rightarrow> span \<Rightarrow> string \<Rightarrow> ty chkm" where
  "infer_ref cx sp f =
     (case ck_fns cx f of
        None \<Rightarrow> cfail sp (FForm (EUnknownFn f))
      | Some (params, ret_ty) \<Rightarrow>
          cbind (clift (require_unsafe_fn cx sp f)) (\<lambda>_.
            cret (TFn params ret_ty (case ck_leaks cx of Some may \<Rightarrow> \<not> may f | None \<Rightarrow> False))))"

definition infer_call_ref :: "inferrer \<Rightarrow> chk \<Rightarrow> span \<Rightarrow> ty \<Rightarrow> expr \<Rightarrow> expr list \<Rightarrow> ty chkm" where
  "infer_call_ref tc cx sp sig f args =
     cbind (clift (validate_type cx sp sig)) (\<lambda>_.
       (case sig of
          TFn params ret_ty _ \<Rightarrow>
            cbind (tc cx f) (\<lambda>t.
              if \<not> fits t sig then cfail sp (FForm (ERefType sig t))
              else if length args \<noteq> length params
                then cfail sp (FForm (EArgs ''call_ref'' (length params) (length args)))
              else cbind (check_args tc cx sp (\<lambda>i p t. FForm (EArg ''call_ref'' i p t)) 1 args params)
                     (\<lambda>_. cret ret_ty))
        | other \<Rightarrow> cfail sp (FForm (ESignature other))))"

section \<open>Results, unions, matches\<close>

definition infer_ok :: "inferrer \<Rightarrow> chk \<Rightarrow> span \<Rightarrow> expr \<Rightarrow> ty option \<Rightarrow> ty chkm" where
  "infer_ok tc cx sp v extra =
     (case extra of
        None \<Rightarrow> cfail sp (FForm ENeedsType)
      | Some err_ty \<Rightarrow>
          cbind (tc cx v) (\<lambda>t.
          cbind (clift (check_result_payload sp t)) (\<lambda>_.
          cbind (clift (validate_type cx sp err_ty)) (\<lambda>_.
          cbind (clift (result_fits cx sp t err_ty)) (\<lambda>_. cret (TResult t err_ty))))))"

definition infer_err :: "inferrer \<Rightarrow> chk \<Rightarrow> span \<Rightarrow> expr \<Rightarrow> ty option \<Rightarrow> ty chkm" where
  "infer_err tc cx sp v extra =
     (case extra of
        None \<Rightarrow> cfail sp (FForm ENeedsType)
      | Some ok_ty \<Rightarrow>
          cbind (tc cx v) (\<lambda>t.
          cbind (clift (check_result_payload sp t)) (\<lambda>_.
          cbind (clift (validate_type cx sp ok_ty)) (\<lambda>_.
          cbind (clift (result_fits cx sp ok_ty t)) (\<lambda>_. cret (TResult ok_ty t))))))"

definition infer_match_result :: "inferrer \<Rightarrow> chk \<Rightarrow> span \<Rightarrow> expr \<Rightarrow> string \<Rightarrow> expr list \<Rightarrow> string \<Rightarrow> expr list \<Rightarrow> ty chkm" where
  "infer_match_result tc cx sp e x ok_body y err_body =
     cbind (tc cx e) (\<lambda>t.
       (case t of
          TResult a b \<Rightarrow>
            cbind (no_shadow sp x) (\<lambda>_.
            cbind (scoped (cbind (cinsert x a) (\<lambda>_. infer_body tc cx TVoid ok_body))) (\<lambda>t1.
            cbind (no_shadow sp y) (\<lambda>_.
            cbind (scoped (cbind (cinsert y b) (\<lambda>_. infer_body tc cx TVoid err_body))) (\<lambda>t2.
            join_branches sp (body_diverges ok_body) (body_diverges err_body) t1 t2))))
        | other \<Rightarrow> cfail sp (FForm (EMatchedResult other))))"

definition infer_make :: "inferrer \<Rightarrow> chk \<Rightarrow> span \<Rightarrow> string \<Rightarrow> string \<Rightarrow> expr list \<Rightarrow> ty chkm" where
  "infer_make tc cx sp un vn args =
     (case ck_unions cx un of
        None \<Rightarrow>
          if known_struct cx (un @ ''.'' @ vn) then cfail sp (FForm (ENotValue (un @ ''.'' @ vn)))
          else cfail sp (FType (FUnknownUnion un))
      | Some u \<Rightarrow>
          (case List.find (\<lambda>v. vr_name v = vn) (ud_variants u) of
             None \<Rightarrow> cfail sp (FForm (EUnknownVariant un vn))
           | Some v \<Rightarrow>
               if length args \<noteq> length (vr_fields v)
               then cfail sp (FForm (EArgs vn (length (vr_fields v)) (length args)))
               else cbind (check_args tc cx sp (\<lambda>i p t. FForm (EArg vn i p t)) 1 args (map sf_ty (vr_fields v)))
                      (\<lambda>_. cret (TUnion un))))"

text \<open>The members of a matched type in order, with each union variant's fields.\<close>

type_synonym match_member = "string \<times> struct_field list option"

definition match_members :: "chk \<Rightarrow> span \<Rightarrow> ty \<Rightarrow> chk_error + string \<times> match_member list" where
  "match_members cx sp t =
     (case t of
        TUnion u \<Rightarrow>
          (case ck_unions cx u of
             None \<Rightarrow> Inl (sp, FForm (EMissingTable u))
           | Some d \<Rightarrow> Inr (u, map (\<lambda>v. (vr_name v, Some (vr_fields v))) (ud_variants d)))
      | TEnum e \<Rightarrow>
          (case ck_enums cx e of
             None \<Rightarrow> Inl (sp, FForm (EMissingTable e))
           | Some d \<Rightarrow> Inr (e, map (\<lambda>m. (fst m, None)) (ed_members d)))
      | other \<Rightarrow> Inl (sp, FForm (EMatchValue other)))"

definition arm_name :: "string \<Rightarrow> match_arm \<Rightarrow> string option" where
  "arm_name tname a =
     (if CHR ''.'' \<in> set (arm_member a) \<and> before_dot (arm_member a) = tname
      then Some (after_dot (arm_member a)) else None)"

fun bind_fields :: "span \<Rightarrow> (string \<times> struct_field) list \<Rightarrow> unit chkm" where
  "bind_fields sp [] = cret ()"
| "bind_fields sp ((n, f) # nfs) =
     (if n = ''_'' then bind_fields sp nfs
      else cbind (no_shadow sp n) (\<lambda>_. cbind (cinsert n (sf_ty f)) (\<lambda>_. bind_fields sp nfs)))"

definition bind_arm :: "string \<Rightarrow> string \<Rightarrow> match_arm \<Rightarrow> struct_field list option \<Rightarrow> unit chkm" where
  "bind_arm tname member a fds =
     (case fds of
        None \<Rightarrow> if arm_binders a \<noteq> None then cfail (arm_span a) (FForm (EArmBinds tname member)) else cret ()
      | Some fs \<Rightarrow>
          (let names = (case arm_binders a of Some ns \<Rightarrow> ns | None \<Rightarrow> [])
           in if length names \<noteq> length fs
              then cfail (arm_span a) (FForm (EArmNames tname member (length fs) (length names)))
              else bind_fields (arm_span a) (zip names fs)))"

text \<open>The arms in order: the members they match, and the types of those that do not always leave.\<close>

fun check_arms :: "inferrer \<Rightarrow> chk \<Rightarrow> string \<Rightarrow> match_member list \<Rightarrow> string list \<Rightarrow> ty list \<Rightarrow> match_arm list
    \<Rightarrow> (string list \<times> ty list) chkm" where
  "check_arms tc cx tname members seen tys [] = cret (seen, tys)"
| "check_arms tc cx tname members seen tys (a # arms) =
     (case arm_name tname a of
        None \<Rightarrow> cfail (arm_span a) (FForm (EArmName tname))
      | Some member \<Rightarrow>
          (case map_of members member of
             None \<Rightarrow> cfail (arm_span a) (FForm (EArmMember tname member))
           | Some fds \<Rightarrow>
               if member \<in> set seen then cfail (arm_span a) (FForm (EArmTwice tname member))
               else cbind (scoped (cbind (bind_arm tname member a fds)
                                     (\<lambda>_. infer_body tc cx TVoid (arm_body a)))) (\<lambda>t.
                    check_arms tc cx tname members (seen @ [member])
                      (if body_diverges (arm_body a) then tys else tys @ [t]) arms)))"

definition check_else :: "inferrer \<Rightarrow> chk \<Rightarrow> span \<Rightarrow> string \<Rightarrow> match_member list \<Rightarrow> string list \<Rightarrow> ty list \<Rightarrow> expr list option
    \<Rightarrow> ty list chkm" where
  "check_else tc cx sp tname members seen tys els =
     (case els of
        Some body \<Rightarrow>
          if length seen = length members then cfail sp (FForm (EElseUseless tname))
          else cbind (scoped (infer_body tc cx TVoid body)) (\<lambda>t.
               cret (if body_diverges body then tys else tys @ [t]))
      | None \<Rightarrow>
          (let missing = filter (\<lambda>m. m \<notin> set seen) (map fst members)
           in if missing \<noteq> [] then cfail sp (FForm (EMissing missing)) else cret tys))"

fun join_arms :: "span \<Rightarrow> ty \<Rightarrow> ty \<Rightarrow> ty list \<Rightarrow> ty chkm" where
  "join_arms sp first joined [] = cret joined"
| "join_arms sp first joined (t # ts) =
     (case meet joined t of
        Some m \<Rightarrow> join_arms sp first m ts
      | None \<Rightarrow> cfail sp (FForm (EArms first t)))"

definition infer_match :: "inferrer \<Rightarrow> chk \<Rightarrow> span \<Rightarrow> expr \<Rightarrow> match_arm list \<Rightarrow> expr list option \<Rightarrow> ty chkm" where
  "infer_match tc cx sp v arms els =
     cbind (tc cx v) (\<lambda>t.
       case sealed t of
         Some p \<Rightarrow> cfail sp (FForm (EMatchSealed p))
       | None \<Rightarrow>
           cbind (clift (match_members cx sp t)) (\<lambda>(tname, members).
           cbind (check_arms tc cx tname members [] [] arms) (\<lambda>(seen, tys).
           cbind (check_else tc cx sp tname members seen tys els) (\<lambda>tys.
             case tys of [] \<Rightarrow> cret TVoid | first # rest \<Rightarrow> join_arms sp first first rest))))"

section \<open>Structs and arrays\<close>

definition the_def :: "chk \<Rightarrow> span \<Rightarrow> string \<Rightarrow> struct_def chkm" where
  "the_def cx sp n = clift (ok_or (get_struct (ck_structs cx) n) (sp, FType (FNotStruct n)))"

definition field_type :: "chk \<Rightarrow> span \<Rightarrow> struct_def \<Rightarrow> string \<Rightarrow> chk_error + ty" where
  "field_type cx sp def f =
     (case get_field_offset (ck_structs cx) def f of Inl e \<Rightarrow> Inl (sp, FType (FLayout e)) | Inr (_, t) \<Rightarrow> Inr t)"

definition infer_get :: "inferrer \<Rightarrow> chk \<Rightarrow> span \<Rightarrow> string \<Rightarrow> string \<Rightarrow> expr \<Rightarrow> ty chkm" where
  "infer_get tc cx sp sn f p =
     cbind (the_def cx sp sn) (\<lambda>def.
     cbind (tc cx p) (\<lambda>t.
       let want = (if sd_is_value def then TStruct sn else TPtr (TStruct sn))
       in if t \<noteq> want then cfail sp (FForm (ENeeds want t))
          else cbind (clift (field_type cx sp def f)) (\<lambda>ft. cret (value_of ft))))"

definition infer_put :: "inferrer \<Rightarrow> chk \<Rightarrow> span \<Rightarrow> string \<Rightarrow> string \<Rightarrow> expr \<Rightarrow> expr \<Rightarrow> (string \<times> string) list \<Rightarrow> ty chkm" where
  "infer_put tc cx sp sn f p v path =
     cbind (the_def cx sp sn) (\<lambda>def.
       if sd_is_value def then cfail sp (FForm (EPutValue sn f))
       else cbind (tc cx p) (\<lambda>t.
         if t \<noteq> TPtr (TStruct sn) then cfail sp (FForm (ENeeds (TPtr (TStruct sn)) t))
         else cbind (clift (field_type cx sp def f)) (\<lambda>ft.
              cbind (clift (walk_path cx sp ''put'' (sn, f) ft path)) (\<lambda>(written, wt).
              cbind (tc cx v) (\<lambda>u.
                if \<not> fits u (value_of wt) then cfail sp (FForm (EWritten written (value_of wt) u))
                else cret TVoid)))))"

definition infer_record :: "inferrer \<Rightarrow> chk \<Rightarrow> span \<Rightarrow> string \<Rightarrow> expr list \<Rightarrow> ty chkm" where
  "infer_record tc cx sp sn args =
     cbind (the_def cx sp sn) (\<lambda>def.
       if \<not> sd_is_value def then cfail sp (FForm (ENotValue sn))
       else if length args \<noteq> length (sd_fields def)
         then cfail sp (FForm (EArgs sn (length (sd_fields def)) (length args)))
       else cbind (check_args tc cx sp (\<lambda>i p t. FForm (EArg sn i p t)) 1 args (map sf_ty (sd_fields def)))
              (\<lambda>_. cret (TStruct sn)))"

definition infer_with :: "inferrer \<Rightarrow> chk \<Rightarrow> span \<Rightarrow> string \<Rightarrow> string \<Rightarrow> expr \<Rightarrow> expr \<Rightarrow> ty chkm" where
  "infer_with tc cx sp sn f v new =
     cbind (the_def cx sp sn) (\<lambda>def.
       if \<not> sd_is_value def then cfail sp (FForm (ENotValue sn))
       else cbind (clift (field_type cx sp def f)) (\<lambda>ft.
            cbind (tc cx v) (\<lambda>t.
              if t \<noteq> TStruct sn then cfail sp (FForm (ENeeds (TStruct sn) t))
              else cbind (tc cx new) (\<lambda>n.
                if \<not> fits n ft then cfail sp (FForm (EWritten (sn, f) ft n)) else cret t))))"

definition infer_sizeof :: "chk \<Rightarrow> span \<Rightarrow> ty \<Rightarrow> ty chkm" where
  "infer_sizeof cx sp t =
     (case t of
        TStruct n \<Rightarrow>
          if \<not> known_struct cx n \<and> ck_enums cx n = None then cfail sp (FType (FNotStruct n)) else cret TI32
      | TNarrow _ \<Rightarrow> cret TI32
      | _ \<Rightarrow>
          cbind (clift (validate_type cx sp t)) (\<lambda>_.
            if isl (memory_layout (ck_structs cx) t) then cfail sp (FForm (EStorable t)) else cret TI32))"

definition infer_arr_get :: "inferrer \<Rightarrow> chk \<Rightarrow> span \<Rightarrow> ty \<Rightarrow> expr \<Rightarrow> expr \<Rightarrow> ty chkm" where
  "infer_arr_get tc cx sp elem p i =
     cbind (clift (validate_type cx sp (TArray elem))) (\<lambda>_.
     cbind (tc cx p) (\<lambda>t.
       if t \<noteq> TArray elem then cfail sp (FForm (ENeeds (TArray elem) t))
       else cbind (tc cx i) (\<lambda>it.
         if it \<noteq> TI32 then cfail sp (FForm (EIndexType it)) else cret (value_of elem))))"

definition set_target :: "chk \<Rightarrow> span \<Rightarrow> ty \<Rightarrow> (string \<times> string) list \<Rightarrow> chk_error + ty" where
  "set_target cx sp elem path =
     (case path of
        [] \<Rightarrow> Inr (value_of elem)
      | (st, f) # rest \<Rightarrow>
          if elem \<noteq> TStruct st \<or> \<not> is_value cx st then Inl (sp, FType (FPath ''arr.set'' (st, f) elem st))
          else bind_res (ok_or (get_struct (ck_structs cx) st) (sp, FForm (EMissingTable st))) (\<lambda>def.
               bind_res (field_type cx sp def f) (\<lambda>ft.
               bind_res (walk_path cx sp ''arr.set'' (st, f) ft rest) (\<lambda>(_, t). Inr t))))"

definition infer_arr_set :: "inferrer \<Rightarrow> chk \<Rightarrow> span \<Rightarrow> ty \<Rightarrow> expr \<Rightarrow> expr \<Rightarrow> expr \<Rightarrow> (string \<times> string) list \<Rightarrow> ty chkm" where
  "infer_arr_set tc cx sp elem p i v path =
     cbind (clift (validate_type cx sp (TArray elem))) (\<lambda>_.
     cbind (tc cx p) (\<lambda>t.
       if t \<noteq> TArray elem then cfail sp (FForm (ENeeds (TArray elem) t))
       else cbind (tc cx i) (\<lambda>it.
         if it \<noteq> TI32 then cfail sp (FForm (EIndexType it))
         else cbind (clift (set_target cx sp elem path)) (\<lambda>target.
              cbind (tc cx v) (\<lambda>u.
                if \<not> fits u target then cfail sp (FForm (EWritten ('''', '''') target u)) else cret TVoid)))))"

definition infer_arr_len :: "inferrer \<Rightarrow> chk \<Rightarrow> span \<Rightarrow> expr \<Rightarrow> ty chkm" where
  "infer_arr_len tc cx sp a =
     cbind (tc cx a) (\<lambda>t. case t of TArray _ \<Rightarrow> cret TI32 | other \<Rightarrow> cfail sp (FForm (ENeeds (TArray TVoid) other)))"

definition cast_name :: "ty \<Rightarrow> bool \<Rightarrow> string option" where
  "cast_name t has_gen =
     (case t of
        TPtr _ \<Rightarrow> Some (if has_gen then ''ptr.make'' else ''ptr.cast'')
      | TArray _ \<Rightarrow> Some (if has_gen then ''arr.make'' else ''arr.cast'')
      | _ \<Rightarrow> None)"

definition infer_cast :: "inferrer \<Rightarrow> chk \<Rightarrow> span \<Rightarrow> ty \<Rightarrow> expr \<Rightarrow> expr option \<Rightarrow> ty chkm" where
  "infer_cast tc cx sp t a gen =
     cbind (clift (case cast_name t (gen \<noteq> None) of
                     Some n \<Rightarrow> require_unsafe cx sp (FForm (EUncheckedForm n))
                   | None \<Rightarrow> Inr ())) (\<lambda>_.
     cbind (case gen of
              Some g \<Rightarrow> cbind (tc cx g) (\<lambda>gt.
                if gt \<noteq> TI32 then cfail sp (FForm (EGeneration gt)) else cret ())
            | None \<Rightarrow> cret ()) (\<lambda>_.
     cbind (clift (validate_type cx sp t)) (\<lambda>_.
       case sealed t of
         Some p \<Rightarrow> cfail sp (FForm (ESealedCast p))
       | None \<Rightarrow>
           cbind (tc cx a) (\<lambda>u.
             if u \<noteq> TI32 then cfail sp (FForm (ECastOperand t u)) else cret t))))"

definition infer_addr :: "inferrer \<Rightarrow> chk \<Rightarrow> span \<Rightarrow> expr \<Rightarrow> addr_kind \<Rightarrow> ty chkm" where
  "infer_addr tc cx sp v k =
     cbind (tc cx v) (\<lambda>t.
       if k = AKEnum \<and> sealed t \<noteq> None then cfail sp (FForm (ESealedCast (the (sealed t))))
       else let ok = (case t of
                        TPtr _ \<Rightarrow> k = AKPtr \<or> k = AKPtrGen
                      | TArray _ \<Rightarrow> k = AKArr \<or> k = AKArrGen
                      | TEnum _ \<Rightarrow> k = AKEnum
                      | _ \<Rightarrow> False)
            in if ok then cret TI32 else cfail sp (FForm (EAddress k t)))"

definition infer_unsafe :: "inferrer \<Rightarrow> chk \<Rightarrow> expr list \<Rightarrow> ty chkm" where
  "infer_unsafe tc cx es = scoped (infer_block tc (cx\<lparr>ck_unsafe := Suc (ck_unsafe cx)\<rparr>) TVoid es)"

section \<open>Expressions\<close>

definition infer_expr :: "inferrer \<Rightarrow> chk \<Rightarrow> expr \<Rightarrow> ty chkm" where
  "infer_expr tc cx e =
     (case e of
        ELit l _ \<Rightarrow> cret (infer_lit l)
      | EVar x sp \<Rightarrow> infer_var sp x
      | ELet x t v sp \<Rightarrow> infer_let tc cx sp x t v
      | ESet x v sp \<Rightarrow> infer_set tc cx sp x v
      | EIf c e1 e2 sp \<Rightarrow> infer_if tc cx sp c e1 e2
      | ELoop x start stop step body sp \<Rightarrow> infer_loop tc cx sp x start stop step body
      | EWhile c body sp \<Rightarrow> infer_while tc cx sp c body
      | ECall f args sp \<Rightarrow> infer_call tc cx sp f args
      | EOp op args sp \<Rightarrow> infer_op tc cx sp op args
      | EOk v t sp \<Rightarrow> infer_ok tc cx sp v t
      | EErr v t sp \<Rightarrow> infer_err tc cx sp v t
      | EMatchResult v x ok_body y err_body sp \<Rightarrow> infer_match_result tc cx sp v x ok_body y err_body
      | EBlock es _ \<Rightarrow> scoped (infer_block tc cx TVoid es)
      | EUnsafe es _ \<Rightarrow> infer_unsafe tc cx es
      | EGetField sn f p sp \<Rightarrow> infer_get tc cx sp sn f p
      | EPutField sn f p v path sp \<Rightarrow> infer_put tc cx sp sn f p v path
      | ESizeof t sp \<Rightarrow> infer_sizeof cx sp t
      | EArrGet t p i sp \<Rightarrow> infer_arr_get tc cx sp t p i
      | EArrSet t p i v path sp \<Rightarrow> infer_arr_set tc cx sp t p i v path
      | EArrLen a sp \<Rightarrow> infer_arr_len tc cx sp a
      | ENull t sp \<Rightarrow> cbind (clift (validate_type cx sp t)) (\<lambda>_. cret t)
      | ECast t a g sp \<Rightarrow> infer_cast tc cx sp t a g
      | ERecord sn args sp \<Rightarrow> infer_record tc cx sp sn args
      | EWith sn f v new sp \<Rightarrow> infer_with tc cx sp sn f v new
      | EMake un vn args sp \<Rightarrow> infer_make tc cx sp un vn args
      | EMatch v arms els sp \<Rightarrow> infer_match tc cx sp v arms els
      | EReturn v sp \<Rightarrow> infer_return tc cx sp v
      | EBreak sp \<Rightarrow> infer_jump cx sp True
      | EContinue sp \<Rightarrow> infer_jump cx sp False
      | ERef f sp \<Rightarrow> infer_ref cx sp f
      | ECallRef sig f args sp \<Rightarrow> infer_call_ref tc cx sp sig f args
      | EAddr v k sp \<Rightarrow> infer_addr tc cx sp v k)"

fun infer_n :: "nat \<Rightarrow> chk \<Rightarrow> expr \<Rightarrow> ty chkm" where
  "infer_n 0 cx e = cfail (expr_span e) (FForm EFuel)"
| "infer_n (Suc n) cx e = infer_expr (infer_n n) cx e"

text \<open>
  The check recurses on operands and bodies only, so the size of the expression bounds its depth.
\<close>

definition infer :: "chk \<Rightarrow> expr \<Rightarrow> ty chkm" where
  "infer cx e = infer_n (Suc (size e)) cx e"

end
