(* ===== verification/Walk.thy ===== *)
theory Walk
  imports Ast
begin

text \<open>
  The preorder traversal of an expression (\<^verbatim>\<open>walk_expr\<close> of \<^verbatim>\<open>src/compiler/wasm.rs\<close>), which the
  leak analysis and the code generator share: \<open>children\<close> gives the operands of an expression in
  the order the Rust code visits them, \<open>walk\<close> the expressions visited. The visitor's effects
  are what its caller does with the list.
\<close>

fun opt_list :: "'a option \<Rightarrow> 'a list" where
  "opt_list None = []"
| "opt_list (Some x) = [x]"

lemma in_opt_list [simp]: "x \<in> set (opt_list y) \<longleftrightarrow> y = Some x"
  by (cases y) auto

definition children :: "expr \<Rightarrow> expr list" where
  "children e =
     (case e of
        ELit _ _ \<Rightarrow> [] | EVar _ _ \<Rightarrow> []
      | ELet _ _ v _ \<Rightarrow> [v] | ESet _ v _ \<Rightarrow> [v]
      | EIf c t f _ \<Rightarrow> [c, t, f]
      | ELoop _ a b s body _ \<Rightarrow> a # b # s # body
      | EWhile c body _ \<Rightarrow> c # body
      | ECall _ args _ \<Rightarrow> args | EOp _ args _ \<Rightarrow> args
      | EBlock es _ \<Rightarrow> es | EUnsafe es _ \<Rightarrow> es
      | EOk v _ _ \<Rightarrow> [v] | EErr v _ _ \<Rightarrow> [v]
      | EMatchResult v _ ok_body _ err_body _ \<Rightarrow> v # ok_body @ err_body
      | EMake _ _ args _ \<Rightarrow> args | ERecord _ args _ \<Rightarrow> args
      | EWith _ _ v n _ \<Rightarrow> [v, n]
      | EMatch v arms els _ \<Rightarrow> v # concat (map arm_body arms) @ concat (opt_list els)
      | ESizeof _ _ \<Rightarrow> [] | ENull _ _ \<Rightarrow> [] | ERef _ _ \<Rightarrow> []
      | EBreak _ \<Rightarrow> [] | EContinue _ \<Rightarrow> []
      | EReturn v _ \<Rightarrow> opt_list v
      | ECallRef _ f args _ \<Rightarrow> f # args
      | EGetField _ _ p _ \<Rightarrow> [p] | EArrLen p _ \<Rightarrow> [p] | EAddr p _ _ \<Rightarrow> [p]
      | ECast _ a g _ \<Rightarrow> a # opt_list g
      | EPutField _ _ p v _ _ \<Rightarrow> [p, v]
      | EArrGet _ p i _ \<Rightarrow> [p, i]
      | EArrSet _ p i v _ _ \<Rightarrow> [p, i, v])"

lemma size_in_list: "x \<in> set xs \<Longrightarrow> size x < Suc (size_list size xs)"
  by (induction xs) auto

lemma size_in_arms:
  "x \<in> set (arm_body a) \<Longrightarrow> a \<in> set arms \<Longrightarrow> size x < Suc (size_list size arms)"
proof (induction arms)
  case (Cons b arms)
  then show ?case using size_in_list [of x "arm_body a"] by (cases a) auto
qed simp

lemma children_size: "x \<in> set (children e) \<Longrightarrow> size x < size e"
  by (cases e) (auto simp: children_def split: option.splits dest: size_in_list size_in_arms)

function walk :: "expr \<Rightarrow> expr list" where
  "walk e = e # concat (map walk (children e))"
  by pat_completeness auto
termination by (relation "measure size") (auto dest: children_size)

declare walk.simps [simp del]

lemma walk_self [simp]: "e \<in> set (walk e)"
  by (subst walk.simps) simp

lemma walk_child: "x \<in> set (children e) \<Longrightarrow> set (walk x) \<subseteq> set (walk e)"
  by (subst (2) walk.simps) auto

text \<open>The traversal visits exactly the subexpressions: the least set closed under operands.\<close>

inductive subexpr :: "expr \<Rightarrow> expr \<Rightarrow> bool" where
  self: "subexpr e e"
| child: "subexpr x y \<Longrightarrow> y \<in> set (children e) \<Longrightarrow> subexpr x e"

lemma walk_iff: "x \<in> set (walk e) \<longleftrightarrow> subexpr x e"
proof
  show "x \<in> set (walk e) \<Longrightarrow> subexpr x e"
  proof (induction e rule: walk.induct)
    case (1 e)
    then show ?case by (subst (asm) walk.simps) (auto intro: subexpr.intros)
  qed
  show "subexpr x e \<Longrightarrow> x \<in> set (walk e)"
    by (induction rule: subexpr.induct) (use walk_child in auto)
qed

end
