(* ===== verification/Check_Total.thy ===== *)
theory Check_Total
  imports Checker Walk
begin

text \<open>
  The type of an expression is defined for every expression: what a form's check does depends on the
  recursive call at smaller expressions only, so the fuel of \<open>infer\<close> is always enough and
  \<open>infer\<close> satisfies the equations of the source.
\<close>

definition same_on :: "inferrer \<Rightarrow> inferrer \<Rightarrow> nat \<Rightarrow> bool" where
  "same_on tc tc' n \<longleftrightarrow> (\<forall>cx x. size x < n \<longrightarrow> tc cx x = tc' cx x)"

lemma same_onD: "same_on tc tc' n \<Longrightarrow> size x < n \<Longrightarrow> tc cx x = tc' cx x"
  by (simp add: same_on_def)

lemma same_on_mono: "same_on tc tc' n \<Longrightarrow> k \<le> n \<Longrightarrow> same_on tc tc' k"
  by (auto simp: same_on_def)

lemma same_on_Cons:
  "same_on tc tc' (Suc (Suc (size a + k))) \<Longrightarrow> (\<forall>cx. tc cx a = tc' cx a) \<and> same_on tc tc' (Suc k)"
  by (simp add: same_on_def)

lemma cbind_eq: "m = m' \<Longrightarrow> (\<And>x. f x = f' x) \<Longrightarrow> cbind m f = cbind m' f'"
  by presburger

section \<open>Lists of expressions\<close>

lemma check_stmts_same:
  "same_on tc tc' (Suc (size_list size es)) \<Longrightarrow> check_stmts tc cx es = check_stmts tc' cx es"
  by (induction es) (auto dest!: same_on_Cons)

lemma infer_block_same:
  "same_on tc tc' (Suc (size_list size es)) \<Longrightarrow> infer_block tc cx t es = infer_block tc' cx t es"
  by (induction es arbitrary: t) (auto dest!: same_on_Cons)

lemma infer_body_same:
  "same_on tc tc' (Suc (size_list size es)) \<Longrightarrow> infer_body tc cx t es = infer_body tc' cx t es"
  by (induction es arbitrary: t) (auto dest!: same_on_Cons)

lemma check_operands_same:
  "same_on tc tc' (Suc (size_list size es)) \<Longrightarrow> check_operands tc cx sp op i es ws = check_operands tc' cx sp op i es ws"
  by (induction tc cx sp op i es ws rule: check_operands.induct)
    (auto intro!: cbind_eq dest!: same_on_Cons)

lemma check_args_same:
  "same_on tc tc' (Suc (size_list size es)) \<Longrightarrow> check_args tc cx sp w i es ps = check_args tc' cx sp w i es ps"
  by (induction tc cx sp w i es ps rule: check_args.induct)
    (auto intro!: cbind_eq dest!: same_on_Cons)

lemma check_printed_same:
  "same_on tc tc' (Suc (size_list size es)) \<Longrightarrow> check_printed tc cx sp es = check_printed tc' cx sp es"
  by (induction es) (auto intro!: cbind_eq dest!: same_on_Cons)

lemma check_piece_same:
  assumes "same_on tc tc' (size p)"
  shows "check_piece tc cx op p = check_piece tc' cx op p"
proof -
  have "tc cx v = tc' cx v" if "p = EOp (OpFormat FormatPiece) [v, fmt] sp" for v fmt sp
    using same_onD [OF assms, of v cx] that by simp
  then show ?thesis
    unfolding check_piece_def
    by (auto intro!: cbind_eq split: expr.split literal.split opcode.split format_op.split list.split)
qed

lemma check_pieces_same:
  "same_on tc tc' (Suc (size_list size es)) \<Longrightarrow> check_pieces tc cx op es = check_pieces tc' cx op es"
proof (induction es)
  case (Cons p ps)
  have "check_piece tc cx op p = check_piece tc' cx op p"
    by (rule check_piece_same [OF same_on_mono [OF Cons.prems]]) simp
  moreover have "check_pieces tc cx op ps = check_pieces tc' cx op ps"
    by (rule Cons.IH [OF same_on_mono [OF Cons.prems]]) simp
  ultimately show ?case by simp
qed simp

lemma one_operand_same:
  "same_on tc tc' (Suc (size_list size es)) \<Longrightarrow> one_operand tc cx sp op es = one_operand tc' cx sp op es"
  by (auto simp: one_operand_def intro!: same_onD split: list.split)

lemma two_operands_same:
  "same_on tc tc' (Suc (size_list size es)) \<Longrightarrow> two_operands tc cx sp op es = two_operands tc' cx sp op es"
  by (auto simp: two_operands_def intro!: cbind_eq same_onD split: list.split)

lemma expect_operands_same:
  "same_on tc tc' (Suc (size_list size es)) \<Longrightarrow> expect_operands tc cx sp op es ws = expect_operands tc' cx sp op es ws"
  by (simp add: expect_operands_def check_operands_same)

lemmas operands_same = one_operand_same two_operands_same expect_operands_same

section \<open>Operations\<close>

lemma shown_side_same: "same_on tc tc' (size e) \<Longrightarrow> shown_side tc cx e = shown_side tc' cx e"
  by (auto simp: shown_side_def intro!: cbind_eq same_onD split: expr.split opcode.split list.split)

lemma infer_print_same:
  assumes "same_on tc tc' (Suc (size_list size es))"
  shows "infer_print tc cx sp op es = infer_print tc' cx sp op es"
proof (cases es)
  case Nil
  then show ?thesis by (simp add: infer_print_def)
next
  case (Cons b bs)
  have "check_writer tc cx sp b = check_writer tc' cx sp b"
    unfolding check_writer_def using assms Cons by (auto intro!: cbind_eq same_onD)
  moreover have "check_pieces tc cx o1 bs = check_pieces tc' cx o1 bs" for o1
    by (rule check_pieces_same [OF same_on_mono [OF assms]]) (simp add: Cons)
  ultimately show ?thesis
    using check_pieces_same [OF assms] by (simp add: infer_print_def Cons del: check_pieces.simps)
qed

lemma infer_format_same:
  assumes "same_on tc tc' (Suc (size_list size es))"
  shows "infer_format tc cx sp op es = infer_format tc' cx sp op es"
proof -
  have mem: "tc cx x = tc' cx x" if "x \<in> set es" for x
    by (rule same_onD [OF assms]) (use size_in_list [OF that] in simp)
  have side: "shown_side tc cx x = shown_side tc' cx x" if "x \<in> set es" for x
    by (rule shown_side_same [OF same_on_mono [OF assms]]) (use size_in_list [OF that] in simp)
  have "infer_expect tc cx sp es = infer_expect tc' cx sp es"
    using mem side by (auto simp: infer_expect_def Let_def intro!: cbind_eq split: list.split)
  moreover have "infer_assert tc cx sp es = infer_assert tc' cx sp es"
    using mem side by (auto simp: infer_assert_def Let_def intro!: cbind_eq split: list.split)
  moreover have "infer_dbg tc cx sp es = infer_dbg tc' cx sp es"
    using mem by (auto simp: infer_dbg_def Let_def intro!: cbind_eq split: list.split)
  ultimately show ?thesis
    using infer_print_same [OF assms] by (simp add: infer_format_def split: format_op.split)
qed

lemma infer_try_same:
  assumes "same_on tc tc' (Suc (size_list size es))"
  shows "infer_try tc cx sp k es = infer_try tc' cx sp k es"
proof (cases "length es = (if k = TryOr then 2 else 1)")
  case True
  then have "tc cx (es ! 0) = tc' cx (es ! 0)" "k = TryOr \<Longrightarrow> tc cx (es ! 1) = tc' cx (es ! 1)"
    by (auto intro!: same_onD [OF assms] size_in_list nth_mem split: if_splits)
  then show ?thesis
    by (auto simp: infer_try_def check_try_def Let_def intro!: cbind_eq split: option.split try_op.split)
qed (simp add: infer_try_def check_try_def Let_def)

lemma infer_thread_same:
  assumes "same_on tc tc' (Suc (size_list size es))"
  shows "infer_thread tc cx sp k es = infer_thread tc' cx sp k es"
  using operands_same [OF assms]
  by (auto simp: infer_thread_def infer_load_def Let_def intro!: cbind_eq same_onD [OF assms]
      split: thread_op.split list.split)

lemma infer_mem_same:
  "same_on tc tc' (Suc (size_list size es)) \<Longrightarrow> infer_mem tc cx sp k es = infer_mem tc' cx sp k es"
  by (cases k) (simp_all add: infer_mem_def infer_load_def infer_store_def operands_same)

lemma infer_atomic_same:
  "same_on tc tc' (Suc (size_list size es)) \<Longrightarrow> infer_atomic tc cx sp k es = infer_atomic tc' cx sp k es"
  by (cases k) (simp_all add: infer_atomic_def operands_same)

lemma infer_sys_same:
  "same_on tc tc' (Suc (size_list size es)) \<Longrightarrow> infer_sys tc cx sp k es = infer_sys tc' cx sp k es"
  by (cases k) (simp_all add: infer_sys_def infer_load_def operands_same check_printed_same)

lemma infer_op_same:
  assumes "same_on tc tc' (Suc (size_list size es))"
  shows "infer_op tc cx sp op es = infer_op tc' cx sp op es"
  unfolding infer_op_def
  by (intro cbind_eq refl, cases op)
    (simp_all add: infer_format_same [OF assms] infer_try_same [OF assms] infer_thread_same [OF assms]
      infer_mem_same [OF assms] infer_atomic_same [OF assms] infer_sys_same [OF assms]
      infer_abort_def infer_drop_def infer_checked_def infer_arith_def infer_bit_def
      infer_cmp_def infer_logic_def infer_not_def infer_str_def infer_host_def infer_conv_def
      operands_same [OF assms] Let_def)

section \<open>Expressions\<close>

lemma check_arms_same:
  "same_on tc tc' (Suc (size_list size arms)) \<Longrightarrow>
     check_arms tc cx tn ms seen tys arms = check_arms tc' cx tn ms seen tys arms"
proof (induction arms arbitrary: seen tys)
  case (Cons a arms)
  have "infer_body tc cx TVoid (arm_body a) = infer_body tc' cx TVoid (arm_body a)"
    by (rule infer_body_same [OF same_on_mono [OF Cons.prems]]) (cases a, simp)
  moreover have "check_arms tc cx tn ms s t arms = check_arms tc' cx tn ms s t arms" for s t
    by (rule Cons.IH [OF same_on_mono [OF Cons.prems]]) simp
  ultimately show ?case by (simp split: option.split)
qed simp

lemma infer_expr_same:
  assumes "same_on tc tc' (size e)"
  shows "infer_expr tc cx e = infer_expr tc' cx e"
proof -
  have s: "tc cx x = tc' cx x" if "x \<in> set (children e)" for cx x
    by (rule same_onD [OF assms children_size [OF that]])
  note m = same_on_mono [OF assms]
  show ?thesis
  proof (cases e)
    case (ELet x t v sp)
    have c: "tc cx u = tc' cx u" if "u \<in> set (children (ELet x t v sp))" for cx u using s that ELet by simp
    show ?thesis by (simp add: ELet infer_expr_def infer_let_def c children_def
        cong del: if_weak_cong option.case_cong_weak ty.case_cong_weak list.case_cong_weak)
  next
    case (ESet x v sp)
    have c: "tc cx u = tc' cx u" if "u \<in> set (children (ESet x v sp))" for cx u using s that ESet by simp
    show ?thesis by (simp add: ESet infer_expr_def infer_set_def c children_def
        cong del: if_weak_cong option.case_cong_weak ty.case_cong_weak list.case_cong_weak)
  next
    case (EIf c1 e1 e2 sp)
    have c: "tc cx u = tc' cx u" if "u \<in> set (children (EIf c1 e1 e2 sp))" for cx u using s that EIf by simp
    show ?thesis by (simp add: EIf infer_expr_def infer_if_def c children_def
        cong del: if_weak_cong option.case_cong_weak ty.case_cong_weak list.case_cong_weak)
  next
    case (ELoop x e1 e2 e3 body sp)
    have c: "tc cx u = tc' cx u" if "u \<in> set (children (ELoop x e1 e2 e3 body sp))" for cx u using s that ELoop by simp
    have l0: "same_on tc tc' (Suc (size_list size body))" by (rule m) (simp add: ELoop)
    show ?thesis by (simp add: ELoop infer_expr_def infer_loop_def check_loop_body_def c children_def check_stmts_same [OF l0]
        cong del: if_weak_cong option.case_cong_weak ty.case_cong_weak list.case_cong_weak)
  next
    case (EWhile c1 body sp)
    have c: "tc cx u = tc' cx u" if "u \<in> set (children (EWhile c1 body sp))" for cx u using s that EWhile by simp
    have l0: "same_on tc tc' (Suc (size_list size body))" by (rule m) (simp add: EWhile)
    show ?thesis by (simp add: EWhile infer_expr_def infer_while_def check_loop_body_def c children_def check_stmts_same [OF l0]
        cong del: if_weak_cong option.case_cong_weak ty.case_cong_weak list.case_cong_weak)
  next
    case (ECall f args sp)
    have c: "tc cx u = tc' cx u" if "u \<in> set (children (ECall f args sp))" for cx u using s that ECall by simp
    have l0: "same_on tc tc' (Suc (size_list size args))" by (rule m) (simp add: ECall)
    show ?thesis by (simp add: ECall infer_expr_def infer_call_def c children_def check_args_same [OF l0]
        cong del: if_weak_cong option.case_cong_weak ty.case_cong_weak list.case_cong_weak)
  next
    case (EOp op args sp)
    have c: "tc cx u = tc' cx u" if "u \<in> set (children (EOp op args sp))" for cx u using s that EOp by simp
    have l0: "same_on tc tc' (Suc (size_list size args))" by (rule m) (simp add: EOp)
    show ?thesis by (simp add: EOp infer_expr_def  c children_def infer_op_same [OF l0]
        cong del: if_weak_cong option.case_cong_weak ty.case_cong_weak list.case_cong_weak)
  next
    case (EOk v t sp)
    have c: "tc cx u = tc' cx u" if "u \<in> set (children (EOk v t sp))" for cx u using s that EOk by simp
    show ?thesis by (simp add: EOk infer_expr_def infer_ok_def c children_def
        cong del: if_weak_cong option.case_cong_weak ty.case_cong_weak list.case_cong_weak)
  next
    case (EErr v t sp)
    have c: "tc cx u = tc' cx u" if "u \<in> set (children (EErr v t sp))" for cx u using s that EErr by simp
    show ?thesis by (simp add: EErr infer_expr_def infer_err_def c children_def
        cong del: if_weak_cong option.case_cong_weak ty.case_cong_weak list.case_cong_weak)
  next
    case (EMatchResult v x b1 y b2 sp)
    have c: "tc cx u = tc' cx u" if "u \<in> set (children (EMatchResult v x b1 y b2 sp))" for cx u using s that EMatchResult by simp
    have l0: "same_on tc tc' (Suc (size_list size b1))" by (rule m) (simp add: EMatchResult)
    have l1: "same_on tc tc' (Suc (size_list size b2))" by (rule m) (simp add: EMatchResult)
    show ?thesis by (simp add: EMatchResult infer_expr_def infer_match_result_def c children_def infer_body_same [OF l0] infer_body_same [OF l1]
        cong del: if_weak_cong option.case_cong_weak ty.case_cong_weak list.case_cong_weak)
  next
    case (EBlock es sp)
    have c: "tc cx u = tc' cx u" if "u \<in> set (children (EBlock es sp))" for cx u using s that EBlock by simp
    have l0: "same_on tc tc' (Suc (size_list size es))" by (rule m) (simp add: EBlock)
    show ?thesis by (simp add: EBlock infer_expr_def  c children_def infer_block_same [OF l0]
        cong del: if_weak_cong option.case_cong_weak ty.case_cong_weak list.case_cong_weak)
  next
    case (EUnsafe es sp)
    have c: "tc cx u = tc' cx u" if "u \<in> set (children (EUnsafe es sp))" for cx u using s that EUnsafe by simp
    have l0: "same_on tc tc' (Suc (size_list size es))" by (rule m) (simp add: EUnsafe)
    show ?thesis by (simp add: EUnsafe infer_expr_def infer_unsafe_def c children_def infer_block_same [OF l0]
        cong del: if_weak_cong option.case_cong_weak ty.case_cong_weak list.case_cong_weak)
  next
    case (EGetField sn f v sp)
    have c: "tc cx u = tc' cx u" if "u \<in> set (children (EGetField sn f v sp))" for cx u using s that EGetField by simp
    show ?thesis by (simp add: EGetField infer_expr_def infer_get_def c children_def
        cong del: if_weak_cong option.case_cong_weak ty.case_cong_weak list.case_cong_weak)
  next
    case (EPutField sn f v w path sp)
    have c: "tc cx u = tc' cx u" if "u \<in> set (children (EPutField sn f v w path sp))" for cx u using s that EPutField by simp
    show ?thesis by (simp add: EPutField infer_expr_def infer_put_def c children_def
        cong del: if_weak_cong option.case_cong_weak ty.case_cong_weak list.case_cong_weak)
  next
    case (EArrGet t v i sp)
    have c: "tc cx u = tc' cx u" if "u \<in> set (children (EArrGet t v i sp))" for cx u using s that EArrGet by simp
    show ?thesis by (simp add: EArrGet infer_expr_def infer_arr_get_def c children_def
        cong del: if_weak_cong option.case_cong_weak ty.case_cong_weak list.case_cong_weak)
  next
    case (EArrSet t v i w path sp)
    have c: "tc cx u = tc' cx u" if "u \<in> set (children (EArrSet t v i w path sp))" for cx u using s that EArrSet by simp
    show ?thesis by (simp add: EArrSet infer_expr_def infer_arr_set_def c children_def
        cong del: if_weak_cong option.case_cong_weak ty.case_cong_weak list.case_cong_weak)
  next
    case (EArrLen v sp)
    have c: "tc cx u = tc' cx u" if "u \<in> set (children (EArrLen v sp))" for cx u using s that EArrLen by simp
    show ?thesis by (simp add: EArrLen infer_expr_def infer_arr_len_def c children_def
        cong del: if_weak_cong option.case_cong_weak ty.case_cong_weak list.case_cong_weak)
  next
    case (ECast t a g sp)
    have c: "tc cx u = tc' cx u" if "u \<in> set (children (ECast t a g sp))" for cx u using s that ECast by simp
    show ?thesis by (cases g) (simp_all add: ECast infer_expr_def infer_cast_def c children_def
        cong del: if_weak_cong option.case_cong_weak ty.case_cong_weak list.case_cong_weak)
  next
    case (ERecord sn args sp)
    have c: "tc cx u = tc' cx u" if "u \<in> set (children (ERecord sn args sp))" for cx u using s that ERecord by simp
    have l0: "same_on tc tc' (Suc (size_list size args))" by (rule m) (simp add: ERecord)
    show ?thesis by (simp add: ERecord infer_expr_def infer_record_def c children_def check_args_same [OF l0]
        cong del: if_weak_cong option.case_cong_weak ty.case_cong_weak list.case_cong_weak)
  next
    case (EWith sn f v w sp)
    have c: "tc cx u = tc' cx u" if "u \<in> set (children (EWith sn f v w sp))" for cx u using s that EWith by simp
    show ?thesis by (simp add: EWith infer_expr_def infer_with_def c children_def
        cong del: if_weak_cong option.case_cong_weak ty.case_cong_weak list.case_cong_weak)
  next
    case (EMake un vn args sp)
    have c: "tc cx u = tc' cx u" if "u \<in> set (children (EMake un vn args sp))" for cx u using s that EMake by simp
    have l0: "same_on tc tc' (Suc (size_list size args))" by (rule m) (simp add: EMake)
    show ?thesis by (simp add: EMake infer_expr_def infer_make_def c children_def check_args_same [OF l0]
        cong del: if_weak_cong option.case_cong_weak ty.case_cong_weak list.case_cong_weak)
  next
    case (EMatch v arms els sp)
    have c: "tc cx u = tc' cx u" if "u \<in> set (children (EMatch v arms els sp))" for cx u using s that EMatch by simp
    have l0: "same_on tc tc' (Suc (size_list size arms))" by (rule m) (simp add: EMatch)
    have l1: "same_on tc tc' (Suc (size_list size body))" if "els = Some body" for body
      by (rule m) (simp add: EMatch that)
    have "check_else tc cx sp tn ms seen tys els = check_else tc' cx sp tn ms seen tys els" for tn ms seen tys
      by (cases els) (simp_all add: check_else_def infer_body_same [OF l1])
    then show ?thesis
      by (simp add: EMatch infer_expr_def infer_match_def c children_def check_arms_same [OF l0]
        cong del: if_weak_cong option.case_cong_weak ty.case_cong_weak list.case_cong_weak)
  next
    case (EReturn v sp)
    have c: "tc cx u = tc' cx u" if "u \<in> set (children (EReturn v sp))" for cx u using s that EReturn by simp
    show ?thesis by (cases v) (simp_all add: EReturn infer_expr_def infer_return_def c children_def
        cong del: if_weak_cong option.case_cong_weak ty.case_cong_weak list.case_cong_weak)
  next
    case (ECallRef t f args sp)
    have c: "tc cx u = tc' cx u" if "u \<in> set (children (ECallRef t f args sp))" for cx u using s that ECallRef by simp
    have l0: "same_on tc tc' (Suc (size_list size args))" by (rule m) (simp add: ECallRef)
    show ?thesis
      by (simp add: ECallRef infer_expr_def infer_call_ref_def c children_def check_args_same [OF l0] split: ty.split
        cong del: if_weak_cong option.case_cong_weak ty.case_cong_weak list.case_cong_weak)
  next
    case (EAddr v k sp)
    have c: "tc cx u = tc' cx u" if "u \<in> set (children (EAddr v k sp))" for cx u using s that EAddr by simp
    show ?thesis by (simp add: EAddr infer_expr_def infer_addr_def c children_def
        cong del: if_weak_cong option.case_cong_weak ty.case_cong_weak list.case_cong_weak)
  qed (simp_all add: infer_expr_def)
qed

section \<open>The fuel is enough\<close>

lemma infer_n_enough: "size e < n \<Longrightarrow> size e < k \<Longrightarrow> infer_n n cx e = infer_n k cx e"
proof (induction n arbitrary: cx e k)
  case (Suc n)
  then obtain j where k: "k = Suc j" by (cases k) auto
  have "infer_n n cx' x = infer_n j cx' x" if "size x < size e" for cx' x
    by (rule Suc.IH) (use that Suc.prems k in simp_all)
  then have "same_on (infer_n n) (infer_n j) (size e)" by (simp add: same_on_def)
  then show ?case by (simp add: k infer_expr_same)
qed simp

lemma infer_unfold: "infer cx e = infer_expr infer cx e"
proof -
  have "infer_n (size e) cx' x = infer_n (Suc (size x)) cx' x" if "size x < size e" for cx' x
    by (rule infer_n_enough) (use that in simp_all)
  then have "same_on (infer_n (size e)) infer (size e)" by (simp add: same_on_def infer_def)
  then show ?thesis unfolding infer_def [of cx e] by (simp add: infer_expr_same)
qed

lemma infer_n_infer: "size e < n \<Longrightarrow> infer_n n cx e = infer cx e"
  unfolding infer_def by (rule infer_n_enough) simp_all

end
