(* ===== verification/Leaks.thy ===== *)
theory Leaks
  imports Walk "HOL-Library.Product_Lexorder"
begin

text \<open>
  The leak analysis (\<^verbatim>\<open>src/leaks.rs\<close>): which functions may make memory that is never freed, and
  the functions marked \<^verbatim>\<open>(no_leak)\<close> that do. \<open>sites\<close> collects what a function's code does, with
  the positions under \<^verbatim>\<open>unsafe\<close> and under an abort's message, as the Rust code does, by position;
  \<open>leak_loop\<close> is the fixed point of \<^verbatim>\<open>Analysis::new\<close>; the table of reasons is in the order the
  reasons were found, newest first. \<open>leaks\<close> is the specification: the least set closed under
  ``uses'' and ``calls''.
\<close>

section \<open>Sites\<close>

datatype site = SLeak string | SCall string

type_synonym sited = "span \<times> site \<times> bool"

definition walk_all :: "expr list \<Rightarrow> expr list" where
  "walk_all es = concat (map walk es)"

definition through :: string where
  "through = ''a call through a function type without (no_leak)''"

definition unsafe_spans :: "fn_def \<Rightarrow> span list" where
  "unsafe_spans f =
     concat (map (\<lambda>e. case e of EUnsafe body _ \<Rightarrow> map expr_span (walk_all body) | _ \<Rightarrow> [])
       (walk_all (fd_body f)))"

definition ending_args :: "expr \<Rightarrow> expr list option" where
  "ending_args e =
     (case e of
        EOp OpAbort args _ \<Rightarrow> Some args
      | EOp (OpFormat FormatAssert) args _ \<Rightarrow> Some (drop 2 args)
      | ECall g args _ \<Rightarrow> if g = ''assertion.failed'' \<or> g = ''assertion.failed_cmp'' then Some args else None
      | _ \<Rightarrow> None)"

definition is_assert :: "expr \<Rightarrow> bool" where
  "is_assert e = (case e of EOp (OpFormat FormatAssert) _ _ \<Rightarrow> True | _ \<Rightarrow> False)"

definition ending_spans :: "fn_def \<Rightarrow> span list" where
  "ending_spans f =
     concat (map (\<lambda>e. case ending_args e of
         Some args \<Rightarrow> (if is_assert e then [] else [expr_span e]) @ map expr_span (walk_all args)
       | None \<Rightarrow> []) (walk_all (fd_body f)))"

definition site_of :: "expr \<Rightarrow> site option" where
  "site_of e =
     (case e of
        EOp (OpMem MemAlloc) _ _ \<Rightarrow> Some (SLeak ''mem.alloc'')
      | EOp (OpFormat FormatStr) _ _ \<Rightarrow> Some (SLeak ''format (a str)'')
      | ECallRef (TFn _ _ True) _ _ _ \<Rightarrow> None
      | ECallRef _ _ _ _ \<Rightarrow> Some (SLeak through)
      | ECall g _ _ \<Rightarrow> if g = ''alloc.forever'' then Some (SLeak ''alloc.forever'') else Some (SCall g)
      | _ \<Rightarrow> None)"

definition sites :: "fn_def \<Rightarrow> sited list" where
  "sites f =
     sort_key fst
       (List.map_filter (\<lambda>e.
          let at = expr_span e
          in if at \<in> set (ending_spans f) then None
             else map_option (\<lambda>s. (at, s, fd_is_unsafe f \<or> at \<in> set (unsafe_spans f))) (site_of e))
        (walk_all (fd_body f)))"

section \<open>The analysis\<close>

datatype why = Uses string | Calls string

record analysis =
  an_all :: "string \<rightharpoonup> sited list"
  an_why :: "(string \<times> why) list"

definition all_sites :: "Ast.module \<Rightarrow> string \<rightharpoonup> sited list" where
  "all_sites m = map_of (rev (map (\<lambda>f. (fd_name f, sites f)) (m_functions m)))"

definition marked :: "Ast.module \<Rightarrow> string \<Rightarrow> bool" where
  "marked m n \<longleftrightarrow> (\<exists>f \<in> set (m_functions m). fd_is_no_leak f \<and> fd_name f = n)"

definition sites_at :: "(string \<rightharpoonup> sited list) \<Rightarrow> string \<Rightarrow> sited list" where
  "sites_at all n = (case all n of Some ss \<Rightarrow> ss | None \<Rightarrow> [])"

definition site_reason :: "(string \<times> why) list \<Rightarrow> site \<Rightarrow> why option" where
  "site_reason why s =
     (case s of
        SLeak what \<Rightarrow> Some (Uses what)
      | SCall g \<Rightarrow> if g \<in> fst ` set why then Some (Calls g) else None)"

definition find_reason :: "(string \<rightharpoonup> sited list) \<Rightarrow> (string \<times> why) list \<Rightarrow> string \<Rightarrow> why option" where
  "find_reason all why n =
     (case List.map_filter (\<lambda>(_, s, _). site_reason why s) (sites_at all n) of [] \<Rightarrow> None | r # _ \<Rightarrow> Some r)"

text \<open>One pass over the functions in their order, and whether it found more.\<close>

fun leak_pass :: "Ast.module \<Rightarrow> fn_def list \<Rightarrow> (string \<times> why) list \<Rightarrow> (string \<times> why) list \<times> bool" where
  "leak_pass m [] why = (why, False)"
| "leak_pass m (f # fs) why =
     (let n = fd_name f
      in if marked m n \<or> n \<in> fst ` set why then leak_pass m fs why
         else case find_reason (all_sites m) why n of
                None \<Rightarrow> leak_pass m fs why
              | Some r \<Rightarrow> (fst (leak_pass m fs ((n, r) # why)), True))"

lemma leak_pass_mono: "fst ` set why \<subseteq> fst ` set (fst (leak_pass m fs why))"
  by (induction m fs why rule: leak_pass.induct) (auto simp: Let_def split: option.splits)

lemma leak_pass_more:
  "snd (leak_pass m fs why) \<Longrightarrow>
     \<exists>n \<in> fd_name ` set fs. n \<notin> fst ` set why \<and> n \<in> fst ` set (fst (leak_pass m fs why))"
proof (induction m fs why rule: leak_pass.induct)
  case (2 m f fs why)
  show ?case
  proof (cases "marked m (fd_name f) \<or> fd_name f \<in> fst ` set why \<or> find_reason (all_sites m) why (fd_name f) = None")
    case True
    then show ?thesis using 2 by (auto simp: Let_def split: option.splits)
  next
    case False
    then obtain r where r: "find_reason (all_sites m) why (fd_name f) = Some r" by auto
    have "fd_name f \<in> fst ` set (fst (leak_pass m fs ((fd_name f, r) # why)))"
      using leak_pass_mono [of "(fd_name f, r) # why" m fs] by auto
    with False r show ?thesis by (simp add: Let_def)
  qed
qed simp

definition unexplained :: "Ast.module \<Rightarrow> (string \<times> why) list \<Rightarrow> string set" where
  "unexplained m why = fd_name ` set (m_functions m) - fst ` set why"

function leak_loop :: "Ast.module \<Rightarrow> (string \<times> why) list \<Rightarrow> (string \<times> why) list" where
  "leak_loop m why =
     (if snd (leak_pass m (m_functions m) why)
      then leak_loop m (fst (leak_pass m (m_functions m) why))
      else fst (leak_pass m (m_functions m) why))"
  by pat_completeness auto
termination
proof (relation "measure (\<lambda>(m, why). card (unexplained m why))")
  fix m why assume more: "snd (leak_pass m (m_functions m) why)"
  have "unexplained m (fst (leak_pass m (m_functions m) why)) \<subset> unexplained m why"
    using leak_pass_mono [of why m "m_functions m"] leak_pass_more [OF more]
    unfolding unexplained_def by blast
  then have "card (unexplained m (fst (leak_pass m (m_functions m) why))) < card (unexplained m why)"
    by (rule psubset_card_mono [rotated]) (simp add: unexplained_def)
  then show "((m, fst (leak_pass m (m_functions m) why)), m, why)
      \<in> measure (\<lambda>(m, why). card (unexplained m why))" by simp
qed simp

declare leak_loop.simps [simp del]

definition analysis_new :: "Ast.module \<Rightarrow> analysis" where
  "analysis_new m = \<lparr>an_all = all_sites m, an_why = leak_loop m []\<rparr>"

definition may_leak :: "analysis \<Rightarrow> string \<Rightarrow> bool" where
  "may_leak a f \<longleftrightarrow> map_of (an_why a) f \<noteq> None"

section \<open>The chain of reasons, and the errors\<close>

text \<open>
  \<^verbatim>\<open>chain\<close> follows the reasons until one is not a call: fuel bounds the walk, and
  \<open>None\<close> says that it ran out, where the Rust loop would not return.
\<close>

fun chain_n :: "nat \<Rightarrow> (string \<times> why) list \<Rightarrow> string \<Rightarrow> (string \<times> why) list option" where
  "chain_n 0 why at = None"
| "chain_n (Suc n) why at =
     (case map_of why at of
        Some (Uses what) \<Rightarrow> Some [(at, Uses what)]
      | Some (Calls g) \<Rightarrow> map_option (Cons (at, Calls g)) (chain_n n why g)
      | None \<Rightarrow> Some [])"

fun link_text :: "string \<times> why \<Rightarrow> string" where
  "link_text (at, Uses what) = at @ '' uses '' @ what"
| "link_text (at, Calls g) = at @ '' calls '' @ g"

fun join :: "string \<Rightarrow> string list \<Rightarrow> string" where
  "join sep [] = []"
| "join sep [x] = x"
| "join sep (x # y # xs) = x @ sep @ join sep (y # xs)"

definition chain_links :: "analysis \<Rightarrow> string \<Rightarrow> (string \<times> why) list option" where
  "chain_links a start = chain_n (Suc (length (an_why a))) (an_why a) start"

definition chain :: "analysis \<Rightarrow> string \<Rightarrow> string option" where
  "chain a start = map_option (\<lambda>ls. join ''; '' (map link_text ls)) (chain_links a start)"

text \<open>Whether a site breaks its function's promise: outside unsafe, a leak or a call that may leak.\<close>

definition offends :: "analysis \<Rightarrow> sited \<Rightarrow> bool" where
  "offends a s =
     (case s of (_, s, in_unsafe) \<Rightarrow>
        \<not> in_unsafe \<and> (case s of SLeak _ \<Rightarrow> True | SCall g \<Rightarrow> may_leak a g))"

definition leaks_check :: "Ast.module \<Rightarrow> (string \<times> span \<times> site) list" where
  "leaks_check m =
     (let a = analysis_new m
      in List.map_filter (\<lambda>f. map_option (\<lambda>(at, s, _). (fd_name f, at, s))
             (List.find (offends a) (sites_at (an_all a) (fd_name f))))
           (filter fd_is_no_leak (m_functions m)))"

section \<open>What the analysis computes\<close>

inductive leaks :: "Ast.module \<Rightarrow> string \<Rightarrow> bool" for m where
  uses: "f \<in> set (m_functions m) \<Longrightarrow> \<not> marked m (fd_name f) \<Longrightarrow>
     (at, SLeak what, u) \<in> set (sites_at (all_sites m) (fd_name f)) \<Longrightarrow> leaks m (fd_name f)"
| calls: "f \<in> set (m_functions m) \<Longrightarrow> \<not> marked m (fd_name f) \<Longrightarrow>
     (at, SCall g, u) \<in> set (sites_at (all_sites m) (fd_name f)) \<Longrightarrow> leaks m g \<Longrightarrow> leaks m (fd_name f)"

lemma map_filter_hd: "(case List.map_filter f xs of [] \<Rightarrow> None | y # _ \<Rightarrow> Some y) = Some r \<Longrightarrow> \<exists>x \<in> set xs. f x = Some r"
  by (metis in_set_map_filter list.case_eq_if list.set_sel(1) option.distinct(1) option.inject)

lemma find_reason_Some:
  assumes "find_reason all why n = Some r"
  shows "\<exists>at s u. (at, s, u) \<in> set (sites_at all n) \<and> site_reason why s = Some r"
proof -
  from map_filter_hd [OF assms [unfolded find_reason_def]] show ?thesis by fastforce
qed

lemma find_reason_None:
  "find_reason all why n = None \<Longrightarrow> (at, s, u) \<in> set (sites_at all n) \<Longrightarrow> site_reason why s = None"
  by (auto simp: find_reason_def map_filter_def filter_empty_conv split: list.splits)

text \<open>
  The reasons are sound: each names a function that leaks, for the reason given, and a call's
  reason was found before it.
\<close>

fun reasons_ok :: "Ast.module \<Rightarrow> (string \<times> why) list \<Rightarrow> bool" where
  "reasons_ok m [] = True"
| "reasons_ok m ((n, r) # why) =
     (reasons_ok m why \<and> leaks m n \<and> n \<notin> fst ` set why
        \<and> (case r of Uses _ \<Rightarrow> True | Calls g \<Rightarrow> g \<in> fst ` set why))"

lemma reasons_leak: "reasons_ok m why \<Longrightarrow> n \<in> fst ` set why \<Longrightarrow> leaks m n"
  by (induction m why rule: reasons_ok.induct) auto

lemma leak_pass_sound:
  "reasons_ok m why \<Longrightarrow> set fs \<subseteq> set (m_functions m) \<Longrightarrow> reasons_ok m (fst (leak_pass m fs why))"
proof (induction m fs why rule: leak_pass.induct)
  case (2 m f fs why)
  show ?case
  proof (cases "marked m (fd_name f) \<or> fd_name f \<in> fst ` set why \<or> find_reason (all_sites m) why (fd_name f) = None")
    case True
    then show ?thesis using 2 by (auto simp: Let_def split: option.splits)
  next
    case False
    then obtain r where r: "find_reason (all_sites m) why (fd_name f) = Some r" by auto
    from find_reason_Some [OF this] obtain at s u
      where s: "(at, s, u) \<in> set (sites_at (all_sites m) (fd_name f))" "site_reason why s = Some r" by blast
    have f: "f \<in> set (m_functions m)" using "2.prems" by simp
    have "leaks m (fd_name f) \<and> (case r of Uses _ \<Rightarrow> True | Calls g \<Rightarrow> g \<in> fst ` set why)"
    proof (cases s)
      case (SLeak what)
      with s f False show ?thesis by (auto simp: site_reason_def intro: leaks.uses)
    next
      case (SCall g)
      with s have g: "g \<in> fst ` set why" "r = Calls g" by (auto simp: site_reason_def split: if_splits)
      from reasons_leak [OF "2.prems"(1) g(1)] s SCall f False g show ?thesis by (auto intro: leaks.calls)
    qed
    with 2 False r show ?thesis by (simp add: Let_def)
  qed
qed simp

lemma leak_pass_done:
  "\<not> snd (leak_pass m fs why) \<Longrightarrow> fst (leak_pass m fs why) = why
     \<and> (\<forall>f \<in> set fs. marked m (fd_name f) \<or> fd_name f \<in> fst ` set why
          \<or> find_reason (all_sites m) why (fd_name f) = None)"
  by (induction m fs why rule: leak_pass.induct) (auto simp: Let_def split: if_splits option.splits)

lemma leak_loop_sound: "reasons_ok m why \<Longrightarrow> reasons_ok m (leak_loop m why)"
proof (induction m why rule: leak_loop.induct)
  case (1 m why)
  then show ?case by (subst leak_loop.simps) (auto intro: leak_pass_sound)
qed

lemma leak_loop_done: "\<not> snd (leak_pass m (m_functions m) (leak_loop m why))"
proof (induction m why rule: leak_loop.induct)
  case (1 m why)
  show ?case
  proof (cases "snd (leak_pass m (m_functions m) why)")
    case True
    with 1 show ?thesis by (subst leak_loop.simps) simp
  next
    case False
    then show ?thesis using leak_pass_done [OF False] by (subst leak_loop.simps) simp
  qed
qed

lemma explained:
  assumes "f \<in> set (m_functions m)" "\<not> marked m (fd_name f)"
    and "(at, s, u) \<in> set (sites_at (all_sites m) (fd_name f))" "site_reason (leak_loop m []) s \<noteq> None"
  shows "fd_name f \<in> fst ` set (leak_loop m [])"
proof (rule ccontr)
  assume "fd_name f \<notin> fst ` set (leak_loop m [])"
  with leak_pass_done [OF leak_loop_done [of m "[]"]] assms(1,2)
  have "find_reason (all_sites m) (leak_loop m []) (fd_name f) = None" by blast
  from find_reason_None [OF this assms(3)] assms(4) show False by simp
qed

lemma leaks_found:
  assumes "leaks m n"
  shows "n \<in> fst ` set (leak_loop m [])"
  using assms
proof (induction rule: leaks.induct)
  case (uses f at what u)
  then show ?case by (rule explained) (simp add: site_reason_def)
next
  case (calls f at g u)
  from calls.hyps(1-3) show ?case by (rule explained) (use calls.IH in \<open>simp add: site_reason_def\<close>)
qed

lemma reasons_all: "reasons_ok m (leak_loop m [])"
  by (rule leak_loop_sound) simp

lemma chain_ends:
  "reasons_ok m why \<Longrightarrow> n \<in> fst ` set why \<Longrightarrow> length why \<le> k \<Longrightarrow>
     \<exists>ls what. chain_n k why n = Some ls \<and> ls \<noteq> [] \<and> snd (last ls) = Uses what"
proof (induction why arbitrary: n k)
  case (Cons e why)
  obtain p r where e: "e = (p, r)" by fastforce
  obtain j where k: "k = Suc j" "length why \<le> j" using Cons.prems(3) by (cases k) auto
  have skip: "chain_n i (e # why) q = chain_n i why q" if "q \<in> fst ` set why" for i q
    using that
  proof (induction i arbitrary: q)
    case (Suc i)
    have ok: "reasons_ok m why" "p \<notin> fst ` set why" using Cons.prems(1) by (auto simp: e)
    have next_in: "g \<in> fst ` set why" if "map_of why q = Some (Calls g)" for g
    proof -
      have "reasons_ok m ws \<Longrightarrow> map_of ws q = Some (Calls g) \<Longrightarrow> g \<in> fst ` set ws" for ws
        by (induction m ws rule: reasons_ok.induct) (auto split: if_splits)
      with ok(1) that show ?thesis by blast
    qed
    show ?case using Suc ok(2) next_in by (auto simp: e split: option.splits why.splits)
  qed simp
  show ?case
  proof (cases "n = p")
    case True
    show ?thesis
    proof (cases r)
      case (Uses what)
      with True e k show ?thesis by auto
    next
      case (Calls g)
      with Cons.prems e have g: "g \<in> fst ` set why" "reasons_ok m why" by auto
      from Cons.IH [OF g(2,1) k(2)] obtain ls what
        where "chain_n j why g = Some ls" "ls \<noteq> []" "snd (last ls) = Uses what" by blast
      with True e k Calls skip [OF g(1)] show ?thesis by auto
    qed
  next
    case False
    with Cons.prems e have n: "n \<in> fst ` set why" "reasons_ok m why" by auto
    have "length why \<le> k" using k by simp
    from Cons.IH [OF n(2,1) this] show ?thesis by (simp only: skip [OF n(1)])
  qed
qed simp

lemma may_leak_iff: "may_leak (analysis_new m) f \<longleftrightarrow> f \<in> fst ` set (leak_loop m [])"
  by (simp add: may_leak_def analysis_new_def map_of_eq_None_iff)

section \<open>Properties\<close>

text \<open>
  C15. The analysis is exact: it says that a function may leak exactly when, through calls of
  functions that do not promise, code that allocates for good is reached. The fixed point is
  found, and nothing but it.
\<close>

theorem leak_analysis_exact: "may_leak (analysis_new m) f \<longleftrightarrow> leaks m f"
  by (metis leaks_found reasons_leak reasons_all may_leak_iff)

text \<open>
  The explanation of a function that may leak ends: following the reasons takes at most one
  step per reason, begins at the function and arrives at code that allocates.
\<close>

theorem leak_chain_ends:
  assumes "may_leak (analysis_new m) f"
  shows "\<exists>ls what. chain_links (analysis_new m) f = Some ls \<and> ls \<noteq> [] \<and> snd (last ls) = Uses what"
proof -
  have "length (an_why (analysis_new m)) \<le> Suc (length (an_why (analysis_new m)))" by simp
  with chain_ends [OF reasons_all, of f m] assms show ?thesis
    by (simp add: chain_links_def analysis_new_def may_leak_iff [unfolded analysis_new_def] del: chain_n.simps)
qed

lemma walk_call: "walk_all (ECall g args sp # es) = ECall g args sp # walk_all args @ walk_all es"
  by (simp add: walk_all_def walk.simps [of "ECall g args sp"] children_def)

lemma walk_op: "walk_all (EOp g args sp # es) = EOp g args sp # walk_all args @ walk_all es"
  by (simp add: walk_all_def walk.simps [of "EOp g args sp"] children_def)

lemma walk_unsafe: "walk_all (EUnsafe body sp # es) = EUnsafe body sp # walk_all body @ walk_all es"
  by (simp add: walk_all_def walk.simps [of "EUnsafe body sp"] children_def)

lemma walk_lit: "walk_all (ELit l sp # es) = ELit l sp # walk_all es"
  by (simp add: walk_all_def walk.simps [of "ELit l sp"] children_def)

lemma walk_none: "walk_all [] = []"
  by (simp add: walk_all_def)

lemmas site_simps = sites_def walk_call walk_op walk_unsafe walk_lit walk_none ending_spans_def
  ending_args_def site_of_def unsafe_spans_def List.map_filter_def

definition demo_leaky :: Ast.module where
  "demo_leaky =
     \<lparr>m_name = ''m'', m_imports = [], m_structs = [], m_enums = [], m_unions = [],
      m_functions =
        [\<lparr>fd_name = ''f'', fd_params = [], fd_return_type = TI32, fd_contracts = [],
          fd_body = [ECall ''g'' [] (2, 1)], fd_span = (1, 1), fd_is_unsafe = False, fd_is_no_leak = False\<rparr>,
         \<lparr>fd_name = ''g'', fd_params = [], fd_return_type = TI32, fd_contracts = [],
          fd_body = [EUnsafe [EOp (OpMem MemAlloc) [ELit (LInt 8) (4, 9)] (4, 5)] (4, 1)],
          fd_span = (3, 1), fd_is_unsafe = False, fd_is_no_leak = False\<rparr>],
      m_sources = Map.empty, m_file_names = Map.empty\<rparr>"

lemma demo_leaky_leaks: "leaks demo_leaky ''f''"
proof -
  let ?f = "m_functions demo_leaky ! 0" and ?g = "m_functions demo_leaky ! 1"
  have s: "sites ?g = [((4, 5), SLeak ''mem.alloc'', True)]" "sites ?f = [((2, 1), SCall ''g'', False)]"
    by (auto simp: demo_leaky_def site_simps)
  have u: "\<not> marked demo_leaky n" for n by (simp add: marked_def demo_leaky_def)
  have "sites_at (all_sites demo_leaky) ''g'' = sites ?g" "sites_at (all_sites demo_leaky) ''f'' = sites ?f"
    by (simp_all add: sites_at_def all_sites_def demo_leaky_def)
  with s have g: "((4, 5), SLeak ''mem.alloc'', True) \<in> set (sites_at (all_sites demo_leaky) (fd_name ?g))"
    and f: "((2, 1), SCall ''g'', False) \<in> set (sites_at (all_sites demo_leaky) (fd_name ?f))"
    by (simp_all add: demo_leaky_def)
  have "leaks demo_leaky (fd_name ?g)" by (rule leaks.uses [OF _ u g]) (simp add: demo_leaky_def)
  then have "leaks demo_leaky ''g''" by (simp add: demo_leaky_def)
  with leaks.calls [OF _ u f] show ?thesis by (simp add: demo_leaky_def)
qed

lemma leak_chain_ends_witness:
  "\<exists>ls what. chain_links (analysis_new demo_leaky) ''f'' = Some ls \<and> ls \<noteq> [] \<and> snd (last ls) = Uses what"
  by (rule leak_chain_ends)
    (use demo_leaky_leaks leaks_found in \<open>simp add: may_leak_iff\<close>)

text \<open>
  C37. When the check reports nothing, every function that promises \<^verbatim>\<open>(no_leak)\<close> keeps the promise
  outside \<^verbatim>\<open>unsafe\<close>: what it does there is only calls of functions that do not leak.
\<close>

theorem leaks_check_complete:
  assumes "leaks_check m = []" "f \<in> set (m_functions m)" "fd_is_no_leak f"
    and "(at, s, False) \<in> set (sites_at (all_sites m) (fd_name f))"
  shows "\<exists>g. s = SCall g \<and> \<not> leaks m g"
proof -
  have "List.find (offends (analysis_new m)) (sites_at (all_sites m) (fd_name f)) = None"
    using assms(1-3) by (auto simp: leaks_check_def Let_def List.map_filter_def analysis_new_def filter_empty_conv
        simp del: not_None_eq split: prod.splits)
  then have "\<not> offends (analysis_new m) (at, s, False)"
    using assms(4) unfolding find_None_iff by blast
  then show ?thesis
    using leaks_found [of m] by (cases s) (auto simp: offends_def may_leak_iff)
qed

definition demo_promise :: Ast.module where
  "demo_promise = demo_leaky\<lparr>m_functions :=
     [\<lparr>fd_name = ''h'', fd_params = [], fd_return_type = TI32, fd_contracts = [],
       fd_body = [ECall ''k'' [] (2, 1)], fd_span = (1, 1), fd_is_unsafe = False, fd_is_no_leak = True\<rparr>]\<rparr>"

lemma leaks_check_complete_witness: "\<exists>g. SCall ''k'' = SCall g \<and> \<not> leaks demo_promise g"
proof (rule leaks_check_complete)
  have w: "leak_loop demo_promise [] = []"
    by (subst leak_loop.simps) (simp add: demo_promise_def marked_def)
  have s: "sites_at (all_sites demo_promise) ''h'' = [((2, 1), SCall ''k'', False)]"
    by (auto simp: sites_at_def all_sites_def demo_promise_def site_simps)
  show "leaks_check demo_promise = []"
  proof -
    have "filter fd_is_no_leak (m_functions demo_promise) = [m_functions demo_promise ! 0]"
      "fd_name (m_functions demo_promise ! 0) = ''h''" by (simp_all add: demo_promise_def)
    then show ?thesis using w s
      by (simp add: leaks_check_def analysis_new_def List.map_filter_def offends_def may_leak_def Let_def)
  qed
  show "(m_functions demo_promise ! 0) \<in> set (m_functions demo_promise)" by (simp add: demo_promise_def)
  show "fd_is_no_leak (m_functions demo_promise ! 0)" by (simp add: demo_promise_def)
  show "((2, 1), SCall ''k'', False) \<in> set (sites_at (all_sites demo_promise) (fd_name (m_functions demo_promise ! 0)))"
    using s by (simp add: demo_promise_def)
qed

end
