(* ===== verification/Check_Module.thy ===== *)
theory Check_Module
  imports Checker Leaks
begin

text \<open>
  Checking a module (\<^verbatim>\<open>check_module\<close>, \<^verbatim>\<open>check_items\<close>, \<^verbatim>\<open>check_fn_def\<close> and \<^verbatim>\<open>union_error\<close> of
  \<^verbatim>\<open>src/checker.rs\<close>): definitions and signatures, which stop at the first error, then every
  function body, each with its first error, then the \<^verbatim>\<open>(no_leak)\<close> promises. An error carries the
  item it is in, as the Rust code records for the file's name, its position and its fault.
\<close>

section \<open>Faults of items\<close>

datatype union_fault = UContainsItself string string string | UTooWide nat string nat

datatype (plugins only: size code) item_fault =
    IDuplicate
  | IStructAndEnum
  | INoMembers
  | IMemberName string
  | ITwoMembers string
  | ISameValue string string i32
  | IDuplicateField string
  | IValueStruct vs_error
  | IFieldLayout string lay_error
  | IOtherKind
  | INoVariants
  | IVariantName string
  | ITwoVariants string
  | IVariantField string string
  | IVariantLayout string string lay_error
  | ITable lay_error
  | IFieldType string fault
  | IVariantType string string fault
  | IUnion union_fault
  | IDuplicateParam string
  | IParamType string fault
  | IReturn fault
  | IMain ty
  | IContract bool ty
  | IBody ty ty
  | IInside fault
  | ILeak site

datatype item_kind = KEnum | KStruct | KUnion | KFn

type_synonym item_error = "(item_kind \<times> string) \<times> span \<times> item_fault"

definition fail_if :: "bool \<Rightarrow> item_fault \<Rightarrow> item_fault + unit" where
  "fail_if b w = (if b then Inl w else Inr ())"

definition at_item :: "item_kind \<Rightarrow> string \<Rightarrow> span \<Rightarrow> item_fault + 'a \<Rightarrow> item_error + 'a" where
  "at_item k n sp r = (case r of Inl w \<Rightarrow> Inl ((k, n), sp, w) | Inr x \<Rightarrow> Inr x)"

fun each :: "('a \<Rightarrow> 'e + unit) \<Rightarrow> 'a list \<Rightarrow> 'e + unit" where
  "each f [] = Inr ()"
| "each f (x # xs) = bind_res (f x) (\<lambda>_. each f xs)"

lemma each_Inr: "each f xs = Inr u \<longleftrightarrow> (\<forall>x \<in> set xs. f x = Inr ())"
  by (induction xs) auto

section \<open>Enums\<close>

definition good_start :: "string \<Rightarrow> bool" where
  "good_start s =
     (case s of c # _ \<Rightarrow> c = CHR ''_'' \<or> (97 \<le> (of_char c :: nat) \<and> (of_char c :: nat) \<le> 122) | [] \<Rightarrow> False)"

fun check_members :: "(string \<times> i32) list \<Rightarrow> (string \<times> i32) list \<Rightarrow> item_fault + unit" where
  "check_members before [] = Inr ()"
| "check_members before ((m, v) # ms) =
     bind_res (fail_if (\<not> good_start m) (IMemberName m)) (\<lambda>_.
     bind_res (fail_if (m \<in> fst ` set before) (ITwoMembers m)) (\<lambda>_.
     bind_res (case List.find (\<lambda>(_, w). w = v) before of
                 Some (other, _) \<Rightarrow> Inl (ISameValue other m v)
               | None \<Rightarrow> Inr ()) (\<lambda>_.
     check_members (before @ [(m, v)]) ms)))"

definition check_enum :: "Ast.module \<Rightarrow> (string \<times> enum_def) list \<Rightarrow> enum_def \<Rightarrow> item_fault + unit" where
  "check_enum m done_so_far e =
     bind_res (fail_if (ed_name e \<in> fst ` set done_so_far) IDuplicate) (\<lambda>_.
     bind_res (fail_if (ed_name e \<in> sd_name ` set (m_structs m)) IStructAndEnum) (\<lambda>_.
     bind_res (fail_if (ed_members e = [] \<and> \<not> is_sealed (ed_name e)) INoMembers) (\<lambda>_.
     check_members [] (ed_members e))))"

fun check_enums :: "Ast.module \<Rightarrow> (string \<times> enum_def) list \<Rightarrow> enum_def list \<Rightarrow> item_error + (string \<times> enum_def) list" where
  "check_enums m acc [] = Inr acc"
| "check_enums m acc (e # es) =
     bind_res (at_item KEnum (ed_name e) (ed_span e) (check_enum m acc e)) (\<lambda>_.
     check_enums m (acc @ [(ed_name e, e)]) es)"

section \<open>Structs\<close>

fun repeated :: "string list \<Rightarrow> string list \<Rightarrow> string option" where
  "repeated before [] = None"
| "repeated before (x # xs) = (if x \<in> set before then Some x else repeated (before @ [x]) xs)"

lemma repeated_None: "repeated before xs = None \<longleftrightarrow> distinct xs \<and> set xs \<inter> set before = {}"
  by (induction before xs rule: repeated.induct) auto

definition check_struct :: "(string \<times> struct_def) list \<Rightarrow> struct_def \<Rightarrow> item_fault + unit" where
  "check_struct acc s =
     bind_res (fail_if (sd_name s \<in> fst ` set acc) IDuplicate) (\<lambda>_.
       (case repeated [] (map sf_name (sd_fields s)) of
          Some f \<Rightarrow> Inl (IDuplicateField f)
        | None \<Rightarrow> Inr ()))"

fun register_structs :: "(string \<times> struct_def) list \<Rightarrow> struct_def list \<Rightarrow> item_error + (string \<times> struct_def) list" where
  "register_structs acc [] = Inr acc"
| "register_structs acc (s # ss) =
     bind_res (at_item KStruct (sd_name s) (sd_span s) (check_struct acc s)) (\<lambda>_.
     register_structs (acc @ [(sd_name s, s)]) ss)"

definition field_layout :: "structs \<Rightarrow> struct_field \<Rightarrow> (lay_error \<Rightarrow> item_fault) \<Rightarrow> item_fault + unit" where
  "field_layout st f w = (case memory_layout st (sf_ty f) of Inl e \<Rightarrow> Inl (w e) | Inr _ \<Rightarrow> Inr ())"

definition check_structs :: "Ast.module \<Rightarrow> structs \<Rightarrow> item_error + unit" where
  "check_structs m st =
     bind_res (each (\<lambda>s. at_item KStruct (sd_name s) (sd_span s)
                 (case check_value_struct st s of Inl e \<Rightarrow> Inl (IValueStruct e) | Inr _ \<Rightarrow> Inr ()))
               (filter sd_is_value (m_structs m))) (\<lambda>_.
     each (\<lambda>s. at_item KStruct (sd_name s) (sd_span s)
             (each (\<lambda>f. field_layout st f (IFieldLayout (sf_name f))) (sd_fields s)))
       (m_structs m))"

section \<open>Unions\<close>

fun check_variant_fields :: "structs \<Rightarrow> string \<Rightarrow> string list \<Rightarrow> struct_field list \<Rightarrow> item_fault + unit" where
  "check_variant_fields st vn before [] = Inr ()"
| "check_variant_fields st vn before (f # fs) =
     bind_res (fail_if (sf_name f \<in> set before) (IVariantField vn (sf_name f))) (\<lambda>_.
     bind_res (field_layout st f (IVariantLayout vn (sf_name f))) (\<lambda>_.
     check_variant_fields st vn (before @ [sf_name f]) fs))"

fun check_variants :: "structs \<Rightarrow> string list \<Rightarrow> variant list \<Rightarrow> item_fault + unit" where
  "check_variants st before [] = Inr ()"
| "check_variants st before (v # vs) =
     bind_res (fail_if (\<not> good_start (vr_name v)) (IVariantName (vr_name v))) (\<lambda>_.
     bind_res (fail_if (vr_name v \<in> set before) (ITwoVariants (vr_name v))) (\<lambda>_.
     bind_res (check_variant_fields st (vr_name v) [] (vr_fields v)) (\<lambda>_.
     check_variants st (before @ [vr_name v]) vs)))"

definition check_union :: "structs \<Rightarrow> (string \<times> enum_def) list \<Rightarrow> (string \<times> union_def) list \<Rightarrow> union_def \<Rightarrow> item_fault + unit" where
  "check_union st enums acc u =
     bind_res (fail_if (ud_name u \<in> fst ` set acc) IDuplicate) (\<lambda>_.
     bind_res (fail_if (get_struct st (ud_name u) \<noteq> None \<or> ud_name u \<in> fst ` set enums) IOtherKind) (\<lambda>_.
     bind_res (fail_if (ud_variants u = []) INoVariants) (\<lambda>_.
     check_variants st [] (ud_variants u))))"

fun check_unions :: "structs \<Rightarrow> (string \<times> enum_def) list \<Rightarrow> (string \<times> union_def) list \<Rightarrow> union_def list
    \<Rightarrow> item_error + (string \<times> union_def) list" where
  "check_unions st enums acc [] = Inr acc"
| "check_unions st enums acc (u # us) =
     bind_res (at_item KUnion (ud_name u) (ud_span u) (check_union st enums acc u)) (\<lambda>_.
     check_unions st enums (acc @ [(ud_name u, u)]) us)"

text \<open>Why a union cannot be held by value, if it cannot.\<close>

definition leads_back :: "structs \<Rightarrow> union_def \<Rightarrow> variant \<times> struct_field \<Rightarrow> union_fault option" where
  "leads_back st u vf =
     (case vf of (v, f) \<Rightarrow>
        (case sf_ty f of
           TUnion k \<Rightarrow> if k = ud_name u \<or> reaches st [k] (ud_name u)
                      then Some (UContainsItself (vr_name v) (sf_name f) k) else None
         | _ \<Rightarrow> None))"

definition variant_width :: "structs \<Rightarrow> variant \<Rightarrow> lay_error + nat" where
  "variant_width st v = bind_res (scalars_of_fields st (vr_fields v)) (\<lambda>xs. Inr (length xs))"

fun widest :: "structs \<Rightarrow> variant \<Rightarrow> variant list \<Rightarrow> lay_error + variant" where
  "widest st w [] = Inr w"
| "widest st w (v # vs) =
     bind_res (variant_width st v) (\<lambda>a. bind_res (variant_width st w) (\<lambda>b.
       widest st (if b < a then v else w) vs))"

definition union_error :: "structs \<Rightarrow> union_def \<Rightarrow> lay_error + union_fault option" where
  "union_error st u =
     (if is_value_union st (ud_name u) then Inr None
      else case List.map_filter (leads_back st u)
                  (concat (map (\<lambda>v. map (Pair v) (vr_fields v)) (ud_variants u))) of
             w # _ \<Rightarrow> Inr (Some w)
           | [] \<Rightarrow>
               bind_res (sum_layout st (ud_variants u)) (\<lambda>l.
                 (case ud_variants u of
                    [] \<Rightarrow> Inr (Some (UTooWide (length (sl_slots l)) '''' 0))
                  | v # _ \<Rightarrow>
                      bind_res (widest st v (ud_variants u)) (\<lambda>w.
                      bind_res (variant_width st w) (\<lambda>n.
                      Inr (Some (UTooWide (length (sl_slots l)) (vr_name w) n)))))))"

definition check_union_value :: "structs \<Rightarrow> union_def \<Rightarrow> item_fault + unit" where
  "check_union_value st u =
     (case union_error st u of
        Inl e \<Rightarrow> Inl (ITable e)
      | Inr (Some w) \<Rightarrow> Inl (IUnion w)
      | Inr None \<Rightarrow> Inr ())"

section \<open>Types of fields, signatures\<close>

definition is_narrow :: "ty \<Rightarrow> bool" where
  "is_narrow t = (case t of TNarrow _ \<Rightarrow> True | _ \<Rightarrow> False)"

definition typed_as :: "(fault \<Rightarrow> item_fault) \<Rightarrow> chk_error + unit \<Rightarrow> item_fault + unit" where
  "typed_as w r = (case r of Inl (_, e) \<Rightarrow> Inl (w e) | Inr _ \<Rightarrow> Inr ())"

definition check_field_types :: "Ast.module \<Rightarrow> chk \<Rightarrow> item_error + unit" where
  "check_field_types m cx =
     bind_res (each (\<lambda>s. at_item KStruct (sd_name s) (sd_span s)
         (each (\<lambda>f. if is_narrow (sf_ty f) \<and> \<not> sd_is_value s then Inr ()
                    else typed_as (IFieldType (sf_name f)) (validate_type cx (sd_span s) (sf_ty f)))
            (sd_fields s))) (m_structs m)) (\<lambda>_.
     each (\<lambda>u. at_item KUnion (ud_name u) (ud_span u)
         (each (\<lambda>v. each (\<lambda>f. typed_as (IVariantType (vr_name v) (sf_name f))
                 (validate_type cx (ud_span u) (sf_ty f))) (vr_fields v)) (ud_variants u)))
       (m_unions m))"

definition signature :: "fn_def \<Rightarrow> ty list \<times> ty" where
  "signature f = (map snd (fd_params f), fd_return_type f)"

definition check_signature :: "(string \<times> fn_def) list \<Rightarrow> fn_def \<Rightarrow> item_fault + unit" where
  "check_signature acc f =
     bind_res (fail_if (fd_name f \<in> fst ` set acc) IDuplicate) (\<lambda>_.
       (case repeated [] (map fst (fd_params f)) of
          Some p \<Rightarrow> Inl (IDuplicateParam p)
        | None \<Rightarrow> Inr ()))"

fun check_signatures :: "(string \<times> fn_def) list \<Rightarrow> fn_def list \<Rightarrow> item_error + (string \<times> fn_def) list" where
  "check_signatures acc [] = Inr acc"
| "check_signatures acc (f # fs) =
     bind_res (at_item KFn (fd_name f) (fd_span f) (check_signature acc f)) (\<lambda>_.
     check_signatures (acc @ [(fd_name f, f)]) fs)"

definition chk_of :: "structs \<Rightarrow> (string \<times> enum_def) list \<Rightarrow> (string \<times> union_def) list \<Rightarrow> (string \<times> fn_def) list \<Rightarrow> chk" where
  "chk_of st enums unions fns =
     \<lparr>ck_fns = map_of (map (\<lambda>(n, f). (n, signature f)) fns), ck_structs = st, ck_enums = map_of enums,
      ck_unions = map_of unions,
      ck_unsafe_fns = map fst (filter (\<lambda>(n, f). fd_is_unsafe f) fns),
      ck_leaks = None, ck_return = None, ck_loop = 0, ck_unsafe = 0, ck_in_unsafe_fn = False, ck_defer = False\<rparr>"

text \<open>\<^verbatim>\<open>check_items\<close>: in the source's order, with the struct table it has at each point.\<close>

definition check_items :: "Ast.module \<Rightarrow> item_error + chk" where
  "check_items m =
     bind_res (check_enums m [] (m_enums m)) (\<lambda>enums.
     bind_res (register_structs [] (m_structs m)) (\<lambda>defs.
     let st0 = \<lparr>st_defs = defs, st_unions = [], st_by_value = []\<rparr>
     in bind_res (check_structs m st0) (\<lambda>_.
        bind_res (check_unions st0 enums [] (m_unions m)) (\<lambda>unions.
        bind_res (at_item KUnion [] (0, 0)
                    (case structs_new (m_structs m) (m_unions m) of Inl e \<Rightarrow> Inl (ITable e) | Inr st \<Rightarrow> Inr st)) (\<lambda>st.
        bind_res (check_field_types m (chk_of st enums unions [])) (\<lambda>_.
        bind_res (each (\<lambda>u. at_item KUnion (ud_name u) (ud_span u) (check_union_value st u)) (m_unions m)) (\<lambda>_.
        bind_res (check_signatures [] (m_functions m)) (\<lambda>fns.
        Inr (chk_of st enums unions fns)))))))))"

section \<open>Functions\<close>

fun check_params :: "chk \<Rightarrow> span \<Rightarrow> tenv \<Rightarrow> (string \<times> ty) list \<Rightarrow> (span \<times> item_fault) + tenv" where
  "check_params cx sp \<Gamma> [] = Inr \<Gamma>"
| "check_params cx sp \<Gamma> ((n, t) # ps) =
     (case validate_type cx sp t of
        Inl (_, e) \<Rightarrow> Inl (sp, IParamType n e)
      | Inr _ \<Rightarrow> check_params cx sp (\<Gamma>(n \<mapsto> t)) ps)"

text \<open>The types a program's \<^verbatim>\<open>main\<close> may return.\<close>

definition is_status :: "ty \<Rightarrow> bool" where
  "is_status t = (case t of TI32 \<Rightarrow> True | TVoid \<Rightarrow> True | TResult a b \<Rightarrow> a = TI32 \<and> b = TStr | _ \<Rightarrow> False)"

definition inside :: "chk_error + 'a \<Rightarrow> (span \<times> item_fault) + 'a" where
  "inside r = (case r of Inl (sp, e) \<Rightarrow> Inl (sp, IInside e) | Inr x \<Rightarrow> Inr x)"

fun check_contracts :: "inferrer \<Rightarrow> chk \<Rightarrow> ty \<Rightarrow> tenv \<Rightarrow> contract list \<Rightarrow> (span \<times> item_fault) + tenv" where
  "check_contracts tc cx ret_ty \<Gamma> [] = Inr \<Gamma>"
| "check_contracts tc cx ret_ty \<Gamma> (c # cs) =
     (case c of
        Ensures e \<Rightarrow>
          bind_res (inside (tc cx e (\<Gamma>(''res'' \<mapsto> ret_ty)))) (\<lambda>(t, _).
            if t \<noteq> TBool then Inl (expr_span e, IContract True t)
            else check_contracts tc cx ret_ty \<Gamma> cs)
      | Requires e \<Rightarrow>
          bind_res (inside (tc cx e \<Gamma>)) (\<lambda>(t, \<Gamma>').
            if t \<noteq> TBool then Inl (expr_span e, IContract False t)
            else check_contracts tc cx ret_ty \<Gamma>' cs)
      | Invariant e \<Rightarrow>
          bind_res (inside (tc cx e \<Gamma>)) (\<lambda>(t, \<Gamma>').
            if t \<noteq> TBool then Inl (expr_span e, IContract False t)
            else check_contracts tc cx ret_ty \<Gamma>' cs))"

definition defer_args :: "expr \<Rightarrow> expr list option" where
  "defer_args e = (case e of EOp OpDefer args _ \<Rightarrow> Some args | _ \<Rightarrow> None)"

fun check_body :: "inferrer \<Rightarrow> chk \<Rightarrow> bool \<Rightarrow> ty \<Rightarrow> expr list \<Rightarrow> ty chkm" where
  "check_body tc cx drop_last last_ty [] = cret last_ty"
| "check_body tc cx drop_last last_ty (e # es) =
     (case defer_args e of
        Some args \<Rightarrow> cbind (check_defer tc cx args) (\<lambda>_. check_body tc cx drop_last last_ty es)
      | None \<Rightarrow>
          cbind (tc cx e) (\<lambda>t.
          cbind (if es \<noteq> [] \<or> drop_last then unused e t else cret ()) (\<lambda>_.
          check_body tc cx drop_last t es)))"

definition ends_in_return :: "expr list \<Rightarrow> bool" where
  "ends_in_return body =
     (case rev (filter (\<lambda>e. defer_args e = None) body) of EReturn _ _ # _ \<Rightarrow> True | _ \<Rightarrow> False)"

definition check_fn_def :: "chk \<Rightarrow> fn_def \<Rightarrow> (span \<times> item_fault) + ty" where
  "check_fn_def cx f =
     (let cx = cx\<lparr>ck_in_unsafe_fn := fd_is_unsafe f, ck_unsafe := 0, ck_return := None\<rparr>; ret_ty = fd_return_type f
      in bind_res (check_params cx (fd_span f) Map.empty (fd_params f)) (\<lambda>\<Gamma>.
         bind_res (case validate_type cx (fd_span f) ret_ty of
                     Inl (_, e) \<Rightarrow> Inl (fd_span f, IReturn e)
                   | Inr _ \<Rightarrow> Inr ()) (\<lambda>_.
         if fd_name f = ''main'' \<and> fd_params f = [] \<and> \<not> is_status ret_ty
         then Inl (fd_span f, IMain ret_ty)
         else bind_res (check_contracts infer cx ret_ty \<Gamma> (fd_contracts f)) (\<lambda>\<Gamma>.
              bind_res (inside (check_body infer (cx\<lparr>ck_return := Some ret_ty, ck_loop := 0\<rparr>)
                          (ret_ty = TVoid \<and> fd_name f \<noteq> ''__eval'') TVoid (fd_body f) \<Gamma>)) (\<lambda>(t, _).
              if ret_ty \<noteq> TVoid \<and> \<not> fits t ret_ty \<and> \<not> ends_in_return (fd_body f)
              then Inl (fd_span f, IBody ret_ty t)
              else Inr t)))))"

section \<open>The module\<close>

definition fn_errors :: "chk \<Rightarrow> fn_def list \<Rightarrow> item_error list" where
  "fn_errors cx fs =
     List.map_filter (\<lambda>f. case check_fn_def cx f of Inl e \<Rightarrow> Some ((KFn, fd_name f), e) | Inr _ \<Rightarrow> None) fs"

definition check_module :: "Ast.module \<Rightarrow> item_error list + chk" where
  "check_module m =
     (case check_items m of
        Inl e \<Rightarrow> Inl [e]
      | Inr cx \<Rightarrow>
          (let cx = cx\<lparr>ck_leaks := Some (may_leak (analysis_new m))\<rparr>;
               errors = fn_errors cx (m_functions m)
           in if errors \<noteq> [] then Inl errors
              else case map (\<lambda>(n, sp, s). ((KFn, n), sp, ILeak s)) (leaks_check m) of
                     [] \<Rightarrow> Inr cx
                   | errors \<Rightarrow> Inl errors))"

text \<open>\<^verbatim>\<open>body_type\<close>: the type of a function's last expression, once the module checks.\<close>

definition body_type :: "Ast.module \<Rightarrow> string \<Rightarrow> ty option" where
  "body_type m n =
     (case check_module m of
        Inl _ \<Rightarrow> None
      | Inr cx \<Rightarrow>
          (case List.find (\<lambda>f. fd_name f = n) (m_functions m) of
             None \<Rightarrow> None
           | Some f \<Rightarrow> (case check_fn_def cx f of Inr t \<Rightarrow> Some t | Inl _ \<Rightarrow> None)))"

end
