(* ===== verification/Accepted.thy ===== *)
theory Accepted
  imports Check_Total Check_Module
begin

text \<open>
  What acceptance means for the parts of an expression. \<open>checked_under\<close> pairs the operands of an
  expression with the context they are checked in; every operand of an accepted expression is
  accepted there (the locale \<open>accepting\<close>). Two consequences: outside \<^verbatim>\<open>unsafe\<close> there is no unchecked
  operation (\<open>exposed\<close>), and outside loops no \<^verbatim>\<open>break\<close> or \<^verbatim>\<open>continue\<close> (\<open>stray_jump\<close>).
\<close>

section \<open>Operands and their contexts\<close>

definition in_loop :: "chk \<Rightarrow> chk" where "in_loop cx = cx\<lparr>ck_loop := Suc (ck_loop cx)\<rparr>"
definition in_unsafe :: "chk \<Rightarrow> chk" where "in_unsafe cx = cx\<lparr>ck_unsafe := Suc (ck_unsafe cx)\<rparr>"

definition checked_under :: "chk \<Rightarrow> expr \<Rightarrow> (chk \<times> expr) list" where
  "checked_under cx e =
     (case e of
        ELoop _ a b s body _ \<Rightarrow> [(cx, a), (cx, b), (cx, s)] @ map (Pair (in_loop cx)) body
      | EWhile c body _ \<Rightarrow> (cx, c) # map (Pair (in_loop cx)) body
      | EUnsafe es _ \<Rightarrow> map (Pair (in_unsafe cx)) es
      | _ \<Rightarrow> map (Pair cx) (children e))"

lemma checked_under_children: "map snd (checked_under cx e) = children e"
  by (cases e) (simp_all add: checked_under_def children_def comp_def)

text \<open>
  A property \<open>ok\<close> that a recursive call's acceptance gives; the texts and the pieces of the
  formatting forms are the operands that are not checked as expressions.
\<close>

locale accepting =
  fixes tc :: inferrer and ok :: "chk \<Rightarrow> expr \<Rightarrow> bool"
  assumes accepted: "tc cx e \<Gamma> = Inr r \<Longrightarrow> ok cx e"
    and text_ok: "is_text e \<Longrightarrow> ok cx e"
    and piece_ok: "ok cx v \<Longrightarrow> is_text f \<Longrightarrow> ok cx (EOp (OpFormat FormatPiece) [v, f] sp)"
begin

abbreviation all_ok :: "chk \<Rightarrow> expr list \<Rightarrow> bool" where
  "all_ok cx es \<equiv> \<forall>e \<in> set es. ok cx e"

lemma check_stmts_ok: "check_stmts tc cx es \<Gamma> = Inr r \<Longrightarrow> all_ok cx es"
  by (induction es arbitrary: \<Gamma>) (auto dest: accepted)

lemma infer_block_ok: "infer_block tc cx t es \<Gamma> = Inr r \<Longrightarrow> all_ok cx es"
  by (induction es arbitrary: t \<Gamma>) (auto dest: accepted)

lemma infer_body_ok: "infer_body tc cx t es \<Gamma> = Inr r \<Longrightarrow> all_ok cx es"
  by (induction es arbitrary: t \<Gamma>) (auto dest: accepted)

lemma check_operands_ok:
  "check_operands tc cx sp op i es ws \<Gamma> = Inr r \<Longrightarrow> length es = length ws \<Longrightarrow> all_ok cx es"
proof (induction es arbitrary: i ws \<Gamma>)
  case (Cons e es)
  then show ?case by (cases ws) (auto dest: accepted split: if_splits)
qed simp

lemma check_args_ok: "check_args tc cx sp w i es ps \<Gamma> = Inr r \<Longrightarrow> length es = length ps \<Longrightarrow> all_ok cx es"
proof (induction es arbitrary: i ps \<Gamma>)
  case (Cons e es)
  then show ?case by (cases ps) (auto dest: accepted split: if_splits)
qed simp

lemma check_printed_ok: "check_printed tc cx sp es \<Gamma> = Inr r \<Longrightarrow> all_ok cx es"
  by (induction es arbitrary: \<Gamma>) (auto dest: accepted split: if_splits)

lemma one_operand_ok: "one_operand tc cx sp op es \<Gamma> = Inr r \<Longrightarrow> all_ok cx es"
  by (auto simp: one_operand_def dest: accepted split: list.splits)

lemma two_operands_ok: "two_operands tc cx sp op es \<Gamma> = Inr r \<Longrightarrow> all_ok cx es"
  by (auto simp: two_operands_def dest: accepted split: list.splits)

lemma expect_operands_ok: "expect_operands tc cx sp op es ws \<Gamma> = Inr r \<Longrightarrow> all_ok cx es"
  by (auto simp: expect_operands_def dest: check_operands_ok split: if_splits)

lemmas operands_ok = one_operand_ok two_operands_ok expect_operands_ok

lemma piece_value_ok:
  "check_piece tc cx op (EOp (OpFormat FormatPiece) [v, f] sp) \<Gamma> = Inr r \<Longrightarrow>
     ok cx (EOp (OpFormat FormatPiece) [v, f] sp)"
  by (cases "is_text f")
    (auto simp: check_piece_def is_text_def intro!: piece_ok dest: accepted split: expr.splits literal.splits)

lemma check_piece_ok: "check_piece tc cx op p \<Gamma> = Inr r \<Longrightarrow> ok cx p"
proof (cases "is_text p \<or> (\<exists>v f sp. p = EOp (OpFormat FormatPiece) [v, f] sp)")
  case False
  then have "check_piece tc cx op p = cfail (expr_span p) (FOp (OPiece op))"
    unfolding check_piece_def is_text_def
    by (auto split: expr.split literal.split opcode.split format_op.split list.split)
  then show "check_piece tc cx op p \<Gamma> = Inr r \<Longrightarrow> ?thesis" by simp
qed (auto intro: text_ok piece_value_ok)

lemma check_pieces_ok: "check_pieces tc cx op es \<Gamma> = Inr r \<Longrightarrow> all_ok cx es"
  by (induction es arbitrary: \<Gamma>) (auto dest: check_piece_ok)

lemma check_writer_ok: "check_writer tc cx sp b \<Gamma> = Inr r \<Longrightarrow> ok cx b"
  by (auto simp: check_writer_def dest: accepted split: if_splits)

lemma infer_format_ok: "infer_format tc cx sp op es \<Gamma> = Inr r \<Longrightarrow> all_ok cx es"
proof -
  have "infer_print tc cx sp op es \<Gamma> = Inr r \<Longrightarrow> all_ok cx es"
    by (cases es) (auto simp: infer_print_def simp del: check_pieces.simps dest!: check_pieces_ok check_writer_ok
        split: if_splits)
  moreover have "infer_expect tc cx sp es \<Gamma> = Inr r \<Longrightarrow> all_ok cx es"
    by (auto simp: infer_expect_def Let_def dest: accepted intro: text_ok split: list.splits if_splits)
  moreover have "infer_assert tc cx sp es \<Gamma> = Inr r \<Longrightarrow> all_ok cx es"
    by (auto simp: infer_assert_def Let_def dest: accepted intro: text_ok split: list.splits if_splits)
  moreover have "infer_dbg tc cx sp es \<Gamma> = Inr r \<Longrightarrow> all_ok cx es"
    by (auto simp: infer_dbg_def Let_def dest: accepted intro: text_ok split: list.splits if_splits)
  ultimately show "infer_format tc cx sp op es \<Gamma> = Inr r \<Longrightarrow> all_ok cx es"
    by (cases op) (simp_all add: infer_format_def)
qed

lemma check_try_ok:
  assumes "check_try tc cx sp k es \<Gamma> = Inr r"
  shows "all_ok cx es"
proof -
  obtain t \<Gamma>1 where t: "tc cx (es ! 0) \<Gamma> = Inr (t, \<Gamma>1)" and n: "length es = (if k = TryOr then 2 else 1)"
    using assms by (auto simp: check_try_def Let_def split: if_splits)
  have "\<exists>\<Gamma> r. tc cx (es ! 1) \<Gamma> = Inr r" if "k = TryOr"
    using assms that by (fastforce simp: check_try_def Let_def split: option.splits if_splits)
  then have "ok cx (es ! i)" if "i < length es" for i
    using that n accepted [OF t] accepted [of cx "es ! 1"] by (cases i) (auto split: if_splits)
  then show ?thesis by (auto simp: in_set_conv_nth)
qed

lemma infer_op_ok:
  assumes "infer_op tc cx sp op es \<Gamma> = Inr r"
  shows "all_ok cx es"
proof -
  have tried: "infer_try tc cx sp k es \<Gamma> = Inr r \<Longrightarrow> all_ok cx es" for k \<Gamma>
    by (auto simp: infer_try_def dest: check_try_ok split: if_splits)
  have thread: "infer_thread tc cx sp k es \<Gamma> = Inr r \<Longrightarrow> all_ok cx es" for k \<Gamma>
    by (cases k) (auto simp: infer_thread_def infer_load_def Let_def dest: accepted operands_ok split: list.splits if_splits)
  have sys: "infer_sys tc cx sp k es \<Gamma> = Inr r \<Longrightarrow> all_ok cx es" for k \<Gamma>
    by (cases k) (auto simp: infer_sys_def infer_load_def Let_def dest: operands_ok check_printed_ok split: if_splits)
  have mem: "infer_mem tc cx sp k es \<Gamma> = Inr r \<Longrightarrow> all_ok cx es" for k \<Gamma>
    by (cases k) (auto simp: infer_mem_def infer_load_def infer_store_def dest: operands_ok)
  have atomic: "infer_atomic tc cx sp k es \<Gamma> = Inr r \<Longrightarrow> all_ok cx es" for k \<Gamma>
    by (cases k) (auto simp: infer_atomic_def Let_def dest: operands_ok)
  have conv: "infer_conv tc cx sp k es \<Gamma> = Inr r \<Longrightarrow> all_ok cx es" for k \<Gamma>
    by (auto simp: infer_conv_def Let_def split_beta dest: operands_ok)
  show ?thesis
    using assms unfolding infer_op_def
    by (cases op) (auto simp: infer_abort_def infer_drop_def infer_checked_def infer_bit_def infer_cmp_def
        infer_arith_def infer_logic_def infer_not_def infer_str_def infer_host_def Let_def
        dest: operands_ok infer_format_ok tried thread sys mem atomic conv)
qed

lemma check_arms_ok:
  "check_arms tc cx tn ms seen tys arms \<Gamma> = Inr r \<Longrightarrow> \<forall>a \<in> set arms. all_ok cx (arm_body a)"
proof (induction arms arbitrary: seen tys \<Gamma>)
  case (Cons a arms)
  then show ?case by (auto dest: infer_body_ok split: option.splits if_splits)
qed simp

lemma check_else_ok: "check_else tc cx sp tn ms seen tys els \<Gamma> = Inr r \<Longrightarrow> all_ok cx (concat (opt_list els))"
  by (cases els) (auto simp: check_else_def dest: infer_body_ok split: if_splits)

lemma check_loop_body_ok: "check_loop_body tc cx body \<Gamma> = Inr r \<Longrightarrow> all_ok (in_loop cx) body"
  by (simp add: check_loop_body_def in_loop_def check_stmts_ok)

lemmas bodies_ok = infer_block_ok infer_body_ok check_loop_body_ok check_args_ok infer_op_ok check_arms_ok
  check_else_ok

lemma leaves_ok:
  "infer_let tc cx sp x t v \<Gamma> = Inr r \<Longrightarrow> ok cx v"
  "infer_set tc cx sp x v \<Gamma> = Inr r \<Longrightarrow> ok cx v"
  "infer_ok tc cx sp v ot \<Gamma> = Inr r \<Longrightarrow> ok cx v"
  "infer_err tc cx sp v ot \<Gamma> = Inr r \<Longrightarrow> ok cx v"
  "infer_get tc cx sp sn f v \<Gamma> = Inr r \<Longrightarrow> ok cx v"
  "infer_arr_len tc cx sp v \<Gamma> = Inr r \<Longrightarrow> ok cx v"
  "infer_addr tc cx sp v k \<Gamma> = Inr r \<Longrightarrow> ok cx v"
  unfolding infer_let_def infer_set_def infer_ok_def infer_err_def infer_get_def infer_arr_len_def
    infer_addr_def
  by (auto dest: accepted split: option.splits)

lemma pairs_ok:
  "infer_put tc cx sp sn f v w path \<Gamma> = Inr r \<Longrightarrow> ok cx v \<and> ok cx w"
  "infer_with tc cx sp sn f v w \<Gamma> = Inr r \<Longrightarrow> ok cx v \<and> ok cx w"
  "infer_arr_get tc cx sp t v w \<Gamma> = Inr r \<Longrightarrow> ok cx v \<and> ok cx w"
  "infer_arr_set tc cx sp t v w u path \<Gamma> = Inr r \<Longrightarrow> ok cx v \<and> ok cx w \<and> ok cx u"
  "infer_if tc cx sp v w u \<Gamma> = Inr r \<Longrightarrow> ok cx v \<and> ok cx w \<and> ok cx u"
  unfolding infer_put_def infer_with_def infer_arr_get_def infer_arr_set_def infer_if_def Let_def
  by (auto dest: accepted split: if_splits prod.splits)

lemma optional_ok:
  "infer_cast tc cx sp t v g \<Gamma> = Inr r \<Longrightarrow> ok cx v \<and> all_ok cx (opt_list g)"
  "infer_return tc cx sp g \<Gamma> = Inr r \<Longrightarrow> all_ok cx (opt_list g)"
  unfolding infer_cast_def infer_return_def
  by (cases g; auto dest: accepted split: if_splits option.splits)+

lemma lists_ok:
  "infer_call tc cx sp f es \<Gamma> = Inr r \<Longrightarrow> all_ok cx es"
  "infer_call_ref tc cx sp sig v es \<Gamma> = Inr r \<Longrightarrow> all_ok cx (v # es)"
  "infer_make tc cx sp un vn es \<Gamma> = Inr r \<Longrightarrow> all_ok cx es"
  "infer_record tc cx sp sn es \<Gamma> = Inr r \<Longrightarrow> all_ok cx es"
  unfolding infer_call_def infer_call_ref_def infer_make_def infer_record_def
  by (auto dest: accepted dest!: check_args_ok split: option.splits if_splits ty.splits)

lemma bodied_ok:
  "infer_loop tc cx sp x v w u body \<Gamma> = Inr r \<Longrightarrow> ok cx v \<and> ok cx w \<and> ok cx u \<and> all_ok (in_loop cx) body"
  "infer_while tc cx sp v body \<Gamma> = Inr r \<Longrightarrow> ok cx v \<and> all_ok (in_loop cx) body"
  "infer_unsafe tc cx body \<Gamma> = Inr r \<Longrightarrow> all_ok (in_unsafe cx) body"
  unfolding infer_loop_def infer_while_def infer_unsafe_def in_unsafe_def
  by (auto dest: accepted bodies_ok split: if_splits)

lemma match_result_ok:
  assumes "infer_match_result tc cx sp v x b1 y b2 \<Gamma> = Inr r"
  shows "ok cx v \<and> all_ok cx b1 \<and> all_ok cx b2"
proof -
  obtain t \<Gamma>1 where t: "tc cx v \<Gamma> = Inr (t, \<Gamma>1)"
    using assms by (auto simp: infer_match_result_def)
  obtain a b where "t = TResult a b"
    using assms t by (cases t) (auto simp: infer_match_result_def)
  then show ?thesis
    using assms t by (auto simp: infer_match_result_def dest: accepted infer_body_ok)
qed

lemma match_ok:
  "infer_match tc cx sp v arms els \<Gamma> = Inr r \<Longrightarrow>
     ok cx v \<and> (\<forall>a \<in> set arms. all_ok cx (arm_body a)) \<and> all_ok cx (concat (opt_list els))"
  unfolding infer_match_def by (auto dest: accepted bodies_ok split: option.splits)

lemma operands_accepted:
  assumes "infer_expr tc cx e \<Gamma> = Inr r" "(cx', c) \<in> set (checked_under cx e)"
  shows "ok cx' c"
  using assms unfolding infer_expr_def checked_under_def
  by (cases e) (auto simp: children_def dest: leaves_ok pairs_ok optional_ok lists_ok bodied_ok match_result_ok match_ok bodies_ok)

end

text \<open>A property that the check of every form passes on holds of every accepted expression.\<close>

lemma accepted_induct:
  assumes texts: "\<And>cx e. is_text e \<Longrightarrow> ok cx e"
    and pieces: "\<And>cx v f sp. ok cx v \<Longrightarrow> is_text f \<Longrightarrow> ok cx (EOp (OpFormat FormatPiece) [v, f] sp)"
    and step: "\<And>tc cx e \<Gamma> r. infer_expr tc cx e \<Gamma> = Inr r \<Longrightarrow>
      \<forall>(cx', c) \<in> set (checked_under cx e). ok cx' c \<Longrightarrow> ok cx e"
  shows "accepting infer ok"
proof -
  have "accepting (infer_n n) ok" for n
  proof (induction n)
    case (Suc n)
    show ?case
    proof (rule accepting.intro)
      fix cx e \<Gamma> r
      assume "infer_n (Suc n) cx e \<Gamma> = Inr r"
      then have r: "infer_expr (infer_n n) cx e \<Gamma> = Inr r" by simp
      show "ok cx e" by (rule step [OF r]) (auto dest: accepting.operands_accepted [OF Suc r])
    qed (use texts pieces in blast)+
  qed (rule accepting.intro; use texts pieces in simp)
  from accepting.accepted [OF this] show ?thesis
    by (rule accepting.intro) (use texts pieces in \<open>auto simp: infer_def simp del: infer_n.simps\<close>)
qed

section \<open>Unsafe operations are gated\<close>

definition raw_op :: "string list \<Rightarrow> expr \<Rightarrow> bool" where
  "raw_op us e =
     (case e of
        EOp op _ _ \<Rightarrow> is_unchecked_op op
      | ECast t _ g _ \<Rightarrow> cast_name t (g \<noteq> None) \<noteq> None
      | ECall f _ _ \<Rightarrow> f \<in> set us
      | ERef f _ \<Rightarrow> f \<in> set us
      | _ \<Rightarrow> False)"

definition is_unsafe_block :: "expr \<Rightarrow> bool" where
  "is_unsafe_block e = (case e of EUnsafe _ _ \<Rightarrow> True | _ \<Rightarrow> False)"

text \<open>An unchecked operation in \<open>e\<close> that no \<^verbatim>\<open>unsafe\<close> block of \<open>e\<close> encloses.\<close>

function exposed :: "string list \<Rightarrow> expr \<Rightarrow> bool" where
  "exposed us e \<longleftrightarrow> raw_op us e \<or> (\<not> is_unsafe_block e \<and> (\<exists>c \<in> set (children e). exposed us c))"
  by pat_completeness auto
termination by (relation "measure (size \<circ> snd)") (auto dest: children_size)

declare exposed.simps [simp del]

lemma exposed_text: "is_text e \<Longrightarrow> \<not> exposed us e"
  by (cases e; subst exposed.simps) (simp_all add: is_text_def raw_op_def children_def)

lemma exposed_piece:
  "\<not> exposed us v \<Longrightarrow> is_text f \<Longrightarrow> \<not> exposed us (EOp (OpFormat FormatPiece) [v, f] sp)"
  by (subst exposed.simps) (simp add: raw_op_def is_unchecked_op_def children_def exposed_text)

lemma unchecked_refused:
  "infer_expr tc cx e \<Gamma> = Inr r \<Longrightarrow> \<not> is_unsafe_context cx \<Longrightarrow> \<not> raw_op (ck_unsafe_fns cx) e"
  by (cases e) (auto simp: infer_expr_def raw_op_def infer_op_def infer_cast_def infer_call_def infer_ref_def
      require_unsafe_def require_unsafe_fn_def split: if_splits option.splits)

lemma in_loop_context [simp]:
  "is_unsafe_context (in_loop cx) = is_unsafe_context cx" "ck_unsafe_fns (in_loop cx) = ck_unsafe_fns cx"
  "ck_defer (in_loop cx) = ck_defer cx" "ck_defer (in_unsafe cx) = ck_defer cx"
  "ck_loop (in_unsafe cx) = ck_loop cx"
  by (simp_all add: in_loop_def in_unsafe_def is_unsafe_context_def)

lemma checked_under_gate:
  "(cx', c) \<in> set (checked_under cx e) \<Longrightarrow> \<not> is_unsafe_block e \<Longrightarrow>
     is_unsafe_context cx' = is_unsafe_context cx \<and> ck_unsafe_fns cx' = ck_unsafe_fns cx"
  by (cases e) (auto simp: checked_under_def is_unsafe_block_def)

lemma checked_under_child: "c \<in> set (children e) \<Longrightarrow> \<exists>cx'. (cx', c) \<in> set (checked_under cx e)"
  unfolding checked_under_children [of cx, symmetric] by auto

interpretation gated: accepting infer "\<lambda>cx e. \<not> is_unsafe_context cx \<longrightarrow> \<not> exposed (ck_unsafe_fns cx) e"
proof (rule accepted_induct)
  fix tc cx e \<Gamma> and r :: "ty \<times> tenv"
  assume r: "infer_expr tc cx e \<Gamma> = Inr r"
    and ops: "\<forall>(cx', c) \<in> set (checked_under cx e). \<not> is_unsafe_context cx' \<longrightarrow> \<not> exposed (ck_unsafe_fns cx') c"
  have "\<not> exposed (ck_unsafe_fns cx) c"
    if "\<not> is_unsafe_context cx" "\<not> is_unsafe_block e" "c \<in> set (children e)" for c
    using that ops checked_under_child [OF that(3), of cx] checked_under_gate [OF _ that(2), of _ _ cx] by fastforce
  then show "\<not> is_unsafe_context cx \<longrightarrow> \<not> exposed (ck_unsafe_fns cx) e"
    using unchecked_refused [OF r] by (subst exposed.simps) blast
qed (auto simp: exposed_text exposed_piece)

section \<open>Functions of a checked module\<close>

fun contract_expr :: "contract \<Rightarrow> expr" where
  "contract_expr (Requires e) = e"
| "contract_expr (Ensures e) = e"
| "contract_expr (Invariant e) = e"

text \<open>The context a function's contracts, its body and its deferred statements are checked in.\<close>

definition contract_context :: "chk \<Rightarrow> fn_def \<Rightarrow> chk" where
  "contract_context cx f = cx\<lparr>ck_in_unsafe_fn := fd_is_unsafe f, ck_unsafe := 0, ck_return := None\<rparr>"

definition body_context :: "chk \<Rightarrow> fn_def \<Rightarrow> chk" where
  "body_context cx f = (contract_context cx f)\<lparr>ck_return := Some (fd_return_type f), ck_loop := 0\<rparr>"

context accepting begin

lemma check_contracts_ok:
  "check_contracts tc cx t \<Gamma> cs = Inr \<Gamma>' \<Longrightarrow> \<forall>c \<in> set cs. ok cx (contract_expr c)"
proof (induction cs arbitrary: \<Gamma>)
  case (Cons c cs)
  then show ?case
    by (cases c) (auto simp: inside_def dest!: accepted split: sum.splits if_splits)
qed simp

lemma check_body_ok:
  "check_body tc cx d t es \<Gamma> = Inr r \<Longrightarrow>
     \<forall>e \<in> set es. case defer_args e of None \<Rightarrow> ok cx e | Some args \<Rightarrow> all_ok (cx\<lparr>ck_defer := True\<rparr>) args"
proof (induction es arbitrary: t \<Gamma>)
  case (Cons e es)
  then show ?case
    by (cases "defer_args e") (auto simp: check_defer_def dest!: accepted check_stmts_ok)
qed simp

end

lemma inside_Inr [simp]: "inside r = Inr x \<longleftrightarrow> r = Inr x"
  by (auto simp: inside_def split: sum.splits)

lemma check_fn_def_parts:
  assumes "check_fn_def cx f = Inr t" "accepting infer ok"
  shows "\<forall>c \<in> set (fd_contracts f). ok (contract_context cx f) (contract_expr c)"
    and "\<forall>e \<in> set (fd_body f). case defer_args e of None \<Rightarrow> ok (body_context cx f) e
           | Some args \<Rightarrow> \<forall>a \<in> set args. ok ((body_context cx f)\<lparr>ck_defer := True\<rparr>) a"
proof -
  obtain \<Gamma> \<Gamma>1 r d where c: "check_contracts infer (contract_context cx f) (fd_return_type f) \<Gamma> (fd_contracts f) = Inr \<Gamma>1"
    and b: "check_body infer (body_context cx f) d TVoid (fd_body f) \<Gamma>1 = Inr r"
    using assms(1) that
    by (auto simp: check_fn_def_def Let_def contract_context_def body_context_def
        split: sum.splits if_splits)
  show "\<forall>c \<in> set (fd_contracts f). ok (contract_context cx f) (contract_expr c)"
    by (rule accepting.check_contracts_ok [OF assms(2) c])
  show "\<forall>e \<in> set (fd_body f). case defer_args e of None \<Rightarrow> ok (body_context cx f) e
           | Some args \<Rightarrow> \<forall>a \<in> set args. ok ((body_context cx f)\<lparr>ck_defer := True\<rparr>) a"
    by (rule accepting.check_body_ok [OF assms(2) b])
qed

lemma check_module_fn:
  assumes "check_module m = Inr cx" "f \<in> set (m_functions m)"
  shows "\<exists>t. check_fn_def cx f = Inr t"
  using assms
  by (force simp: check_module_def Let_def fn_errors_def List.map_filter_def filter_empty_conv
      split: sum.splits if_splits list.splits)

text \<open>What a function's code is: its contracts and its statements.\<close>

definition fn_code :: "fn_def \<Rightarrow> expr list" where
  "fn_code f = map contract_expr (fd_contracts f) @ fd_body f"

lemma defer_args_Some: "defer_args e = Some args \<Longrightarrow> \<exists>sp. e = EOp OpDefer args sp"
  by (auto simp: defer_args_def split: expr.splits opcode.splits)

lemma exposed_defer: "exposed us (EOp OpDefer args sp) \<longleftrightarrow> (\<exists>a \<in> set args. exposed us a)"
  by (subst exposed.simps) (simp add: raw_op_def is_unchecked_op_def is_unsafe_block_def children_def)

lemma safe_fn_gated:
  assumes "check_module m = Inr cx" "f \<in> set (m_functions m)" "\<not> fd_is_unsafe f" "e \<in> set (fn_code f)"
  shows "\<not> exposed (ck_unsafe_fns cx) e"
proof -
  obtain t where t: "check_fn_def cx f = Inr t" using check_module_fn [OF assms(1,2)] by blast
  note parts = check_fn_def_parts [OF t gated.accepting_axioms]
  have ctx: "\<not> is_unsafe_context (contract_context cx f)" "\<not> is_unsafe_context (body_context cx f)"
    "\<not> is_unsafe_context ((body_context cx f)\<lparr>ck_defer := True\<rparr>)"
    using assms(3) by (simp_all add: is_unsafe_context_def contract_context_def body_context_def)
  have us: "ck_unsafe_fns (contract_context cx f) = ck_unsafe_fns cx"
    "ck_unsafe_fns (body_context cx f) = ck_unsafe_fns cx"
    by (simp_all add: contract_context_def body_context_def)
  consider c where "c \<in> set (fd_contracts f)" "e = contract_expr c" | "e \<in> set (fd_body f)"
    using assms(4) by (auto simp: fn_code_def)
  then show ?thesis
  proof cases
    case 1
    then show ?thesis using parts(1) ctx us by auto
  next
    case 2
    show ?thesis
    proof (cases "defer_args e")
      case None
      then show ?thesis using parts(2) ctx us 2 by auto
    next
      case (Some args)
      then obtain sp where "e = EOp OpDefer args sp" using defer_args_Some by blast
      then show ?thesis using parts(2) ctx us 2 Some by (auto simp: exposed_defer)
    qed
  qed
qed

end
