(* ===== verification/Check_Tables.thy ===== *)
theory Check_Tables
  imports Accepted Layout_Properties
begin

text \<open>
  What a checked module's declarations satisfy: every name is declared once in its kind and the
  tables resolve it to its declaration, members, variants and fields are distinct, unions are held
  by value, and every value struct passes the test (\<open>all_checked\<close>). The last part joins these with
  \<open>exposed\<close>: in a checked module a function that is not \<^verbatim>\<open>unsafe\<close> does unchecked things only inside
  \<^verbatim>\<open>unsafe\<close> blocks.
\<close>

section \<open>Each kind of declaration\<close>

lemma at_item_Inr [simp]: "at_item k n sp r = Inr x \<longleftrightarrow> r = Inr x"
  by (auto simp: at_item_def split: sum.splits)

lemma fail_if_Inr [simp]: "fail_if b w = Inr u \<longleftrightarrow> \<not> b"
  by (auto simp: fail_if_def)

lemma find_value_None: "List.find (\<lambda>(_, w). w = v) xs = None \<longleftrightarrow> v \<notin> snd ` set xs"
  by (force simp: find_None_iff)

lemma check_members_distinct:
  "check_members before ms = Inr u \<Longrightarrow>
     distinct (map fst ms) \<and> distinct (map snd ms) \<and> fst ` set ms \<inter> fst ` set before = {}
       \<and> snd ` set ms \<inter> snd ` set before = {}"
  by (induction before ms rule: check_members.induct)
    (auto simp: find_value_None split: option.splits)

lemma check_enum_ok:
  "check_enum m acc e = Inr u \<Longrightarrow> ed_name e \<notin> fst ` set acc \<and> ed_name e \<notin> sd_name ` set (m_structs m)
     \<and> distinct (map fst (ed_members e)) \<and> distinct (map snd (ed_members e))"
  using check_members_distinct [of "[]" "ed_members e"] by (auto simp: check_enum_def)

lemma check_enums_table:
  assumes "check_enums m acc es = Inr r" "distinct (map fst acc)"
  shows "r = acc @ map (\<lambda>e. (ed_name e, e)) es \<and> distinct (map fst acc @ map ed_name es)
    \<and> (\<forall>e \<in> set es. distinct (map fst (ed_members e)) \<and> distinct (map snd (ed_members e))
        \<and> ed_name e \<notin> sd_name ` set (m_structs m))"
  using assms
proof (induction es arbitrary: acc)
  case (Cons e es)
  then have c: "check_enum m acc e = Inr ()" "check_enums m (acc @ [(ed_name e, e)]) es = Inr r" by auto
  show ?case using Cons.IH [OF c(2)] Cons.prems(2) check_enum_ok [OF c(1)] by simp
qed simp

lemma register_structs_table:
  assumes "register_structs acc ss = Inr r" "distinct (map fst acc)"
  shows "r = acc @ map (\<lambda>s. (sd_name s, s)) ss \<and> distinct (map fst acc @ map sd_name ss)
    \<and> (\<forall>s \<in> set ss. distinct (map sf_name (sd_fields s)))"
  using assms
proof (induction ss arbitrary: acc)
  case (Cons s ss)
  then have c: "check_struct acc s = Inr ()" "register_structs (acc @ [(sd_name s, s)]) ss = Inr r" by auto
  from c(1) have "sd_name s \<notin> fst ` set acc" "distinct (map sf_name (sd_fields s))"
    by (auto simp: check_struct_def repeated_None split: option.splits)
  then show ?case using Cons.IH [OF c(2)] Cons.prems(2) by simp
qed simp

lemma check_variant_fields_distinct:
  "check_variant_fields st vn before fs = Inr u \<Longrightarrow>
     distinct (map sf_name fs) \<and> sf_name ` set fs \<inter> set before = {}"
  by (induction st vn before fs rule: check_variant_fields.induct) auto

lemma check_variants_distinct:
  "check_variants st before vs = Inr u \<Longrightarrow>
     distinct (map vr_name vs) \<and> vr_name ` set vs \<inter> set before = {}
       \<and> (\<forall>v \<in> set vs. distinct (map sf_name (vr_fields v)))"
  by (induction st before vs rule: check_variants.induct) (auto dest: check_variant_fields_distinct)

definition union_ok :: "union_def \<Rightarrow> bool" where
  "union_ok u \<longleftrightarrow> ud_variants u \<noteq> [] \<and> distinct (map vr_name (ud_variants u))
     \<and> (\<forall>v \<in> set (ud_variants u). distinct (map sf_name (vr_fields v)))"

lemma check_unions_table:
  assumes "check_unions st enums acc us = Inr r" "distinct (map fst acc)"
  shows "r = acc @ map (\<lambda>u. (ud_name u, u)) us \<and> distinct (map fst acc @ map ud_name us) \<and> (\<forall>u \<in> set us. union_ok u)"
  using assms
proof (induction us arbitrary: acc)
  case (Cons u us)
  then have c: "check_union st enums acc u = Inr ()" "check_unions st enums (acc @ [(ud_name u, u)]) us = Inr r" by auto
  then have "union_ok u" "ud_name u \<notin> fst ` set acc"
    using check_variants_distinct [of st "[]" "ud_variants u" "()"] by (auto simp: check_union_def union_ok_def)
  then show ?case using Cons.IH [OF c(2)] Cons.prems(2) by simp
qed simp

lemma check_signatures_table:
  assumes "check_signatures acc fs = Inr r" "distinct (map fst acc)"
  shows "r = acc @ map (\<lambda>f. (fd_name f, f)) fs \<and> distinct (map fst acc @ map fd_name fs)
    \<and> (\<forall>f \<in> set fs. distinct (map fst (fd_params f)))"
  using assms
proof (induction fs arbitrary: acc)
  case (Cons f fs)
  then have c: "check_signature acc f = Inr ()" "check_signatures (acc @ [(fd_name f, f)]) fs = Inr r" by auto
  from c(1) have "fd_name f \<notin> fst ` set acc" "distinct (map fst (fd_params f))"
    by (auto simp: check_signature_def repeated_None split: option.splits)
  then show ?case using Cons.IH [OF c(2)] Cons.prems(2) by simp
qed simp

section \<open>The tables\<close>

definition table :: "('a \<Rightarrow> string) \<Rightarrow> 'a list \<Rightarrow> (string \<times> 'a) list" where
  "table name xs = map (\<lambda>x. (name x, x)) xs"

lemma map_of_table: "distinct (map name xs) \<Longrightarrow> x \<in> set xs \<Longrightarrow> map_of (table name xs) (name x) = Some x"
  unfolding table_def by (rule map_of_is_SomeI) (auto simp: comp_def)

lemma map_of_rev_table:
  assumes "distinct (map name xs)"
  shows "map_of (rev (table name xs)) = map_of (table name xs)"
proof
  fix n
  have d: "distinct (map fst (table name xs))" "distinct (map fst (rev (table name xs)))"
    using assms by (simp_all add: table_def comp_def rev_map [symmetric])
  show "map_of (rev (table name xs)) n = map_of (table name xs) n"
    using map_of_eq_Some_iff [OF d(1)] map_of_eq_Some_iff [OF d(2)] by (metis set_rev not_None_eq)
qed

text \<open>The struct table the checker builds and the one of the layout decide the same things of a value struct.\<close>

lemma value_struct_same:
  assumes "map_of (st_defs st) = map_of (st_defs st')" "length (st_defs st) = length (st_defs st')"
  shows "check_value_struct st s = check_value_struct st' s"
proof -
  have vs: "is_value_struct st = is_value_struct st'"
    using assms(1) by (simp add: is_value_struct_def fun_eq_iff)
  then have "value_field st = value_field st'"
    by (auto simp: value_field_def fun_eq_iff split: ty.split)
  then have f: "value_field st = value_field st'" "value_fields st = value_fields st'"
    by (simp_all add: value_fields_def fun_eq_iff)
  have "contains_loop st self stack seen = contains_loop st' self stack seen" for self stack seen
    using assms(1) f by (induction st self stack seen rule: contains_loop.induct) (auto split: option.split)
  then have c: "contains_itself st s = contains_itself st' s"
    by (simp add: contains_itself_def f)
  have n: "count_scalars d st t = count_scalars d st' t" for d t
    using assms(1)
    by (induction d st t rule: count_scalars.induct) (auto split: option.split nat.split cong: map_cong)
  show ?thesis
    unfolding check_value_struct_def nest_fuel_def c n assms(2) ..
qed

lemma structs_new_defs:
  assumes "structs_new ss us = Inr st"
  shows "st_defs st = rev (table sd_name ss) \<and> st_unions st = rev (table ud_name us)"
  using assms by (auto simp: structs_new_def table_def Let_def)

lemma check_items_parts:
  assumes "check_items m = Inr cx"
  obtains st where "structs_new (m_structs m) (m_unions m) = Inr st"
    "cx = chk_of st (table ed_name (m_enums m)) (table ud_name (m_unions m)) (table fd_name (m_functions m))"
    "check_structs m \<lparr>st_defs = table sd_name (m_structs m), st_unions = [], st_by_value = []\<rparr> = Inr ()"
    "\<And>u. u \<in> set (m_unions m) \<Longrightarrow> union_error st u = Inr None \<and> union_ok u"
    "distinct (map ed_name (m_enums m))" "distinct (map sd_name (m_structs m))"
    "distinct (map ud_name (m_unions m))" "distinct (map fd_name (m_functions m))"
    "\<And>e. e \<in> set (m_enums m) \<Longrightarrow> distinct (map fst (ed_members e)) \<and> distinct (map snd (ed_members e))"
    "\<And>s. s \<in> set (m_structs m) \<Longrightarrow> distinct (map sf_name (sd_fields s))"
proof -
  obtain enums defs unions st fns where
    e: "check_enums m [] (m_enums m) = Inr enums" and d: "register_structs [] (m_structs m) = Inr defs"
    and s: "check_structs m \<lparr>st_defs = defs, st_unions = [], st_by_value = []\<rparr> = Inr ()"
    and u: "check_unions \<lparr>st_defs = defs, st_unions = [], st_by_value = []\<rparr> enums [] (m_unions m) = Inr unions"
    and n: "structs_new (m_structs m) (m_unions m) = Inr st"
    and v: "each (\<lambda>u. at_item KUnion (ud_name u) (ud_span u) (check_union_value st u)) (m_unions m) = Inr ()"
    and f: "check_signatures [] (m_functions m) = Inr fns" and cx: "cx = chk_of st enums unions fns"
    using assms by (auto simp: check_items_def Let_def split: sum.splits)
  note te = check_enums_table [OF e] and td = register_structs_table [OF d]
    and tu = check_unions_table [OF u] and tf = check_signatures_table [OF f]
  have byval: "union_error st w = Inr None" if "w \<in> set (m_unions m)" for w
  proof -
    from v that have "check_union_value st w = Inr ()" by (simp add: each_Inr)
    then show ?thesis by (simp add: check_union_value_def split: sum.splits option.splits)
  qed
  show thesis
  proof (rule that [OF n])
    show "cx = chk_of st (table ed_name (m_enums m)) (table ud_name (m_unions m)) (table fd_name (m_functions m))"
      using te tu tf cx by (simp add: table_def)
    show "check_structs m \<lparr>st_defs = table sd_name (m_structs m), st_unions = [], st_by_value = []\<rparr> = Inr ()"
      using s td by (simp add: table_def)
    show "union_error st u = Inr None \<and> union_ok u" if "u \<in> set (m_unions m)" for u
      using byval tu that by simp
  qed (use te td tu tf in simp_all)
qed

lemma union_error_value: "union_error st u = Inr None \<Longrightarrow> is_value_union st (ud_name u)"
  by (cases "ud_variants u") (auto simp: union_error_def split: if_splits list.splits)

text \<open>The context of a checked module, with the analysis of its leaks added.\<close>

lemma check_module_parts:
  assumes "check_module m = Inr cx"
  obtains cx0 where "check_items m = Inr cx0" "cx = cx0\<lparr>ck_leaks := Some (may_leak (analysis_new m))\<rparr>"
    "fn_errors cx (m_functions m) = []" "leaks_check m = []"
  using assms that by (auto simp: check_module_def Let_def split: sum.splits if_splits list.splits)

lemma check_module_tables:
  assumes "check_module m = Inr cx"
  shows "structs_new (m_structs m) (m_unions m) = Inr (ck_structs cx)"
    and "\<And>s. s \<in> set (m_structs m) \<Longrightarrow> get_struct (ck_structs cx) (sd_name s) = Some s \<and> distinct (map sf_name (sd_fields s))"
    and "\<And>u. u \<in> set (m_unions m) \<Longrightarrow> ck_unions cx (ud_name u) = Some u \<and> get_union (ck_structs cx) (ud_name u) = Some u
           \<and> is_value_union (ck_structs cx) (ud_name u) \<and> union_ok u"
    and "\<And>e. e \<in> set (m_enums m) \<Longrightarrow> ck_enums cx (ed_name e) = Some e
           \<and> distinct (map fst (ed_members e)) \<and> distinct (map snd (ed_members e))"
    and "\<And>f. f \<in> set (m_functions m) \<Longrightarrow> ck_fns cx (fd_name f) = Some (signature f)"
    and "ck_unsafe_fns cx = map fd_name (filter fd_is_unsafe (m_functions m))"
proof -
  from assms obtain cx0 where c: "check_items m = Inr cx0"
    and cx: "cx = cx0\<lparr>ck_leaks := Some (may_leak (analysis_new m))\<rparr>" by (rule check_module_parts)
  obtain st where n: "structs_new (m_structs m) (m_unions m) = Inr st"
    and cx0: "cx0 = chk_of st (table ed_name (m_enums m)) (table ud_name (m_unions m)) (table fd_name (m_functions m))"
    and u: "\<And>u. u \<in> set (m_unions m) \<Longrightarrow> union_error st u = Inr None \<and> union_ok u"
    and d: "distinct (map ed_name (m_enums m))" "distinct (map sd_name (m_structs m))"
    "distinct (map ud_name (m_unions m))" "distinct (map fd_name (m_functions m))"
    and e: "\<And>e. e \<in> set (m_enums m) \<Longrightarrow> distinct (map fst (ed_members e)) \<and> distinct (map snd (ed_members e))"
    and s: "\<And>s. s \<in> set (m_structs m) \<Longrightarrow> distinct (map sf_name (sd_fields s))"
    by (rule check_items_parts [OF c]) (rule that)
  have [simp]: "ck_structs cx = st" "ck_enums cx = map_of (table ed_name (m_enums m))"
    "ck_unions cx = map_of (table ud_name (m_unions m))"
    by (simp_all add: cx cx0 chk_of_def)
  have st: "st_defs st = rev (table sd_name (m_structs m))" "st_unions st = rev (table ud_name (m_unions m))"
    using structs_new_defs [OF n] by blast+
  show "structs_new (m_structs m) (m_unions m) = Inr (ck_structs cx)" by (simp add: n)
  show "get_struct (ck_structs cx) (sd_name x) = Some x \<and> distinct (map sf_name (sd_fields x))"
    if "x \<in> set (m_structs m)" for x
    using map_of_table [OF d(2) that] s [OF that] by (simp add: st map_of_rev_table [OF d(2)])
  show "ck_unions cx (ud_name x) = Some x \<and> get_union (ck_structs cx) (ud_name x) = Some x
      \<and> is_value_union (ck_structs cx) (ud_name x) \<and> union_ok x" if "x \<in> set (m_unions m)" for x
    using map_of_table [OF d(3) that] u [OF that] by (simp add: st map_of_rev_table [OF d(3)] union_error_value)
  show "ck_enums cx (ed_name x) = Some x \<and> distinct (map fst (ed_members x)) \<and> distinct (map snd (ed_members x))"
    if "x \<in> set (m_enums m)" for x
    using map_of_table [OF d(1) that] e [OF that] by simp
  show "ck_fns cx (fd_name f) = Some (signature f)" if "f \<in> set (m_functions m)" for f
  proof -
    have "map_of (map (\<lambda>f. (fd_name f, signature f)) (m_functions m)) (fd_name f) = Some (signature f)"
      using d(4) that by (intro map_of_is_SomeI) (auto simp: comp_def)
    then show ?thesis by (simp add: cx cx0 chk_of_def table_def comp_def)
  qed
  show "ck_unsafe_fns cx = map fd_name (filter fd_is_unsafe (m_functions m))"
    by (simp add: cx cx0 chk_of_def table_def filter_map comp_def)
qed

lemma check_module_all_checked:
  assumes "check_module m = Inr cx"
  shows "all_checked (ck_structs cx)"
  unfolding all_checked_def
proof (intro allI impI)
  fix n d
  assume d: "get_struct (ck_structs cx) n = Some d" "sd_is_value d"
  from assms obtain cx0 where c: "check_items m = Inr cx0" by (rule check_module_parts)
  let ?st0 = "\<lparr>st_defs = table sd_name (m_structs m), st_unions = [], st_by_value = []\<rparr>"
  from c have dist: "distinct (map sd_name (m_structs m))" and s: "check_structs m ?st0 = Inr ()"
    by (blast elim: check_items_parts)+
  have st: "st_defs (ck_structs cx) = rev (table sd_name (m_structs m))"
    using structs_new_defs [OF check_module_tables(1) [OF assms]] by simp
  have m: "sd_name d = n" "d \<in> set (m_structs m)"
    using map_of_SomeD [OF d(1)] by (auto simp: st table_def)
  then have "check_value_struct ?st0 d = Inr ()"
    using s d(2) by (cases "check_value_struct ?st0 d") (auto simp: check_structs_def each_Inr)
  moreover have "check_value_struct ?st0 d = check_value_struct (ck_structs cx) d"
    by (rule value_struct_same) (simp_all add: st map_of_rev_table [OF dist])
  ultimately show "sd_name d = n \<and> check_value_struct (ck_structs cx) d = Inr ()" using m by simp
qed

section \<open>A module that checks\<close>

definition plain_fn :: "string \<Rightarrow> ty \<Rightarrow> expr list \<Rightarrow> bool \<Rightarrow> fn_def" where
  "plain_fn n r body unsafe =
     \<lparr>fd_name = n, fd_params = [], fd_return_type = r, fd_contracts = [], fd_body = body, fd_span = (1, 1),
      fd_is_unsafe = unsafe, fd_is_no_leak = False\<rparr>"

definition demo_module :: Ast.module where
  "demo_module =
     \<lparr>m_name = ''m'', m_imports = [], m_structs = [demo_point], m_enums = [], m_unions = [demo_union],
      m_functions =
        [plain_fn ''poke'' TVoid [EOp (OpMem MemStore32) [ELit (LInt 1024) (2, 9), ELit (LInt 5) (2, 14)] (2, 1)] True,
         plain_fn ''f'' TI32 [EUnsafe [ECall ''poke'' [] (4, 9)] (4, 1), ELit (LInt 7) (5, 1)] False],
      m_sources = Map.empty, m_file_names = Map.empty\<rparr>"

lemma demo_check_structs:
  "check_structs demo_module \<lparr>st_defs = table sd_name (m_structs demo_module), st_unions = [], st_by_value = []\<rparr> = Inr ()"
proof -
  let ?st = "\<lparr>st_defs = table sd_name [demo_point], st_unions = [], st_by_value = []\<rparr>"
  have "check_value_struct ?st demo_point = check_value_struct demo_structs demo_point"
    by (rule value_struct_same) (simp_all add: table_def demo_structs_def demo_point_def)
  also have "\<dots> = Inr ()"
    using demo_all_checked by (auto simp: all_checked_def demo_structs_def demo_point_def)
  finally have v: "check_value_struct ?st demo_point = Inr ()" .
  have "field_layout st f w = Inr ()" if "f \<in> set (sd_fields demo_point)" for st f w
    using that by (auto simp: demo_point_def field_layout_def memory_layout_def type_size_and_align_def)
  with v show ?thesis by (simp add: check_structs_def demo_module_def each_Inr)
qed

lemma demo_check_unions:
  "check_unions \<lparr>st_defs = table sd_name (m_structs demo_module), st_unions = [], st_by_value = []\<rparr> [] [] (m_unions demo_module)
     = Inr [(''U'', demo_union)]"
proof -
  let ?st = "\<lparr>st_defs = table sd_name [demo_point], st_unions = [], st_by_value = []\<rparr>"
  have "field_layout ?st \<lparr>sf_name = ''p'', sf_ty = TStruct ''P''\<rparr> w = Inr ()" for w
    by (simp add: field_layout_def memory_layout_def type_size_and_align_def layout_at_struct table_def demo_point_def split: prod.split)
  then show ?thesis
    by (simp add: demo_module_def check_union_def fail_if_def at_item_def demo_union_def good_start_def table_def demo_point_def)
qed

lemma demo_items:
  "check_items demo_module =
     Inr (chk_of demo_structs [] [(''U'', demo_union)] (table fd_name (m_functions demo_module)))"
proof -
  have defs: "register_structs [] (m_structs demo_module) = Inr (table sd_name (m_structs demo_module))"
    by (simp add: demo_module_def check_struct_def fail_if_def demo_point_def table_def)
  have new: "structs_new (m_structs demo_module) (m_unions demo_module) = Inr demo_structs"
    by (simp add: demo_module_def demo_structs_new)
  have types: "check_field_types demo_module (chk_of demo_structs [] [(''U'', demo_union)] []) = Inr ()"
    by (simp add: check_field_types_def each_Inr typed_as_def demo_module_def demo_point_def demo_union_def
        fault_res_def is_value_def is_value_struct_def chk_of_def demo_structs_def is_narrow_def)
  have byval: "check_union_value demo_structs u = Inr ()" if "u \<in> set (m_unions demo_module)" for u
    using that by (simp add: demo_module_def check_union_value_def union_error_def is_value_union_def demo_structs_def demo_union_def)
  have fns: "check_signatures [] (m_functions demo_module) = Inr (table fd_name (m_functions demo_module))"
    by (simp add: demo_module_def check_signature_def plain_fn_def fail_if_def table_def)
  have enums: "check_enums demo_module [] (m_enums demo_module) = Inr []"
    by (simp add: demo_module_def)
  show ?thesis
    unfolding check_items_def enums defs
    by (simp add: Let_def demo_check_structs demo_check_unions new types fns at_item_def byval each_Inr)
qed

definition demo_chk :: chk where
  "demo_chk = (chk_of demo_structs [] [(''U'', demo_union)] (table fd_name (m_functions demo_module)))
     \<lparr>ck_leaks := Some (may_leak (analysis_new demo_module))\<rparr>"

lemmas infer_simps = infer_unfold infer_expr_def infer_op_def infer_call_def infer_unsafe_def infer_lit_def
  cbind_def cret_def cfail_def clift_def cguard_def cenv_def cinsert_def scoped_def

lemma fits_refl [simp]: "fits t t"
  by (simp add: fits_def)

lemma demo_fns:
  "map (check_fn_def demo_chk) (m_functions demo_module) = [Inr TVoid, Inr TI32]"
  by (simp add: demo_module_def demo_chk_def check_fn_def_def plain_fn_def Let_def inside_def defer_args_def
      ends_in_return_def chk_of_def table_def unused_def signature_def require_unsafe_def require_unsafe_fn_def
      is_unsafe_context_def is_unchecked_op_def check_literal_address_def is_address_op_def is_write_op_def
      infer_mem_def infer_store_def two_operands_def infer_simps)

lemma demo_checks: "check_module demo_module = Inr demo_chk"
proof -
  have "fn_errors demo_chk (m_functions demo_module) = []"
    using demo_fns by (simp add: fn_errors_def List.map_filter_def demo_module_def)
  moreover have "filter fd_is_no_leak (m_functions demo_module) = []"
    by (simp add: demo_module_def plain_fn_def)
  then have "leaks_check demo_module = []"
    by (simp add: leaks_check_def Let_def List.map_filter_def)
  ultimately show ?thesis
    by (simp add: check_module_def demo_items Let_def demo_chk_def)
qed

section \<open>Properties\<close>

text \<open>
  C14. In a module that checks, every declaration is found under its own name and no other: structs
  with distinct fields, unions that are held by value with distinct variants, enums whose members
  have distinct names and values, functions with their signatures; and every value struct passes
  the test of value structs, so that it flattens into at most eight scalars.
\<close>

theorem checked_declarations:
  assumes "check_module m = Inr cx"
  shows "(\<forall>s \<in> set (m_structs m). get_struct (ck_structs cx) (sd_name s) = Some s \<and> distinct (map sf_name (sd_fields s)))
    \<and> (\<forall>u \<in> set (m_unions m). ck_unions cx (ud_name u) = Some u \<and> is_value_union (ck_structs cx) (ud_name u)
        \<and> ud_variants u \<noteq> [] \<and> distinct (map vr_name (ud_variants u)))
    \<and> (\<forall>e \<in> set (m_enums m). ck_enums cx (ed_name e) = Some e
        \<and> distinct (map fst (ed_members e)) \<and> distinct (map snd (ed_members e)))
    \<and> (\<forall>f \<in> set (m_functions m). ck_fns cx (fd_name f) = Some (map snd (fd_params f), fd_return_type f))
    \<and> (\<forall>n d. get_struct (ck_structs cx) n = Some d \<longrightarrow> sd_is_value d \<longrightarrow> check_value_struct (ck_structs cx) d = Inr ())"
  using check_module_tables [OF assms] check_module_all_checked [OF assms]
  by (auto simp: union_ok_def all_checked_def signature_def)

lemma checked_declarations_witness:
  "get_struct demo_structs ''P'' = Some demo_point \<and> ck_unions demo_chk ''U'' = Some demo_union
   \<and> ck_fns demo_chk ''poke'' = Some ([], TVoid)"
  using checked_declarations [OF demo_checks]
  by (auto simp: demo_module_def demo_chk_def chk_of_def demo_point_def demo_union_def plain_fn_def)

text \<open>
  C13. In a module that checks, the contracts and the statements of a function that is not declared
  \<^verbatim>\<open>unsafe\<close> do nothing unchecked (a raw memory, atomic, thread or system operation, a cast to a
  pointer or an array, a call of or a reference to an unsafe function) outside an \<^verbatim>\<open>unsafe\<close> block.
\<close>

theorem unsafe_operations_gated:
  assumes "check_module m = Inr cx" "f \<in> set (m_functions m)" "\<not> fd_is_unsafe f" "e \<in> set (fn_code f)"
  shows "\<not> exposed (map fd_name (filter fd_is_unsafe (m_functions m))) e"
  using safe_fn_gated [OF assms] by (simp add: check_module_tables(6) [OF assms(1)])

lemma unsafe_operations_gated_witness:
  "\<not> exposed [''poke''] (EUnsafe [ECall ''poke'' [] (4, 9)] (4, 1)) \<and> exposed [''poke''] (ECall ''poke'' [] (4, 9))"
proof
  have us: "map fd_name (filter fd_is_unsafe (m_functions demo_module)) = [''poke'']"
    by (simp add: demo_module_def plain_fn_def)
  show "\<not> exposed [''poke''] (EUnsafe [ECall ''poke'' [] (4, 9)] (4, 1))"
    by (rule unsafe_operations_gated [OF demo_checks, of "m_functions demo_module ! 1", unfolded us])
      (simp_all add: demo_module_def plain_fn_def fn_code_def)
  show "exposed [''poke''] (ECall ''poke'' [] (4, 9))"
    by (subst exposed.simps) (simp add: raw_op_def)
qed

end
