(* ===== verification/Check_Properties.thy ===== *)
theory Check_Properties
  imports Check_Tables Check_Facts Vm_Facts
begin

text \<open>
  Properties of the checker's judgement on expressions, and of how it meets the VM's guards: the
  check is defined by the source's equations, scopes only grow, \<open>meet\<close> is the least common type,
  literal addresses; and two places where an accepted program fails in the VM.
\<close>

text \<open>
  Checking an expression never runs out of fuel: \<open>infer\<close>, which gives the recursion the size of
  the expression, satisfies the equations of \<^verbatim>\<open>infer_expr_type\<close> with itself as the recursive call.
\<close>

theorem infer_total: "infer cx e = infer_expr infer cx e"
  by (rule infer_unfold)

text \<open>
  C16. A check adds variables to the scope and changes none: the scope after an accepted expression
  gives every variable of the scope before it the same type.
\<close>

theorem scope_grows:
  assumes "infer cx e \<Gamma> = Inr (t, \<Gamma>')"
  shows "\<Gamma> \<subseteq>\<^sub>m \<Gamma>'"
  using growsD [OF scope.tc_grows assms] .

lemma scope_grows_witness:
  "[''a'' \<mapsto> TI64] \<subseteq>\<^sub>m [''a'' \<mapsto> TI64, ''b'' \<mapsto> TI32]
   \<and> infer demo_chk (ELet ''b'' TI32 (ELit (LInt 1) (1, 2)) (1, 1)) [''a'' \<mapsto> TI64] = Inr (TVoid, [''a'' \<mapsto> TI64, ''b'' \<mapsto> TI32])"
proof -
  have r: "infer demo_chk (ELet ''b'' TI32 (ELit (LInt 1) (1, 2)) (1, 1)) [''a'' \<mapsto> TI64]
      = Inr (TVoid, [''a'' \<mapsto> TI64, ''b'' \<mapsto> TI32])"
    by (simp add: infer_simps infer_let_def no_shadow_def)
  with scope_grows [OF r] show ?thesis by simp
qed

lemma fits_antisym: "fits a b \<Longrightarrow> fits b a \<Longrightarrow> a = b"
  by (auto simp: fits_def split: ty.splits bool.splits)

text \<open>
  C31. \<open>meet\<close>, which types the branches of an \<^verbatim>\<open>if\<close>, the arms of a match and the sides of a comparison, is
  the least common type: both types fit it, and it fits every type both fit.
\<close>

theorem meet_least:
  "meet a b = Some m \<longleftrightarrow> fits a m \<and> fits b m \<and> (\<forall>c. fits a c \<longrightarrow> fits b c \<longrightarrow> fits m c)"
proof (cases "a = b")
  case True
  then show ?thesis by (auto simp: meet_def fits_antisym)
next
  case False
  then show ?thesis
    unfolding fits_def meet_def by (cases a; cases b) (auto split: ty.splits bool.splits if_splits)
qed

lemma meet_least_witness:
  "fits (TFn [TI32] TI32 False) (TFn [TI32] TI32 False)
   \<and> meet (TFn [TI32] TI32 True) (TFn [TI32] TI32 False) = Some (TFn [TI32] TI32 False)"
proof
  have m: "meet (TFn [TI32] TI32 True) (TFn [TI32] TI32 False) = Some (TFn [TI32] TI32 False)"
    by (simp add: meet_def)
  show "meet (TFn [TI32] TI32 True) (TFn [TI32] TI32 False) = Some (TFn [TI32] TI32 False)" by (rule m)
  have "fits (TFn [TI32] TI32 True) c \<Longrightarrow> fits (TFn [TI32] TI32 False) c \<Longrightarrow> fits (TFn [TI32] TI32 False) c" for c
    using meet_least [THEN iffD1, OF m] by blast
  then show "fits (TFn [TI32] TI32 False) (TFn [TI32] TI32 False)" by (simp add: fits_def)
qed



section \<open>Accepted programs that fail\<close>

text \<open>
  The rules on comparisons let results through: two results of the same type compare with \<^verbatim>\<open>lt\<close> in
  a program that checks, and the VM then fails on the operands; \<^verbatim>\<open>eq\<close> on them compares payloads.
\<close>

theorem results_compare:
  "infer cx (EOp (OpCmp Lt) [EOk (ELit (LInt 1) sp) (Some TStr) sp, EOk (ELit (LInt 2) sp) (Some TStr) sp] sp) \<Gamma>
     = Inr (TBool, \<Gamma>)
   \<and> apply_cmp Lt (VOk (VInt 1)) (VOk (VInt 2)) = Inl (EOperands (OpCmp Lt))"
proof
  have fit: "result_fits cx sp TI32 TStr = Inr ()"
    by (simp add: result_fits_def result_slots_def result_sum_def sum_layout_def result_side_def scalars_of_fields_def
        scalars_def kinds_layout_def kinds_def kind_count_def kind_index_def slot_size_def place_slots_Cons
        align_up_def Let_def max_scalars_def)
  show "infer cx (EOp (OpCmp Lt) [EOk (ELit (LInt 1) sp) (Some TStr) sp, EOk (ELit (LInt 2) sp) (Some TStr) sp] sp) \<Gamma>
     = Inr (TBool, \<Gamma>)"
    by (simp add: infer_simps is_unchecked_op_def check_literal_address_def is_address_op_def infer_cmp_def
        two_operands_def infer_ok_def check_result_payload_def fit or_else_def sealed_def meet_def check_compared_def
        is_unsigned_cmp_def is_reference_def is_enum_def)
  show "apply_cmp Lt (VOk (VInt 1)) (VOk (VInt 2)) = Inl (EOperands (OpCmp Lt))"
    by (simp add: apply_cmp_def signed_cmp_def)
qed

text \<open>
  A match on a union with an \<^verbatim>\<open>else\<close> body and no arm checks, and the VM, which takes the union's
  name from the first arm, fails to find it.
\<close>

theorem match_else_only:
  assumes "ck_unions cx u = Some d" "ud_variants d \<noteq> []" "\<Gamma> x = Some (TUnion u)"
  shows "infer cx (EMatch (EVar x sp) [] (Some [ELit (LInt 1) sp]) sp) \<Gamma> = Inr (TI32, \<Gamma>)
    \<and> (get_union (cx_structs vcx) [] = None \<longrightarrow>
        eval_match vcx (\<lambda>e s. Some (Inr (VUnion t vs), s)) (EVar x sp) [] (Some [ELit (LInt 1) sp]) s
          = Some (Inl (EUnknown []), s))"
proof
  show "infer cx (EMatch (EVar x sp) [] (Some [ELit (LInt 1) sp]) sp) \<Gamma> = Inr (TI32, \<Gamma>)"
    using assms by (simp add: infer_simps infer_match_def infer_var_def sealed_def match_members_def check_else_def)
  show "get_union (cx_structs vcx) [] = None \<longrightarrow>
        eval_match vcx (\<lambda>e s. Some (Inr (VUnion t vs), s)) (EVar x sp) [] (Some [ELit (LInt 1) sp]) s
          = Some (Inl (EUnknown []), s)"
    by (simp add: eval_match_def bindm_def get_scope_def match_type_def fail_def split: prod.split)
qed

lemma match_else_only_witness:
  "infer demo_chk (EMatch (EVar ''x'' (1, 1)) [] (Some [ELit (LInt 1) (1, 1)]) (1, 1)) [''x'' \<mapsto> TUnion ''U'']
     = Inr (TI32, [''x'' \<mapsto> TUnion ''U''])
   \<and> eval_match demo_cx (\<lambda>e s. Some (Inr (VUnion 1 []), s)) (EVar ''x'' (1, 1)) [] (Some [ELit (LInt 1) (1, 1)])
       (demo_vm mem_new, Map.empty) = Some (Inl (EUnknown []), demo_vm mem_new, Map.empty)"
proof -
  have d: "ck_unions demo_chk ''U'' = Some demo_union" "ud_variants demo_union \<noteq> []"
    by (simp_all add: demo_chk_def chk_of_def demo_union_def)
  show ?thesis
    using match_else_only [OF d, of "[''x'' \<mapsto> TUnion ''U'']" "''x''" "(1, 1)" demo_cx 1 "[]" "(demo_vm mem_new, Map.empty)"]
    by (simp add: demo_cx_def)
qed

end
