(* ===== verification/Steady.thy ===== *)
theory Steady
  imports Check_Facts
begin

text \<open>
  Which expressions leave the scope as it is. A \<^verbatim>\<open>let\<close> adds its variable to the scope it stands in, and
  bodies (of blocks, branches, loops and arms) have scopes of their own; so an expression that is not
  a \<^verbatim>\<open>let\<close> and has no \<^verbatim>\<open>let\<close> among its operands (\<open>steady\<close>) is checked without changing the scope.
\<close>

definition is_let :: "expr \<Rightarrow> bool" where
  "is_let e = (case e of ELet _ _ _ _ \<Rightarrow> True | _ \<Rightarrow> False)"

text \<open>The children that are evaluated in the expression's own scope.\<close>

definition operands :: "expr \<Rightarrow> expr list" where
  "operands e =
     (case e of
        EIf c _ _ _ \<Rightarrow> [c]
      | ELoop _ a b s _ _ \<Rightarrow> [a, b, s]
      | EWhile c _ _ \<Rightarrow> [c]
      | EBlock _ _ \<Rightarrow> [] | EUnsafe _ _ \<Rightarrow> []
      | EMatchResult v _ _ _ _ _ \<Rightarrow> [v]
      | EMatch v _ _ _ \<Rightarrow> [v]
      | _ \<Rightarrow> children e)"

lemma operands_children: "set (operands e) \<subseteq> set (children e)"
  by (cases e) (auto simp: operands_def children_def)

function steady :: "expr \<Rightarrow> bool" where
  "steady e \<longleftrightarrow> \<not> is_let e \<and> (\<forall>x \<in> set (operands e). steady x)"
  by pat_completeness auto
termination by (relation "measure size") (use operands_children children_size in auto)

declare steady.simps [simp del]

section \<open>Checks that keep the scope\<close>

named_theorems keep_intros "checks that do not change the scope"

definition keeps :: "'a chkm \<Rightarrow> bool" where
  "keeps m \<longleftrightarrow> (\<forall>\<Gamma> x \<Gamma>'. m \<Gamma> = Inr (x, \<Gamma>') \<longrightarrow> \<Gamma>' = \<Gamma>)"

lemma keepsI: "(\<And>\<Gamma> x \<Gamma>'. m \<Gamma> = Inr (x, \<Gamma>') \<Longrightarrow> \<Gamma>' = \<Gamma>) \<Longrightarrow> keeps m"
  by (auto simp: keeps_def)

lemma keepsD: "keeps m \<Longrightarrow> m \<Gamma> = Inr (x, \<Gamma>') \<Longrightarrow> \<Gamma>' = \<Gamma>"
  by (auto simp: keeps_def)

lemma keeps_basic [keep_intros]:
  "keeps (cret x)" "keeps (cfail sp w)" "keeps (clift r)" "keeps (cguard b sp w)" "keeps cenv"
  "keeps (scoped m)" "keeps (no_shadow sp n)"
  by (auto simp: keeps_def no_shadow_def)

lemma keeps_bind [keep_intros]: "keeps m \<Longrightarrow> (\<And>x. keeps (f x)) \<Longrightarrow> keeps (cbind m f)"
  by (fastforce simp: keeps_def)

lemma keeps_if [keep_intros]: "(b \<Longrightarrow> keeps m) \<Longrightarrow> (\<not> b \<Longrightarrow> keeps m') \<Longrightarrow> keeps (if b then m else m')"
  by simp

lemma keeps_option [keep_intros]:
  "(x = None \<Longrightarrow> keeps m) \<Longrightarrow> (\<And>y. x = Some y \<Longrightarrow> keeps (f y)) \<Longrightarrow> keeps (case x of None \<Rightarrow> m | Some y \<Rightarrow> f y)"
  by (cases x) auto

lemma keeps_prod [keep_intros]: "(\<And>a b. x = (a, b) \<Longrightarrow> keeps (f a b)) \<Longrightarrow> keeps (case x of (a, b) \<Rightarrow> f a b)"
  by (cases x) auto

lemma keeps_sum [keep_intros]:
  "(\<And>a. x = Inl a \<Longrightarrow> keeps (f a)) \<Longrightarrow> (\<And>b. x = Inr b \<Longrightarrow> keeps (g b)) \<Longrightarrow> keeps (case x of Inl a \<Rightarrow> f a | Inr b \<Rightarrow> g b)"
  by (cases x) auto

lemma keeps_list [keep_intros]:
  "(xs = [] \<Longrightarrow> keeps m) \<Longrightarrow> (\<And>y ys. xs = y # ys \<Longrightarrow> keeps (f y ys)) \<Longrightarrow>
     keeps (case xs of [] \<Rightarrow> m | y # ys \<Rightarrow> f y ys)"
  by (cases xs) auto

lemma keeps_ty [keep_intros]:
  assumes "\<And>x. keeps (f1 x)" "\<And>x. keeps (f2 x)" "\<And>x y. keeps (f3 x y)" "\<And>x. keeps (f4 x)"
    "\<And>x y z. keeps (f5 x y z)" "\<And>x. keeps (f6 x)" "\<And>x. keeps (f7 x)" "\<And>x. keeps (f8 x)"
    "keeps m1" "keeps m2" "keeps m3" "keeps m4" "keeps m5" "keeps m6" "keeps m7"
  shows "keeps (case t of TI32 \<Rightarrow> m1 | TI64 \<Rightarrow> m2 | TF32 \<Rightarrow> m3 | TF64 \<Rightarrow> m4 | TBool \<Rightarrow> m5 | TStr \<Rightarrow> m6
    | TVoid \<Rightarrow> m7 | TPtr x \<Rightarrow> f1 x | TStruct x \<Rightarrow> f2 x | TResult x y \<Rightarrow> f3 x y | TArray x \<Rightarrow> f4 x
    | TFn x y z \<Rightarrow> f5 x y z | TEnum x \<Rightarrow> f6 x | TUnion x \<Rightarrow> f7 x | TNarrow x \<Rightarrow> f8 x)"
  using assms by (cases t) simp_all

locale keeping =
  fixes tc :: inferrer
  assumes tc_keeps: "steady e \<Longrightarrow> keeps (tc cx e)"
begin

lemmas ki = keep_intros tc_keeps

abbreviation steadys :: "expr list \<Rightarrow> bool" where
  "steadys es \<equiv> \<forall>e \<in> set es. steady e"

lemma unused_keeps: "keeps (unused e t)"
  unfolding unused_def by (intro ki)

lemma check_operands_keeps: "steadys es \<Longrightarrow> keeps (check_operands tc cx sp op i es ws)"
proof (induction es arbitrary: i ws)
  case (Cons e es)
  then show ?case by (cases ws) (auto intro!: ki)
qed (auto intro!: ki)

lemma check_args_keeps: "steadys es \<Longrightarrow> keeps (check_args tc cx sp w i es ps)"
proof (induction es arbitrary: i ps)
  case (Cons e es)
  then show ?case by (cases ps) (auto intro!: ki)
qed (auto intro!: ki)

lemma check_printed_keeps: "steadys es \<Longrightarrow> keeps (check_printed tc cx sp es)"
  by (induction es) (auto intro!: ki)

lemma operands_keep:
  "steadys es \<Longrightarrow> keeps (one_operand tc cx sp op es)" "steadys es \<Longrightarrow> keeps (two_operands tc cx sp op es)"
  "steadys es \<Longrightarrow> keeps (expect_operands tc cx sp op es ws)"
  unfolding one_operand_def two_operands_def expect_operands_def
  by (auto intro!: ki check_operands_keeps split: list.split)

lemma check_piece_keeps: "steady p \<Longrightarrow> keeps (check_piece tc cx op p)"
  unfolding check_piece_def
  by (auto simp: steady.simps [of p] operands_def children_def intro!: ki
      split: expr.split literal.split opcode.split format_op.split list.split)

lemma check_pieces_keeps: "steadys ps \<Longrightarrow> keeps (check_pieces tc cx op ps)"
  by (induction ps) (auto intro!: ki check_piece_keeps)

lemma shown_side_keeps: "steady e \<Longrightarrow> keeps (shown_side tc cx e)"
  unfolding shown_side_def
  by (auto simp: steady.simps [of e] operands_def children_def intro!: ki split: expr.split opcode.split list.split)

lemma infer_format_keeps: "steadys es \<Longrightarrow> keeps (infer_format tc cx sp op es)"
  unfolding infer_format_def infer_print_def infer_expect_def infer_assert_def infer_dbg_def
    check_writer_def Let_def
  by (cases op; cases es) (auto intro!: ki check_pieces_keeps shown_side_keeps simp del: check_pieces.simps)

lemma infer_try_keeps: "steadys es \<Longrightarrow> keeps (infer_try tc cx sp k es)"
  unfolding infer_try_def check_try_def check_try_error_def Let_def
  by (cases k) (auto intro!: ki split: ty.split)

lemma check_compared_keeps: "keeps (check_compared sp c t)"
  unfolding check_compared_def Let_def by (intro ki)

lemma infer_arith_keeps: "steadys es \<Longrightarrow> keeps (infer_arith tc cx sp a es)"
  unfolding infer_arith_def Let_def by (intro ki operands_keep)

lemma infer_op_keeps:
  assumes "steadys es"
  shows "keeps (infer_op tc cx sp op es)"
proof -
  note oi = operands_keep [OF assms]
  have thread: "keeps (infer_thread tc cx sp k es)" for k
    using assms by (cases k) (auto simp: infer_thread_def Let_def infer_load_def intro!: ki oi)
  have sys: "keeps (infer_sys tc cx sp k es)" for k
    using assms by (cases k) (auto simp: infer_sys_def Let_def infer_load_def intro!: ki oi check_printed_keeps)
  have mem: "keeps (infer_mem tc cx sp k es)" for k
    by (cases k) (auto simp: infer_mem_def infer_load_def infer_store_def intro!: ki oi)
  have atomic: "keeps (infer_atomic tc cx sp k es)" for k
    by (cases k) (auto simp: infer_atomic_def Let_def intro!: ki oi)
  have conv: "keeps (infer_conv tc cx sp k es)" for k
    unfolding infer_conv_def Let_def by (auto intro!: ki oi)
  show ?thesis
    unfolding infer_op_def using assms
    by (cases op) (auto simp: infer_abort_def infer_drop_def infer_checked_def infer_bit_def infer_cmp_def
        infer_logic_def infer_not_def infer_str_def infer_host_def Let_def
        intro!: ki thread sys mem atomic conv oi infer_format_keeps infer_try_keeps
          infer_arith_keeps check_compared_keeps)
qed

lemma join_branches_keeps: "keeps (join_branches sp d1 d2 t1 t2)"
  unfolding join_branches_def by (intro ki)

lemma join_arms_keeps: "keeps (join_arms sp t0 t ts)"
  by (induction ts arbitrary: t) (auto intro!: ki)

lemma check_arms_keeps: "keeps (check_arms tc cx tn ms seen tys arms)"
  by (induction arms arbitrary: seen tys) (auto intro!: ki simp del: scoped_Inr)

lemma check_else_keeps: "keeps (check_else tc cx sp tn ms seen tys els)"
  unfolding check_else_def Let_def by (intro ki)

lemmas parts_keep = infer_op_keeps join_branches_keeps check_args_keeps check_arms_keeps check_else_keeps
  join_arms_keeps

lemma forms_keep:
  "keeps (infer_var sp x)" "keeps (infer_jump cx sp is_break)" "keeps (infer_ref cx sp f)"
  "keeps (infer_sizeof cx sp t)" "keeps (infer_unsafe tc cx es)"
  unfolding infer_unsafe_def infer_var_def infer_jump_def infer_ref_def infer_sizeof_def by (intro ki)+

lemma operand_keeps:
  assumes "steady v"
  shows "keeps (infer_set tc cx sp x v)" "keeps (infer_if tc cx sp v e1 e2)" "keeps (infer_while tc cx sp v body)"
    "keeps (infer_ok tc cx sp v ot)" "keeps (infer_err tc cx sp v ot)" "keeps (infer_match_result tc cx sp v x b1 y b2)"
    "keeps (infer_match tc cx sp v arms els)" "keeps (infer_get tc cx sp sn f v)" "keeps (infer_arr_len tc cx sp v)"
    "keeps (infer_addr tc cx sp v k)"
  unfolding infer_set_def infer_var_def infer_if_def infer_while_def infer_ok_def infer_err_def infer_match_result_def
    infer_match_def infer_get_def infer_arr_len_def infer_addr_def the_def_def Let_def
  by (intro ki parts_keep; rule assms)+

lemma pair_keeps:
  assumes "steady v" "steady w"
  shows "keeps (infer_put tc cx sp sn f v w path)" "keeps (infer_with tc cx sp sn f v w)" "keeps (infer_arr_get tc cx sp t v w)"
  unfolding infer_put_def infer_with_def infer_arr_get_def the_def_def Let_def
  by (intro ki parts_keep; rule assms)+

lemma triple_keeps:
  assumes "steady v" "steady w" "steady u"
  shows "keeps (infer_arr_set tc cx sp t v w u path)" "keeps (infer_loop tc cx sp x v w u body)"
  unfolding infer_arr_set_def infer_loop_def by (intro ki parts_keep; rule assms)+

lemma optional_keeps:
  assumes "steadys (opt_list g)"
  shows "steady v \<Longrightarrow> keeps (infer_cast tc cx sp t v g)" "keeps (infer_return tc cx sp g)"
  unfolding infer_cast_def infer_return_def using assms
  by (cases g; auto intro!: ki)+

lemma list_keeps:
  assumes "steadys es"
  shows "keeps (infer_call tc cx sp f es)" "keeps (infer_record tc cx sp sn es)" "keeps (infer_make tc cx sp un vn es)"
    "steady v \<Longrightarrow> keeps (infer_call_ref tc cx sp sig v es)"
  unfolding infer_call_def infer_record_def infer_make_def infer_call_ref_def the_def_def
  by (intro ki parts_keep; (rule assms)?; assumption?)+

lemmas expr_keeps = forms_keep operand_keeps pair_keeps triple_keeps optional_keeps list_keeps infer_op_keeps

lemma infer_expr_keeps:
  assumes "steady e"
  shows "keeps (infer_expr tc cx e)"
proof -
  have ops: "steadys (operands e)" and nolet: "\<not> is_let e"
    using assms by (simp_all add: steady.simps [of e])
  show ?thesis
    using ops nolet
    by (cases e) (simp_all add: operands_def children_def is_let_def infer_expr_def keep_intros expr_keeps)
qed

end

lemma infer_n_keeps: "keeping (infer_n n)"
proof (induction n)
  case 0
  show ?case by (rule keeping.intro) (simp add: keep_intros)
next
  case (Suc n)
  show ?case by (rule keeping.intro) (simp add: keeping.infer_expr_keeps [OF Suc])
qed

interpretation steady_scope: keeping infer
  by (rule keeping.intro) (simp add: infer_def keeping.tc_keeps [OF infer_n_keeps] del: infer_n.simps)

lemma infer_steady: "infer cx e \<Gamma> = Inr (t, \<Gamma>') \<Longrightarrow> steady e \<Longrightarrow> \<Gamma>' = \<Gamma>"
  by (rule keepsD [OF steady_scope.tc_keeps])

end
