(* ===== verification/Tokens.thy ===== *)
theory Tokens
  imports Floats
begin

text \<open>
  The tokeniser (\<^verbatim>\<open>Parser::tokenize\<close> of \<^verbatim>\<open>src/parser.rs\<close>): \<open>token_kind\<close> is \<^verbatim>\<open>TokenKind\<close>, \<open>tokenize\<close>
  reads a text, \<open>token_str\<close> is the token as a message writes it. A text is its bytes; a character is
  a byte and the continuation bytes after it, so a column counts the bytes that are not continuation
  bytes. Decimal numbers are read as Rust's \<^verbatim>\<open>str::parse\<close> reads them: a float is the exact decimal
  rounded once.
\<close>

section \<open>Tokens\<close>

datatype (plugins only: size code) token_kind =
    LParen | RParen | LBracket | RBracket | Colon | Arrow
  | Symbol string
  | IntLit i64
  | Int64Lit i64
  | FloatLit f64 string
  | Float32Lit f32 string
  | StringLit string
  | BoolLit bool

record token =
  tk_kind :: token_kind
  tk_line :: nat
  tk_col :: nat

definition tk_pos :: "token \<Rightarrow> span" where
  "tk_pos t = (tk_line t, tk_col t)"

datatype token_error =
    TEUnterminated span
  | TEEscape span string
  | TEWhitespace span nat

section \<open>Numbers\<close>

definition digit_of :: "char \<Rightarrow> nat option" where
  "digit_of c =
     (let n = of_char c :: nat
      in if 48 \<le> n \<and> n \<le> 57 then Some (n - 48)
         else if 97 \<le> n \<and> n \<le> 122 then Some (n - 87)
         else if 65 \<le> n \<and> n \<le> 90 then Some (n - 55)
         else None)"

definition is_digit :: "char \<Rightarrow> bool" where
  "is_digit c \<longleftrightarrow> (case digit_of c of Some d \<Rightarrow> d < 10 | None \<Rightarrow> False)"

fun number :: "nat \<Rightarrow> nat \<Rightarrow> string \<Rightarrow> nat option" where
  "number r acc [] = Some acc"
| "number r acc (c # s) =
     (case digit_of c of
        None \<Rightarrow> None
      | Some d \<Rightarrow> if d < r then number r (acc * r + d) s else None)"

definition digits_value :: "nat \<Rightarrow> string \<Rightarrow> nat option" where
  "digits_value r s = (if s = [] then None else number r 0 s)"

definition starts :: "char \<Rightarrow> string \<Rightarrow> bool" where
  "starts c s \<longleftrightarrow> s \<noteq> [] \<and> hd s = c"

definition after_sign :: "string \<Rightarrow> string" where
  "after_sign s = (if starts (CHR ''-'') s \<or> starts (CHR ''+'') s then tl s else s)"

text \<open>\<^verbatim>\<open>parse::<i64>\<close>: a sign, then digits, in range.\<close>

definition parse_i64 :: "string \<Rightarrow> i64 option" where
  "parse_i64 s =
     (case digits_value 10 (after_sign s) of
        None \<Rightarrow> None
      | Some n \<Rightarrow>
          if starts (CHR ''-'') s then (if n \<le> 2 ^ 63 then Some (word_of_int (- int n)) else None)
          else if n < 2 ^ 63 then Some (word_of_nat n) else None)"

definition radix_digits :: "string \<Rightarrow> (nat \<times> string) option" where
  "radix_digits s =
     (if prefix ''0x'' s then Some (16, drop 2 s)
      else if prefix ''0b'' s then Some (2, drop 2 s)
      else None)"

definition radix_literal :: "string \<Rightarrow> bool \<Rightarrow> i64 option" where
  "radix_literal s wide =
     (case radix_digits (after_sign s) of
        None \<Rightarrow> None
      | Some (radix, ds) \<Rightarrow>
          if ds = [] \<or> hd ds = CHR ''_'' \<or> List.last ds = CHR ''_'' \<or> sublist ''__'' ds then None
          else if \<exists>c \<in> set ds. c \<noteq> CHR ''_'' \<and> (case digit_of c of None \<Rightarrow> True | Some d \<Rightarrow> radix \<le> d) then None
          else (case number radix 0 (filter (\<lambda>c. c \<noteq> CHR ''_'') ds) of
                  None \<Rightarrow> None
                | Some m \<Rightarrow>
                    if 2 ^ 64 \<le> m \<or> \<not> wide \<and> 2 ^ 63 \<le> m then None
                    else Some (if starts (CHR ''-'') s then - word_of_nat m else word_of_nat m)))"

text \<open>\<^verbatim>\<open>parse::<f64>\<close>: the sign, the digits as one number, and its power of ten; then the fraction in
  lowest terms, rounded once.\<close>

definition parse_exponent :: "string \<Rightarrow> int option" where
  "parse_exponent s =
     map_option (\<lambda>n. if starts (CHR ''-'') s then - int n else int n) (digits_value 10 (after_sign s))"

definition parse_decimal :: "string \<Rightarrow> (bool \<times> nat \<times> int) option" where
  "parse_decimal s =
     (let rest = after_sign s;
          whole = takeWhile is_digit rest;
          tail = dropWhile is_digit rest;
          dot = starts (CHR ''.'') tail;
          frac = (if dot then takeWhile is_digit (tl tail) else []);
          after = (if dot then dropWhile is_digit (tl tail) else tail)
      in case digits_value 10 (whole @ frac) of
           None \<Rightarrow> None
         | Some d \<Rightarrow>
             if after = [] then Some (starts (CHR ''-'') s, d, - int (length frac))
             else if hd after = CHR ''e'' \<or> hd after = CHR ''E'' then
               map_option (\<lambda>k. (starts (CHR ''-'') s, d, k - int (length frac))) (parse_exponent (tl after))
             else None)"

definition round_ratio :: "float_fmt \<Rightarrow> bool \<Rightarrow> nat \<Rightarrow> nat \<Rightarrow> nat" where
  "round_ratio f s a b =
     (let g = gcd a b; n = a div g; d = b div g; sh = ff_frac f + 3 + bit_len d; q = n * 2 ^ sh
      in round_bits f s (q div d) (- int sh) (q mod d \<noteq> 0))"

definition decimal_bits :: "bool \<Rightarrow> nat \<Rightarrow> int \<Rightarrow> f64" where
  "decimal_bits s d e = word_of_nat (round_ratio fmt64 s (d * 10 ^ nat e) (10 ^ nat (- e)))"

definition parse_f64 :: "string \<Rightarrow> f64 option" where
  "parse_f64 s = map_option (\<lambda>(n, d, e). decimal_bits n d e) (parse_decimal s)"

section \<open>Words\<close>

definition strip_suffix :: "string \<Rightarrow> string \<Rightarrow> string option" where
  "strip_suffix suf s = (if suffix suf s then Some (take (length s - length suf) s) else None)"

definition int_word :: "string \<Rightarrow> i64 option" where
  "int_word s = (case parse_i64 s of Some i \<Rightarrow> Some i | None \<Rightarrow> radix_literal s False)"

definition int64_word :: "string \<Rightarrow> i64 option" where
  "int64_word s =
     (case strip_suffix ''i64'' s of
        None \<Rightarrow> None
      | Some d \<Rightarrow> if d = [] then None else (case parse_i64 d of Some i \<Rightarrow> Some i | None \<Rightarrow> radix_literal d True))"

definition float_like :: "string \<Rightarrow> bool" where
  "float_like s \<longleftrightarrow> CHR ''.'' \<in> set s \<and> (\<exists>c \<in> set s. is_digit c)"

definition float32_word :: "string \<Rightarrow> f32 option" where
  "float32_word s =
     (case strip_suffix ''f32'' s of
        None \<Rightarrow> None
      | Some d \<Rightarrow> if float_like d then map_option f32_of_f64 (parse_f64 d) else None)"

definition float_word :: "string \<Rightarrow> f64 option" where
  "float_word s = (if float_like s then parse_f64 s else None)"

definition word_kind :: "string \<Rightarrow> token_kind" where
  "word_kind s =
     (if s = ''->'' then Arrow
      else if s = ''true'' then BoolLit True
      else if s = ''false'' then BoolLit False
      else case int_word s of Some i \<Rightarrow> IntLit i | None \<Rightarrow>
        (case int64_word s of Some i \<Rightarrow> Int64Lit i | None \<Rightarrow>
          (case float32_word s of Some x \<Rightarrow> Float32Lit x s | None \<Rightarrow>
            (case float_word s of Some x \<Rightarrow> FloatLit x s | None \<Rightarrow> Symbol s))))"

section \<open>Characters\<close>

abbreviation newline :: char where "newline \<equiv> CHR 0x0A"
abbreviation carriage :: char where "carriage \<equiv> CHR 0x0D"
abbreviation tab :: char where "tab \<equiv> CHR 0x09"
abbreviation quote_mark :: char where "quote_mark \<equiv> CHR 0x22"
abbreviation backslash :: char where "backslash \<equiv> CHR 0x5C"

definition continues :: "char \<Rightarrow> bool" where
  "continues c \<longleftrightarrow> 0x80 \<le> (of_char c :: nat) \<and> (of_char c :: nat) < 0xC0"

definition columns :: "string \<Rightarrow> nat" where
  "columns s = length (filter (\<lambda>c. \<not> continues c) s)"

text \<open>The white space of \<^verbatim>\<open>char::is_whitespace\<close>, each as its UTF-8 bytes with its code point.\<close>

definition white_space :: "(string \<times> nat) list" where
  "white_space =
     [([tab], 0x09), ([newline], 0x0A), ([CHR 0x0B], 0x0B), ([CHR 0x0C], 0x0C), ([carriage], 0x0D), ([CHR 0x20], 0x20),
      ([CHR 0xC2, CHR 0x85], 0x85), ([CHR 0xC2, CHR 0xA0], 0xA0), ([CHR 0xE1, CHR 0x9A, CHR 0x80], 0x1680)]
     @ [([CHR 0xE2, CHR 0x80, CHR 0x80], 0x2000), ([CHR 0xE2, CHR 0x80, CHR 0x81], 0x2001), ([CHR 0xE2, CHR 0x80, CHR 0x82], 0x2002),
        ([CHR 0xE2, CHR 0x80, CHR 0x83], 0x2003), ([CHR 0xE2, CHR 0x80, CHR 0x84], 0x2004), ([CHR 0xE2, CHR 0x80, CHR 0x85], 0x2005),
        ([CHR 0xE2, CHR 0x80, CHR 0x86], 0x2006), ([CHR 0xE2, CHR 0x80, CHR 0x87], 0x2007), ([CHR 0xE2, CHR 0x80, CHR 0x88], 0x2008),
        ([CHR 0xE2, CHR 0x80, CHR 0x89], 0x2009), ([CHR 0xE2, CHR 0x80, CHR 0x8A], 0x200A)]
     @ [([CHR 0xE2, CHR 0x80, CHR 0xA8], 0x2028), ([CHR 0xE2, CHR 0x80, CHR 0xA9], 0x2029),
        ([CHR 0xE2, CHR 0x80, CHR 0xAF], 0x202F), ([CHR 0xE2, CHR 0x81, CHR 0x9F], 0x205F),
        ([CHR 0xE3, CHR 0x80, CHR 0x80], 0x3000)]"

definition space_at :: "string \<Rightarrow> nat option" where
  "space_at s = map_option snd (find (\<lambda>(e, k). prefix e s) white_space)"

fun punctuation :: "char \<Rightarrow> token_kind option" where
  "punctuation c =
     (if c = CHR ''('' then Some LParen
      else if c = CHR '')'' then Some RParen
      else if c = CHR ''['' then Some LBracket
      else if c = CHR '']'' then Some RBracket
      else if c = CHR '':'' then Some Colon
      else None)"

text \<open>The rest of a word: up to white space, a bracket or a colon.\<close>

fun word_tail :: "string \<Rightarrow> string" where
  "word_tail [] = []"
| "word_tail (c # s) =
     (if space_at (c # s) \<noteq> None \<or> punctuation c \<noteq> None then [] else c # word_tail s)"

section \<open>String literals\<close>

fun escape :: "char \<Rightarrow> char option" where
  "escape c =
     (if c = CHR ''n'' then Some newline
      else if c = CHR ''t'' then Some tab
      else if c = CHR ''r'' then Some carriage
      else if c = CHR ''0'' then Some (CHR 0x00)
      else if c = backslash then Some backslash
      else if c = quote_mark then Some quote_mark
      else None)"

text \<open>The literal from after its quote, which is at \<open>p\<close>: its text, what follows, and the column there.\<close>

fun string_body :: "span \<Rightarrow> nat \<Rightarrow> nat \<Rightarrow> string \<Rightarrow> token_error + string \<times> string \<times> nat" where
  "string_body p line col [] = Inl (TEUnterminated p)"
| "string_body p line col (c # s) =
     (if c = quote_mark then Inr ([], s, col + 1)
      else if c = newline then Inl (TEUnterminated p)
      else if c = backslash then
        (case s of
           [] \<Rightarrow> Inl (TEUnterminated p)
         | e # r \<Rightarrow>
             (case escape e of
                None \<Rightarrow> Inl (TEEscape (line, col + 1) (e # takeWhile continues r))
              | Some x \<Rightarrow> bind_res (string_body p line (col + 2) r) (\<lambda>(t, q). Inr (x # t, q))))
      else bind_res (string_body p line (if continues c then col else col + 1) s) (\<lambda>(t, q). Inr (c # t, q)))"

lemma string_body_length: "string_body p line col s = Inr (t, r, k) \<Longrightarrow> length r < length s"
  by (induction p line col s arbitrary: t r k rule: string_body.induct)
    (auto split: if_splits list.splits option.splits simp del: escape.simps intro: less_SucI, meson less_SucI)

lemma dropWhile_Cons_length: "dropWhile p s = a # r \<Longrightarrow> length r < length s"
  using length_dropWhile_le [of p s] by simp

section \<open>Tokenising\<close>

function tokens_at :: "nat \<Rightarrow> nat \<Rightarrow> string \<Rightarrow> token_error + token list" where
  "tokens_at line col [] = Inr []"
| "tokens_at line col (c # s) =
     (if c = CHR 0x20 \<or> c = tab \<or> c = carriage then tokens_at line (col + 1) s
      else if c = newline then tokens_at (line + 1) 1 s
      else case punctuation c of
        Some k \<Rightarrow>
          bind_res (tokens_at line (col + 1) s) (\<lambda>ts. Inr (\<lparr>tk_kind = k, tk_line = line, tk_col = col\<rparr> # ts))
      | None \<Rightarrow>
          if c = quote_mark then
            (case string_body (line, col) line (col + 1) s of
               Inl e \<Rightarrow> Inl e
             | Inr (t, r, k) \<Rightarrow>
                 bind_res (tokens_at line k r)
                   (\<lambda>ts. Inr (\<lparr>tk_kind = StringLit t, tk_line = line, tk_col = col\<rparr> # ts)))
          else if c = CHR '';'' then
            (case dropWhile (\<lambda>x. x \<noteq> newline) s of
               [] \<Rightarrow> Inr []
             | _ # r \<Rightarrow> tokens_at (line + 1) 1 r)
          else case space_at (c # s) of
            Some w \<Rightarrow> Inl (TEWhitespace (line, col) w)
          | None \<Rightarrow>
              (let w = c # word_tail s
               in bind_res (tokens_at line (col + columns w) (drop (length w) (c # s)))
                    (\<lambda>ts. Inr (\<lparr>tk_kind = word_kind w, tk_line = line, tk_col = col\<rparr> # ts))))"
  by pat_completeness auto
termination
  by (relation "measure (\<lambda>(line, col, s). length s)")
    (auto dest!: string_body_length dropWhile_Cons_length)

declare tokens_at.simps [simp del]

definition tokenize :: "string \<Rightarrow> token_error + token list" where
  "tokenize s = tokens_at 1 1 s"

section \<open>Tokens as messages write them\<close>

fun show_nat :: "nat \<Rightarrow> string" where
  "show_nat n = (if n < 10 then [char_of (48 + n)] else show_nat (n div 10) @ [char_of (48 + n mod 10)])"

declare show_nat.simps [simp del]

definition show_int :: "int \<Rightarrow> string" where
  "show_int i = (if i < 0 then CHR ''-'' # show_nat (nat (- i)) else show_nat (nat i))"

definition escape_char :: "char \<Rightarrow> string" where
  "escape_char c =
     (if c = newline then [backslash, CHR ''n'']
      else if c = tab then [backslash, CHR ''t'']
      else if c = carriage then [backslash, CHR ''r'']
      else if c = CHR 0x00 then [backslash, CHR ''0'']
      else if c = backslash then [backslash, backslash]
      else if c = quote_mark then [backslash, quote_mark]
      else [c])"

definition string_str :: "string \<Rightarrow> string" where
  "string_str s = quote_mark # concat (map escape_char s) @ [quote_mark]"

fun token_str :: "token_kind \<Rightarrow> string" where
  "token_str LParen = ''(''"
| "token_str RParen = '')''"
| "token_str LBracket = ''[''"
| "token_str RBracket = '']''"
| "token_str Colon = '':''"
| "token_str Arrow = ''->''"
| "token_str (Symbol s) = s"
| "token_str (IntLit v) = show_int (sint v)"
| "token_str (Int64Lit v) = show_int (sint v) @ ''i64''"
| "token_str (FloatLit _ t) = t"
| "token_str (Float32Lit _ t) = t"
| "token_str (BoolLit b) = (if b then ''true'' else ''false'')"
| "token_str (StringLit s) = string_str s"

end
