(* ===== verification/Printer.thy ===== *)
theory Printer
  imports Tokens Ast
begin

text \<open>
  The printer (\<^verbatim>\<open>src/printer.rs\<close>): a module as canonical source text. A float is written as Rust's
  \<^verbatim>\<open>Display\<close> writes it, in plain decimal with the fewest digits that read back as the same float, and
  of those the nearest.
\<close>

section \<open>Floats in decimal\<close>

text \<open>The power of ten of a fraction's first digit.\<close>

function below_one :: "nat \<Rightarrow> nat \<Rightarrow> nat" where
  "below_one a b = (if a = 0 \<or> b \<le> 10 * a then 1 else Suc (below_one (10 * a) b))"
  by pat_completeness auto
termination
  by (relation "measure (\<lambda>(a, b). b - a)") auto

declare below_one.simps [simp del]

definition first_power :: "nat \<Rightarrow> nat \<Rightarrow> int" where
  "first_power a b = (if b \<le> a then int (length (show_nat (a div b))) - 1 else - int (below_one a b))"

text \<open>The two candidates of so many digits, the nearer first and of two as near the greater.\<close>

definition nearest_digits :: "nat \<Rightarrow> nat \<Rightarrow> int \<Rightarrow> nat list" where
  "nearest_digits a b t =
     (let n = a * 10 ^ nat (- t); d = b * 10 ^ nat t; q = n div d; r = n mod d
      in if d \<le> 2 * r then [q + 1, q] else [q, q + 1])"

text \<open>The digits and their power of ten; 17 digits always suffice, and after them comes the exact value.\<close>

definition shortest :: "f64 \<Rightarrow> bool \<Rightarrow> nat \<Rightarrow> int \<Rightarrow> nat \<times> int" where
  "shortest x s m e =
     (let a = m * 2 ^ nat e; b = 2 ^ nat (- e); k = first_power a b;
          tries = concat (map (\<lambda>n. let t = k - int n in map (\<lambda>d. (d, t)) (nearest_digits a b t)) [0..<17])
      in case find (\<lambda>(d, t). decimal_bits s d t = x) tries of
           Some p \<Rightarrow> p
         | None \<Rightarrow> (a * 5 ^ nat (- e), min e 0))"

fun strip_zeros :: "nat \<Rightarrow> int \<Rightarrow> nat \<times> int" where
  "strip_zeros d t = (if d \<noteq> 0 \<and> 10 dvd d then strip_zeros (d div 10) (t + 1) else (d, t))"

declare strip_zeros.simps [simp del]

definition plain_decimal :: "nat \<Rightarrow> int \<Rightarrow> string" where
  "plain_decimal d t =
     (let ds = show_nat d; n = nat (- t)
      in if 0 \<le> t then ds @ replicate (nat t) (CHR ''0'')
         else if n < length ds then take (length ds - n) ds @ ''.'' @ drop (length ds - n) ds
         else ''0.'' @ replicate (n - length ds) (CHR ''0'') @ ds)"

definition show_f64 :: "f64 \<Rightarrow> string" where
  "show_f64 x =
     (case num64 x of
        NaN \<Rightarrow> ''NaN''
      | Infty s \<Rightarrow> (if s then ''-inf'' else ''inf'')
      | Finite s m e \<Rightarrow>
          (if s then ''-'' else []) @
          (if m = 0 then ''0'' else (case shortest x s m e of (d, t) \<Rightarrow> case strip_zeros d t of (d', t') \<Rightarrow> plain_decimal d' t')))"

definition float_str :: "f64 \<Rightarrow> string" where
  "float_str x = (let s = show_f64 x in if CHR ''.'' \<in> set s then s else s @ ''.0'')"

section \<open>Literals and types\<close>

definition lit_str :: "literal \<Rightarrow> string" where
  "lit_str l =
     (case l of
        LInt i \<Rightarrow> show_int (sint i)
      | LInt64 i \<Rightarrow> show_int (sint i) @ ''i64''
      | LFloat x \<Rightarrow> float_str x
      | LFloat32 _ t \<Rightarrow> t
      | LBool b \<Rightarrow> if b then ''true'' else ''false''
      | LStr s \<Rightarrow> string_str s)"

fun spaced :: "string list \<Rightarrow> string" where
  "spaced [] = []"
| "spaced [s] = s"
| "spaced (s # t # ss) = s @ '' '' @ spaced (t # ss)"

fun type_str :: "ty \<Rightarrow> string" where
  "type_str TI32 = ''i32''"
| "type_str TI64 = ''i64''"
| "type_str TF32 = ''f32''"
| "type_str TF64 = ''f64''"
| "type_str TBool = ''bool''"
| "type_str TStr = ''str''"
| "type_str TVoid = ''void''"
| "type_str (TNarrow n) = narrow_name n"
| "type_str (TPtr t) = ''(ptr '' @ type_str t @ '')''"
| "type_str (TStruct n) = n"
| "type_str (TArray t) = ''(arr '' @ type_str t @ '')''"
| "type_str (TResult a b) = ''(result '' @ type_str a @ '' '' @ type_str b @ '')''"
| "type_str (TFn ps r no_leak) =
     ''(fn ['' @ spaced (map type_str ps) @ ''] -> '' @ type_str r @ (if no_leak then '' (no_leak)'' else []) @ '')''"
| "type_str (TEnum n) = n"
| "type_str (TUnion n) = n"

definition struct_name :: "ty \<Rightarrow> string" where
  "struct_name t = (case t of TPtr u \<Rightarrow> type_str u | _ \<Rightarrow> type_str t)"

definition elem_str :: "ty \<Rightarrow> string" where
  "elem_str t = (case t of TArray u \<Rightarrow> type_str u | _ \<Rightarrow> type_str t)"

definition path_str :: "(string \<times> string) list \<Rightarrow> string" where
  "path_str path = concat (map (\<lambda>(st, f). '' '' @ st @ ''.'' @ f) path)"

section \<open>Operators\<close>

fun op_name :: "opcode \<Rightarrow> string" where
  "op_name (OpArith op) =
     (case op of Add \<Rightarrow> ''+'' | Sub \<Rightarrow> ''-'' | Mul \<Rightarrow> ''*'' | Div \<Rightarrow> ''/'' | Mod \<Rightarrow> ''%'' | BitXor \<Rightarrow> ''^''
      | Shl \<Rightarrow> ''shl'' | Shr \<Rightarrow> ''shr'' | ShrU \<Rightarrow> ''shru'' | DivU \<Rightarrow> ''divu'' | RemU \<Rightarrow> ''remu''
      | BitAnd \<Rightarrow> ''bitand'' | BitOr \<Rightarrow> ''bitor'' | Rotl \<Rightarrow> ''rotl'' | Rotr \<Rightarrow> ''rotr'')"
| "op_name (OpBit op) = (case op of BitNot \<Rightarrow> ''bitnot'' | Clz \<Rightarrow> ''clz'' | Ctz \<Rightarrow> ''ctz'' | Popcnt \<Rightarrow> ''popcnt'')"
| "op_name (OpMem op) =
     (case op of MemLoad8 \<Rightarrow> ''mem.load8'' | MemLoad32 \<Rightarrow> ''mem.load32'' | MemLoad64 \<Rightarrow> ''mem.load64''
      | MemStore8 \<Rightarrow> ''mem.store8'' | MemLoad8S \<Rightarrow> ''mem.load8_s'' | MemLoad16U \<Rightarrow> ''mem.load16_u''
      | MemLoad16S \<Rightarrow> ''mem.load16_s'' | MemStore16 \<Rightarrow> ''mem.store16'' | MemStore32 \<Rightarrow> ''mem.store32''
      | MemStore64 \<Rightarrow> ''mem.store64'' | MemAlloc \<Rightarrow> ''mem.alloc'' | MemGrow \<Rightarrow> ''mem.grow'')"
| "op_name (OpStr op) = (case op of StrLen \<Rightarrow> ''str.len'' | StrPtr \<Rightarrow> ''str.ptr'')"
| "op_name (OpFormat op) =
     (case op of FormatStr \<Rightarrow> ''format.str'' | FormatTo \<Rightarrow> ''format.to'' | FormatPrint \<Rightarrow> ''format.print''
      | FormatPrintln \<Rightarrow> ''format.println'' | FormatEprintln \<Rightarrow> ''format.eprintln'' | FormatPiece \<Rightarrow> ''format.piece''
      | FormatDbg \<Rightarrow> ''format.dbg'' | FormatExpect \<Rightarrow> ''format.expect'' | FormatAssert \<Rightarrow> ''format.assert'')"
| "op_name (OpTry op) = (case op of Try \<Rightarrow> ''try'' | TryOpt \<Rightarrow> ''try_opt'' | TryOr \<Rightarrow> ''try_or'')"
| "op_name OpDefer = ''defer''"
| "op_name OpDrop = ''drop''"
| "op_name OpAbort = ''abort''"
| "op_name (OpAtomic op) =
     (case op of AtomicAdd \<Rightarrow> ''atomic.add'' | AtomicCas \<Rightarrow> ''atomic.cas'' | AtomicLock \<Rightarrow> ''atomic.lock''
      | AtomicUnlock \<Rightarrow> ''atomic.unlock'')"
| "op_name (OpCmp op) =
     (case op of Eq \<Rightarrow> ''eq'' | Neq \<Rightarrow> ''neq'' | Lt \<Rightarrow> ''lt'' | Lte \<Rightarrow> ''lte'' | LtU \<Rightarrow> ''ltu'' | LteU \<Rightarrow> ''lteu''
      | GtU \<Rightarrow> ''gtu'' | GteU \<Rightarrow> ''gteu'' | Gt \<Rightarrow> ''gt'' | Gte \<Rightarrow> ''gte'')"
| "op_name (OpChecked op) =
     (case op of CheckedAdd \<Rightarrow> ''checked.add'' | CheckedSub \<Rightarrow> ''checked.sub'' | CheckedMul \<Rightarrow> ''checked.mul'')"
| "op_name (OpLogic op) = (case op of And \<Rightarrow> ''and'' | Or \<Rightarrow> ''or'')"
| "op_name OpNot = ''not''"
| "op_name (OpSys op) =
     (case op of SysPrint \<Rightarrow> ''sys.print'' | SysTime \<Rightarrow> ''sys.time'' | SysMonotonic \<Rightarrow> ''sys.monotonic''
      | SysRandom \<Rightarrow> ''sys.random'' | SysExit \<Rightarrow> ''sys.exit'' | SysPoll \<Rightarrow> ''sys.poll'')"
| "op_name (OpFs op) =
     (case op of FsOpen \<Rightarrow> ''fs.open'' | FsRead \<Rightarrow> ''fs.read'' | FsWrite \<Rightarrow> ''fs.write'' | FsClose \<Rightarrow> ''fs.close''
      | FsDelete \<Rightarrow> ''fs.delete'' | FsChmod \<Rightarrow> ''fs.chmod'' | FsRename \<Rightarrow> ''fs.rename'' | FsRmdir \<Rightarrow> ''fs.rmdir''
      | FsMkdir \<Rightarrow> ''fs.mkdir'' | FsOpendir \<Rightarrow> ''fs.opendir'' | FsReaddir \<Rightarrow> ''fs.readdir'' | FsStat \<Rightarrow> ''fs.stat'')"
| "op_name (OpNet op) =
     (case op of NetListen \<Rightarrow> ''net.listen'' | NetAccept \<Rightarrow> ''net.accept'' | NetRecv \<Rightarrow> ''net.recv''
      | NetSend \<Rightarrow> ''net.send'' | NetClose \<Rightarrow> ''net.close'' | NetConnect \<Rightarrow> ''net.connect''
      | NetConnectHost \<Rightarrow> ''net.connect_host'' | NetTlsConnect \<Rightarrow> ''net.tls_connect'' | NetPoll \<Rightarrow> ''net.poll'')"
| "op_name (OpProc op) =
     (case op of ProcSpawn \<Rightarrow> ''proc.spawn'' | ProcStream \<Rightarrow> ''proc.stream'' | ProcRead \<Rightarrow> ''proc.read''
      | ProcWrite \<Rightarrow> ''proc.write'' | ProcClose \<Rightarrow> ''proc.close'' | ProcWait \<Rightarrow> ''proc.wait'' | ProcKill \<Rightarrow> ''proc.kill''
      | ProcTryWait \<Rightarrow> ''proc.try_wait'' | ProcPoll \<Rightarrow> ''proc.poll'' | ProcExec \<Rightarrow> ''proc.exec'')"
| "op_name (OpEnv op) =
     (case op of ArgsSizes \<Rightarrow> ''args.sizes'' | ArgsGet \<Rightarrow> ''args.get'' | EnvSizes \<Rightarrow> ''env.sizes'' | EnvGet \<Rightarrow> ''env.get'')"
| "op_name (OpThread op) = (case op of ThreadSpawn \<Rightarrow> ''thread.spawn'' | ThreadJoin \<Rightarrow> ''thread.join'')"
| "op_name (OpConv op) =
     (case op of I64ExtendS \<Rightarrow> ''i64.extend_s'' | I64ExtendU \<Rightarrow> ''i64.extend_u'' | I32Wrap \<Rightarrow> ''i32.wrap''
      | F64ConvertI64S \<Rightarrow> ''f64.convert_i64_s'' | F32DemoteF64 \<Rightarrow> ''f32.demote'' | F64PromoteF32 \<Rightarrow> ''f64.promote''
      | F32ConvertI32S \<Rightarrow> ''f32.convert_i32_s'' | F32ConvertI64S \<Rightarrow> ''f32.convert_i64_s''
      | F64ConvertI32S \<Rightarrow> ''f64.convert_i32_s'' | I32TruncF32S \<Rightarrow> ''i32.trunc_f32_s''
      | I32TruncF64S \<Rightarrow> ''i32.trunc_f64_s'' | I64TruncF32S \<Rightarrow> ''i64.trunc_f32_s''
      | F32ReinterpretI32 \<Rightarrow> ''f32.reinterpret_i32'' | I32ReinterpretF32 \<Rightarrow> ''i32.reinterpret_f32''
      | F64Sqrt \<Rightarrow> ''f64.sqrt'' | I64TruncF64S \<Rightarrow> ''i64.trunc_f64_s''
      | F64ReinterpretI64 \<Rightarrow> ''f64.reinterpret_i64'' | I64ReinterpretF64 \<Rightarrow> ''i64.reinterpret_f64'')"

section \<open>Expressions\<close>

definition with_body :: "string \<Rightarrow> string list \<Rightarrow> string" where
  "with_body head body = (if body = [] then ''('' @ head @ '')'' else ''('' @ head @ '' '' @ spaced body @ '')'')"

definition addr_head :: "addr_kind \<Rightarrow> string" where
  "addr_head k =
     (case k of AKPtr \<Rightarrow> ''ptr.addr'' | AKArr \<Rightarrow> ''arr.addr'' | AKEnum \<Rightarrow> ''enum.ord'' | AKPtrGen \<Rightarrow> ''ptr.gen''
      | AKArrGen \<Rightarrow> ''arr.gen'')"

definition is_empty_block :: "expr \<Rightarrow> bool" where
  "is_empty_block e = (case e of EBlock [] _ \<Rightarrow> True | _ \<Rightarrow> False)"

text \<open>The tree a \<^verbatim>\<open>when\<close> reads into is written as one, without the empty block that ends its body.\<close>

definition when_shown :: "expr list \<Rightarrow> 'a list \<Rightarrow> 'a list" where
  "when_shown body shown = (if body \<noteq> [] \<and> is_empty_block (List.last body) then butlast shown else shown)"

definition null_str :: "ty \<Rightarrow> string" where
  "null_str t =
     (case t of TArray _ \<Rightarrow> ''(arr.null '' @ elem_str t @ '')'' | _ \<Rightarrow> ''(ptr.null '' @ struct_name t @ '')'')"

definition cast_str :: "ty \<Rightarrow> string \<Rightarrow> string option \<Rightarrow> string" where
  "cast_str t a g =
     (case g of
        Some g' \<Rightarrow>
          (case t of
             TArray _ \<Rightarrow> ''(arr.make '' @ elem_str t @ '' '' @ a @ '' '' @ g' @ '')''
           | _ \<Rightarrow> ''(ptr.make '' @ struct_name t @ '' '' @ a @ '' '' @ g' @ '')'')
      | None \<Rightarrow>
          (case t of
             TArray _ \<Rightarrow> ''(arr.cast '' @ elem_str t @ '' '' @ a @ '')''
           | TEnum n \<Rightarrow> ''(enum.cast '' @ n @ '' '' @ a @ '')''
           | _ \<Rightarrow> ''(ptr.cast '' @ struct_name t @ '' '' @ a @ '')''))"

definition result_head :: "string \<Rightarrow> ty option \<Rightarrow> string" where
  "result_head w t = ''('' @ w @ (case t of Some t' \<Rightarrow> '':'' @ type_str t' | None \<Rightarrow> []) @ '' ''"

fun expr_str :: "expr \<Rightarrow> string"
and arm_str :: "match_arm \<Rightarrow> string" where
  "expr_str (ELit l _) = lit_str l"
| "expr_str (EVar n _) = n"
| "expr_str (ELet n t v _) = ''(let '' @ n @ '':'' @ type_str t @ '' '' @ expr_str v @ '')''"
| "expr_str (ESet n v _) = ''(set! '' @ n @ '' '' @ expr_str v @ '')''"
| "expr_str (EIf c a b _) =
     (case (a, b) of
        (EBlock body _, EBlock [] _) \<Rightarrow>
          with_body (''when '' @ expr_str c) (when_shown body (map expr_str body))
      | _ \<Rightarrow> ''(if '' @ expr_str c @ '' '' @ expr_str a @ '' '' @ expr_str b @ '')'')"
| "expr_str (ELoop x a b s body _) =
     with_body (''counted_loop '' @ x @ '' '' @ expr_str a @ '' '' @ expr_str b @ '' '' @ expr_str s) (map expr_str body)"
| "expr_str (EWhile c body _) = with_body (''while '' @ expr_str c) (map expr_str body)"
| "expr_str (ECall f args _) = with_body (''call '' @ f) (map expr_str args)"
| "expr_str (EOp op args _) = with_body (op_name op) (map expr_str args)"
| "expr_str (EOk v t _) = result_head ''ok'' t @ expr_str v @ '')''"
| "expr_str (EErr v t _) = result_head ''err'' t @ expr_str v @ '')''"
| "expr_str (EMatchResult e okv okb errv errb _) =
     ''(match_result '' @ expr_str e @ '' '' @ with_body (''ok '' @ okv) (map expr_str okb) @ '' ''
     @ with_body (''err '' @ errv) (map expr_str errb) @ '')''"
| "expr_str (EBlock body _) = with_body ''block'' (map expr_str body)"
| "expr_str (EUnsafe body _) = with_body ''unsafe'' (map expr_str body)"
| "expr_str (EGetField st f p _) = ''(get '' @ expr_str p @ '' '' @ st @ ''.'' @ f @ '')''"
| "expr_str (EPutField st f p v path _) =
     ''(put '' @ expr_str p @ '' '' @ st @ ''.'' @ f @ path_str path @ '' '' @ expr_str v @ '')''"
| "expr_str (ESizeof t _) = ''(sizeof '' @ type_str t @ '')''"
| "expr_str (EArrGet t p i _) = ''(arr.get '' @ type_str t @ '' '' @ expr_str p @ '' '' @ expr_str i @ '')''"
| "expr_str (EArrSet t p i v path _) =
     ''(arr.set '' @ type_str t @ '' '' @ expr_str p @ '' '' @ expr_str i @ path_str path @ '' '' @ expr_str v @ '')''"
| "expr_str (EArrLen a _) = ''(arr.len '' @ expr_str a @ '')''"
| "expr_str (ENull t _) = null_str t"
| "expr_str (ECast t a g _) = cast_str t (expr_str a) (map_option expr_str g)"
| "expr_str (ERef n _) = ''(ref '' @ n @ '')''"
| "expr_str (EReturn v _) = (case v of Some e \<Rightarrow> ''(return '' @ expr_str e @ '')'' | None \<Rightarrow> ''(return)'')"
| "expr_str (EBreak _) = ''(break)''"
| "expr_str (EContinue _) = ''(continue)''"
| "expr_str (ECallRef sig f args _) =
     with_body (''call_ref '' @ type_str sig @ '' '' @ expr_str f) (map expr_str args)"
| "expr_str (EMake u v args _) = with_body (''make '' @ u @ ''.'' @ v) (map expr_str args)"
| "expr_str (ERecord n args _) = with_body (''make '' @ n) (map expr_str args)"
| "expr_str (EWith st f v n _) = ''(with '' @ expr_str v @ '' '' @ st @ ''.'' @ f @ '' '' @ expr_str n @ '')''"
| "expr_str (EMatch v arms els _) =
     ''(match '' @ expr_str v @ concat (map (\<lambda>a. '' '' @ arm_str a) arms)
     @ (case els of Some body \<Rightarrow> '' '' @ with_body ''else'' (map expr_str body) | None \<Rightarrow> []) @ '')''"
| "expr_str (EAddr v k _) = ''('' @ addr_head k @ '' '' @ expr_str v @ '')''"
| "arm_str (MatchArm mem bs body _) =
     with_body (case bs of Some ns \<Rightarrow> mem @ '' ['' @ spaced ns @ '']'' | None \<Rightarrow> mem) (map expr_str body)"

section \<open>Modules\<close>

abbreviation indent2 :: string where "indent2 \<equiv> ''  ''"
abbreviation line4 :: string where "line4 \<equiv> newline # ''    ''"

definition member_str :: "string \<times> ty \<Rightarrow> string" where
  "member_str m = fst m @ '':'' @ type_str (snd m)"

definition field_str :: "struct_field \<Rightarrow> string" where
  "field_str f = sf_name f @ '':'' @ type_str (sf_ty f)"

definition import_str :: "import_decl \<Rightarrow> string" where
  "import_str i =
     indent2 @ ''(import '' @ im_name i @ (case im_alias i of Some a \<Rightarrow> '' as '' @ a | None \<Rightarrow> []) @ '')'' @ [newline]"

definition enum_str :: "enum_def \<Rightarrow> string" where
  "enum_str e =
     indent2 @ ''(enum '' @ ed_name e @ '' [''
     @ spaced (map (\<lambda>(n, v). ''('' @ n @ '' '' @ show_int (sint v) @ '')'') (ed_members e)) @ ''])'' @ [newline]"

definition variant_str :: "variant \<Rightarrow> string" where
  "variant_str v = ''('' @ vr_name v @ concat (map (\<lambda>f. '' '' @ field_str f) (vr_fields v)) @ '')''"

definition union_str :: "union_def \<Rightarrow> string" where
  "union_str u =
     indent2 @ ''(union '' @ ud_name u @ '' ['' @ spaced (map variant_str (ud_variants u)) @ ''])'' @ [newline]"

definition struct_str :: "struct_def \<Rightarrow> string" where
  "struct_str s =
     indent2 @ ''(struct '' @ sd_name s @ '' ['' @ spaced (map field_str (sd_fields s)) @ '']''
     @ (if sd_is_value s then '' (value)'' else []) @ '')'' @ [newline]"

fun contract_str :: "contract \<Rightarrow> string" where
  "contract_str (Requires e) = ''(req '' @ expr_str e @ '')''"
| "contract_str (Ensures e) = ''(ens '' @ expr_str e @ '')''"
| "contract_str (Invariant e) = ''(inv '' @ expr_str e @ '')''"

definition fn_str :: "fn_def \<Rightarrow> string" where
  "fn_str f =
     indent2 @ ''(fn '' @ fd_name f @ '' ['' @ spaced (map member_str (fd_params f)) @ ''] -> ''
     @ type_str (fd_return_type f)
     @ (if fd_is_unsafe f then line4 @ ''(unsafe)'' else [])
     @ (if fd_is_no_leak f then line4 @ ''(no_leak)'' else [])
     @ concat (map (\<lambda>c. line4 @ contract_str c) (fd_contracts f))
     @ concat (map (\<lambda>e. line4 @ expr_str e) (fd_body f)) @ '')'' @ [newline]"

definition print_module :: "module \<Rightarrow> string" where
  "print_module m =
     ''(module '' @ m_name m @ [newline]
     @ concat (map import_str (m_imports m))
     @ concat (map enum_str (m_enums m))
     @ concat (map union_str (m_unions m))
     @ concat (map struct_str (m_structs m))
     @ concat (map fn_str (m_functions m)) @ '')''"

end
