(* ===== verification/Parse_Base.thy ===== *)
theory Parse_Base
  imports Tokens Ast
begin

text \<open>
  The parser's state and its steps (\<^verbatim>\<open>Parser\<close> of \<^verbatim>\<open>src/parser.rs\<close>): a step takes the tokens from
  the current position on and gives its result with the tokens left, or the error. What a step never
  changes is the context: the unions and value structs of the program, and the place of the last token,
  where an error at the end of the input is reported. A loop that stops advancing would run for ever in
  the code; here it is the error \<open>PStuck\<close>, and so is fuel running out. The wording of messages is not
  modelled: an error is its place with what its message shows.
\<close>

section \<open>Errors and steps\<close>

datatype (plugins only: size code) parse_error =
    PToken token_error
  | PKind span token_kind "token_kind option"
  | PWanted span string "token_kind option"
  | PExtra span
  | PConst span
  | PVariantShape span
  | PMemberShape span
  | PNeverClosed span
  | PMember span token_kind
  | PMemberRange span int
  | PFieldRef span string "token_kind"
  | PNeedsValue span string
  | POneValue span string
  | PUnknownScalar span string
  | PArrLength span
  | PPtrScalar span string
  | PUnknownType span string
  | PNoLeakType span string
  | PIntRange span int
  | PNoElse span
  | PEmptyElse span
  | PEmptyThen span
  | PForStep span
  | PWhenEmpty span
  | PMakeTarget span string
  | PElseLast span
  | PElseBinds span
  | PCondElseLast span
  | PCondBody span
  | PCondElse span
  | PCondTest span
  | PCallRefType span token_kind
  | PArrGetType span
  | PMemFree span
  | PFloatMem span string
  | PExpanded span string
  | PUnknownHead span string
  | PUnexpected span "token_kind option"
  | PContractWord span string
  | PStuck

type_synonym 'a parser = "token list \<Rightarrow> parse_error + 'a \<times> token list"

record parse_ctx =
  px_end :: span
  px_unions :: "string list"
  px_values :: "string list"

definition pret :: "'a \<Rightarrow> 'a parser" where
  "pret x ts = Inr (x, ts)"

definition pfail :: "parse_error \<Rightarrow> 'a parser" where
  "pfail e ts = Inl e"

definition pbind :: "'a parser \<Rightarrow> ('a \<Rightarrow> 'b parser) \<Rightarrow> 'b parser" where
  "pbind p f ts = (case p ts of Inl e \<Rightarrow> Inl e | Inr (x, r) \<Rightarrow> f x r)"

text \<open>\<^verbatim>\<open>cur_pos\<close>, \<^verbatim>\<open>peek\<close>, \<^verbatim>\<open>peek_kind\<close>, \<^verbatim>\<open>next\<close>.\<close>

definition cur_pos :: "parse_ctx \<Rightarrow> span parser" where
  "cur_pos px ts = Inr (case ts of [] \<Rightarrow> px_end px | t # _ \<Rightarrow> tk_pos t, ts)"

definition peek :: "token option parser" where
  "peek ts = Inr (case ts of [] \<Rightarrow> None | t # _ \<Rightarrow> Some t, ts)"

definition peek_kind :: "token_kind option parser" where
  "peek_kind ts = Inr (case ts of [] \<Rightarrow> None | t # _ \<Rightarrow> Some (tk_kind t), ts)"

definition pnext :: "token option parser" where
  "pnext ts = Inr (case ts of [] \<Rightarrow> (None, []) | t # r \<Rightarrow> (Some t, r))"

definition kind_at :: "token list \<Rightarrow> nat \<Rightarrow> token_kind option" where
  "kind_at ts i = map_option tk_kind (nth_opt ts i)"

definition next_is :: "token_kind \<Rightarrow> token list \<Rightarrow> bool" where
  "next_is k ts \<longleftrightarrow> kind_at ts 0 = Some k"

text \<open>\<^verbatim>\<open>self.pos += n\<close>.\<close>

definition skip :: "nat \<Rightarrow> unit parser" where
  "skip n ts = Inr ((), drop n ts)"

section \<open>Loops\<close>

function repeat_while :: "(token list \<Rightarrow> bool) \<Rightarrow> ('s \<Rightarrow> 's parser) \<Rightarrow> 's \<Rightarrow> 's parser" where
  "repeat_while go f s ts =
     (if go ts then
        (case f s ts of
           Inl e \<Rightarrow> Inl e
         | Inr (s', r) \<Rightarrow> if length r < length ts then repeat_while go f s' r else Inl PStuck)
      else Inr (s, ts))"
  by pat_completeness auto
termination
  by (relation "measure (\<lambda>(go, f, s, ts). length ts)") auto

declare repeat_while.simps [simp del]

definition many_while :: "(token list \<Rightarrow> bool) \<Rightarrow> 'a parser \<Rightarrow> 'a list parser" where
  "many_while go p = repeat_while go (\<lambda>xs. pbind p (\<lambda>x. pret (xs @ [x]))) []"

text \<open>\<^verbatim>\<open>while let Some(kind) = self.peek_kind()\<close> with a break at \<open>k\<close>.\<close>

definition before :: "token_kind \<Rightarrow> token list \<Rightarrow> bool" where
  "before k ts \<longleftrightarrow> ts \<noteq> [] \<and> \<not> next_is k ts"

definition many :: "token_kind \<Rightarrow> 'a parser \<Rightarrow> 'a list parser" where
  "many k p = many_while (before k) p"

section \<open>Expectations\<close>

definition expect_kind :: "parse_ctx \<Rightarrow> token_kind \<Rightarrow> token parser" where
  "expect_kind px k =
     pbind (cur_pos px) (\<lambda>pos. pbind pnext (\<lambda>t.
       case t of
         Some tok \<Rightarrow> if tk_kind tok = k then pret tok else pfail (PKind (tk_pos tok) k (Some (tk_kind tok)))
       | None \<Rightarrow> pfail (PKind pos k None)))"

text \<open>\<^verbatim>\<open>expect_symbol\<close>, and the same match written out: the next token as a symbol.\<close>

definition expect_symbol :: "string \<Rightarrow> span \<Rightarrow> string parser" where
  "expect_symbol what sp =
     pbind pnext (\<lambda>t.
       case t of
         Some tok \<Rightarrow> (case tk_kind tok of Symbol s \<Rightarrow> pret s | k \<Rightarrow> pfail (PWanted (tk_pos tok) what (Some k)))
       | None \<Rightarrow> pfail (PWanted sp what None))"

text \<open>The match with a guard on the symbol: \<^verbatim>\<open>if s == "struct"\<close>.\<close>

definition expect_word :: "string \<Rightarrow> string \<Rightarrow> span \<Rightarrow> unit parser" where
  "expect_word w what sp =
     pbind pnext (\<lambda>t.
       case t of
         Some tok \<Rightarrow> if tk_kind tok = Symbol w then pret () else pfail (PWanted (tk_pos tok) what (Some (tk_kind tok)))
       | None \<Rightarrow> pfail (PWanted sp what None))"

text \<open>\<^verbatim>\<open>rsplit_once('.')\<close> with both parts not empty.\<close>

definition split_field :: "string \<Rightarrow> (string \<times> string) option" where
  "split_field s =
     (if CHR ''.'' \<in> set s \<and> before_dot s \<noteq> [] \<and> after_dot s \<noteq> [] then Some (before_dot s, after_dot s) else None)"

definition field_ref :: "string \<Rightarrow> span \<Rightarrow> (string \<times> string) parser" where
  "field_ref form sp =
     pbind pnext (\<lambda>t.
       case t of
         Some tok \<Rightarrow>
           (case tk_kind tok of
              Symbol s \<Rightarrow> (case split_field s of Some f \<Rightarrow> pret f | None \<Rightarrow> pfail (PFieldRef sp form (Symbol s)))
            | k \<Rightarrow> pfail (PFieldRef (tk_pos tok) form k))
       | None \<Rightarrow> pfail (PWanted sp form None))"

section \<open>Types\<close>

definition scalar_type :: "string \<Rightarrow> ty option" where
  "scalar_type s =
     (if s = ''i32'' then Some TI32
      else if s = ''i64'' then Some TI64
      else if s = ''f32'' then Some TF32
      else if s = ''f64'' then Some TF64
      else if s = ''bool'' then Some TBool
      else if s = ''str'' then Some TStr
      else if s = ''void'' then Some TVoid
      else None)"

definition parse_scalar_type_str :: "string \<Rightarrow> span \<Rightarrow> parse_error + ty" where
  "parse_scalar_type_str s sp = (case scalar_type s of Some t \<Rightarrow> Inr t | None \<Rightarrow> Inl (PUnknownScalar sp s))"

definition named_type :: "parse_ctx \<Rightarrow> string \<Rightarrow> ty option" where
  "named_type px s =
     (case scalar_type s of Some t \<Rightarrow> Some t | None \<Rightarrow>
       (case narrow_from_name s of Some n \<Rightarrow> Some (TNarrow n) | None \<Rightarrow>
         if s \<in> set (px_unions px) then Some (TUnion s)
         else if s \<in> set (px_values px) then Some (TStruct s)
         else if s \<noteq> [] \<and> \<not> is_digit (hd s) \<and> hd s \<noteq> CHR ''-'' then Some (TEnum s)
         else None))"

definition parse_result_type :: "parse_ctx \<Rightarrow> ty parser \<Rightarrow> ty parser" where
  "parse_result_type px pt =
     pbind pt (\<lambda>a. pbind pt (\<lambda>b. pbind (expect_kind px RParen) (\<lambda>_. pret (TResult a b))))"

definition parse_arr_type :: "parse_ctx \<Rightarrow> span \<Rightarrow> ty parser \<Rightarrow> ty parser" where
  "parse_arr_type px sp pt =
     pbind pt (\<lambda>e. pbind peek_kind (\<lambda>k.
       case k of
         Some (IntLit _) \<Rightarrow> pfail (PArrLength sp)
       | _ \<Rightarrow> pbind (expect_kind px RParen) (\<lambda>_. pret (TArray e))))"

definition parse_fn_type :: "parse_ctx \<Rightarrow> ty parser \<Rightarrow> ty parser" where
  "parse_fn_type px pt =
     pbind (expect_kind px LBracket) (\<lambda>_.
     pbind (many RBracket pt) (\<lambda>ps.
     pbind (expect_kind px RBracket) (\<lambda>_.
     pbind (expect_kind px Arrow) (\<lambda>_.
     pbind pt (\<lambda>r.
     pbind peek_kind (\<lambda>k.
       if k = Some LParen then
         pbind (expect_kind px LParen) (\<lambda>_.
         pbind (cur_pos px) (\<lambda>pos.
         pbind (expect_symbol ''(no_leak) in a function type'' pos) (\<lambda>w.
           if w \<noteq> ''no_leak'' then pfail (PNoLeakType pos w)
           else pbind (expect_kind px RParen) (\<lambda>_. pbind (expect_kind px RParen) (\<lambda>_. pret (TFn ps r True))))))
       else pbind (expect_kind px RParen) (\<lambda>_. pret (TFn ps r False))))))))"

definition parse_ptr_type :: "parse_ctx \<Rightarrow> span \<Rightarrow> ty parser" where
  "parse_ptr_type px sp =
     pbind (expect_symbol ''struct name in (ptr S)'' sp) (\<lambda>n.
       if scalar_type n \<noteq> None then pfail (PPtrScalar sp n)
       else pbind (expect_kind px RParen) (\<lambda>_. pret (TPtr (TStruct n))))"

definition parse_compound :: "parse_ctx \<Rightarrow> ty parser \<Rightarrow> span \<Rightarrow> string \<Rightarrow> ty parser" where
  "parse_compound px pt sp kind =
     (if kind = ''result'' then parse_result_type px pt
      else if kind = ''arr'' then parse_arr_type px sp pt
      else if kind = ''fn'' then parse_fn_type px pt
      else if kind = ''ptr'' then parse_ptr_type px sp
      else pfail (PUnknownType sp kind))"

definition parse_type_with :: "parse_ctx \<Rightarrow> ty parser \<Rightarrow> ty parser" where
  "parse_type_with px pt =
     pbind (cur_pos px) (\<lambda>pos. pbind pnext (\<lambda>t.
       case t of
         None \<Rightarrow> pfail (PUnexpected pos None)
       | Some tok \<Rightarrow>
           (case tk_kind tok of
              Symbol s \<Rightarrow>
                (case named_type px s of Some ty \<Rightarrow> pret ty | None \<Rightarrow> pfail (PUnknownScalar (tk_pos tok) s))
            | LParen \<Rightarrow>
                pbind (expect_symbol ''type constructor'' (tk_pos tok)) (parse_compound px pt (tk_pos tok))
            | k \<Rightarrow> pfail (PUnexpected (tk_pos tok) (Some k)))))"

fun parse_type_n :: "nat \<Rightarrow> parse_ctx \<Rightarrow> ty parser" where
  "parse_type_n 0 px = pfail PStuck"
| "parse_type_n (Suc n) px = parse_type_with px (parse_type_n n px)"

definition parse_type :: "parse_ctx \<Rightarrow> ty parser" where
  "parse_type px ts = parse_type_n (Suc (length ts)) px ts"

end
