(* ===== verification/Parse_Forms.thy ===== *)
theory Parse_Forms
  imports Parse_Base
begin

text \<open>
  The forms of an expression (the arms of \<^verbatim>\<open>parse_expr\<close> of \<^verbatim>\<open>src/parser.rs\<close>), first part: operators,
  variables, control, results, unions and matches. One definition per form, with the parser's recursive
  call as the parameter \<open>pe\<close> and the place of the form as \<open>sp\<close>; the form's head has been read.
\<close>

section \<open>Operators\<close>

definition op_table :: "(string \<times> opcode) list" where
  "op_table =
     [(''+'', OpArith Add), (''-'', OpArith Sub), (''*'', OpArith Mul), (''/'', OpArith Div), (''%'', OpArith Mod),
      (''^'', OpArith BitXor), (''shl'', OpArith Shl), (''shr'', OpArith Shr), (''shru'', OpArith ShrU),
      (''bitand'', OpArith BitAnd), (''bitor'', OpArith BitOr), (''rotl'', OpArith Rotl), (''rotr'', OpArith Rotr),
      (''bitnot'', OpBit BitNot), (''clz'', OpBit Clz), (''ctz'', OpBit Ctz), (''popcnt'', OpBit Popcnt),
      (''mem.load8'', OpMem MemLoad8), (''mem.load32'', OpMem MemLoad32), (''mem.load64'', OpMem MemLoad64),
      (''mem.store8'', OpMem MemStore8), (''mem.load8_s'', OpMem MemLoad8S), (''mem.load16_u'', OpMem MemLoad16U),
      (''mem.load16_s'', OpMem MemLoad16S), (''mem.store16'', OpMem MemStore16), (''mem.store32'', OpMem MemStore32),
      (''mem.store64'', OpMem MemStore64), (''mem.alloc'', OpMem MemAlloc), (''mem.grow'', OpMem MemGrow),
      (''str.len'', OpStr StrLen), (''str.ptr'', OpStr StrPtr), (''atomic.add'', OpAtomic AtomicAdd),
      (''atomic.cas'', OpAtomic AtomicCas), (''atomic.lock'', OpAtomic AtomicLock),
      (''atomic.unlock'', OpAtomic AtomicUnlock), (''eq'', OpCmp Eq), (''neq'', OpCmp Neq), (''lt'', OpCmp Lt),
      (''lte'', OpCmp Lte), (''ltu'', OpCmp LtU), (''checked.add'', OpChecked CheckedAdd),
      (''checked.sub'', OpChecked CheckedSub), (''checked.mul'', OpChecked CheckedMul), (''lteu'', OpCmp LteU),
      (''gtu'', OpCmp GtU), (''gteu'', OpCmp GteU), (''gt'', OpCmp Gt), (''gte'', OpCmp Gte), (''and'', OpLogic And),
      (''or'', OpLogic Or), (''not'', OpNot), (''sys.print'', OpSys SysPrint), (''sys.time'', OpSys SysTime),
      (''sys.monotonic'', OpSys SysMonotonic), (''sys.random'', OpSys SysRandom), (''sys.poll'', OpSys SysPoll),
      (''sys.exit'', OpSys SysExit), (''fs.open'', OpFs FsOpen), (''fs.read'', OpFs FsRead),
      (''fs.write'', OpFs FsWrite), (''fs.close'', OpFs FsClose), (''fs.delete'', OpFs FsDelete),
      (''fs.opendir'', OpFs FsOpendir), (''fs.readdir'', OpFs FsReaddir), (''fs.stat'', OpFs FsStat),
      (''fs.chmod'', OpFs FsChmod), (''fs.rename'', OpFs FsRename), (''fs.rmdir'', OpFs FsRmdir),
      (''fs.mkdir'', OpFs FsMkdir), (''net.listen'', OpNet NetListen), (''net.accept'', OpNet NetAccept),
      (''net.recv'', OpNet NetRecv), (''net.send'', OpNet NetSend), (''net.close'', OpNet NetClose),
      (''net.connect'', OpNet NetConnect), (''net.connect_host'', OpNet NetConnectHost),
      (''net.tls_connect'', OpNet NetTlsConnect), (''proc.spawn'', OpProc ProcSpawn),
      (''proc.stream'', OpProc ProcStream), (''proc.read'', OpProc ProcRead), (''proc.write'', OpProc ProcWrite),
      (''proc.close'', OpProc ProcClose), (''proc.wait'', OpProc ProcWait), (''proc.kill'', OpProc ProcKill),
      (''proc.try_wait'', OpProc ProcTryWait), (''net.poll'', OpNet NetPoll), (''proc.poll'', OpProc ProcPoll),
      (''proc.exec'', OpProc ProcExec), (''args.sizes'', OpEnv ArgsSizes), (''args.get'', OpEnv ArgsGet),
      (''env.sizes'', OpEnv EnvSizes), (''env.get'', OpEnv EnvGet), (''thread.spawn'', OpThread ThreadSpawn),
      (''thread.join'', OpThread ThreadJoin), (''divu'', OpArith DivU), (''remu'', OpArith RemU),
      (''i64.extend_s'', OpConv I64ExtendS), (''f64.convert_i64_s'', OpConv F64ConvertI64S),
      (''f32.demote'', OpConv F32DemoteF64), (''f64.promote'', OpConv F64PromoteF32),
      (''f32.convert_i32_s'', OpConv F32ConvertI32S), (''f32.convert_i64_s'', OpConv F32ConvertI64S),
      (''f64.convert_i32_s'', OpConv F64ConvertI32S), (''i32.trunc_f32_s'', OpConv I32TruncF32S),
      (''i32.trunc_f64_s'', OpConv I32TruncF64S), (''i64.trunc_f32_s'', OpConv I64TruncF32S),
      (''f32.reinterpret_i32'', OpConv F32ReinterpretI32), (''i32.reinterpret_f32'', OpConv I32ReinterpretF32),
      (''f64.sqrt'', OpConv F64Sqrt), (''i64.trunc_f64_s'', OpConv I64TruncF64S),
      (''f64.reinterpret_i64'', OpConv F64ReinterpretI64), (''i64.reinterpret_f64'', OpConv I64ReinterpretF64),
      (''i64.extend_u'', OpConv I64ExtendU), (''i32.wrap'', OpConv I32Wrap), (''format.str'', OpFormat FormatStr),
      (''format.to'', OpFormat FormatTo), (''format.print'', OpFormat FormatPrint),
      (''format.println'', OpFormat FormatPrintln), (''format.eprintln'', OpFormat FormatEprintln),
      (''format.piece'', OpFormat FormatPiece), (''try'', OpTry Try), (''try_opt'', OpTry TryOpt),
      (''try_or'', OpTry TryOr), (''defer'', OpDefer), (''drop'', OpDrop), (''format.dbg'', OpFormat FormatDbg),
      (''format.expect'', OpFormat FormatExpect), (''abort'', OpAbort), (''format.assert'', OpFormat FormatAssert)]"

definition op_of_name :: "string \<Rightarrow> opcode option" where
  "op_of_name = map_of op_table"

text \<open>Forms that the resolver expands before the parser sees them.\<close>

definition expanded_forms :: "string list" where
  "expanded_forms =
     [''format'', ''format_to'', ''print'', ''println'', ''eprintln'', ''dbg'', ''expect'', ''assert'', ''new'', ''arr.new'',
      ''arr.of'', ''zero'']"

section \<open>Variables and control\<close>

definition exprs_to_close :: "expr parser \<Rightarrow> expr list parser" where
  "exprs_to_close pe = many RParen pe"

definition parse_let :: "parse_ctx \<Rightarrow> expr parser \<Rightarrow> span \<Rightarrow> expr parser" where
  "parse_let px pe sp =
     pbind (expect_symbol ''variable name'' sp) (\<lambda>n.
     pbind (expect_kind px Colon) (\<lambda>_.
     pbind (parse_type px) (\<lambda>t.
     pbind pe (\<lambda>v. pret (ELet n t v sp)))))"

definition parse_set :: "parse_ctx \<Rightarrow> expr parser \<Rightarrow> span \<Rightarrow> expr parser" where
  "parse_set px pe sp =
     pbind (expect_symbol ''variable name'' sp) (\<lambda>n. pbind pe (\<lambda>v. pret (ESet n v sp)))"

definition empty_block :: "expr \<Rightarrow> bool" where
  "empty_block e = (case e of EBlock [] _ \<Rightarrow> True | _ \<Rightarrow> False)"

definition parse_if :: "parse_ctx \<Rightarrow> expr parser \<Rightarrow> span \<Rightarrow> expr parser" where
  "parse_if px pe sp =
     pbind pe (\<lambda>c.
     pbind pe (\<lambda>a.
     pbind peek (\<lambda>t.
       case t of
         Some tok \<Rightarrow>
           if tk_kind tok = RParen then pfail (PNoElse (tk_pos tok))
           else
             pbind pe (\<lambda>b.
               if empty_block b then pfail (PEmptyElse (expr_span b))
               else if empty_block a then pfail (PEmptyThen (expr_span a))
               else pret (EIf c a b sp))
       | None \<Rightarrow>
           pbind pe (\<lambda>b.
             if empty_block b then pfail (PEmptyElse (expr_span b))
             else if empty_block a then pfail (PEmptyThen (expr_span a))
             else pret (EIf c a b sp)))))"

definition parse_counted_loop :: "parse_ctx \<Rightarrow> expr parser \<Rightarrow> span \<Rightarrow> expr parser" where
  "parse_counted_loop px pe sp =
     pbind (expect_symbol ''loop var'' sp) (\<lambda>x.
     pbind pe (\<lambda>a. pbind pe (\<lambda>b. pbind pe (\<lambda>s.
     pbind (exprs_to_close pe) (\<lambda>body. pret (ELoop x a b s body sp))))))"

definition parse_for :: "parse_ctx \<Rightarrow> expr parser \<Rightarrow> span \<Rightarrow> expr parser" where
  "parse_for px pe sp =
     pbind (expect_symbol ''loop var'' sp) (\<lambda>x.
     pbind pe (\<lambda>a. pbind pe (\<lambda>b.
     pbind peek (\<lambda>t.
       case t of
         Some tok \<Rightarrow>
           (case tk_kind tok of
              IntLit _ \<Rightarrow> pfail (PForStep (tk_pos tok))
            | _ \<Rightarrow>
                pbind (exprs_to_close pe) (\<lambda>body.
                  pret (ELoop x a (EOp (OpArith Sub) [b, ELit (LInt 1) sp] sp) (ELit (LInt 1) sp) body sp)))
       | None \<Rightarrow>
           pbind (exprs_to_close pe) (\<lambda>body.
             pret (ELoop x a (EOp (OpArith Sub) [b, ELit (LInt 1) sp] sp) (ELit (LInt 1) sp) body sp))))))"

definition parse_when :: "parse_ctx \<Rightarrow> expr parser \<Rightarrow> span \<Rightarrow> expr parser" where
  "parse_when px pe sp =
     pbind peek_kind (\<lambda>k.
       if k = Some RParen then pfail (PWhenEmpty sp)
       else
         pbind pe (\<lambda>c. pbind (exprs_to_close pe) (\<lambda>body.
           pret (EIf c (EBlock (body @ [EBlock [] sp]) sp) (EBlock [] sp) sp))))"

definition parse_while :: "parse_ctx \<Rightarrow> expr parser \<Rightarrow> span \<Rightarrow> expr parser" where
  "parse_while px pe sp = pbind pe (\<lambda>c. pbind (exprs_to_close pe) (\<lambda>body. pret (EWhile c body sp)))"

definition parse_call :: "parse_ctx \<Rightarrow> expr parser \<Rightarrow> span \<Rightarrow> expr parser" where
  "parse_call px pe sp =
     pbind (expect_symbol ''func name in call'' sp) (\<lambda>f.
     pbind (exprs_to_close pe) (\<lambda>args. pret (ECall f args sp)))"

definition parse_block :: "expr parser \<Rightarrow> string \<Rightarrow> span \<Rightarrow> expr parser" where
  "parse_block pe head sp =
     pbind (exprs_to_close pe) (\<lambda>body. pret (if head = ''unsafe'' then EUnsafe body sp else EBlock body sp))"

definition parse_return :: "expr parser \<Rightarrow> span \<Rightarrow> expr parser" where
  "parse_return pe sp =
     pbind peek_kind (\<lambda>k.
       if k = Some RParen then pret (EReturn None sp) else pbind pe (\<lambda>v. pret (EReturn (Some v) sp)))"

section \<open>Results, unions and matches\<close>

text \<open>The type a result names: after a colon, or in the head itself (\<^verbatim>\<open>ok:i32\<close>).\<close>

definition explicit_type :: "parse_ctx \<Rightarrow> string \<Rightarrow> string \<Rightarrow> span \<Rightarrow> ty option parser" where
  "explicit_type px p head sp =
     pbind peek_kind (\<lambda>k.
       if k = Some Colon then pbind pnext (\<lambda>_. pbind (parse_type px) (\<lambda>t. pret (Some t)))
       else if prefix p head then
         (case parse_scalar_type_str (drop (length p) head) sp of Inl e \<Rightarrow> pfail e | Inr t \<Rightarrow> pret (Some t))
       else pret None)"

definition parse_ok :: "parse_ctx \<Rightarrow> expr parser \<Rightarrow> string \<Rightarrow> span \<Rightarrow> expr parser" where
  "parse_ok px pe head sp =
     pbind (explicit_type px ''ok:'' head sp) (\<lambda>t. pbind pe (\<lambda>v. pret (EOk v t sp)))"

definition parse_err :: "parse_ctx \<Rightarrow> expr parser \<Rightarrow> string \<Rightarrow> span \<Rightarrow> expr parser" where
  "parse_err px pe head sp =
     pbind (explicit_type px ''err:'' head sp) (\<lambda>t. pbind pe (\<lambda>v. pret (EErr v t sp)))"

definition parse_make :: "parse_ctx \<Rightarrow> expr parser \<Rightarrow> span \<Rightarrow> expr parser" where
  "parse_make px pe sp =
     pbind (expect_symbol ''Union.variant in make'' sp) (\<lambda>target.
       if target \<in> set (px_values px) then
         pbind (exprs_to_close pe) (\<lambda>args. pret (ERecord target args sp))
       else if CHR ''.'' \<notin> set target then pfail (PMakeTarget sp target)
       else pbind (exprs_to_close pe) (\<lambda>args. pret (EMake (before_dot target) (after_dot target) args sp)))"

definition parse_binders :: "parse_ctx \<Rightarrow> span \<Rightarrow> string list option parser" where
  "parse_binders px sp =
     pbind peek_kind (\<lambda>k.
       if k = Some LBracket then
         pbind pnext (\<lambda>_.
         pbind (many RBracket (expect_symbol ''a binder name'' sp)) (\<lambda>ns.
         pbind (expect_kind px RBracket) (\<lambda>_. pret (Some ns))))
       else pret None)"

text \<open>One arm of a match: the arms so far and the else body, if there was one.\<close>

definition parse_arm ::
  "parse_ctx \<Rightarrow> expr parser \<Rightarrow> match_arm list \<times> expr list option \<Rightarrow> (match_arm list \<times> expr list option) parser" where
  "parse_arm px pe acc =
     pbind (expect_kind px LParen) (\<lambda>open_tok.
     pbind (expect_symbol ''Name.member or else in a match arm'' (tk_pos open_tok)) (\<lambda>member.
       if snd acc \<noteq> None then pfail (PElseLast (tk_pos open_tok))
       else
         pbind (parse_binders px (tk_pos open_tok)) (\<lambda>binders.
         pbind (exprs_to_close pe) (\<lambda>body.
         pbind (expect_kind px RParen) (\<lambda>_.
           if member = ''else'' then
             (if binders \<noteq> None then pfail (PElseBinds (tk_pos open_tok)) else pret (fst acc, Some body))
           else pret (fst acc @ [MatchArm member binders body (tk_pos open_tok)], None))))))"

definition parse_match :: "parse_ctx \<Rightarrow> expr parser \<Rightarrow> span \<Rightarrow> expr parser" where
  "parse_match px pe sp =
     pbind pe (\<lambda>v.
     pbind (repeat_while (before RParen) (parse_arm px pe) ([], None)) (\<lambda>(arms, els). pret (EMatch v arms els sp)))"

definition parse_result_arm :: "parse_ctx \<Rightarrow> expr parser \<Rightarrow> span \<Rightarrow> string \<Rightarrow> (string \<times> expr list) parser" where
  "parse_result_arm px pe sp w =
     pbind (expect_kind px LParen) (\<lambda>_.
     pbind (expect_word w (w @ '' arm in match_result'') sp) (\<lambda>_.
     pbind (expect_symbol (w @ '' var'') sp) (\<lambda>x.
     pbind (exprs_to_close pe) (\<lambda>body.
     pbind (expect_kind px RParen) (\<lambda>_. pret (x, body))))))"

definition parse_match_result :: "parse_ctx \<Rightarrow> expr parser \<Rightarrow> span \<Rightarrow> expr parser" where
  "parse_match_result px pe sp =
     pbind pe (\<lambda>e.
     pbind (parse_result_arm px pe sp ''ok'') (\<lambda>(okv, okb).
     pbind (parse_result_arm px pe sp ''err'') (\<lambda>(errv, errb).
       pret (EMatchResult e okv okb errv errb sp))))"

text \<open>One clause of a \<^verbatim>\<open>cond\<close>: the clauses so far and the else clause, if there was one.\<close>

type_synonym cond_state = "(expr \<times> expr list \<times> span) list \<times> (expr list \<times> span) option"

definition clause_test :: "expr parser \<Rightarrow> expr option parser" where
  "clause_test pe =
     pbind peek_kind (\<lambda>k.
       if k = Some (Symbol ''else'') then pbind pnext (\<lambda>_. pret None)
       else pbind pe (\<lambda>t. pret (Some t)))"

definition parse_clause :: "parse_ctx \<Rightarrow> expr parser \<Rightarrow> cond_state \<Rightarrow> cond_state parser" where
  "parse_clause px pe acc =
     pbind (expect_kind px LParen) (\<lambda>tok.
       if snd acc \<noteq> None then pfail (PCondElseLast (tk_pos tok))
       else
         pbind (clause_test pe) (\<lambda>test.
         pbind (exprs_to_close pe) (\<lambda>body.
         pbind (expect_kind px RParen) (\<lambda>_.
           if body = [] then pfail (PCondBody (tk_pos tok))
           else
             (case test of
                Some t \<Rightarrow> pret (fst acc @ [(t, body, tk_pos tok)], None)
              | None \<Rightarrow> pret (fst acc, Some (body, tk_pos tok)))))))"

definition parse_cond :: "parse_ctx \<Rightarrow> expr parser \<Rightarrow> span \<Rightarrow> expr parser" where
  "parse_cond px pe sp =
     pbind (repeat_while (next_is LParen) (parse_clause px pe) ([], None)) (\<lambda>(clauses, els).
       case els of
         None \<Rightarrow> pfail (PCondElse sp)
       | Some (body, esp) \<Rightarrow>
           if clauses = [] then pfail (PCondTest sp)
           else pret (foldr (\<lambda>(t, b, csp) acc. EIf t (EBlock b csp) acc csp) clauses (EBlock body esp)))"

end
