(* ===== verification/Parser.thy ===== *)
theory Parser
  imports Parse_Forms
begin

text \<open>
  The other forms, expressions, items and modules (\<^verbatim>\<open>parse_expr\<close>, \<^verbatim>\<open>parse_fn_def\<close>, \<^verbatim>\<open>parse_module\<close>,
  \<^verbatim>\<open>parse_tokens\<close>, \<^verbatim>\<open>strip_marks\<close> and \<^verbatim>\<open>value_struct_names\<close> of \<^verbatim>\<open>src/parser.rs\<close>). \<open>parse_expr_n\<close> ties the
  knot of the forms with as much fuel as there are tokens: a form's head is read before its parts.
\<close>

section \<open>Fields, arrays and addresses\<close>

definition parse_get :: "parse_ctx \<Rightarrow> expr parser \<Rightarrow> span \<Rightarrow> expr parser" where
  "parse_get px pe sp =
     pbind pe (\<lambda>e.
     pbind (field_ref ''get'' sp) (\<lambda>(st, f).
     pbind (many RParen (field_ref ''get'' sp)) (\<lambda>fs.
       pret (foldl (\<lambda>acc (s, g). EGetField s g acc sp) (EGetField st f e sp) fs))))"

definition parse_with :: "parse_ctx \<Rightarrow> expr parser \<Rightarrow> span \<Rightarrow> expr parser" where
  "parse_with px pe sp =
     pbind pe (\<lambda>v.
     pbind (field_ref ''with'' sp) (\<lambda>(st, f).
     pbind pe (\<lambda>n. pret (EWith st f v n sp))))"

text \<open>The items before the value are the path: variables that name a field.\<close>

definition path_item :: "string \<Rightarrow> expr \<Rightarrow> parse_error + string \<times> string" where
  "path_item form e =
     (case e of
        EVar n sp \<Rightarrow>
          (case split_field n of Some f \<Rightarrow> Inr f | None \<Rightarrow> Inl (PFieldRef sp form (Symbol n)))
      | _ \<Rightarrow> Inl (POneValue (expr_span e) form))"

fun path_items :: "string \<Rightarrow> expr list \<Rightarrow> parse_error + (string \<times> string) list" where
  "path_items form [] = Inr []"
| "path_items form (e # es) =
     bind_res (path_item form e) (\<lambda>f. bind_res (path_items form es) (\<lambda>fs. Inr (f # fs)))"

definition path_and_value :: "expr parser \<Rightarrow> string \<Rightarrow> span \<Rightarrow> ((string \<times> string) list \<times> expr) parser" where
  "path_and_value pe form sp =
     pbind (exprs_to_close pe) (\<lambda>items.
       if items = [] then pfail (PNeedsValue sp form)
       else (case path_items form (butlast items) of
               Inl e \<Rightarrow> pfail e
             | Inr path \<Rightarrow> pret (path, List.last items)))"

definition parse_put :: "parse_ctx \<Rightarrow> expr parser \<Rightarrow> span \<Rightarrow> expr parser" where
  "parse_put px pe sp =
     pbind pe (\<lambda>p.
     pbind (field_ref ''put'' sp) (\<lambda>(st, f).
     pbind (path_and_value pe ''put'' sp) (\<lambda>(path, v). pret (EPutField st f p v path sp))))"

definition parse_sizeof :: "parse_ctx \<Rightarrow> span \<Rightarrow> expr parser" where
  "parse_sizeof px sp =
     pbind peek_kind (\<lambda>k.
       case k of
         None \<Rightarrow> pfail (PWanted sp ''a type in sizeof'' None)
       | Some (Symbol s) \<Rightarrow>
           if scalar_type s = None \<and> narrow_from_name s = None \<and> s \<notin> set (px_unions px)
           then pbind pnext (\<lambda>_. pret (ESizeof (TStruct s) sp))
           else pbind (parse_type px) (\<lambda>t. pret (ESizeof t sp))
       | Some _ \<Rightarrow> pbind (parse_type px) (\<lambda>t. pret (ESizeof t sp)))"

definition parse_ref :: "span \<Rightarrow> expr parser" where
  "parse_ref sp = pbind (expect_symbol ''function name in ref'' sp) (\<lambda>n. pret (ERef n sp))"

definition parse_call_ref :: "parse_ctx \<Rightarrow> expr parser \<Rightarrow> span \<Rightarrow> expr parser" where
  "parse_call_ref px pe sp =
     pbind peek (\<lambda>t.
       case map_option tk_kind t of
         Some (Symbol s) \<Rightarrow> pfail (PCallRefType (tk_pos (the t)) (Symbol s))
       | _ \<Rightarrow>
           pbind (parse_type px) (\<lambda>sig.
           pbind pe (\<lambda>f.
           pbind (exprs_to_close pe) (\<lambda>args. pret (ECallRef sig f args sp)))))"

definition parse_arr_len :: "expr parser \<Rightarrow> span \<Rightarrow> expr parser" where
  "parse_arr_len pe sp = pbind pe (\<lambda>a. pret (EArrLen a sp))"

definition parse_null :: "parse_ctx \<Rightarrow> string \<Rightarrow> span \<Rightarrow> expr parser" where
  "parse_null px head sp =
     (if head = ''ptr.null'' then
        pbind (expect_symbol ''struct name in ptr.null'' sp) (\<lambda>n. pret (ENull (TPtr (TStruct n)) sp))
      else pbind (parse_type px) (\<lambda>t. pret (ENull (TArray t) sp)))"

definition parse_cast :: "parse_ctx \<Rightarrow> expr parser \<Rightarrow> string \<Rightarrow> span \<Rightarrow> expr parser" where
  "parse_cast px pe head sp =
     (if head = ''ptr.cast'' then
        pbind (expect_symbol ''struct name in ptr.cast'' sp) (\<lambda>n.
        pbind pe (\<lambda>a. pret (ECast (TPtr (TStruct n)) a None sp)))
      else if head = ''arr.cast'' then
        pbind (parse_type px) (\<lambda>t. pbind pe (\<lambda>a. pret (ECast (TArray t) a None sp)))
      else if head = ''ptr.make'' then
        pbind (expect_symbol ''struct name in ptr.make'' sp) (\<lambda>n.
        pbind pe (\<lambda>a. pbind pe (\<lambda>g. pret (ECast (TPtr (TStruct n)) a (Some g) sp))))
      else if head = ''arr.make'' then
        pbind (parse_type px) (\<lambda>t.
        pbind pe (\<lambda>a. pbind pe (\<lambda>g. pret (ECast (TArray t) a (Some g) sp))))
      else
        pbind (expect_symbol ''enum name in enum.cast'' sp) (\<lambda>n.
        pbind pe (\<lambda>v. pret (ECast (TEnum n) v None sp))))"

definition parse_addr :: "expr parser \<Rightarrow> string \<Rightarrow> span \<Rightarrow> expr parser" where
  "parse_addr pe head sp =
     pbind pe (\<lambda>v.
       pret (EAddr v
         (if head = ''ptr.addr'' then AKPtr
          else if head = ''arr.addr'' then AKArr
          else if head = ''ptr.gen'' then AKPtrGen
          else if head = ''arr.gen'' then AKArrGen
          else AKEnum) sp))"

definition parse_arr_get :: "parse_ctx \<Rightarrow> expr parser \<Rightarrow> span \<Rightarrow> expr parser" where
  "parse_arr_get px pe sp =
     pbind (parse_type px) (\<lambda>t.
     pbind pe (\<lambda>p.
     pbind peek (\<lambda>tok.
       if map_option tk_kind tok = Some RParen then pfail (PArrGetType (tk_pos (the tok)))
       else
         pbind pe (\<lambda>i.
         pbind (many RParen (field_ref ''arr.get'' sp)) (\<lambda>fs.
           pret (foldl (\<lambda>acc (s, g). EGetField s g acc sp) (EArrGet t p i sp) fs))))))"

definition parse_arr_set :: "parse_ctx \<Rightarrow> expr parser \<Rightarrow> span \<Rightarrow> expr parser" where
  "parse_arr_set px pe sp =
     pbind (parse_type px) (\<lambda>t.
     pbind pe (\<lambda>p. pbind pe (\<lambda>i.
     pbind (path_and_value pe ''arr.set'' sp) (\<lambda>(path, v). pret (EArrSet t p i v path sp)))))"

definition parse_operator :: "expr parser \<Rightarrow> string \<Rightarrow> span \<Rightarrow> expr parser" where
  "parse_operator pe head sp =
     (case op_of_name head of
        Some op \<Rightarrow> pbind (exprs_to_close pe) (\<lambda>args. pret (EOp op args sp))
      | None \<Rightarrow>
          if head \<in> set expanded_forms then pfail (PExpanded sp head) else pfail (PUnknownHead sp head))"

section \<open>Expressions\<close>

definition parse_form :: "parse_ctx \<Rightarrow> expr parser \<Rightarrow> string \<Rightarrow> span \<Rightarrow> expr parser" where
  "parse_form px pe h sp =
     (if h = ''let'' then parse_let px pe sp
      else if h = ''set!'' then parse_set px pe sp
      else if h = ''if'' then parse_if px pe sp
      else if h = ''counted_loop'' then parse_counted_loop px pe sp
      else if h = ''for'' then parse_for px pe sp
      else if h = ''when'' then parse_when px pe sp
      else if h = ''while'' then parse_while px pe sp
      else if h = ''call'' then parse_call px pe sp
      else if h = ''ok'' \<or> prefix ''ok:'' h then parse_ok px pe h sp
      else if h = ''err'' \<or> prefix ''err:'' h then parse_err px pe h sp
      else if h = ''make'' then parse_make px pe sp
      else if h = ''match'' then parse_match px pe sp
      else if h = ''block'' \<or> h = ''unsafe'' then parse_block pe h sp
      else if h = ''match_result'' then parse_match_result px pe sp
      else if h = ''get'' then parse_get px pe sp
      else if h = ''with'' then parse_with px pe sp
      else if h = ''put'' then parse_put px pe sp
      else if h = ''sizeof'' then parse_sizeof px sp
      else if h = ''return'' then parse_return pe sp
      else if h = ''break'' then pret (EBreak sp)
      else if h = ''continue'' then pret (EContinue sp)
      else if h = ''cond'' then parse_cond px pe sp
      else if h = ''ref'' then parse_ref sp
      else if h = ''call_ref'' then parse_call_ref px pe sp
      else if h = ''arr.len'' then parse_arr_len pe sp
      else if h = ''ptr.null'' \<or> h = ''arr.null'' then parse_null px h sp
      else if h \<in> {''ptr.cast'', ''arr.cast'', ''ptr.make'', ''arr.make'', ''enum.cast''} then parse_cast px pe h sp
      else if h \<in> {''ptr.addr'', ''arr.addr'', ''enum.ord'', ''ptr.gen'', ''arr.gen''} then parse_addr pe h sp
      else if h = ''arr.get'' then parse_arr_get px pe sp
      else if h = ''arr.set'' then parse_arr_set px pe sp
      else if h = ''mem.free'' then pfail (PMemFree sp)
      else if h \<in> {''mem.load_f32'', ''mem.load_f64'', ''mem.store_f32'', ''mem.store_f64''} then pfail (PFloatMem sp h)
      else parse_operator pe h sp)"

definition int_literal :: "i64 \<Rightarrow> span \<Rightarrow> parse_error + expr" where
  "int_literal v sp =
     (if - 2147483648 \<le> sint v \<and> sint v \<le> 4294967295 then Inr (ELit (LInt v) sp) else Inl (PIntRange sp (sint v)))"

definition parse_atom :: "token \<Rightarrow> expr parser" where
  "parse_atom t =
     (case tk_kind t of
        IntLit v \<Rightarrow> (case int_literal v (tk_pos t) of Inl e \<Rightarrow> pfail e | Inr e \<Rightarrow> pret e)
      | Int64Lit v \<Rightarrow> pret (ELit (LInt64 v) (tk_pos t))
      | FloatLit v _ \<Rightarrow> pret (ELit (LFloat v) (tk_pos t))
      | Float32Lit v s \<Rightarrow> pret (ELit (LFloat32 v s) (tk_pos t))
      | BoolLit b \<Rightarrow> pret (ELit (LBool b) (tk_pos t))
      | StringLit s \<Rightarrow> pret (ELit (LStr s) (tk_pos t))
      | Symbol s \<Rightarrow> pret (EVar s (tk_pos t))
      | k \<Rightarrow> pfail (PUnexpected (tk_pos t) (Some k)))"

definition parse_expr_with :: "parse_ctx \<Rightarrow> expr parser \<Rightarrow> expr parser" where
  "parse_expr_with px pe =
     pbind (cur_pos px) (\<lambda>pos. pbind pnext (\<lambda>t.
       case t of
         None \<Rightarrow> pfail (PUnexpected pos None)
       | Some tok \<Rightarrow>
           if tk_kind tok = LParen then
             pbind (expect_symbol ''operator or keyword in expr'' (tk_pos tok)) (\<lambda>h.
             pbind (parse_form px pe h (tk_pos tok)) (\<lambda>e.
             pbind (expect_kind px RParen) (\<lambda>_. pret e)))
           else parse_atom tok))"

fun parse_expr_n :: "nat \<Rightarrow> parse_ctx \<Rightarrow> expr parser" where
  "parse_expr_n 0 px = pfail PStuck"
| "parse_expr_n (Suc n) px = parse_expr_with px (parse_expr_n n px)"

definition parse_expr :: "parse_ctx \<Rightarrow> expr parser" where
  "parse_expr px ts = parse_expr_n (Suc (length ts)) px ts"

section \<open>Items\<close>

definition head_ahead :: "string \<Rightarrow> token list \<Rightarrow> bool" where
  "head_ahead h ts \<longleftrightarrow> kind_at ts 1 = Some (Symbol h)"

text \<open>\<^verbatim>\<open>name:type\<close>, in a list of fields or parameters.\<close>

definition parse_member :: "parse_ctx \<Rightarrow> string \<Rightarrow> span \<Rightarrow> (string \<times> ty) parser" where
  "parse_member px what sp =
     pbind (expect_symbol what sp) (\<lambda>n.
     pbind (expect_kind px Colon) (\<lambda>_.
     pbind (parse_type px) (\<lambda>t. pret (n, t))))"

definition parse_field :: "parse_ctx \<Rightarrow> span \<Rightarrow> struct_field parser" where
  "parse_field px sp =
     pbind (parse_member px ''field name'' sp) (\<lambda>(n, t). pret \<lparr>sf_name = n, sf_ty = t\<rparr>)"

definition parse_variant :: "parse_ctx \<Rightarrow> variant parser" where
  "parse_variant px =
     pbind (cur_pos px) (\<lambda>sp.
     pbind peek_kind (\<lambda>k.
       if k \<noteq> Some LParen then pfail (PVariantShape sp)
       else
         pbind pnext (\<lambda>_.
         pbind (expect_symbol ''variant name'' sp) (\<lambda>n.
         pbind (many RParen (parse_field px sp)) (\<lambda>fs.
         pbind (expect_kind px RParen) (\<lambda>_. pret \<lparr>vr_name = n, vr_fields = fs\<rparr>))))))"

definition parse_union_def :: "parse_ctx \<Rightarrow> union_def parser" where
  "parse_union_def px =
     pbind (expect_kind px LParen) (\<lambda>tok.
     pbind pnext (\<lambda>_.
     pbind (expect_symbol ''union name'' (tk_pos tok)) (\<lambda>n.
     pbind (expect_kind px LBracket) (\<lambda>_.
     pbind (many RBracket (parse_variant px)) (\<lambda>vs.
     pbind (expect_kind px RBracket) (\<lambda>_.
     pbind (expect_kind px RParen) (\<lambda>_.
       pret \<lparr>ud_name = n, ud_variants = vs, ud_span = tk_pos tok\<rparr>)))))))"

text \<open>One member: the members so far and the value a member without one gets next.\<close>

definition member_value :: "parse_ctx \<Rightarrow> span \<Rightarrow> int parser" where
  "member_value px sp =
     pbind pnext (\<lambda>t.
       case map_option tk_kind t of
         Some (IntLit v) \<Rightarrow> pret (sint v)
       | _ \<Rightarrow> pfail (PMemberShape sp))"

definition parse_enum_member :: "parse_ctx \<Rightarrow> span \<Rightarrow> int \<Rightarrow> (string \<times> int) parser" where
  "parse_enum_member px op_pos next_value =
     pbind (cur_pos px) (\<lambda>sp. pbind pnext (\<lambda>t.
       case t of
         None \<Rightarrow> pfail (PNeverClosed op_pos)
       | Some tok \<Rightarrow>
           (case tk_kind tok of
              Symbol m \<Rightarrow> pret (m, next_value)
            | LParen \<Rightarrow>
                pbind (expect_symbol ''enum member name'' sp) (\<lambda>m.
                pbind (member_value px sp) (\<lambda>v.
                pbind (expect_kind px RParen) (\<lambda>_. pret (m, v))))
            | k \<Rightarrow> pfail (PMember (tk_pos tok) k))))"

definition add_enum_member ::
  "parse_ctx \<Rightarrow> span \<Rightarrow> (string \<times> int) list \<times> int \<Rightarrow> ((string \<times> int) list \<times> int) parser" where
  "add_enum_member px op_pos acc =
     pbind (cur_pos px) (\<lambda>sp.
     pbind (parse_enum_member px op_pos (snd acc)) (\<lambda>(m, v).
       if v < - 2147483648 \<or> 2147483647 < v then pfail (PMemberRange sp v)
       else pret (fst acc @ [(m, v)], v + 1)))"

definition parse_enum_def :: "parse_ctx \<Rightarrow> enum_def parser" where
  "parse_enum_def px =
     pbind (expect_kind px LParen) (\<lambda>tok.
     pbind pnext (\<lambda>_.
     pbind (expect_symbol ''enum name'' (tk_pos tok)) (\<lambda>n.
     pbind (expect_kind px LBracket) (\<lambda>op_tok.
     pbind (repeat_while (\<lambda>ts. \<not> next_is RBracket ts) (add_enum_member px (tk_pos op_tok)) ([], 0)) (\<lambda>(ms, _).
     pbind pnext (\<lambda>_.
     pbind (expect_kind px RParen) (\<lambda>_.
       pret \<lparr>ed_name = n, ed_members = map (\<lambda>(m, v). (m, word_of_int v)) ms, ed_span = tk_pos tok\<rparr>)))))))"

definition parse_value_mark :: "parse_ctx \<Rightarrow> bool parser" where
  "parse_value_mark px =
     pbind peek (\<lambda>t.
       if map_option tk_kind t = Some LParen then
         pbind pnext (\<lambda>_.
         pbind (expect_word ''value'' ''(value) or ')' after a struct's fields'' (tk_pos (the t))) (\<lambda>_.
         pbind (expect_kind px RParen) (\<lambda>_. pret True)))
       else pret False)"

definition parse_struct_def :: "parse_ctx \<Rightarrow> struct_def parser" where
  "parse_struct_def px =
     pbind (expect_kind px LParen) (\<lambda>tok.
     pbind (expect_word ''struct'' ''struct'' (tk_pos tok)) (\<lambda>_.
     pbind (expect_symbol ''struct name'' (tk_pos tok)) (\<lambda>n.
     pbind (expect_kind px LBracket) (\<lambda>_.
     pbind (many RBracket (parse_field px (tk_pos tok))) (\<lambda>fs.
     pbind (expect_kind px RBracket) (\<lambda>_.
     pbind (parse_value_mark px) (\<lambda>v.
     pbind (expect_kind px RParen) (\<lambda>_.
       pret \<lparr>sd_name = n, sd_fields = fs, sd_span = tk_pos tok, sd_is_value = v\<rparr>))))))))"

definition parse_import :: "parse_ctx \<Rightarrow> import_decl parser" where
  "parse_import px =
     pbind (cur_pos px) (\<lambda>sp.
     pbind (expect_kind px LParen) (\<lambda>_.
     pbind (expect_word ''import'' ''import'' sp) (\<lambda>_.
     pbind (expect_symbol ''module name in import'' sp) (\<lambda>n.
     pbind peek_kind (\<lambda>k.
       if k = Some (Symbol ''as'') then
         pbind pnext (\<lambda>_.
         pbind (expect_symbol ''alias after as'' sp) (\<lambda>a.
         pbind (expect_kind px RParen) (\<lambda>_. pret \<lparr>im_name = n, im_alias = Some a\<rparr>)))
       else pbind (expect_kind px RParen) (\<lambda>_. pret \<lparr>im_name = n, im_alias = None\<rparr>))))))"

section \<open>Functions\<close>

datatype fn_part = FContract contract | FUnsafe | FNoLeak | FBody expr

definition clause_ahead :: "string \<Rightarrow> token list \<Rightarrow> bool" where
  "clause_ahead w ts \<longleftrightarrow>
     kind_at ts 0 = Some LParen \<and> kind_at ts 1 = Some (Symbol w) \<and> kind_at ts 2 = Some RParen"

definition contract_ahead :: "token list \<Rightarrow> bool" where
  "contract_ahead ts \<longleftrightarrow> next_is LParen ts \<and> (head_ahead ''req'' ts \<or> head_ahead ''ens'' ts \<or> head_ahead ''inv'' ts)"

definition parse_contract :: "parse_ctx \<Rightarrow> contract parser" where
  "parse_contract px =
     pbind (cur_pos px) (\<lambda>sp.
     pbind (expect_kind px LParen) (\<lambda>_.
     pbind (expect_symbol ''contract opcode'' sp) (\<lambda>k.
     pbind (parse_expr px) (\<lambda>e.
     pbind (expect_kind px RParen) (\<lambda>_.
       if k = ''req'' then pret (Requires e)
       else if k = ''ens'' then pret (Ensures e)
       else if k = ''inv'' then pret (Invariant e)
       else pfail (PContractWord sp k))))))"

definition parse_fn_part :: "parse_ctx \<Rightarrow> fn_part parser" where
  "parse_fn_part px ts =
     (if contract_ahead ts then pbind (parse_contract px) (\<lambda>c. pret (FContract c)) ts
      else if clause_ahead ''unsafe'' ts then pbind (skip 3) (\<lambda>_. pret FUnsafe) ts
      else if clause_ahead ''no_leak'' ts then pbind (skip 3) (\<lambda>_. pret FNoLeak) ts
      else pbind (parse_expr px) (\<lambda>e. pret (FBody e)) ts)"

definition parse_fn_def :: "parse_ctx \<Rightarrow> fn_def parser" where
  "parse_fn_def px =
     pbind (expect_kind px LParen) (\<lambda>tok.
     pbind (expect_word ''fn'' ''fn'' (tk_pos tok)) (\<lambda>_.
     pbind (expect_symbol ''fn name'' (tk_pos tok)) (\<lambda>n.
     pbind (expect_kind px LBracket) (\<lambda>_.
     pbind (many RBracket (parse_member px ''param name'' (tk_pos tok))) (\<lambda>ps.
     pbind (expect_kind px RBracket) (\<lambda>_.
     pbind (expect_kind px Arrow) (\<lambda>_.
     pbind (parse_type px) (\<lambda>r.
     pbind (many RParen (parse_fn_part px)) (\<lambda>parts.
     pbind (expect_kind px RParen) (\<lambda>_.
       pret \<lparr>fd_name = n, fd_params = ps, fd_return_type = r,
         fd_contracts = List.map_filter (\<lambda>p. case p of FContract c \<Rightarrow> Some c | _ \<Rightarrow> None) parts,
         fd_body = List.map_filter (\<lambda>p. case p of FBody e \<Rightarrow> Some e | _ \<Rightarrow> None) parts,
         fd_span = tk_pos tok, fd_is_unsafe = (FUnsafe \<in> set parts), fd_is_no_leak = (FNoLeak \<in> set parts)\<rparr>))))))))))"

section \<open>Modules\<close>

definition empty_module :: "string \<Rightarrow> module" where
  "empty_module n =
     \<lparr>m_name = n, m_imports = [], m_structs = [], m_enums = [], m_unions = [], m_functions = [],
      m_sources = Map.empty, m_file_names = Map.empty\<rparr>"

definition parse_item :: "parse_ctx \<Rightarrow> module \<Rightarrow> module parser" where
  "parse_item px m ts =
     (if head_ahead ''import'' ts then pbind (parse_import px) (\<lambda>x. pret (m\<lparr>m_imports := m_imports m @ [x]\<rparr>)) ts
      else if head_ahead ''struct'' ts then pbind (parse_struct_def px) (\<lambda>x. pret (m\<lparr>m_structs := m_structs m @ [x]\<rparr>)) ts
      else if head_ahead ''enum'' ts then pbind (parse_enum_def px) (\<lambda>x. pret (m\<lparr>m_enums := m_enums m @ [x]\<rparr>)) ts
      else if head_ahead ''union'' ts then pbind (parse_union_def px) (\<lambda>x. pret (m\<lparr>m_unions := m_unions m @ [x]\<rparr>)) ts
      else if head_ahead ''const'' ts then pbind (cur_pos px) (\<lambda>sp. pfail (PConst sp)) ts
      else pbind (parse_fn_def px) (\<lambda>x. pret (m\<lparr>m_functions := m_functions m @ [x]\<rparr>)) ts)"

definition parse_module :: "parse_ctx \<Rightarrow> module parser" where
  "parse_module px =
     pbind (cur_pos px) (\<lambda>sp.
     pbind (expect_kind px LParen) (\<lambda>_.
     pbind (expect_word ''module'' ''module symbol'' sp) (\<lambda>_.
     pbind (expect_symbol ''module name'' sp) (\<lambda>n.
     pbind (repeat_while (next_is LParen) (parse_item px) (empty_module n)) (\<lambda>m.
     pbind (expect_kind px RParen) (\<lambda>_.
     pbind peek (\<lambda>t.
       case t of Some tok \<Rightarrow> pfail (PExtra (tk_pos tok)) | None \<Rightarrow> pret m)))))))"

section \<open>Visibility marks and the names of types\<close>

definition symbol_at :: "token list \<Rightarrow> nat \<Rightarrow> bool" where
  "symbol_at ts i \<longleftrightarrow> (case kind_at ts i of Some (Symbol _) \<Rightarrow> True | _ \<Rightarrow> False)"

definition whole_mark :: "token list \<Rightarrow> bool" where
  "whole_mark ts \<longleftrightarrow>
     kind_at ts 0 = Some LParen \<and> kind_at ts 1 = Some (Symbol ''pub'') \<and> kind_at ts 2 = Some RParen"

definition field_mark :: "token list \<Rightarrow> bool" where
  "field_mark ts \<longleftrightarrow>
     kind_at ts 0 = Some LParen
     \<and> (kind_at ts 1 = Some (Symbol ''pub'') \<or> kind_at ts 1 = Some (Symbol ''read''))
     \<and> symbol_at ts 2 \<and> kind_at ts 3 = Some Colon"

text \<open>\<open>opens\<close> says of each open bracket whether its close is left out.\<close>

function strip_from :: "bool list \<Rightarrow> token list \<Rightarrow> token list" where
  "strip_from opens [] = []"
| "strip_from opens (t # ts) =
     (if whole_mark (t # ts) then strip_from opens (drop 2 ts)
      else if field_mark (t # ts) then strip_from (True # opens) (drop 1 ts)
      else if tk_kind t = LParen \<or> tk_kind t = LBracket then t # strip_from (False # opens) ts
      else if tk_kind t = RParen \<or> tk_kind t = RBracket then
        (case opens of
           True # os \<Rightarrow> strip_from os ts
         | False # os \<Rightarrow> t # strip_from os ts
         | [] \<Rightarrow> t # strip_from [] ts)
      else t # strip_from opens ts)"
  by pat_completeness auto
termination
  by (relation "measure (\<lambda>(opens, ts). length ts)") auto

definition strip_marks :: "token list \<Rightarrow> token list" where
  "strip_marks ts = strip_from [] ts"

fun union_names :: "token list \<Rightarrow> string list" where
  "union_names (a # b # c # ts) =
     (case (tk_kind a, tk_kind b, tk_kind c) of
        (LParen, Symbol u, Symbol n) \<Rightarrow> (if u = ''union'' then [n] else [])
      | _ \<Rightarrow> []) @ union_names (b # c # ts)"
| "union_names _ = []"

text \<open>What follows the bracket that closes the first one.\<close>

fun after_close :: "nat \<Rightarrow> token list \<Rightarrow> token list" where
  "after_close d [] = []"
| "after_close d (t # ts) =
     (if tk_kind t = LBracket \<or> tk_kind t = LParen then after_close (d + 1) ts
      else if tk_kind t = RBracket \<or> tk_kind t = RParen then (if d = 1 then ts else after_close (d - 1) ts)
      else after_close d ts)"

fun value_struct_names :: "token list \<Rightarrow> string list" where
  "value_struct_names [] = []"
| "value_struct_names (t # ts) =
     (case (tk_kind t, kind_at ts 0, kind_at ts 1, kind_at ts 2) of
        (LParen, Some (Symbol kw), Some (Symbol n), Some LBracket) \<Rightarrow>
          (if kw = ''struct'' \<and> clause_ahead ''value'' (after_close 0 (drop 2 ts)) then [n] else [])
      | _ \<Rightarrow> [])
     @ value_struct_names ts"

definition parse_tokens_with :: "token list \<Rightarrow> string list \<Rightarrow> string list \<Rightarrow> parse_error + module" where
  "parse_tokens_with ts unions values =
     (let stripped = strip_marks ts;
          px = \<lparr>px_end = (if stripped = [] then (1, 1) else tk_pos (List.last stripped)), px_unions = unions, px_values = values\<rparr>
      in bind_res (parse_module px stripped) (\<lambda>(m, _). Inr m))"

definition parse_tokens :: "token list \<Rightarrow> parse_error + module" where
  "parse_tokens ts =
     (let stripped = strip_marks ts
      in parse_tokens_with stripped (union_names stripped) (value_struct_names stripped))"

definition parse :: "string \<Rightarrow> parse_error + module" where
  "parse s = (case tokenize s of Inl e \<Rightarrow> Inl (PToken e) | Inr ts \<Rightarrow> parse_tokens ts)"

end
