(* ===== verification/Lexing.thy ===== *)
theory Lexing
  imports Printer Parser
begin

text \<open>
  What the tokeniser makes of a text that is put together from words, brackets and string literals:
  \<open>reads_as x X\<close> says that the text \<open>x\<close>, wherever it stands before white space, a bracket or a colon,
  is read as the tokens \<open>X\<close>.
\<close>

section \<open>Ends of words\<close>

definition ends :: "string \<Rightarrow> bool" where
  "ends s \<longleftrightarrow> s = [] \<or> hd s = CHR 0x20 \<or> hd s = newline \<or> punctuation (hd s) \<noteq> None"

lemma ends_simps [simp]:
  "ends []" "ends (CHR 0x20 # s)" "ends (newline # s)" "ends (CHR '')'' # s)" "ends (CHR '']'' # s)"
  "ends (CHR ''('' # s)" "ends (CHR ''['' # s)" "ends (CHR '':'' # s)"
  by (simp_all add: ends_def)

lemma white_space_head:
  assumes "(e, k) \<in> set white_space"
  shows "\<exists>c r. e = c # r \<and> (of_char c < (0x80 :: nat) \<longrightarrow> r = []) \<and> (\<forall>x \<in> set r. 0x80 \<le> (of_char x :: nat))"
proof -
  have "\<forall>(e, k) \<in> set white_space. e \<noteq> [] \<and> (of_char (hd e) < (0x80 :: nat) \<longrightarrow> tl e = [])
          \<and> (\<forall>x \<in> set (tl e). 0x80 \<le> (of_char x :: nat))"
    by (simp add: white_space_def)
  with assms have "e \<noteq> [] \<and> (of_char (hd e) < (0x80 :: nat) \<longrightarrow> tl e = []) \<and> (\<forall>x \<in> set (tl e). 0x80 \<le> (of_char x :: nat))"
    by blast
  then show ?thesis by (cases e) auto
qed

lemma space_at_Cons_space: "space_at (CHR 0x20 # s) = Some 0x20" "space_at (newline # s) = Some 0x0A"
  by (simp_all add: space_at_def white_space_def)

text \<open>What is read at an end does not reach into the word before it.\<close>

definition ascii_end :: "string \<Rightarrow> bool" where
  "ascii_end s \<longleftrightarrow> s = [] \<or> of_char (hd s) < (0x80 :: nat)"

lemma ends_ascii: "ends s \<Longrightarrow> ascii_end s"
  by (auto simp: ends_def ascii_end_def split: if_splits)

lemma prefix_ascii_end:
  assumes e: "(e, k) \<in> set white_space" and s: "ascii_end s" and x: "x \<noteq> []"
  shows "prefix e (x @ s) \<longleftrightarrow> prefix e x"
proof
  assume p: "prefix e (x @ s)"
  show "prefix e x"
  proof (rule ccontr)
    assume n: "\<not> prefix e x"
    obtain c r where c: "e = c # r" "\<forall>y \<in> set r. 0x80 \<le> (of_char y :: nat)" using white_space_head [OF e] by blast
    from p n have "prefix x e" and "x \<noteq> e" by (auto simp: prefix_append prefix_def append_eq_append_conv2)
    then obtain y where y: "e = x @ y" "y \<noteq> []" by (auto simp: prefix_def)
    with p have "prefix y s" by simp
    with y(2) have "s \<noteq> []" "hd s = hd y" by (auto simp: prefix_def)
    moreover have "hd y \<in> set r" using c(1) y x by (cases x) auto
    ultimately show False using c(2) s by (auto simp: ascii_end_def)
  qed
qed (auto simp: prefix_def)

lemma space_at_append: "ascii_end s \<Longrightarrow> x \<noteq> [] \<Longrightarrow> space_at (x @ s) = space_at x"
proof -
  assume s: "ascii_end s" and x: "x \<noteq> []"
  have "find (\<lambda>(e, k). prefix e (x @ s)) white_space = find (\<lambda>(e, k). prefix e x) white_space"
    by (rule find_cong) (auto simp: prefix_ascii_end [OF _ s x])
  then show ?thesis by (simp add: space_at_def)
qed

lemma word_tail_append:
  "word_tail x = x \<Longrightarrow> ends s \<Longrightarrow> word_tail (x @ s) = x"
proof (induction x)
  case Nil
  then show ?case
    by (cases s) (auto simp: ends_def space_at_Cons_space simp del: punctuation.simps)
next
  case (Cons c x)
  then have "space_at (c # x) = None" "punctuation c = None" "word_tail x = x"
    by (simp_all split: if_splits del: punctuation.simps)
  moreover have "space_at (c # x @ s) = space_at (c # x)"
    using space_at_append [of s "c # x"] ends_ascii [OF Cons.prems(2)] by simp
  ultimately show ?case using Cons by (simp del: punctuation.simps)
qed

section \<open>Words\<close>

definition lexical :: "string \<Rightarrow> bool" where
  "lexical w \<longleftrightarrow>
     w \<noteq> [] \<and> word_tail w = w \<and> hd w \<noteq> quote_mark \<and> hd w \<noteq> CHR '';''"

definition lexed :: "string \<Rightarrow> token_kind list \<Rightarrow> bool" where
  "lexed s K \<longleftrightarrow> (\<forall>l c. \<exists>ts. tokens_at l c s = Inr ts \<and> map tk_kind ts = K)"

lemma lexedI: "(\<And>l c. \<exists>ts. tokens_at l c s = Inr ts \<and> map tk_kind ts = K) \<Longrightarrow> lexed s K"
  by (simp add: lexed_def)

lemma lexedD: "lexed s K \<Longrightarrow> \<exists>ts. tokens_at l c s = Inr ts \<and> map tk_kind ts = K"
  by (simp add: lexed_def)

lemma lexed_Nil: "lexed [] []"
  by (rule lexedI) (simp add: tokens_at.simps)

lemma lexed_blank: "lexed s K \<Longrightarrow> c = CHR 0x20 \<or> c = newline \<Longrightarrow> lexed (c # s) K"
  by (rule lexedI) (auto simp: tokens_at.simps lexed_def)

lemma lexed_punctuation:
  assumes "lexed s K" "punctuation c = Some k"
  shows "lexed (c # s) (k # K)"
proof (rule lexedI)
  fix l p
  obtain ts where "tokens_at l (p + 1) s = Inr ts" "map tk_kind ts = K" using lexedD [OF assms(1)] by blast
  moreover have "\<not> (c = CHR 0x20 \<or> c = tab \<or> c = carriage)" "c \<noteq> newline" using assms(2) by (auto split: if_splits)
  ultimately show "\<exists>ts. tokens_at l p (c # s) = Inr ts \<and> map tk_kind ts = k # K"
    using assms(2) by (simp add: tokens_at.simps(2) [of l p c s] del: punctuation.simps)
qed

lemma lexed_word:
  assumes "lexed s K" "ends s" "lexical w"
  shows "lexed (w @ s) (word_kind w # K)"
proof (rule lexedI)
  fix l p
  obtain c x where w: "w = c # x" using assms(3) by (cases w) (auto simp: lexical_def)
  obtain ts where ts: "tokens_at l (p + columns w) s = Inr ts" "map tk_kind ts = K" using lexedD [OF assms(1)] by blast
  have full: "word_tail (c # x) = c # x" using assms(3) w by (simp add: lexical_def del: word_tail.simps)
  then have c: "space_at (c # x) = None" "punctuation c = None" "word_tail x = x"
    by (simp_all split: if_splits del: punctuation.simps)
  then have "c \<noteq> CHR 0x20" "c \<noteq> newline" "c \<noteq> tab" "c \<noteq> carriage"
    by (auto simp: space_at_def white_space_def)
  moreover have "c \<noteq> quote_mark" "c \<noteq> CHR '';''" using assms(3) w by (auto simp: lexical_def)
  moreover have "space_at (c # x @ s) = None"
    using space_at_append [of s "c # x"] ends_ascii [OF assms(2)] c(1) by simp
  moreover have "word_tail (x @ s) = x" by (rule word_tail_append [OF c(3) assms(2)])
  ultimately show "\<exists>ts. tokens_at l p (w @ s) = Inr ts \<and> map tk_kind ts = word_kind w # K"
    using c(2) ts by (simp add: w tokens_at.simps(2) [of l p c "x @ s"] Let_def del: punctuation.simps)
qed

section \<open>String literals\<close>

lemma string_body_escaped:
  "\<exists>k. string_body p line col (concat (map escape_char t) @ quote_mark # s) = Inr (t, s, k)"
proof (induction t arbitrary: col)
  case (Cons c t)
  have "\<exists>k. string_body p line col (escape_char c @ r) = bind_res (string_body p line k r) (\<lambda>(t, q). Inr (c # t, q))" for r
    by (auto simp: escape_char_def)
  then obtain k where k: "string_body p line col (escape_char c @ concat (map escape_char t) @ quote_mark # s) =
      bind_res (string_body p line k (concat (map escape_char t) @ quote_mark # s)) (\<lambda>(t, q). Inr (c # t, q))"
    by blast
  obtain k' where "string_body p line k (concat (map escape_char t) @ quote_mark # s) = Inr (t, s, k')"
    using Cons.IH by blast
  with k show ?case by simp
qed simp

lemma lexed_string:
  assumes "lexed s K"
  shows "lexed (string_str t @ s) (StringLit t # K)"
proof (rule lexedI)
  fix l p
  obtain k where k: "string_body (l, p) l (p + 1) (concat (map escape_char t) @ quote_mark # s) = Inr (t, s, k)"
    using string_body_escaped by blast
  obtain ts where "tokens_at l k s = Inr ts" "map tk_kind ts = K" using lexedD [OF assms] by blast
  with k show "\<exists>ts. tokens_at l p (string_str t @ s) = Inr ts \<and> map tk_kind ts = StringLit t # K"
    by (simp add: string_str_def tokens_at.simps(2))
qed

section \<open>Texts that are read as given tokens\<close>

definition reads_as :: "string \<Rightarrow> token_kind list \<Rightarrow> bool" where
  "reads_as x X \<longleftrightarrow> (\<forall>s K. ends s \<longrightarrow> lexed s K \<longrightarrow> lexed (x @ s) (X @ K))"

lemma reads_asI: "(\<And>s K. ends s \<Longrightarrow> lexed s K \<Longrightarrow> lexed (x @ s) (X @ K)) \<Longrightarrow> reads_as x X"
  by (simp add: reads_as_def)

lemma reads_asD: "reads_as x X \<Longrightarrow> ends s \<Longrightarrow> lexed s K \<Longrightarrow> lexed (x @ s) (X @ K)"
  by (simp add: reads_as_def)

named_theorems reads_intros "texts that are read as given tokens"

lemma reads_word: "lexical w \<Longrightarrow> word_kind w = k \<Longrightarrow> reads_as w [k]"
  by (rule reads_asI) (auto intro: lexed_word)

lemma reads_string [reads_intros]: "reads_as (string_str t) [StringLit t]"
  by (rule reads_asI) (auto intro: lexed_string)

definition plain :: "string \<Rightarrow> bool" where
  "plain w \<longleftrightarrow> lexical w \<and> word_kind w = Symbol w"

lemma reads_plain [reads_intros]: "plain w \<Longrightarrow> reads_as w [Symbol w]"
  by (simp add: plain_def reads_word)

text \<open>A form is its parts in parentheses, a vector its parts in brackets.\<close>

definition form :: "string list \<Rightarrow> string" where
  "form ws = ''('' @ spaced ws @ '')''"

definition vector :: "string list \<Rightarrow> string" where
  "vector ws = ''['' @ spaced ws @ '']''"

lemma lexed_spaced:
  "list_all2 reads_as ws Ws \<Longrightarrow> ends s \<Longrightarrow> lexed s K \<Longrightarrow> lexed (spaced ws @ s) (concat Ws @ K)"
proof (induction ws Ws rule: list_all2_induct)
  case (Cons x xs y ys)
  show ?case
  proof (cases xs)
    case Nil
    with Cons show ?thesis by (simp add: reads_asD)
  next
    case (Cons z zs)
    have "lexed (CHR 0x20 # spaced xs @ s) (concat ys @ K)"
      using Cons.IH Cons.prems by (intro lexed_blank) auto
    then have "lexed (x @ CHR 0x20 # spaced xs @ s) (y @ concat ys @ K)"
      by (intro reads_asD [OF Cons.hyps(1)]) simp_all
    then show ?thesis by (simp add: Cons)
  qed
qed simp

lemma reads_form [reads_intros]:
  assumes "list_all2 reads_as ws Ws"
  shows "reads_as (form ws) (LParen # concat Ws @ [RParen])"
proof (rule reads_asI)
  fix s K assume s: "ends s" "lexed s K"
  have "lexed ('')'' @ s) (RParen # K)" using s(2) by (auto intro!: lexed_punctuation)
  then have "lexed (spaced ws @ '')'' @ s) (concat Ws @ RParen # K)"
    by (intro lexed_spaced [OF assms]) simp_all
  then show "lexed (form ws @ s) ((LParen # concat Ws @ [RParen]) @ K)"
    by (auto simp: form_def intro!: lexed_punctuation)
qed

lemma reads_vector [reads_intros]:
  assumes "list_all2 reads_as ws Ws"
  shows "reads_as (vector ws) (LBracket # concat Ws @ [RBracket])"
proof (rule reads_asI)
  fix s K assume s: "ends s" "lexed s K"
  have "lexed ('']'' @ s) (RBracket # K)" using s(2) by (auto intro!: lexed_punctuation)
  then have "lexed (spaced ws @ '']'' @ s) (concat Ws @ RBracket # K)"
    by (intro lexed_spaced [OF assms]) simp_all
  then show "lexed (vector ws @ s) ((LBracket # concat Ws @ [RBracket]) @ K)"
    by (auto simp: vector_def intro!: lexed_punctuation)
qed

lemma reads_colon [reads_intros]:
  assumes "reads_as x X" "reads_as y Y"
  shows "reads_as (x @ '':'' @ y) (X @ Colon # Y)"
proof (rule reads_asI)
  fix s K assume s: "ends s" "lexed s K"
  have "lexed ('':'' @ y @ s) (Colon # Y @ K)"
    using reads_asD [OF assms(2) s] by (auto intro!: lexed_punctuation)
  from reads_asD [OF assms(1) _ this] show "lexed ((x @ '':'' @ y) @ s) ((X @ Colon # Y) @ K)" by simp
qed

lemma lexed_of_reads: "reads_as x X \<Longrightarrow> lexed x X"
  using reads_asD [of x X "[]" "[]"] by (simp add: lexed_Nil)

section \<open>Keywords and operators\<close>

definition head_words :: "string list" where
  "head_words =
     [''let'', ''set!'', ''if'', ''when'', ''counted_loop'', ''while'', ''call'', ''ok'', ''err'', ''match_result'', ''block'',
      ''unsafe'', ''get'', ''put'', ''sizeof'', ''arr.get'', ''arr.set'', ''arr.len'', ''arr.null'', ''ptr.null'', ''arr.make'',
      ''ptr.make'', ''arr.cast'', ''enum.cast'', ''ptr.cast'', ''ref'', ''return'', ''break'', ''continue'', ''call_ref'',
      ''make'', ''with'', ''match'', ''else'', ''ptr.addr'', ''arr.addr'', ''enum.ord'', ''ptr.gen'', ''arr.gen'',
      ''module'', ''import'', ''as'', ''enum'', ''union'', ''struct'', ''value'', ''fn'', ''no_leak'', ''req'', ''ens'', ''inv'',
      ''ptr'', ''arr'', ''result'', ''i32'', ''i64'', ''f32'', ''f64'', ''bool'', ''str'', ''void'', ''u8'', ''i8'', ''u16'', ''i16'']"

text \<open>A word of printing ASCII characters is read whole; one that starts like no number is a symbol.\<close>

definition graphic :: "char \<Rightarrow> bool" where
  "graphic c \<longleftrightarrow> 0x21 \<le> (of_char c :: nat) \<and> (of_char c :: nat) < 0x7F \<and> punctuation c = None"

lemma graphic_space: "graphic c \<Longrightarrow> space_at (c # s) = None"
proof -
  assume c: "graphic c"
  have "\<forall>(e, k) \<in> set white_space. e \<noteq> [] \<and> \<not> (0x21 \<le> (of_char (hd e) :: nat) \<and> (of_char (hd e) :: nat) < 0x7F)"
    by (simp add: white_space_def)
  then have "e \<noteq> [] \<and> hd e \<noteq> c" if "(e, k) \<in> set white_space" for e k
    using that c unfolding graphic_def by blast
  then have "\<not> prefix e (c # s)" if "(e, k) \<in> set white_space" for e k
    using that by (metis hd_append2 list.sel(1) prefix_def)
  then show ?thesis by (auto simp: space_at_def find_None_iff)
qed

lemma graphic_word_tail: "list_all graphic w \<Longrightarrow> word_tail w = w"
  by (induction w) (simp_all add: graphic_space graphic_def del: punctuation.simps)

lemma graphic_lexical:
  "list_all graphic w \<Longrightarrow> w \<noteq> [] \<Longrightarrow> hd w \<noteq> quote_mark \<Longrightarrow> hd w \<noteq> CHR '';'' \<Longrightarrow> lexical w"
  by (simp add: lexical_def graphic_word_tail)

definition numeric :: "char \<Rightarrow> bool" where
  "numeric c \<longleftrightarrow> is_digit c \<or> c \<in> {CHR ''-'', CHR ''+'', CHR ''.''}"

lemma number_first: "\<not> is_digit c \<Longrightarrow> number 10 n (c # s) = None"
  by (auto simp: is_digit_def split: option.splits)

lemma not_numeric_sign:
  "\<not> numeric c \<Longrightarrow> after_sign (c # s) = c # s" "\<not> numeric c \<Longrightarrow> digits_value 10 (c # s) = None"
  by (simp_all add: after_sign_def starts_def numeric_def digits_value_def number_first del: number.simps)

lemma not_numeric_int: "\<not> numeric c \<Longrightarrow> parse_i64 (c # s) = None \<and> radix_literal (c # s) b = None"
proof -
  assume c: "\<not> numeric c"
  then have "c \<noteq> CHR ''0''" by (auto simp: numeric_def is_digit_def digit_of_def)
  then have "radix_digits (c # s) = None" by (simp add: radix_digits_def)
  with c show ?thesis by (simp add: parse_i64_def radix_literal_def not_numeric_sign)
qed

lemma not_numeric_float: "\<not> numeric c \<Longrightarrow> parse_f64 (c # s) = None"
proof -
  assume c: "\<not> numeric c"
  then have "c \<noteq> CHR ''.''" "\<not> is_digit c" by (auto simp: numeric_def)
  with c show ?thesis
    by (simp add: parse_f64_def parse_decimal_def not_numeric_sign starts_def) (simp add: digits_value_def)
qed

lemma word_kind_name:
  assumes "\<not> numeric c" "c # s \<noteq> ''true''" "c # s \<noteq> ''false''"
  shows "word_kind (c # s) = Symbol (c # s)"
proof -
  have "c # s \<noteq> ''->''" using assms(1) by (auto simp: numeric_def)
  moreover have "int_word (c # s) = None" using not_numeric_int [OF assms(1)] by (simp add: int_word_def)
  moreover have "\<exists>r. d = [] \<or> d = c # r" if "strip_suffix suf (c # s) = Some d" for suf d
    using that by (auto simp: strip_suffix_def take_Cons' split: if_splits)
  then have "int64_word (c # s) = None" "float32_word (c # s) = None"
    using not_numeric_int [OF assms(1)] not_numeric_float [OF assms(1)]
    by (fastforce simp: int64_word_def float32_word_def float_like_def split: option.splits)+
  moreover have "float_word (c # s) = None" using not_numeric_float [OF assms(1)] by (simp add: float_word_def)
  ultimately show ?thesis using assms(2,3) by (simp add: word_kind_def)
qed

lemma plain_name:
  "list_all graphic w \<Longrightarrow> w \<noteq> [] \<Longrightarrow> \<not> numeric (hd w) \<Longrightarrow> hd w \<noteq> quote_mark \<Longrightarrow> hd w \<noteq> CHR '';'' \<Longrightarrow>
     w \<noteq> ''true'' \<Longrightarrow> w \<noteq> ''false'' \<Longrightarrow> plain w"
  using word_kind_name [of "hd w" "tl w"] by (simp add: plain_def graphic_lexical)

lemma plain_head_words: "list_all plain head_words"
  unfolding head_words_def
  by (simp add: plain_name graphic_def numeric_def is_digit_def digit_of_def)

lemma plain_head_word: "w \<in> set head_words \<Longrightarrow> plain w"
  using plain_head_words by (simp add: list_all_iff)

lemma plain_signs: "plain ''+''" "plain ''-''"
proof -
  have "list_all graphic ''+''" "list_all graphic ''-''" by (simp_all add: graphic_def)
  then have "lexical ''+''" "lexical ''-''" by (auto intro!: graphic_lexical)
  moreover have "word_kind ''+'' = Symbol ''+''" "word_kind ''-'' = Symbol ''-''"
    by (simp_all add: word_kind_def int_word_def parse_i64_def after_sign_def starts_def digits_value_def radix_literal_def
        radix_digits_def int64_word_def strip_suffix_def float32_word_def float_word_def float_like_def)
  ultimately show "plain ''+''" "plain ''-''" by (simp_all add: plain_def)
qed

text \<open>The table names every operation once, by the name the printer gives it.\<close>

lemma op_table_distinct: "distinct (map fst op_table)"
  unfolding op_table_def by simp

lemmas table_ops = op_table_def [THEN arg_cong [where f = "map snd"], simplified list.map snd_conv]

lemma op_in_table: "op \<in> set (map snd op_table)"
proof (cases op)
  case (OpArith x)
  then show ?thesis unfolding table_ops by (cases x) simp_all
next
  case (OpChecked x)
  then show ?thesis unfolding table_ops by (cases x) simp_all
next
  case (OpBit x)
  then show ?thesis unfolding table_ops by (cases x) simp_all
next
  case (OpMem x)
  then show ?thesis unfolding table_ops by (cases x) simp_all
next
  case (OpAtomic x)
  then show ?thesis unfolding table_ops by (cases x) simp_all
next
  case (OpCmp x)
  then show ?thesis unfolding table_ops by (cases x) simp_all
next
  case (OpLogic x)
  then show ?thesis unfolding table_ops by (cases x) simp_all
next
  case (OpSys x)
  then show ?thesis unfolding table_ops by (cases x) simp_all
next
  case (OpFs x)
  then show ?thesis unfolding table_ops by (cases x) simp_all
next
  case (OpNet x)
  then show ?thesis unfolding table_ops by (cases x) simp_all
next
  case (OpProc x)
  then show ?thesis unfolding table_ops by (cases x) simp_all
next
  case (OpEnv x)
  then show ?thesis unfolding table_ops by (cases x) simp_all
next
  case (OpThread x)
  then show ?thesis unfolding table_ops by (cases x) simp_all
next
  case (OpConv x)
  then show ?thesis unfolding table_ops by (cases x) simp_all
next
  case (OpStr x)
  then show ?thesis unfolding table_ops by (cases x) simp_all
next
  case (OpFormat x)
  then show ?thesis unfolding table_ops by (cases x) simp_all
next
  case (OpTry x)
  then show ?thesis unfolding table_ops by (cases x) simp_all
qed (simp_all add: table_ops)

lemma op_table_names: "list_all (\<lambda>(n, op). op_name op = n \<and> plain n) op_table"
  unfolding op_table_def
  by (simp add: plain_signs plain_name graphic_def numeric_def is_digit_def digit_of_def)

lemma op_named: "(op_name op, op) \<in> set op_table \<and> plain (op_name op)"
proof -
  obtain n where n: "(n, op) \<in> set op_table" using op_in_table [of op] by auto
  then have "op_name op = n \<and> plain n" using op_table_names by (auto simp: list_all_iff)
  with n show ?thesis by simp
qed

lemma op_of_name_name [simp]: "op_of_name (op_name op) = Some op"
  unfolding op_of_name_def using op_table_distinct op_named by (auto intro: map_of_is_SomeI)

lemma plain_op_name: "plain (op_name op)"
  using op_named by blast

end
