(* ===== verification/Numbers.thy ===== *)
theory Numbers
  imports Lexing
begin

text \<open>
  Numbers that are written and read again: an integer literal in decimal is read as its value, and a
  finite float is read as the same bits, since the digits the printer chooses are checked against the
  reader and the exact value, which it falls back to, is read exactly.
\<close>

section \<open>Digits\<close>

lemma digit_char [simp]: "(d :: nat) < 10 \<Longrightarrow> digit_of (char_of (48 + d)) = Some d"
  by (simp add: digit_of_def)

lemma is_digit_char [simp]: "(d :: nat) < 10 \<Longrightarrow> is_digit (char_of (48 + d))"
  by (simp add: is_digit_def)

lemma digit_of_digit: "is_digit c \<longleftrightarrow> (\<exists>d < 10. digit_of c = Some d)"
  by (auto simp: is_digit_def split: option.splits)

lemma number_append: "number r a (x @ y) = (case number r a x of None \<Rightarrow> None | Some b \<Rightarrow> number r b y)"
  by (induction x arbitrary: a) (auto split: option.splits)

lemma number_zeros [simp]: "number 10 a (replicate n (CHR ''0'')) = Some (a * 10 ^ n)"
  by (induction n arbitrary: a) (simp_all add: digit_of_def algebra_simps)

lemma number_not_digit: "c \<in> set s \<Longrightarrow> \<not> is_digit c \<Longrightarrow> number 10 a s = None"
  by (induction s arbitrary: a) (auto simp: is_digit_def split: option.splits)

lemma number_scale: "number 10 a s = Some n \<Longrightarrow> number 10 b s = Some (b * 10 ^ length s + (n - a * 10 ^ length s)) \<and> a * 10 ^ length s \<le> n"
proof (induction s arbitrary: a b)
  case (Cons c s)
  then obtain d where d: "digit_of c = Some d" "d < 10" "number 10 (a * 10 + d) s = Some n"
    by (auto split: option.splits if_splits)
  from Cons.IH [OF d(3), of "b * 10 + d"] d show ?case
    by (auto simp: algebra_simps)
qed simp

lemma show_nat_digits: "list_all is_digit (show_nat n)"
proof (induction n rule: show_nat.induct)
  case (1 n)
  show ?case
    by (cases "n < 10") (use 1 in \<open>simp_all add: show_nat.simps [of n]\<close>)
qed

lemma show_nat_not_Nil [simp]: "show_nat n \<noteq> []"
  by (subst show_nat.simps) simp

lemma number_show_nat: "number 10 a (show_nat n) = Some (a * 10 ^ length (show_nat n) + n)"
proof (induction n arbitrary: a rule: show_nat.induct)
  case (1 n)
  show ?case
  proof (cases "n < 10")
    case False
    with 1 [of a] have "number 10 a (show_nat n) = Some (10 * (a * 10 ^ length (show_nat (n div 10)) + n div 10) + n mod 10)"
      by (subst show_nat.simps) (simp add: number_append algebra_simps)
    moreover have "length (show_nat n) = Suc (length (show_nat (n div 10)))"
      using False by (subst show_nat.simps) simp
    ultimately show ?thesis by (simp add: algebra_simps)
  qed (simp add: show_nat.simps [of n])
qed

lemma digits_value_show [simp]: "digits_value 10 (show_nat n) = Some n"
  by (simp add: digits_value_def number_show_nat)

lemma is_digit_code: "is_digit c \<longleftrightarrow> 48 \<le> (of_char c :: nat) \<and> (of_char c :: nat) \<le> 57"
  by (auto simp: is_digit_def digit_of_def Let_def)

lemma is_digit_other:
  assumes "is_digit c"
  shows "c \<notin> {quote_mark, CHR '';'', CHR ''-'', CHR ''+'', CHR ''.'', CHR ''i'', CHR ''f'', CHR ''x'', CHR ''b'', CHR ''e''}"
proof
  assume "c \<in> {quote_mark, CHR '';'', CHR ''-'', CHR ''+'', CHR ''.'', CHR ''i'', CHR ''f'', CHR ''x'', CHR ''b'', CHR ''e''}"
  with assms show False unfolding is_digit_code by (elim insertE) simp_all
qed

lemma is_digit_graphic: "is_digit c \<Longrightarrow> graphic c"
proof -
  assume c: "is_digit c"
  then have "punctuation c = None" unfolding is_digit_code by (cases "punctuation c") (auto split: if_splits)
  with c show ?thesis by (simp add: graphic_def is_digit_code)
qed

lemma show_nat_hd: "is_digit (hd (show_nat n))"
  using show_nat_digits [of n] by (cases "show_nat n") auto

section \<open>Integers\<close>

lemma show_int_sign:
  "after_sign (show_int i @ s) = show_nat (nat \<bar>i\<bar>) @ s" "starts (CHR ''-'') (show_int i @ s) \<longleftrightarrow> i < 0"
  using is_digit_other [OF show_nat_hd [of "nat i"]]
  by (auto simp: show_int_def after_sign_def starts_def hd_append)

lemma show_int_graphic: "list_all graphic (show_int i)" "show_int i \<noteq> []" "hd (show_int i) \<noteq> quote_mark" "hd (show_int i) \<noteq> CHR '';''"
proof -
  have "list_all graphic (show_nat n)" for n
    using show_nat_digits [of n] by (auto simp: list_all_iff dest: is_digit_graphic)
  then show "list_all graphic (show_int i)" by (simp add: show_int_def graphic_def)
  show "show_int i \<noteq> []" by (simp add: show_int_def)
  show "hd (show_int i) \<noteq> quote_mark" "hd (show_int i) \<noteq> CHR '';''"
    using is_digit_other [OF show_nat_hd [of "nat i"]] by (auto simp: show_int_def)
qed

lemma parse_show_int: "parse_i64 (show_int (sint w)) = Some w"
proof -
  have b: "- (2 ^ 63) \<le> sint w" "sint w < 2 ^ 63"
    using sint_greater_eq [of w] sint_less [of w] by simp_all
  have sg: "after_sign (show_int (sint w)) = show_nat (nat \<bar>sint w\<bar>)" "starts (CHR ''-'') (show_int (sint w)) \<longleftrightarrow> sint w < 0"
    using show_int_sign [of "sint w" "[]"] by simp_all
  show ?thesis
  proof (cases "sint w < 0")
    case True
    then have "nat \<bar>sint w\<bar> \<le> 2 ^ 63" "- int (nat \<bar>sint w\<bar>) = sint w" using b by auto
    with True show ?thesis by (simp add: parse_i64_def sg)
  next
    case False
    then have "nat \<bar>sint w\<bar> < 2 ^ 63" "word_of_nat (nat \<bar>sint w\<bar>) = w"
      using b by (auto simp flip: word_of_int_nat) 
    with False show ?thesis by (simp add: parse_i64_def sg)
  qed
qed

lemma lexical_show_int: "lexical (show_int i)"
  by (intro graphic_lexical show_int_graphic)

lemma word_kind_int: "parse_i64 s = Some w \<Longrightarrow> word_kind s = IntLit w"
  by (auto simp: word_kind_def int_word_def parse_i64_def after_sign_def starts_def digits_value_def digit_of_def)

lemma reads_int [reads_intros]: "reads_as (show_int (sint w)) [IntLit w]"
  by (intro reads_word lexical_show_int word_kind_int parse_show_int)

lemma int64_not_int: "int_word (show_int i @ ''i64'') = None"
proof -
  let ?n = "show_nat (nat \<bar>i\<bar>)"
  have "number 10 0 (?n @ ''i64'') = None"
    by (rule number_not_digit [of "CHR ''i''"]) (simp_all add: is_digit_def digit_of_def)
  then have "parse_i64 (show_int i @ ''i64'') = None"
    by (simp add: parse_i64_def show_int_sign digits_value_def)
  moreover have "radix_digits (?n @ ''i64'') = None"
  proof -
    have "list_all (\<lambda>c. c \<noteq> CHR ''x'' \<and> c \<noteq> CHR ''b'') (?n @ ''i64'')"
      using show_nat_digits [of "nat \<bar>i\<bar>"] by (auto simp: list_all_iff dest: is_digit_other)
    then show ?thesis by (cases "?n @ ''i64''" rule: remdups_adj.cases) (auto simp: radix_digits_def)
  qed
  ultimately show ?thesis by (simp add: int_word_def radix_literal_def show_int_sign)
qed

lemma strip_suffix_append [simp]: "strip_suffix y (x @ y) = Some x"
  by (simp add: strip_suffix_def suffix_def)

lemma reads_int64 [reads_intros]: "reads_as (show_int (sint w) @ ''i64'') [Int64Lit w]"
proof (rule reads_word)
  show "lexical (show_int (sint w) @ ''i64'')"
    using show_int_graphic [of "sint w"] by (intro graphic_lexical) (simp_all add: graphic_def hd_append)
  have "int64_word (show_int (sint w) @ ''i64'') = Some w"
    by (simp add: int64_word_def parse_show_int show_int_graphic)
  moreover have "x @ ''i64'' \<noteq> ''->''" "x @ ''i64'' \<noteq> ''true''" "x @ ''i64'' \<noteq> ''false''" for x
    by (auto dest: arg_cong [where f = List.last])
  ultimately show "word_kind (show_int (sint w) @ ''i64'') = Int64Lit w"
    by (simp add: word_kind_def int64_not_int)
qed

section \<open>The value of a decimal\<close>

lemma reduce_eq:
  fixes a b c d :: nat
  assumes "a * d = c * b" "0 < b" "0 < d"
  shows "a div gcd a b = c div gcd c d" "b div gcd a b = d div gcd c d"
proof -
  let ?a = "a div gcd a b" and ?b = "b div gcd a b" and ?c = "c div gcd c d" and ?d = "d div gcd c d"
  have a: "a = ?a * gcd a b" "b = ?b * gcd a b" "c = ?c * gcd c d" "d = ?d * gcd c d" by simp_all
  have g: "0 < gcd a b" "0 < gcd c d" using assms(2,3) by simp_all
  have "(?a * ?d) * (gcd a b * gcd c d) = (?c * ?b) * (gcd a b * gcd c d)"
    using assms(1) a by (metis (no_types, lifting) mult.assoc mult.commute)
  then have e: "?a * ?d = ?c * ?b" using assms(2,3) by auto
  have "coprime ?a ?b" "coprime ?c ?d" using assms(2,3) by (auto intro: div_gcd_coprime)
  then have "?a = ?c \<and> ?d = ?b"
    using coprime_crossproduct_nat [of ?a ?b ?c ?d] e by (metis coprime_commute coprime_crossproduct_nat mult.commute)
  then show "?a = ?c" "?b = ?d" by simp_all
qed

lemma round_ratio_eq: "a * d = c * b \<Longrightarrow> 0 < b \<Longrightarrow> 0 < d \<Longrightarrow> round_ratio f s a b = round_ratio f s c d"
  by (simp add: round_ratio_def reduce_eq [of a d c b] Let_def)

lemma decimal_bits_eq:
  assumes "d * 10 ^ nat e * 10 ^ nat (- k) = c * 10 ^ nat k * 10 ^ nat (- e)"
  shows "decimal_bits s d e = decimal_bits s c k"
  unfolding decimal_bits_def by (rule arg_cong [OF round_ratio_eq]) (use assms in simp_all)

lemma decimal_bits_scale: "decimal_bits s (d * 10 ^ j) (e - int j) = decimal_bits s d e"
proof (rule decimal_bits_eq)
  have "j + nat (e - int j) + nat (- e) = nat e + nat (- (e - int j))" by linarith
  then have "(10::nat) ^ j * 10 ^ nat (e - int j) * 10 ^ nat (- e) = 10 ^ nat e * 10 ^ nat (- (e - int j))"
    by (simp flip: power_add)
  then show "d * 10 ^ j * 10 ^ nat (e - int j) * 10 ^ nat (- e) = d * 10 ^ nat e * 10 ^ nat (- (e - int j))"
    by (simp add: mult.assoc)
qed

lemma strip_zeros_value: "strip_zeros d t = (d', t') \<Longrightarrow> decimal_bits s d' t' = decimal_bits s d t"
proof (induction d t rule: strip_zeros.induct)
  case (1 d t)
  show ?case
  proof (cases "d \<noteq> 0 \<and> 10 dvd d")
    case True
    with 1 have "decimal_bits s d' t' = decimal_bits s (d div 10) (t + 1)" by (simp add: strip_zeros.simps [of d t])
    also have "\<dots> = decimal_bits s (d div 10 * 10 ^ 1) (t + 1 - int 1)" by (rule decimal_bits_scale [symmetric])
    finally show ?thesis using True by simp
  next
    case False
    with "1.prems" show ?thesis by (auto simp: strip_zeros.simps [of d t] split: if_splits)
  qed
qed

section \<open>Decimals as text\<close>

lemma takeWhile_digits [simp]:
  "list_all is_digit x \<Longrightarrow> takeWhile is_digit (x @ y) = x @ takeWhile is_digit y"
  "list_all is_digit x \<Longrightarrow> dropWhile is_digit (x @ y) = dropWhile is_digit y"
  by (induction x) simp_all

text \<open>A sign, digits, a point and digits.\<close>

lemma parse_fixed:
  assumes "list_all is_digit x" "list_all is_digit y" "x \<noteq> []" "number 10 0 (x @ y) = Some d"
  shows "parse_decimal ((if s then ''-'' else []) @ x @ ''.'' @ y) = Some (s, d, - int (length y))"
proof -
  have h: "is_digit (hd x)" using assms(1,3) by (cases x) simp_all
  then have "hd x \<noteq> CHR ''-''" "hd x \<noteq> CHR ''+''" using is_digit_other by blast+
  then have a: "after_sign ((if s then ''-'' else []) @ x @ ''.'' @ y) = x @ ''.'' @ y"
    and b: "starts (CHR ''-'') ((if s then ''-'' else []) @ x @ ''.'' @ y) = s"
    using assms(3) by (auto simp: after_sign_def starts_def hd_append)
  have t: "takeWhile is_digit (x @ ''.'' @ y) = x" "dropWhile is_digit (x @ ''.'' @ y) = ''.'' @ y"
    "takeWhile is_digit y = y" "dropWhile is_digit y = []"
    using assms(1,2) by (simp_all add: is_digit_code list_all_iff)
  show ?thesis
    unfolding parse_decimal_def Let_def a b t using assms(3,4) by (simp add: starts_def t digits_value_def)
qed

lemma plain_decimal_parts:
  "\<exists>x y j. (if CHR ''.'' \<in> set (plain_decimal d t) then plain_decimal d t else plain_decimal d t @ ''.0'') = x @ ''.'' @ y
     \<and> list_all is_digit x \<and> list_all is_digit y \<and> x \<noteq> [] \<and> number 10 0 (x @ y) = Some (d * 10 ^ j) \<and> - int (length y) = t - int j"
proof -
  let ?ds = "show_nat d"
  have zd: "list_all is_digit (replicate n (CHR ''0''))" for n by (simp add: list_all_iff is_digit_code)
  have ds: "list_all is_digit ?ds" by (rule show_nat_digits)
  then have dot: "CHR ''.'' \<notin> set ?ds" by (auto simp: list_all_iff is_digit_code)
  consider "0 \<le> t" | "t < 0" "nat (- t) < length ?ds" | "t < 0" "length ?ds \<le> nat (- t)" by linarith
  then show ?thesis
  proof cases
    case 1
    have "plain_decimal d t = ?ds @ replicate (nat t) (CHR ''0'')" using 1 by (simp add: plain_decimal_def Let_def)
    moreover have "number 10 0 (?ds @ replicate (nat t) (CHR ''0'') @ ''0'') = Some (d * 10 ^ (nat t + 1))"
      by (simp add: number_append number_show_nat digit_of_def algebra_simps)
    ultimately show ?thesis
      using 1 dot ds zd by (intro exI [of _ "?ds @ replicate (nat t) (CHR ''0'')"] exI [of _ "''0''"] exI [of _ "nat t + 1"])
        (simp add: is_digit_code)
  next
    case 2
    let ?n = "nat (- t)"
    have p: "plain_decimal d t = take (length ?ds - ?n) ?ds @ ''.'' @ drop (length ?ds - ?n) ?ds"
      using 2 by (simp add: plain_decimal_def Let_def)
    moreover have "list_all is_digit (take (length ?ds - ?n) ?ds)" "list_all is_digit (drop (length ?ds - ?n) ?ds)"
      using ds by (auto simp: list_all_iff dest: in_set_takeD in_set_dropD)
    ultimately show ?thesis
      using 2 by (intro exI [of _ "take (length ?ds - ?n) ?ds"] exI [of _ "drop (length ?ds - ?n) ?ds"] exI [of _ 0])
        (simp add: number_show_nat)
  next
    case 3
    let ?n = "nat (- t)"
    have p: "plain_decimal d t = ''0'' @ ''.'' @ replicate (?n - length ?ds) (CHR ''0'') @ ?ds"
      using 3 by (simp add: plain_decimal_def Let_def)
    have "number 10 0 (''0'' @ replicate (?n - length ?ds) (CHR ''0'') @ ?ds) = Some d"
      by (simp add: number_append number_show_nat digit_of_def)
    with p show ?thesis
      using 3 ds zd by (intro exI [of _ "''0''"] exI [of _ "replicate (?n - length ?ds) (CHR ''0'') @ ?ds"] exI [of _ 0])
        (simp add: is_digit_code)
  qed
qed

section \<open>Exact values\<close>

lemma bit_len_pos: "0 < m \<Longrightarrow> bit_len m = Suc (bit_len (m div 2))"
  by (subst bit_len.simps) simp

lemma bit_len_double: "0 < m \<Longrightarrow> bit_len (m * 2 ^ i) = bit_len m + i"
proof (induction i)
  case (Suc i)
  have "bit_len (m * 2 ^ Suc i) = Suc (bit_len (m * 2 ^ Suc i div 2))" using Suc.prems by (intro bit_len_pos) simp
  then show ?case using Suc by simp
qed simp

lemma bit_len_bound: "m < 2 ^ k \<Longrightarrow> bit_len m \<le> k"
proof (induction k arbitrary: m)
  case (Suc k)
  show ?case
  proof (cases "m = 0")
    case False
    then have "bit_len m = Suc (bit_len (m div 2))" by (intro bit_len_pos) simp
    moreover have "m div 2 < 2 ^ k" using Suc.prems by (simp add: less_mult_imp_div_less mult.commute)
    ultimately show ?thesis using Suc.IH by simp
  qed (simp add: bit_len.simps)
qed (simp add: bit_len.simps)

lemma bit_len_exact: "2 ^ k \<le> m \<Longrightarrow> m < 2 ^ Suc k \<Longrightarrow> bit_len m = Suc k"
proof (induction k arbitrary: m)
  case (Suc k)
  then have "bit_len m = Suc (bit_len (m div 2))" by (intro bit_len_pos) (auto intro: order.strict_trans2)
  moreover have "2 ^ k \<le> m div 2" "m div 2 < 2 ^ Suc k" using Suc.prems by auto
  ultimately show ?case using Suc.IH by simp
next
  case 0
  then have "m = 1" by simp
  then show ?case by (simp add: bit_len.simps)
qed

lemma bit_len_power: "bit_len (2 ^ j) = Suc j"
  by (rule bit_len_exact) simp_all

text \<open>Rounding an exact value depends on the value only.\<close>

lemma scale_place:
  "(if h \<le> e - int i then m * 2 ^ i * 2 ^ nat (e - int i - h) else round_shift (m * 2 ^ i) (nat (h - (e - int i))) False)
      = (if h \<le> e then m * 2 ^ nat (e - h) else round_shift m (nat (h - e)) False)"
proof -
  consider "h \<le> e - int i" | "e - int i < h" "h \<le> e" | "e < h" by linarith
  then show ?thesis
  proof cases
    case 1
    then have "i + nat (e - int i - h) = nat (e - h)" by linarith
    then have "(2::nat) ^ i * 2 ^ nat (e - int i - h) = 2 ^ nat (e - h)" by (metis power_add)
    with 1 show ?thesis by (simp add: mult.assoc)
  next
    case 2
    define d where "d = nat (h - (e - int i))"
    have d: "d \<le> i" "i - d = nat (e - h)" "0 < d" using 2 by (auto simp: d_def)
    have "m * 2 ^ i = m * 2 ^ (i - d) * 2 ^ d" using d(1) by (simp flip: power_add add: mult.assoc)
    then have "round_shift (m * 2 ^ i) d False = round_shift (m * 2 ^ (i - d) * 2 ^ d) d False" by (rule arg_cong)
    also have "\<dots> = m * 2 ^ (i - d)" using d(3) by (simp only: round_shift_def Let_def) simp
    finally show ?thesis using 2 by (simp flip: d_def d(2))
  next
    case 3
    define d where "d = nat (h - e)"
    have d: "nat (h - (e - int i)) = d + i" "0 < d" using 3 by (auto simp: d_def)
    have p: "(2::nat) ^ (d + i - 1) = 2 ^ (d - 1) * 2 ^ i" using d(2) by (simp flip: power_add)
    have r: "m * 2 ^ i div 2 ^ (d + i) = m div 2 ^ d" "m * 2 ^ i mod 2 ^ (d + i) = m mod 2 ^ d * 2 ^ i"
      by (simp_all add: power_add mod_mult_mult2)
    have "round_shift (m * 2 ^ i) (d + i) False = round_shift m d False"
      unfolding round_shift_def Let_def r p using d(2) by simp
    with 3 d(1) show ?thesis by (simp flip: d_def)
  qed
qed

lemma round_bits_scale:
  assumes m: "0 < m"
  shows "round_bits f s (m * 2 ^ i) (e - int i) False = round_bits f s m e False"
proof -
  have top: "max (e - int i + int (bit_len (m * 2 ^ i)) - int (ff_frac f + 1)) (ff_emin f)
      = max (e + int (bit_len m) - int (ff_frac f + 1)) (ff_emin f)"
    using bit_len_double [OF m] by simp
  show ?thesis unfolding round_bits_def Let_def top scale_place using m by simp
qed

lemma decode_fields:
  assumes "b < 2 ^ (ff_frac f + ff_exp f + 1)"
  shows "b = sign_bits f (odd (b div 2 ^ (ff_frac f + ff_exp f))) + b div 2 ^ ff_frac f mod 2 ^ ff_exp f * 2 ^ ff_frac f + b mod 2 ^ ff_frac f"
proof -
  let ?F = "2 ^ ff_frac f :: nat" and ?E = "2 ^ ff_exp f :: nat"
  have h: "b div ?F div ?E = b div 2 ^ (ff_frac f + ff_exp f)" by (simp add: div_mult2_eq power_add)
  have "b div 2 ^ (ff_frac f + ff_exp f) < 2" using assms by (simp add: less_mult_imp_div_less)
  then have s: "sign_bits f (odd (b div 2 ^ (ff_frac f + ff_exp f))) = b div ?F div ?E * ?E * ?F"
    by (auto simp: sign_bits_def h less_2_cases_iff power_add)
  have "b = b div ?F * ?F + b mod ?F" by (rule div_mult_mod_eq [symmetric])
  also have "b div ?F = b div ?F div ?E * ?E + b div ?F mod ?E" by (rule div_mult_mod_eq [symmetric])
  finally show ?thesis unfolding s by (simp only: distrib_right)
qed

lemma decode_exact:
  assumes b: "b < 2 ^ (ff_frac f + ff_exp f + 1)" and d: "decode f b = Finite s m e" and x: "1 < ff_exp f"
  shows "round_bits f s m e False = b" "m < 2 ^ Suc (ff_frac f)"
proof -
  let ?F = "2 ^ ff_frac f :: nat" and ?E = "2 ^ ff_exp f :: nat"
  define ex where "ex = b div ?F mod ?E"
  define mm where "mm = b mod ?F"
  have mm: "mm < ?F" by (simp add: mm_def)
  have s: "s = odd (b div 2 ^ (ff_frac f + ff_exp f))" using d by (auto simp: decode_def Let_def split: if_splits)
  have bb: "b = sign_bits f s + ex * ?F + mm" using decode_fields [OF b] by (simp add: s ex_def mm_def)
  have E: "4 \<le> ?E" using power_increasing [of 2 "ff_exp f" "2::nat"] x by simp
  have ne: "ex \<noteq> ?E - 1" using d by (auto simp: decode_def Let_def ex_def split: if_splits)
  have ex: "ex < ?E" by (simp add: ex_def)
  have "round_bits f s m e False = b \<and> m < 2 ^ Suc (ff_frac f)"
  proof (cases "ex = 0")
    case True
    then have m: "m = mm" "e = ff_emin f" using d ne by (auto simp: decode_def Let_def ex_def mm_def split: if_splits)
    have "bit_len mm \<le> ff_frac f" by (rule bit_len_bound [OF mm])
    then have top: "max (ff_emin f + int (bit_len m) - int (ff_frac f + 1)) (ff_emin f) = ff_emin f" using m(1) by simp
    have "mm \<le> inf_bits f"
    proof -
      have "1 * ?F \<le> (?E - 1) * ?F" using E by (intro mult_le_mono1) simp
      with mm show ?thesis unfolding inf_bits_def by linarith
    qed
    then have "round_bits f s m (ff_emin f) False = b" using bb True m(1) unfolding round_bits_def Let_def top by simp
    with mm show ?thesis by (simp add: m)
  next
    case False
    then have m: "m = ?F + mm" "e = ff_emin f + int ex - 1"
      using d ne by (auto simp: decode_def Let_def ex_def mm_def split: if_splits)
    have "bit_len m = Suc (ff_frac f)" by (rule bit_len_exact) (use m mm in simp_all)
    then have top: "max (e + int (bit_len m) - int (ff_frac f + 1)) (ff_emin f) = e" using m(2) False by simp
    have q: "nat (e - ff_emin f) * ?F + m = ex * ?F + mm"
    proof -
      have "nat (e - ff_emin f) = ex - 1" using m(2) by simp
      then show ?thesis using False m(1) by (cases ex) simp_all
    qed
    have "ex * ?F + mm \<le> inf_bits f"
    proof -
      have "ex * ?F + mm \<le> Suc ex * ?F" using mm by simp
      also have "\<dots> \<le> (?E - 1) * ?F" using ex ne by (intro mult_le_mono1) linarith
      finally show ?thesis by (simp add: inf_bits_def)
    qed
    moreover have "0 < m" by (simp add: m(1))
    ultimately have "round_bits f s m e False = b" unfolding round_bits_def Let_def top using bb q by simp
    with mm show ?thesis by (simp add: m(1))
  qed
  then show "round_bits f s m e False = b" "m < 2 ^ Suc (ff_frac f)" by simp_all
qed

lemma num64_exact:
  assumes "num64 x = Finite s m e"
  shows "round_bits fmt64 s m e False = unat x" "m < 2 ^ 53"
proof -
  have "unat x < 2 ^ LENGTH(64)" by (rule unsigned_less)
  then have "unat x < 2 ^ (ff_frac fmt64 + ff_exp fmt64 + 1)" by (simp add: fmt64_def)
  from decode_exact [OF this assms [unfolded num64_def]]
  show "round_bits fmt64 s m e False = unat x" "m < 2 ^ 53" by (simp_all add: fmt64_def)
qed

lemma dvd_power_two: "(g :: nat) dvd 2 ^ k \<Longrightarrow> \<exists>i \<le> k. g = 2 ^ i"
proof (induction k arbitrary: g)
  case (Suc k)
  show ?case
  proof (cases "even g")
    case True
    then obtain h where h: "g = 2 * h" by blast
    with Suc.prems have "h dvd 2 ^ k" by simp
    with Suc.IH obtain i where "i \<le> k" "h = 2 ^ i" by blast
    with h show ?thesis by (intro exI [of _ "Suc i"]) simp
  next
    case False
    then have "coprime g 2" by simp
    with Suc.prems have "g dvd 2 ^ k" by (simp add: coprime_dvd_mult_right_iff)
    with Suc.IH obtain i where "i \<le> k" "g = 2 ^ i" by blast
    then show ?thesis by (intro exI [of _ i]) simp
  qed
qed simp

lemma round_ratio_exact:
  assumes x: "num64 x = Finite s m e" and m: "0 < m"
  shows "round_ratio fmt64 s (m * 2 ^ nat e) (2 ^ nat (- e)) = unat x"
proof -
  define a where "a = m * 2 ^ nat e"
  define k where "k = nat (- e)"
  obtain i where i: "i \<le> k" "gcd a (2 ^ k) = 2 ^ i"
    using dvd_power_two [of "gcd a (2 ^ k)" k] by auto
  define j where "j = k - i"
  define n where "n = a div 2 ^ i"
  have a: "a = n * 2 ^ i" using i(2) by (metis n_def dvd_div_mult_self gcd_dvd1)
  then have n: "0 < n" using m by (auto simp: a_def intro: Nat.gr0I)
  have d: "2 ^ k div 2 ^ i = (2 ^ j :: nat)" using i(1) by (simp add: j_def power_diff)
  define sh where "sh = ff_frac fmt64 + 3 + bit_len (2 ^ j)"
  have sh: "sh = 56 + j" by (simp add: sh_def fmt64_def bit_len_power)
  have e: "n * 2 ^ sh = n * 2 ^ 56 * 2 ^ j" by (simp add: sh power_add)
  have "round_ratio fmt64 s a (2 ^ k) = round_bits fmt64 s (n * 2 ^ sh div 2 ^ j) (- int sh) (n * 2 ^ sh mod 2 ^ j \<noteq> 0)"
    unfolding round_ratio_def Let_def i(2) d by (simp only: n_def sh_def)
  also have "\<dots> = round_bits fmt64 s (n * 2 ^ 56) (- int sh) False" unfolding e by simp
  also have "\<dots> = round_bits fmt64 s m e False"
  proof (cases "0 \<le> e")
    case True
    then have "k = 0" by (simp add: k_def)
    then have "n = m * 2 ^ nat e" "j = 0" using i(1) by (simp_all add: n_def a_def j_def)
    then have "n * 2 ^ 56 = m * 2 ^ (nat e + 56)" "- int sh = e - int (nat e + 56)" using True by (simp_all add: power_add sh)
    then show ?thesis by (simp only: round_bits_scale [OF m])
  next
    case False
    then have am: "a = m" "e = - int k" by (simp_all add: a_def k_def)
    have "2 ^ i \<le> m" using a am n by simp
    then have "(2::nat) ^ i < 2 ^ 53" using num64_exact(2) [OF x] by simp
    then have "i < 53" by (simp only: power_strict_increasing_iff)
    then have "n * 2 ^ 56 = m * 2 ^ (56 - i)" using a am by (simp flip: power_add add: mult.assoc)
    moreover have "- int sh = e - int (56 - i)" using i(1) \<open>i < 53\<close> am by (simp add: sh j_def)
    ultimately show ?thesis by (simp only: round_bits_scale [OF m])
  qed
  also have "\<dots> = unat x" by (rule num64_exact(1) [OF x])
  finally show ?thesis by (simp add: a_def k_def)
qed

lemma exact_decimal:
  assumes x: "num64 x = Finite s m e" and m: "0 < m"
  shows "decimal_bits s (m * 2 ^ nat e * 5 ^ nat (- e)) (min e 0) = x"
proof -
  have k: "nat (- min e 0) = nat (- e)" "nat (min e 0) = 0" by auto
  have "(10::nat) ^ nat (- e) = 5 ^ nat (- e) * 2 ^ nat (- e)" by (simp flip: power_mult_distrib)
  then have "round_ratio fmt64 s (m * 2 ^ nat e * 5 ^ nat (- e)) (10 ^ nat (- e)) = round_ratio fmt64 s (m * 2 ^ nat e) (2 ^ nat (- e))"
    by (intro round_ratio_eq) simp_all
  then show ?thesis unfolding decimal_bits_def k using round_ratio_exact [OF assms] by simp
qed

lemma shortest_value:
  assumes "num64 x = Finite s m e" "0 < m" "shortest x s m e = (d, t)"
  shows "decimal_bits s d t = x"
  using assms(3) exact_decimal [OF assms(1,2)]
  by (auto simp: shortest_def Let_def split: option.splits dest!: find_Some_iff [THEN iffD1])

section \<open>Floats\<close>

definition finite_f64 :: "f64 \<Rightarrow> bool" where
  "finite_f64 x = (case num64 x of Finite _ _ _ \<Rightarrow> True | _ \<Rightarrow> False)"

lemma decimal_zero:
  assumes "num64 x = Finite s 0 e"
  shows "decimal_bits s 0 k = x"
proof -
  have "round_ratio fmt64 s 0 b = sign_bits fmt64 s" for b
    by (simp add: round_ratio_def round_bits_def Let_def)
  moreover have "sign_bits fmt64 s = unat x" using num64_exact(1) [OF assms] by (simp add: round_bits_def Let_def)
  ultimately show ?thesis by (simp add: decimal_bits_def)
qed

text \<open>The text of a finite float is a sign, digits, a point and digits, and its value is the float.\<close>

lemma float_str_parts:
  assumes "finite_f64 x"
  obtains s u v where "float_str x = (if s then ''-'' else []) @ u @ ''.'' @ v" "list_all is_digit u" "list_all is_digit v" "u \<noteq> []"
    "parse_f64 (float_str x) = Some x"
proof -
  obtain s m e where x: "num64 x = Finite s m e" using assms by (auto simp: finite_f64_def split: fnum.splits)
  define body where "body = (if m = 0 then ''0'' else (case shortest x s m e of (d, t) \<Rightarrow> case strip_zeros d t of (d', t') \<Rightarrow> plain_decimal d' t'))"
  have fs: "float_str x = (if s then ''-'' else []) @ (if CHR ''.'' \<in> set body then body else body @ ''.0'')"
    by (simp add: float_str_def show_f64_def x body_def Let_def)
  have "\<exists>u v d. (if CHR ''.'' \<in> set body then body else body @ ''.0'') = u @ ''.'' @ v \<and> list_all is_digit u \<and> list_all is_digit v \<and> u \<noteq> []
     \<and> number 10 0 (u @ v) = Some d \<and> decimal_bits s d (- int (length v)) = x"
  proof (cases "m = 0")
    case True
    then have "body = ''0''" by (simp add: body_def)
    moreover have "decimal_bits s 0 (- 1) = x" using decimal_zero x True by blast
    ultimately show ?thesis
      by (intro exI [of _ "''0''"] exI [of _ "0 :: nat"]) (simp add: is_digit_code digit_of_def)
  next
    case False
    obtain d t where st: "shortest x s m e = (d, t)" by fastforce
    obtain d' t' where sz: "strip_zeros d t = (d', t')" by fastforce
    have body: "body = plain_decimal d' t'" using False by (simp add: body_def st sz)
    have v: "decimal_bits s d' t' = x" using strip_zeros_value [OF sz] shortest_value [OF x _ st] False by simp
    from plain_decimal_parts [of d' t'] obtain u w j where p:
      "(if CHR ''.'' \<in> set body then body else body @ ''.0'') = u @ ''.'' @ w" "list_all is_digit u" "list_all is_digit w" "u \<noteq> []"
      "number 10 0 (u @ w) = Some (d' * 10 ^ j)" "- int (length w) = t' - int j"
      unfolding body by blast
    have "decimal_bits s (d' * 10 ^ j) (- int (length w)) = x" unfolding p(6) by (simp add: decimal_bits_scale v)
    with p show ?thesis by blast
  qed
  then obtain u v d where p: "(if CHR ''.'' \<in> set body then body else body @ ''.0'') = u @ ''.'' @ v" "list_all is_digit u"
    "list_all is_digit v" "u \<noteq> []" "number 10 0 (u @ v) = Some d" "decimal_bits s d (- int (length v)) = x" by blast
  have "parse_f64 (float_str x) = Some x"
    unfolding fs p(1) parse_f64_def parse_fixed [OF p(2,3,4,5)] by (simp add: p(6))
  then show ?thesis using that [of s u v] fs p by simp
qed

lemma digits_dot_radix:
  assumes "list_all is_digit u" "u \<noteq> []"
  shows "radix_digits (u @ ''.'' @ v) = None"
proof -
  obtain c w where u: "u = c # w" using assms(2) by (cases u) auto
  have "hd (w @ ''.'' @ v) \<noteq> CHR ''x'' \<and> hd (w @ ''.'' @ v) \<noteq> CHR ''b''"
    using assms(1) is_digit_other by (cases w) (auto simp: u)
  then show ?thesis by (cases "w @ ''.'' @ v") (auto simp: radix_digits_def u)
qed

lemma reads_float [reads_intros]:
  assumes "finite_f64 x"
  shows "reads_as (float_str x) [FloatLit x (float_str x)]"
proof -
  obtain s u v where f: "float_str x = (if s then ''-'' else []) @ u @ ''.'' @ v" and u: "list_all is_digit u" "u \<noteq> []"
    and v: "list_all is_digit v" and x: "parse_f64 (float_str x) = Some x"
    by (rule float_str_parts [OF assms])
  have hu: "is_digit (hd u)" using u by (cases u) simp_all
  have "hd u \<notin> {quote_mark, CHR '';'', CHR ''-'', CHR ''+''}" using is_digit_other [OF hu] by simp
  then have sg: "after_sign (float_str x) = u @ ''.'' @ v" using u(2) by (simp add: f after_sign_def starts_def)
  have chars: "list_all (\<lambda>c. is_digit c \<or> c = CHR ''-'' \<or> c = CHR ''.'') (float_str x)"
    using u v by (auto simp: f list_all_iff)
  then have noif: "CHR ''i'' \<notin> set (float_str x)" "CHR ''f'' \<notin> set (float_str x)" "CHR ''t'' \<notin> set (float_str x)" "CHR ''>'' \<notin> set (float_str x)"
  proof -
    have no: "c \<notin> set (float_str x)" if "\<not> is_digit c" "c \<noteq> CHR ''-''" "c \<noteq> CHR ''.''" for c
      using that chars unfolding list_all_iff by blast
    show "CHR ''i'' \<notin> set (float_str x)" "CHR ''f'' \<notin> set (float_str x)" "CHR ''t'' \<notin> set (float_str x)" "CHR ''>'' \<notin> set (float_str x)"
      by (rule no; simp add: is_digit_code)+
  qed
  show ?thesis
  proof (rule reads_word)
    have "graphic (CHR ''-'')" "graphic (CHR ''.'')" by (simp_all add: graphic_def)
    with chars is_digit_graphic have "list_all graphic (float_str x)" unfolding list_all_iff by metis
    then show "lexical (float_str x)"
      using \<open>hd u \<notin> _\<close> u(2) by (intro graphic_lexical) (auto simp: f)
    have "number 10 0 (u @ ''.'' @ v) = None" by (rule number_not_digit [of "CHR ''.''"]) (simp_all add: is_digit_code)
    then have "int_word (float_str x) = None"
      by (simp add: int_word_def parse_i64_def radix_literal_def sg digits_value_def digits_dot_radix [OF u, simplified])
    moreover have "int64_word (float_str x) = None" "float32_word (float_str x) = None"
      using noif(1,2) by (auto simp: int64_word_def float32_word_def strip_suffix_def suffix_def)
    moreover have "float_word (float_str x) = Some x"
    proof -
      have "float_like (float_str x)" using hu u(2) by (auto simp: float_like_def f)
      then show ?thesis by (simp add: float_word_def x)
    qed
    moreover have "float_str x \<noteq> ''->''" "float_str x \<noteq> ''true''" "float_str x \<noteq> ''false''"
      using noif(2,3,4) by auto
    ultimately show "word_kind (float_str x) = FloatLit x (float_str x)" by (simp add: word_kind_def)
  qed
qed

end
