(* ===== verification/Parse_Total.thy ===== *)
theory Parse_Total
  imports Parser
begin

text \<open>
  Parsing ends: every step that reads something leaves fewer tokens, so the loops of the parser always
  advance and the fuel of \<open>parse_type\<close> and \<open>parse_expr\<close> is always enough. \<open>fine n p p'\<close> says of two steps
  that on at most \<open>n\<close> tokens they do the same, are not stuck and leave no more tokens than they were
  given; \<open>eats n p p'\<close> says that they leave fewer. The locale \<open>advancing\<close> shows it of every form for any
  two recursive calls of which it holds.
\<close>

definition fine :: "nat \<Rightarrow> 'a parser \<Rightarrow> 'a parser \<Rightarrow> bool" where
  "fine n p p' \<longleftrightarrow>
     (\<forall>ts. length ts \<le> n \<longrightarrow> p ts = p' ts \<and> (case p ts of Inl e \<Rightarrow> e \<noteq> PStuck | Inr (x, r) \<Rightarrow> length r \<le> length ts))"

definition eats :: "nat \<Rightarrow> 'a parser \<Rightarrow> 'a parser \<Rightarrow> bool" where
  "eats n p p' \<longleftrightarrow>
     (\<forall>ts. length ts \<le> n \<longrightarrow> p ts = p' ts \<and> (case p ts of Inl e \<Rightarrow> e \<noteq> PStuck | Inr (x, r) \<Rightarrow> length r < length ts))"

named_theorems fine_intros "steps that do not get stuck"

lemma eats_fine: "eats n p p' \<Longrightarrow> fine n p p'"
  unfolding eats_def fine_def by (fastforce split: sum.splits)

lemma fine_less: "fine n p p' \<Longrightarrow> m \<le> n \<Longrightarrow> fine m p p'"
  unfolding fine_def by (meson le_trans)

lemma eats_less: "eats n p p' \<Longrightarrow> m \<le> n \<Longrightarrow> eats m p p'"
  unfolding eats_def by (meson le_trans)

lemma fine_basic [fine_intros]:
  "fine n (pret x) (pret x)" "e \<noteq> PStuck \<Longrightarrow> fine n (pfail e) (pfail e)" "fine n (cur_pos px) (cur_pos px)" "fine n peek peek"
  "fine n peek_kind peek_kind" "fine n pnext pnext" "fine n (skip k) (skip k)"
  by (simp_all add: fine_def pret_def pfail_def cur_pos_def peek_def peek_kind_def pnext_def skip_def split: list.split)

lemma fine_bind [fine_intros]:
  assumes "fine n p p'" "\<And>x. fine n (f x) (f' x)"
  shows "fine n (pbind p f) (pbind p' f')"
  unfolding fine_def
proof (intro allI impI)
  fix ts :: "token list" assume ts: "length ts \<le> n"
  then have p: "p ts = p' ts" "case p ts of Inl e \<Rightarrow> e \<noteq> PStuck | Inr (x, r) \<Rightarrow> length r \<le> length ts"
    using assms(1) by (auto simp: fine_def)
  show "pbind p f ts = pbind p' f' ts \<and>
      (case pbind p f ts of Inl e \<Rightarrow> e \<noteq> PStuck | Inr (x, r) \<Rightarrow> length r \<le> length ts)"
  proof (cases "p ts")
    case (Inr q)
    obtain x r where q: "q = (x, r)" by fastforce
    have r: "length r \<le> n" "length r \<le> length ts" using p(2) Inr q ts by simp_all
    then have "f x r = f' x r" "case f x r of Inl e \<Rightarrow> e \<noteq> PStuck | Inr (y, s) \<Rightarrow> length s \<le> length r"
      using assms(2) [of x] by (auto simp: fine_def)
    with Inr q p(1) r(2) show ?thesis by (auto simp: pbind_def split: sum.splits)
  qed (use p in \<open>simp add: pbind_def\<close>)
qed

lemma eats_bind:
  assumes "eats n p p'" "\<And>x. fine n (f x) (f' x)"
  shows "eats n (pbind p f) (pbind p' f')"
  unfolding eats_def
proof (intro allI impI)
  fix ts :: "token list" assume ts: "length ts \<le> n"
  then have p: "p ts = p' ts" "case p ts of Inl e \<Rightarrow> e \<noteq> PStuck | Inr (x, r) \<Rightarrow> length r < length ts"
    using assms(1) by (auto simp: eats_def)
  show "pbind p f ts = pbind p' f' ts \<and>
      (case pbind p f ts of Inl e \<Rightarrow> e \<noteq> PStuck | Inr (x, r) \<Rightarrow> length r < length ts)"
  proof (cases "p ts")
    case (Inr q)
    obtain x r where q: "q = (x, r)" by fastforce
    have r: "length r \<le> n" "length r < length ts" using p(2) Inr q ts by simp_all
    then have "f x r = f' x r" "case f x r of Inl e \<Rightarrow> e \<noteq> PStuck | Inr (y, s) \<Rightarrow> length s \<le> length r"
      using assms(2) [of x] by (auto simp: fine_def)
    with Inr q p(1) r(2) show ?thesis by (auto simp: pbind_def split: sum.splits)
  qed (use p in \<open>simp add: pbind_def\<close>)
qed

text \<open>After a token there are fewer; with none there is an error.\<close>

definition fails :: "'a parser \<Rightarrow> 'a parser \<Rightarrow> bool" where
  "fails p p' \<longleftrightarrow> (\<exists>e. e \<noteq> PStuck \<and> p = pfail e \<and> p' = pfail e)"

lemma fails_pfail: "e \<noteq> PStuck \<Longrightarrow> fails (pfail e) (pfail e)"
  by (auto simp: fails_def)

lemma eats_next:
  assumes "\<And>t. 0 < n \<Longrightarrow> fine (n - 1) (f (Some t)) (f' (Some t))" "fails (f None) (f' None)"
  shows "eats n (pbind pnext f) (pbind pnext f')"
  unfolding eats_def
proof (intro allI impI)
  fix ts :: "token list" assume ts: "length ts \<le> n"
  show "pbind pnext f ts = pbind pnext f' ts \<and>
      (case pbind pnext f ts of Inl e \<Rightarrow> e \<noteq> PStuck | Inr (x, r) \<Rightarrow> length r < length ts)"
  proof (cases ts)
    case (Cons t r)
    then have "0 < n" "length r \<le> n - 1" using ts by simp_all
    then have "f (Some t) r = f' (Some t) r" "case f (Some t) r of Inl e \<Rightarrow> e \<noteq> PStuck | Inr (y, s) \<Rightarrow> length s \<le> length r"
      using assms(1) [of t] by (auto simp: fine_def)
    with Cons show ?thesis by (auto simp: pbind_def pnext_def split: sum.splits)
  qed (use assms(2) in \<open>auto simp: fails_def pbind_def pnext_def pfail_def\<close>)
qed

lemma eats_cur_pos:
  assumes "\<And>sp. eats n (f sp) (f' sp)"
  shows "eats n (pbind (cur_pos px) f) (pbind (cur_pos px) f')"
  unfolding eats_def pbind_def cur_pos_def sum.case prod.case
  using assms unfolding eats_def by blast

lemma fine_if [fine_intros]:
  "(b \<Longrightarrow> fine n p p') \<Longrightarrow> (\<not> b \<Longrightarrow> fine n q q') \<Longrightarrow> fine n (if b then p else q) (if b then p' else q')"
  by simp

lemma fine_option [fine_intros]:
  "fine n p p' \<Longrightarrow> (\<And>x. fine n (f x) (f' x)) \<Longrightarrow> fine n (case o1 of None \<Rightarrow> p | Some x \<Rightarrow> f x) (case o1 of None \<Rightarrow> p' | Some x \<Rightarrow> f' x)"
  by (cases o1) simp_all

lemma fine_prod [fine_intros]:
  "(\<And>a b. fine n (f a b) (f' a b)) \<Longrightarrow> fine n (case q of (a, b) \<Rightarrow> f a b) (case q of (a, b) \<Rightarrow> f' a b)"
  by (cases q) simp

lemma fine_list [fine_intros]:
  "fine n p p' \<Longrightarrow> (\<And>x y. fine n (f x y) (f' x y)) \<Longrightarrow> fine n (case l of [] \<Rightarrow> p | x # y \<Rightarrow> f x y) (case l of [] \<Rightarrow> p' | x # y \<Rightarrow> f' x y)"
  by (cases l) simp_all

lemma fine_sum [fine_intros]:
  "(\<And>x. l = Inl x \<Longrightarrow> fine n (f x) (f' x)) \<Longrightarrow> (\<And>x. l = Inr x \<Longrightarrow> fine n (g x) (g' x)) \<Longrightarrow>
     fine n (case l of Inl x \<Rightarrow> f x | Inr y \<Rightarrow> g y) (case l of Inl x \<Rightarrow> f' x | Inr y \<Rightarrow> g' y)"
  by (cases l) simp_all

lemma fine_kind [fine_intros]:
  assumes "fine n a1 b1" "fine n a2 b2" "fine n a3 b3" "fine n a4 b4" "fine n a5 b5" "fine n a6 b6"
    "\<And>x. fine n (f1 x) (g1 x)" "\<And>x. fine n (f2 x) (g2 x)" "\<And>x. fine n (f3 x) (g3 x)" "\<And>x y. fine n (f4 x y) (g4 x y)"
    "\<And>x y. fine n (f5 x y) (g5 x y)" "\<And>x. fine n (f6 x) (g6 x)" "\<And>x. fine n (f7 x) (g7 x)"
  shows "fine n (case_token_kind a1 a2 a3 a4 a5 a6 f1 f2 f3 f4 f5 f6 f7 k) (case_token_kind b1 b2 b3 b4 b5 b6 g1 g2 g3 g4 g5 g6 g7 k)"
  using assms by (cases k) simp_all

lemma eats_expect:
  "eats n (expect_kind px k) (expect_kind px k)" "eats n (expect_symbol w sp) (expect_symbol w sp)"
  "eats n (expect_word w' w sp) (expect_word w' w sp)" "eats n (field_ref form sp) (field_ref form sp)"
  unfolding expect_kind_def expect_symbol_def expect_word_def field_ref_def option.case
  by (intro eats_cur_pos eats_next; unfold option.case; intro fine_intros fails_pfail; simp)+

lemmas fine_expect [fine_intros] = eats_expect [THEN eats_fine]

lemma fine_repeat:
  assumes f: "\<And>s. eats n (f s) (f' s)"
  shows "fine n (repeat_while go f s) (repeat_while go f' s)"
  unfolding fine_def
proof (intro allI impI)
  fix ts :: "token list" assume "length ts \<le> n"
  then show "repeat_while go f s ts = repeat_while go f' s ts \<and>
      (case repeat_while go f s ts of Inl e \<Rightarrow> e \<noteq> PStuck | Inr (x, r) \<Rightarrow> length r \<le> length ts)"
  proof (induction "length ts" arbitrary: ts s rule: less_induct)
    case less
    have p: "f s ts = f' s ts" "case f s ts of Inl e \<Rightarrow> e \<noteq> PStuck | Inr (x, r) \<Rightarrow> length r < length ts"
      using f [of s] less.prems by (auto simp: eats_def)
    show ?case
    proof (cases "go ts")
      case True
      show ?thesis
      proof (cases "f s ts")
        case (Inr q)
        obtain s' r where q: "q = (s', r)" by fastforce
        have r: "length r < length ts" using p(2) Inr q by simp
        then have "repeat_while go f s' r = repeat_while go f' s' r \<and>
          (case repeat_while go f s' r of Inl e \<Rightarrow> e \<noteq> PStuck | Inr (x, v) \<Rightarrow> length v \<le> length r)"
          using less.prems by (intro less.hyps) simp_all
        with Inr q r p(1) show ?thesis
          by (auto simp: repeat_while.simps [of go f s ts] repeat_while.simps [of go f' s ts] split: sum.splits)
      qed (use p True in \<open>simp add: repeat_while.simps [of go _ s ts]\<close>)
    qed (simp add: repeat_while.simps [of go _ s ts])
  qed
qed

lemma fine_many [fine_intros]: "eats n p p' \<Longrightarrow> fine n (many k p) (many k p')"
  unfolding many_def many_while_def
  by (intro fine_repeat eats_bind) (auto intro: fine_intros)

section \<open>Types\<close>

lemma type_with_eats:
  assumes "\<And>k. k < n \<Longrightarrow> eats k pt pt'"
  shows "eats n (parse_type_with px pt) (parse_type_with px pt')"
proof -
  have "fine (n - 1) (parse_compound px pt sp kind) (parse_compound px pt' sp kind)" if "0 < n" for sp kind
  proof -
    have pt: "eats (n - 1) pt pt'" using assms that by simp
    note pt_fine = eats_fine [OF pt]
    show ?thesis
      unfolding parse_compound_def parse_result_type_def parse_arr_type_def parse_fn_type_def parse_ptr_type_def
      by (intro fine_intros pt pt_fine) simp_all
  qed
  then show ?thesis
    unfolding parse_type_with_def
    by (intro eats_cur_pos eats_next; unfold option.case; intro fine_intros fails_pfail; simp)
qed

lemma type_n_eats: "n \<le> f \<Longrightarrow> n \<le> f' \<Longrightarrow> eats n (parse_type_n (Suc f) px) (parse_type_n (Suc f') px)"
proof (induction n arbitrary: f f' rule: less_induct)
  case (less n)
  have "eats k (parse_type_n f px) (parse_type_n f' px)" if k: "k < n" for k
  proof -
    obtain g g' where g: "f = Suc g" "f' = Suc g'" using less.prems k by (cases f; cases f') auto
    with less.IH [OF k, of g g'] less.prems k show ?thesis by simp
  qed
  then show ?case by (simp add: type_with_eats)
qed

lemma parse_type_n_enough: "length ts \<le> n \<Longrightarrow> parse_type_n (Suc n) px ts = parse_type px ts"
  using type_n_eats [of "length ts" n "length ts" px] by (simp add: eats_def parse_type_def)

lemma parse_type_eats [fine_intros]: "eats n (parse_type px) (parse_type px)"
proof -
  have "eats n (parse_type_n (Suc n) px) (parse_type_n (Suc n) px)" by (rule type_n_eats) simp_all
  then show ?thesis by (simp add: eats_def parse_type_n_enough del: parse_type_n.simps)
qed

lemmas parse_type_fine [fine_intros] = parse_type_eats [THEN eats_fine]

text \<open>Reading a type is one step over itself.\<close>

lemma parse_type_unfold: "parse_type px = parse_type_with px (parse_type px)"
proof
  fix ts :: "token list"
  have "eats k (parse_type_n (length ts) px) (parse_type px)" if "k < length ts" for k
    using that by (cases "length ts") (use type_n_eats in \<open>auto simp: eats_def parse_type_n_enough simp del: parse_type_n.simps\<close>)
  then have "eats (length ts) (parse_type_with px (parse_type_n (length ts) px)) (parse_type_with px (parse_type px))"
    by (rule type_with_eats)
  then show "parse_type px ts = parse_type_with px (parse_type px) ts" by (simp add: eats_def parse_type_def)
qed

section \<open>Forms\<close>

lemma eats_if: "(b \<Longrightarrow> eats n p p') \<Longrightarrow> (\<not> b \<Longrightarrow> eats n q q') \<Longrightarrow> eats n (if b then p else q) (if b then p' else q')"
  by simp

lemmas eats_intros = eats_cur_pos eats_bind eats_if

lemma not_stuck_errors:
  "path_items form es = Inl e \<Longrightarrow> e \<noteq> PStuck" "parse_scalar_type_str w sp = Inl e \<Longrightarrow> e \<noteq> PStuck"
  "int_literal v sp = Inl e \<Longrightarrow> e \<noteq> PStuck"
proof -
  show "path_items form es = Inl e \<Longrightarrow> e \<noteq> PStuck"
    by (induction es) (auto simp: path_item_def bind_res_def split: sum.splits expr.splits option.splits)
qed (auto simp: parse_scalar_type_str_def int_literal_def split: option.splits if_splits)

locale advancing =
  fixes pe pe' :: "expr parser" and n :: nat
  assumes inner: "eats n pe pe'"
begin

lemmas inner_fine = eats_fine [OF inner]

lemma arm_eats: "eats n (parse_arm px pe acc) (parse_arm px pe' acc)"
  unfolding parse_arm_def parse_binders_def exprs_to_close_def
  by (intro eats_intros eats_expect fine_intros inner) simp_all

lemma clause_eats: "eats n (parse_clause px pe acc) (parse_clause px pe' acc)"
  unfolding parse_clause_def clause_test_def exprs_to_close_def
  by (intro eats_intros eats_expect fine_intros inner inner_fine) simp_all

lemma form_fine: "fine n (parse_form px pe h sp) (parse_form px pe' h sp)"
  unfolding parse_form_def parse_let_def parse_set_def parse_if_def parse_counted_loop_def parse_for_def parse_when_def
    parse_while_def parse_call_def parse_ok_def parse_err_def explicit_type_def parse_make_def parse_match_def parse_block_def
    parse_match_result_def parse_result_arm_def parse_get_def parse_with_def parse_put_def path_and_value_def parse_sizeof_def
    parse_return_def parse_cond_def parse_ref_def parse_call_ref_def parse_arr_len_def parse_null_def parse_cast_def
    parse_addr_def parse_arr_get_def parse_arr_set_def parse_operator_def exprs_to_close_def
  by (intro fine_intros fine_repeat inner inner_fine arm_eats clause_eats eats_expect; (erule not_stuck_errors)?; simp)

end

lemma expr_with_eats:
  assumes "\<And>k. k < n \<Longrightarrow> eats k pe pe'"
  shows "eats n (parse_expr_with px pe) (parse_expr_with px pe')"
proof -
  have "fine (n - 1) (parse_form px pe h sp) (parse_form px pe' h sp)" if "0 < n" for h sp
    using assms that by (intro advancing.form_fine advancing.intro) simp
  then show ?thesis
    unfolding parse_expr_with_def parse_atom_def
    by (intro eats_cur_pos eats_next; unfold option.case; intro fine_intros fails_pfail; simp add: not_stuck_errors)
qed

lemma expr_n_eats: "n \<le> f \<Longrightarrow> n \<le> f' \<Longrightarrow> eats n (parse_expr_n (Suc f) px) (parse_expr_n (Suc f') px)"
proof (induction n arbitrary: f f' rule: less_induct)
  case (less n)
  have "eats k (parse_expr_n f px) (parse_expr_n f' px)" if k: "k < n" for k
  proof -
    obtain g g' where g: "f = Suc g" "f' = Suc g'" using less.prems k by (cases f; cases f') auto
    with less.IH [OF k, of g g'] less.prems k show ?thesis by simp
  qed
  then show ?case by (simp add: expr_with_eats)
qed

lemma parse_expr_n_enough: "length ts \<le> n \<Longrightarrow> parse_expr_n (Suc n) px ts = parse_expr px ts"
  using expr_n_eats [of "length ts" n "length ts" px] by (simp add: eats_def parse_expr_def)

lemma parse_expr_eats: "eats n (parse_expr px) (parse_expr px)"
proof -
  have "eats n (parse_expr_n (Suc n) px) (parse_expr_n (Suc n) px)" by (rule expr_n_eats) simp_all
  then show ?thesis by (simp add: eats_def parse_expr_n_enough del: parse_expr_n.simps)
qed

text \<open>Reading an expression is one step over itself: the forms of the parser's own recursive call.\<close>

lemma parse_expr_unfold: "parse_expr px = parse_expr_with px (parse_expr px)"
proof
  fix ts :: "token list"
  have "eats k (parse_expr_n (length ts) px) (parse_expr px)" if "k < length ts" for k
    using that by (cases "length ts") (use expr_n_eats in \<open>auto simp: eats_def parse_expr_n_enough simp del: parse_expr_n.simps\<close>)
  then have "eats (length ts) (parse_expr_with px (parse_expr_n (length ts) px)) (parse_expr_with px (parse_expr px))"
    by (rule expr_with_eats)
  then show "parse_expr px ts = parse_expr_with px (parse_expr px) ts" by (simp add: eats_def parse_expr_def)
qed

interpretation parsed: advancing "parse_expr px" "parse_expr px" n for px n
  by unfold_locales (rule parse_expr_eats)

section \<open>Items\<close>

lemmas expr_fine [fine_intros] = parse_expr_eats [THEN eats_fine]

lemma member_eats: "eats n (parse_member px w sp) (parse_member px w sp)" "eats n (parse_field px sp) (parse_field px sp)"
  unfolding parse_field_def parse_member_def by (intro eats_intros eats_expect fine_intros)+

lemma value_mark_fine [fine_intros]: "fine n (parse_value_mark px) (parse_value_mark px)"
  unfolding parse_value_mark_def by (intro fine_intros)

lemma contract_eats: "eats n (parse_contract px) (parse_contract px)"
  unfolding parse_contract_def by (intro eats_intros eats_expect fine_intros) simp

lemma eats_self: "eats n p p \<longleftrightarrow> (\<forall>ts. length ts \<le> n \<longrightarrow> (case p ts of Inl e \<Rightarrow> e \<noteq> PStuck | Inr (x, r) \<Rightarrow> length r < length ts))"
  by (simp add: eats_def)

lemma fn_part_eats: "eats n (parse_fn_part px) (parse_fn_part px)"
  unfolding eats_self
proof (intro allI impI)
  fix ts :: "token list" assume n: "length ts \<le> n"
  have c: "eats n (pbind (parse_contract px) (\<lambda>c. pret (FContract c))) (pbind (parse_contract px) (\<lambda>c. pret (FContract c)))"
    "eats n (pbind (parse_expr px) (\<lambda>e. pret (FBody e))) (pbind (parse_expr px) (\<lambda>e. pret (FBody e)))"
    by (intro eats_bind contract_eats parse_expr_eats fine_intros)+
  have "ts \<noteq> []" if "clause_ahead w ts" for w
    using that by (auto simp: clause_ahead_def kind_at_def)
  then show "case parse_fn_part px ts of Inl e \<Rightarrow> e \<noteq> PStuck | Inr (x, r) \<Rightarrow> length r < length ts"
    using c n by (auto simp: eats_self parse_fn_part_def pbind_def [of "skip 3"] skip_def pret_def)
qed

lemma fn_def_eats: "eats n (parse_fn_def px) (parse_fn_def px)"
  unfolding parse_fn_def_def by (intro eats_intros eats_expect fine_intros member_eats fn_part_eats)

text \<open>A form that starts with a parenthesis, looked at before it is read.\<close>

lemma eats_if_open:
  assumes "fine n p p" "e \<noteq> PStuck"
  shows "eats n (pbind peek_kind (\<lambda>k. if k \<noteq> Some LParen then pfail e else pbind pnext (\<lambda>_. p)))
    (pbind peek_kind (\<lambda>k. if k \<noteq> Some LParen then pfail e else pbind pnext (\<lambda>_. p)))"
  unfolding eats_self
proof (intro allI impI)
  fix ts :: "token list" assume n: "length ts \<le> n"
  show "case pbind peek_kind (\<lambda>k. if k \<noteq> Some LParen then pfail e else pbind pnext (\<lambda>_. p)) ts of
      Inl e \<Rightarrow> e \<noteq> PStuck | Inr (x, r) \<Rightarrow> length r < length ts"
  proof (cases ts)
    case (Cons t r)
    then have "case p r of Inl e \<Rightarrow> e \<noteq> PStuck | Inr (x, v) \<Rightarrow> length v \<le> length r"
      using assms(1) n by (auto simp: fine_def)
    with Cons assms(2) show ?thesis
      by (auto simp: pbind_def [of peek_kind] pbind_def [of pnext] peek_kind_def pnext_def pfail_def split: sum.splits)
  qed (use assms(2) in \<open>simp add: pbind_def peek_kind_def pfail_def\<close>)
qed

lemma variant_eats: "eats n (parse_variant px) (parse_variant px)"
  unfolding parse_variant_def by (intro eats_cur_pos eats_if_open fine_intros member_eats) simp

lemma union_def_eats: "eats n (parse_union_def px) (parse_union_def px)"
  unfolding parse_union_def_def by (intro eats_intros eats_expect fine_intros variant_eats)

lemma member_value_fine [fine_intros]: "fine n (member_value px sp) (member_value px sp)"
  unfolding member_value_def by (intro fine_intros) simp_all

lemma enum_member_eats: "eats n (add_enum_member px op_pos acc) (add_enum_member px op_pos acc)"
proof -
  have "eats n (parse_enum_member px op_pos v) (parse_enum_member px op_pos v)" for v
    unfolding parse_enum_member_def
    by (intro eats_cur_pos eats_next; unfold option.case; intro fine_intros fails_pfail; simp)
  then show ?thesis unfolding add_enum_member_def by (intro eats_intros fine_intros) simp_all
qed

lemma enum_def_eats: "eats n (parse_enum_def px) (parse_enum_def px)"
  unfolding parse_enum_def_def by (intro eats_intros eats_expect fine_intros fine_repeat enum_member_eats)

lemma struct_def_eats: "eats n (parse_struct_def px) (parse_struct_def px)"
  unfolding parse_struct_def_def by (intro eats_intros eats_expect fine_intros member_eats)

lemma import_eats: "eats n (parse_import px) (parse_import px)"
  unfolding parse_import_def by (intro eats_intros eats_expect fine_intros)

lemma eats_when:
  "eats n p p \<Longrightarrow> eats n q q \<Longrightarrow> eats n (\<lambda>ts. if b ts then p ts else q ts) (\<lambda>ts. if b ts then p ts else q ts)"
  by (simp add: eats_self)

lemma item_eats: "eats n (parse_item px m) (parse_item px m)"
proof -
  have "eats n (pbind (cur_pos px) (\<lambda>sp. pfail (PConst sp))) (pbind (cur_pos px) (\<lambda>sp. pfail (PConst sp)) :: module parser)"
    by (simp add: eats_self pbind_def cur_pos_def pfail_def)
  then show ?thesis
    unfolding parse_item_def [abs_def]
    by (intro eats_when; (assumption | intro eats_bind import_eats struct_def_eats enum_def_eats union_def_eats fn_def_eats fine_intros))
qed

lemma module_fine: "fine n (parse_module px) (parse_module px)"
  unfolding parse_module_def by (intro fine_intros fine_repeat item_eats) simp_all

text \<open>The parser ends with a module or with an error of its own on every text.\<close>

lemma parse_not_stuck: "parse s \<noteq> Inl PStuck"
proof -
  have "parse_module px ts \<noteq> Inl PStuck" for px ts
    using module_fine [of "length ts" px] by (auto simp: fine_def)
  then have "parse_tokens_with ts us vs \<noteq> Inl PStuck" for ts us vs
    by (auto simp: parse_tokens_with_def Let_def bind_res_def split: sum.splits)
  then show ?thesis by (auto simp: parse_def parse_tokens_def Let_def split: sum.splits)
qed

end
