(* ===== verification/Read_Back.thy ===== *)
theory Read_Back
  imports Numbers Parse_Total
begin

text \<open>
  Reading back what the printer wrote. \<open>takes p K K' R\<close> is a triple: on every list of tokens of the kinds
  \<open>K\<close> the step \<open>p\<close> succeeds with a result of \<open>R\<close> and leaves tokens of the kinds \<open>K'\<close>. \<open>parses p X R\<close> says
  that \<open>p\<close> takes the tokens \<open>X\<close> off whatever follows them. Here are the rules of the parser's steps, and
  what is printed of types.
\<close>

section \<open>Triples\<close>

definition takes :: "'a parser \<Rightarrow> token_kind list \<Rightarrow> token_kind list \<Rightarrow> ('a \<Rightarrow> bool) \<Rightarrow> bool" where
  "takes p K K' R \<longleftrightarrow>
     (\<forall>ts. map tk_kind ts = K \<longrightarrow> (\<exists>x ts'. p ts = Inr (x, ts') \<and> R x \<and> map tk_kind ts' = K'))"

definition parses :: "'a parser \<Rightarrow> token_kind list \<Rightarrow> ('a \<Rightarrow> bool) \<Rightarrow> bool" where
  "parses p X R \<longleftrightarrow>
     X \<noteq> [] \<and> hd X \<notin> {RParen, LBracket, RBracket, Colon} \<and> (\<forall>Y. takes p (X @ Y) Y R)"

lemma takesI: "(\<And>ts. map tk_kind ts = K \<Longrightarrow> \<exists>x ts'. p ts = Inr (x, ts') \<and> R x \<and> map tk_kind ts' = K') \<Longrightarrow> takes p K K' R"
  by (simp add: takes_def)

lemma takesD: "takes p K K' R \<Longrightarrow> map tk_kind ts = K \<Longrightarrow> \<exists>x ts'. p ts = Inr (x, ts') \<and> R x \<and> map tk_kind ts' = K'"
  by (simp add: takes_def)

named_theorems takes_intros "triples of the parser's steps"

lemma takes_pret: "R x \<Longrightarrow> takes (pret x) K K R"
  by (simp add: takes_def pret_def)

lemma takes_bind:
  assumes "takes p K K1 Q" "\<And>x. Q x \<Longrightarrow> takes (f x) K1 K2 R"
  shows "takes (pbind p f) K K2 R"
proof (rule takesI)
  fix ts :: "token list" assume "map tk_kind ts = K"
  then obtain x r where "p ts = Inr (x, r)" "Q x" "map tk_kind r = K1" using takesD [OF assms(1)] by blast
  moreover obtain y r' where "f x r = Inr (y, r')" "R y" "map tk_kind r' = K2"
    using takesD [OF assms(2)] \<open>Q x\<close> \<open>map tk_kind r = K1\<close> by blast
  ultimately show "\<exists>x ts'. pbind p f ts = Inr (x, ts') \<and> R x \<and> map tk_kind ts' = K2" by (simp add: pbind_def)
qed

lemma takes_parse: "parses p X Q \<Longrightarrow> (\<And>x. Q x \<Longrightarrow> takes (f x) Y K R) \<Longrightarrow> takes (pbind p f) (X @ Y) K R"
  by (rule takes_bind [where Q = Q and ?K1.0 = Y]) (simp_all add: parses_def)

lemma takes_cur_pos: "(\<And>sp. takes (f sp) K K' R) \<Longrightarrow> takes (pbind (cur_pos px) f) K K' R"
  by (auto simp: takes_def pbind_def cur_pos_def)

lemma takes_next: "(\<And>t. tk_kind t = k \<Longrightarrow> takes (f (Some t)) K K' R) \<Longrightarrow> takes (pbind pnext f) (k # K) K' R"
  by (auto simp: takes_def pbind_def pnext_def split: list.split)

lemma takes_peek_kind: "takes (f (Some k)) (k # K) K' R \<Longrightarrow> takes (pbind peek_kind f) (k # K) K' R"
  by (fastforce simp: takes_def pbind_def peek_kind_def split: list.split)

lemma takes_peek: "(\<And>t. tk_kind t = k \<Longrightarrow> takes (f (Some t)) (k # K) K' R) \<Longrightarrow> takes (pbind peek f) (k # K) K' R"
  by (fastforce simp: takes_def pbind_def peek_def split: list.split)

lemma takes_first:
  "parses p X Q \<Longrightarrow> (\<And>k. k = hd X \<Longrightarrow> k \<notin> {RParen, LBracket, RBracket, Colon} \<Longrightarrow> takes (f (Some k)) (X @ Y) K R) \<Longrightarrow>
     takes (pbind peek_kind f) (X @ Y) K R"
  by (cases X) (auto simp: parses_def intro: takes_peek_kind)

lemma takes_first_token:
  "parses p X Q \<Longrightarrow> (\<And>t. tk_kind t = hd X \<Longrightarrow> tk_kind t \<notin> {RParen, LBracket, RBracket, Colon} \<Longrightarrow> takes (f (Some t)) (X @ Y) K R) \<Longrightarrow>
     takes (pbind peek f) (X @ Y) K R"
  by (cases X) (auto simp: parses_def intro: takes_peek)

lemma takes_kind: "(\<And>t. takes (f t) K K' R) \<Longrightarrow> takes (pbind (expect_kind px k) f) (k # K) K' R"
  by (auto simp: takes_def expect_kind_def pbind_def cur_pos_def pnext_def pret_def)

lemma takes_symbol: "takes (f s) K K' R \<Longrightarrow> takes (pbind (expect_symbol w sp) f) (Symbol s # K) K' R"
  by (auto simp: takes_def expect_symbol_def pbind_def pnext_def pret_def)

lemma takes_word: "takes (f ()) K K' R \<Longrightarrow> takes (pbind (expect_word w what sp) f) (Symbol w # K) K' R"
  by (auto simp: takes_def expect_word_def pbind_def pnext_def pret_def)

lemma takes_field:
  "split_field s = Some g \<Longrightarrow> takes (f g) K K' R \<Longrightarrow> takes (pbind (field_ref w sp) f) (Symbol s # K) K' R"
  by (auto simp: takes_def field_ref_def pbind_def pnext_def pret_def)

lemma takes_assoc: "takes (pbind p (\<lambda>x. pbind (f x) g)) K K' R \<Longrightarrow> takes (pbind (pbind p f) g) K K' R"
proof -
  have "pbind (pbind p f) g = pbind p (\<lambda>x. pbind (f x) g)" by (rule ext) (simp add: pbind_def split: sum.split)
  then show "takes (pbind p (\<lambda>x. pbind (f x) g)) K K' R \<Longrightarrow> takes (pbind (pbind p f) g) K K' R" by simp
qed

lemma takes_fst: "takes (f a b) K K' R \<Longrightarrow> takes (case (a, b) of (x, y) \<Rightarrow> f x y) K K' R"
  by simp

lemmas takes_steps = takes_pret takes_cur_pos takes_next takes_peek_kind takes_kind takes_symbol takes_word takes_field

section \<open>Lists of parts\<close>

text \<open>A loop that reads the parts one after the other, from the state \<open>s\<close>; \<open>Q n\<close> holds after \<open>n\<close> parts.\<close>

lemma takes_repeat:
  assumes step: "\<And>i s Y. i < length Xs \<Longrightarrow> Q i s \<Longrightarrow> takes (f s) (Xs ! i @ Y) Y (Q (Suc i))"
    and go: "\<And>i ts Y. i < length Xs \<Longrightarrow> map tk_kind ts = Xs ! i @ Y \<Longrightarrow> go ts"
    and stop: "\<And>ts. map tk_kind ts = K \<Longrightarrow> \<not> go ts"
    and first: "\<And>i. i < length Xs \<Longrightarrow> Xs ! i \<noteq> []"
    and start: "Q 0 s"
  shows "takes (repeat_while go f s) (concat Xs @ K) K (Q (length Xs))"
proof -
  have "takes (repeat_while go f s) (concat (drop i Xs) @ K) K (Q (length Xs))" if "i \<le> length Xs" "Q i s" for i s
    using that
  proof (induction "length Xs - i" arbitrary: i s)
    case 0
    then show ?case using stop by (auto simp: takes_def repeat_while.simps [of go f s])
  next
    case (Suc n)
    then have i: "i < length Xs" by simp
    then have d: "drop i Xs = Xs ! i # drop (Suc i) Xs" by (simp add: Cons_nth_drop_Suc)
    have IH: "takes (repeat_while go f s') (concat (drop (Suc i) Xs) @ K) K (Q (length Xs))" if "Q (Suc i) s'" for s'
      using Suc.hyps Suc.prems i that by simp
    show ?case
    proof (rule takesI)
      fix ts :: "token list" assume ts: "map tk_kind ts = concat (drop i Xs) @ K"
      then have ts': "map tk_kind ts = Xs ! i @ concat (drop (Suc i) Xs) @ K" using d by simp
      obtain s' r where r: "f s ts = Inr (s', r)" "Q (Suc i) s'" "map tk_kind r = concat (drop (Suc i) Xs) @ K"
        using takesD [OF step [OF i Suc.prems(2)] ts'] by blast
      have "length r < length ts"
        using first [OF i] arg_cong [OF r(3), of length] arg_cong [OF ts', of length] by simp
      moreover obtain x v where "repeat_while go f s' r = Inr (x, v)" "Q (length Xs) x" "map tk_kind v = K"
        using takesD [OF IH [OF r(2)] r(3)] by blast
      ultimately show "\<exists>x ts'. repeat_while go f s ts = Inr (x, ts') \<and> Q (length Xs) x \<and> map tk_kind ts' = K"
        using r(1) go [OF i ts'] by (simp add: repeat_while.simps [of go f s ts])
    qed
  qed
  from this [of 0 s] start show ?thesis by simp
qed

lemma takes_many:
  assumes "list_all2 (\<lambda>X R. parses p X R) Xs Rs" "k \<in> {RParen, RBracket}"
  shows "takes (many k p) (concat Xs @ k # K) (k # K) (list_all2 (\<lambda>R x. R x) Rs)"
proof -
  have len: "length Xs = length Rs" using assms(1) by (rule list_all2_lengthD)
  have part: "parses p (Xs ! i) (Rs ! i)" if "i < length Xs" for i
    using assms(1) that by (simp add: list_all2_conv_all_nth)
  have "takes (many k p) (concat Xs @ k # K) (k # K) (\<lambda>xs. list_all2 (\<lambda>R x. R x) (take (length Xs) Rs) xs)"
    unfolding many_def many_while_def
  proof (rule takes_repeat)
    fix i s Y assume i: "i < length Xs" and s: "list_all2 (\<lambda>R x. R x) (take i Rs) s"
    then have "list_all2 (\<lambda>R x. R x) (take (Suc i) Rs) (s @ [x])" if "(Rs ! i) x" for x
      using that len by (simp add: take_Suc_conv_app_nth list_all2_appendI)
    then show "takes (pbind p (\<lambda>x. pret (s @ [x]))) (Xs ! i @ Y) Y (list_all2 (\<lambda>R x. R x) (take (Suc i) Rs))"
      by (intro takes_parse [OF part [OF i]] takes_pret)
  next
    fix i and ts :: "token list" and Y assume "i < length Xs" "map tk_kind ts = Xs ! i @ Y"
    then show "before k ts" using part [of i] assms(2)
      by (cases "Xs ! i") (auto simp: parses_def before_def next_is_def kind_at_def)
  next
    fix ts :: "token list" assume "map tk_kind ts = k # K"
    then show "\<not> before k ts" by (auto simp: before_def next_is_def kind_at_def)
  next
    fix i assume "i < length Xs" then show "Xs ! i \<noteq> []" using part [of i] by (simp add: parses_def)
  qed simp
  then show ?thesis using len by simp
qed

lemma takes_parts:
  assumes "list_all2 (\<lambda>X a. parses p X (R a)) Xs as" "k \<in> {RParen, RBracket}"
    "\<And>ys. list_all2 R as ys \<Longrightarrow> takes (f ys) (k # K) K' Q"
  shows "takes (pbind (many k p) f) (concat Xs @ k # K) K' Q"
proof (rule takes_bind)
  have "list_all2 (\<lambda>X Q. parses p X Q) Xs (map R as)" using assms(1) by (simp add: list_all2_map2)
  then show "takes (many k p) (concat Xs @ k # K) (k # K) (list_all2 (\<lambda>R x. R x) (map R as))"
    by (rule takes_many [OF _ assms(2)])
qed (simp add: assms(3) list_all2_map1)

section \<open>Tokens without marks\<close>

text \<open>Tokens in which no parenthesis opens a visibility mark or the definition of a union or a struct.\<close>

definition reserved :: "string list" where
  "reserved = [''pub'', ''read'', ''union'', ''struct'']"

fun unmarked :: "token_kind list \<Rightarrow> bool" where
  "unmarked [] = True"
| "unmarked (k # K) = ((k = LParen \<longrightarrow> (case K of [] \<Rightarrow> False | x # _ \<Rightarrow> x \<notin> Symbol ` set reserved)) \<and> unmarked K)"

lemma unmarked_append: "unmarked X \<Longrightarrow> unmarked Y \<Longrightarrow> unmarked (X @ Y)"
  by (induction X) (auto split: list.splits)

lemma unmarked_concat: "list_all unmarked Xs \<Longrightarrow> unmarked (concat Xs)"
  by (induction Xs) (simp_all add: unmarked_append)

text \<open>Tokens whose brackets close: what closes around them closes after them.\<close>

definition balanced :: "token_kind list \<Rightarrow> bool" where
  "balanced X \<longleftrightarrow>
     (\<forall>d ts Y. 0 < d \<longrightarrow> map tk_kind ts = X @ Y \<longrightarrow> after_close d ts = after_close d (drop (length X) ts))"

lemma balancedD: "balanced X \<Longrightarrow> 0 < d \<Longrightarrow> map tk_kind ts = X @ Y \<Longrightarrow> after_close d ts = after_close d (drop (length X) ts)"
  by (simp add: balanced_def)

lemma balanced_Nil: "balanced []"
  by (simp add: balanced_def)

lemma balanced_Cons: "k \<notin> {LParen, RParen, LBracket, RBracket} \<Longrightarrow> balanced K \<Longrightarrow> balanced (k # K)"
  by (auto simp: balanced_def)

lemma balanced_append: "balanced X \<Longrightarrow> balanced Y \<Longrightarrow> balanced (X @ Y)"
proof -
  assume X: "balanced X" and Y: "balanced Y"
  show "balanced (X @ Y)"
    unfolding balanced_def
  proof (intro allI impI)
    fix d and ts :: "token list" and Z assume d: "(0::nat) < d" and ts: "map tk_kind ts = (X @ Y) @ Z"
    have "map tk_kind (drop (length X) ts) = Y @ Z" by (simp add: ts flip: drop_map)
    with balancedD [OF X d, of ts "Y @ Z"] balancedD [OF Y d] ts
    show "after_close d ts = after_close d (drop (length (X @ Y)) ts)" by (simp add: add.commute)
  qed
qed

lemma balanced_concat: "list_all balanced Xs \<Longrightarrow> balanced (concat Xs)"
  by (induction Xs) (simp_all add: balanced_Nil balanced_append)

lemma balanced_wrap:
  assumes "balanced X" "(k, k') \<in> {(LParen, RParen), (LBracket, RBracket)}"
  shows "balanced (k # X @ [k'])"
  unfolding balanced_def
proof (intro allI impI)
  fix d and ts :: "token list" and Z assume d: "(0::nat) < d" and ts: "map tk_kind ts = (k # X @ [k']) @ Z"
  then obtain t r where t: "ts = t # r" "tk_kind t = k" "map tk_kind r = X @ k' # Z" by auto
  have "map tk_kind (drop (length X) r) = k' # Z" by (simp add: t(3) flip: drop_map)
  then obtain u v where u: "drop (length X) r = u # v" "tk_kind u = k'" by auto
  have "after_close (d + 1) r = after_close (d + 1) (drop (length X) r)"
    by (rule balancedD [OF assms(1) _ t(3)]) simp
  moreover have "drop (Suc (length X)) r = v" using u(1) by (metis drop_Suc_Cons drop0 drop_drop plus_1_eq_Suc)
  ultimately show "after_close d ts = after_close d (drop (length (k # X @ [k'])) ts)"
    using t(1,2) u assms(2) d by auto
qed

section \<open>Types\<close>

definition type_name :: "string \<Rightarrow> bool" where
  "type_name n \<longleftrightarrow> plain n \<and> scalar_type n = None \<and> narrow_from_name n = None"

text \<open>The types that print as what the parser reads as them, given the unions and value structs.\<close>

fun type_ok :: "string list \<Rightarrow> string list \<Rightarrow> ty \<Rightarrow> bool" where
  "type_ok us vs (TPtr t) = (case t of TStruct n \<Rightarrow> plain n \<and> scalar_type n = None | _ \<Rightarrow> False)"
| "type_ok us vs (TStruct n) = (type_name n \<and> n \<notin> set us \<and> n \<in> set vs)"
| "type_ok us vs (TUnion n) = (type_name n \<and> n \<in> set us)"
| "type_ok us vs (TEnum n) = (type_name n \<and> n \<notin> set us \<and> n \<notin> set vs \<and> \<not> is_digit (hd n) \<and> hd n \<noteq> CHR ''-'')"
| "type_ok us vs (TArray t) = type_ok us vs t"
| "type_ok us vs (TResult a b) = (type_ok us vs a \<and> type_ok us vs b)"
| "type_ok us vs (TFn ps r _) = (list_all (type_ok us vs) ps \<and> type_ok us vs r)"
| "type_ok us vs _ = True"

text \<open>The text \<open>x\<close> is read as the tokens \<open>X\<close>, which are those of the type \<open>t\<close>.\<close>

definition type_back :: "parse_ctx \<Rightarrow> string \<Rightarrow> token_kind list \<Rightarrow> ty \<Rightarrow> bool" where
  "type_back px x X t \<longleftrightarrow> reads_as x X \<and> unmarked X \<and> balanced X \<and> parses (parse_type px) X (\<lambda>u. u = t)"

lemma takes_type: "takes (parse_type_with px (parse_type px)) K K' R \<Longrightarrow> takes (parse_type px) K K' R"
  by (subst parse_type_unfold)

lemma type_back_symbol:
  assumes "named_type px n = Some t" "plain n"
  shows "type_back px n [Symbol n] t"
proof -
  have "takes (parse_type px) (Symbol n # Y) Y (\<lambda>u. u = t)" for Y
    unfolding parse_type_with_def using assms(1)
    by (intro takes_type [unfolded parse_type_with_def] takes_cur_pos takes_next) (simp add: takes_pret)
  with assms(2) show ?thesis
    by (simp add: type_back_def parses_def reads_plain balanced_Cons balanced_Nil)
qed

lemma type_back_form:
  assumes "reads_as x (LParen # Symbol h # Z @ [RParen])" "unmarked Z" "balanced Z" "h \<notin> set reserved"
    "\<And>Y sp. takes (parse_compound px (parse_type px) sp h) (Z @ RParen # Y) Y (\<lambda>u. u = t)"
  shows "type_back px x (LParen # Symbol h # Z @ [RParen]) t"
proof -
  have "unmarked (LParen # Symbol h # Z @ [RParen])" using assms(2,4) by (auto intro: unmarked_append)
  moreover have "balanced (LParen # (Symbol h # Z) @ [RParen])" using assms(3) by (intro balanced_wrap balanced_Cons) auto
  moreover have "takes (parse_type px) (LParen # Symbol h # Z @ RParen # Y) Y (\<lambda>u. u = t)" for Y
    by (intro takes_type [unfolded parse_type_with_def] takes_cur_pos takes_next)
      (simp add: takes_symbol assms(5))
  ultimately show ?thesis using assms(1) by (simp add: type_back_def parses_def)
qed

lemma type_backD:
  assumes "type_back px x X t"
  shows "reads_as x X" "unmarked X" "balanced X" "parses (parse_type px) X (\<lambda>u. u = t)"
  using assms by (simp_all add: type_back_def)

lemma list_all2_obtain:
  assumes "\<forall>x \<in> set xs. \<exists>y. P x y"
  obtains ys where "list_all2 P xs ys"
proof -
  have "\<exists>f. \<forall>x \<in> set xs. P x (f x)" using assms by (intro bchoice)
  then obtain f where f: "\<forall>x \<in> set xs. P x (f x)" by blast
  then have "list_all2 P xs (map f xs)" by (simp add: list_all2_conv_all_nth)
  then show ?thesis by (rule that)
qed

lemma list_all2_same_eq: "list_all2 (\<lambda>t u. u = t) xs ys \<longleftrightarrow> ys = xs"
  by (auto simp: list_all2_conv_all_nth intro: nth_equalityI)

lemma reads_heads [simp]: "w \<in> set head_words \<Longrightarrow> reads_as w [Symbol w]"
  by (intro reads_plain plain_head_word)

lemma reads_arrow [simp]: "reads_as ''->'' [Arrow]"
  by (intro reads_word graphic_lexical) (simp_all add: graphic_def word_kind_def)

lemma type_back_name: "type_name n \<Longrightarrow> named_type px n = Some t \<Longrightarrow> type_back px n [Symbol n] t"
  by (simp add: type_name_def type_back_symbol)

lemma type_back_keyword: "w \<in> set head_words \<Longrightarrow> named_type px w = Some t \<Longrightarrow> type_back px w [Symbol w] t"
  by (simp add: plain_head_word type_back_symbol)

text \<open>Every such type is read back.\<close>

lemma type_reads_back:
  "type_ok us vs t \<Longrightarrow> px_unions px = us \<Longrightarrow> px_values px = vs \<Longrightarrow> \<exists>X. type_back px (type_str t) X t"
proof (induction t)
  case (TPtr t)
  then obtain n where t: "t = TStruct n" and n: "plain n" "scalar_type n = None" by (auto split: ty.splits)
  have "type_back px (form [''ptr'', n]) (LParen # Symbol ''ptr'' # [Symbol n] @ [RParen]) (TPtr t)"
    using reads_form [of "[''ptr'', n]" "[[Symbol ''ptr''], [Symbol n]]"]
    by (intro type_back_form)
      (auto simp: n t reads_plain head_words_def reserved_def balanced_Cons balanced_Nil parse_compound_def parse_ptr_type_def
        intro!: takes_symbol takes_kind takes_pret)
  then show ?case by (auto simp: form_def t)
next
  case (TArray t)
  then obtain X where X: "type_back px (type_str t) X t" by auto
  have "type_back px (form [''arr'', type_str t]) (LParen # Symbol ''arr'' # X @ [RParen]) (TArray t)"
    using reads_form [of "[''arr'', type_str t]" "[[Symbol ''arr''], X]"] type_backD [OF X]
    by (intro type_back_form)
      (auto simp: head_words_def reserved_def parse_compound_def parse_arr_type_def
        intro!: takes_parse takes_peek_kind takes_kind takes_pret)
  then show ?case by (auto simp: form_def)
next
  case (TResult a b)
  then obtain A B where A: "type_back px (type_str a) A a" and B: "type_back px (type_str b) B b" by auto
  have "type_back px (form [''result'', type_str a, type_str b]) (LParen # Symbol ''result'' # (A @ B) @ [RParen]) (TResult a b)"
    using reads_form [of "[''result'', type_str a, type_str b]" "[[Symbol ''result''], A, B]"] type_backD [OF A] type_backD [OF B]
    by (intro type_back_form)
      (auto simp: head_words_def reserved_def parse_compound_def parse_result_type_def unmarked_append balanced_append
        intro!: takes_parse takes_kind takes_pret)
  then show ?case by (auto simp: form_def)
next
  case (TFn ps r no_leak)
  have "\<forall>p \<in> set ps. \<exists>X. type_back px (type_str p) X p" using TFn by (auto simp: list_all_iff)
  then obtain Ps where Ps: "list_all2 (\<lambda>p X. type_back px (type_str p) X p) ps Ps" by (rule list_all2_obtain)
  then have P: "list_all2 reads_as (map type_str ps) Ps" "list_all unmarked Ps" "list_all balanced Ps"
    "list_all2 (\<lambda>X t. parses (parse_type px) X (\<lambda>u. u = t)) Ps ps"
    unfolding type_back_def by (auto simp: list_all2_conv_all_nth list_all_length)
  obtain R where R: "type_back px (type_str r) R r" using TFn by auto
  let ?mark = "if no_leak then [form [''no_leak'']] else []" and ?Mark = "if no_leak then [[LParen, Symbol ''no_leak'', RParen]] else []"
  have "list_all2 reads_as (''fn'' # vector (map type_str ps) # ''->'' # type_str r # ?mark)
      ([Symbol ''fn''] # (LBracket # concat Ps @ [RBracket]) # [Arrow] # R # ?Mark)"
    using reads_form [of "[''no_leak'']" "[[Symbol ''no_leak'']]"] reads_vector [OF P(1)] type_backD [OF R]
    by (simp add: head_words_def)
  note reads = reads_form [OF this]
  have "takes (parse_fn_type px (parse_type px)) (LBracket # concat Ps @ RBracket # Arrow # R @ concat ?Mark @ RParen # Y) Y
      (\<lambda>u. u = TFn ps r no_leak)" for Y
    unfolding parse_fn_type_def
    by (cases no_leak; simp; intro takes_kind takes_parts [OF P(4)] takes_parse [OF type_backD(4) [OF R]] takes_peek_kind)
      (auto simp: list_all2_same_eq intro!: takes_kind takes_cur_pos takes_symbol takes_pret)
  with reads have "type_back px (form (''fn'' # vector (map type_str ps) # ''->'' # type_str r # ?mark))
     (LParen # Symbol ''fn'' # (LBracket # concat Ps @ RBracket # Arrow # R @ concat ?Mark) @ [RParen]) (TFn ps r no_leak)"
  proof (intro type_back_form)
    show "balanced (LBracket # concat Ps @ RBracket # Arrow # R @ concat ?Mark)"
      using balanced_append [OF balanced_wrap [OF balanced_concat [OF P(3)]] balanced_Cons [of Arrow "R @ concat ?Mark"], of LBracket RBracket]
        type_backD [OF R] balanced_wrap [of "[Symbol ''no_leak'']" LParen RParen]
      by (auto simp: balanced_append balanced_Nil balanced_Cons)
  qed (use type_backD [OF R] P(2) in \<open>auto simp: reserved_def unmarked_append unmarked_concat parse_compound_def\<close>)
  then show ?case by (auto simp: form_def vector_def)
next
  case (TNarrow n)
  then show ?case
    using type_back_keyword [of "narrow_name n" px "TNarrow n"]
    by (cases n) (auto simp: head_words_def named_type_def scalar_type_def narrow_from_name_def)
next
  case (TStruct n)
  then show ?case using type_back_name [of n px "TStruct n"] by (auto simp: named_type_def type_name_def)
next
  case (TUnion n)
  then show ?case using type_back_name [of n px "TUnion n"] by (auto simp: named_type_def type_name_def)
next
  case (TEnum n)
  then have "n \<noteq> []" by (auto simp: type_name_def plain_def lexical_def)
  with TEnum show ?case using type_back_name [of n px "TEnum n"] by (auto simp: named_type_def type_name_def)
qed (rule exI, simp, rule type_back_keyword; simp add: head_words_def named_type_def scalar_type_def)+

end
