(* ===== verification/Form_Heads.thy ===== *)
theory Form_Heads
  imports Read_Back
begin

text \<open>The heads of the parser's forms, apart from the names of operations.\<close>

section \<open>Heads of forms\<close>

text \<open>The heads the parser knows a form by; no operation has one of them as its name.\<close>

definition form_heads :: "string list" where
  "form_heads =
     [''let'', ''set!'', ''if'', ''counted_loop'', ''for'', ''when'', ''while'', ''call'', ''ok'', ''err'', ''make'', ''match'',
      ''block'', ''unsafe'', ''match_result'', ''get'', ''with'', ''put'', ''sizeof'', ''return'', ''break'', ''continue'',
      ''cond'', ''ref'', ''call_ref'', ''arr.len'', ''ptr.null'', ''arr.null'', ''ptr.cast'', ''arr.cast'', ''ptr.make'',
      ''arr.make'', ''enum.cast'', ''ptr.addr'', ''arr.addr'', ''enum.ord'', ''ptr.gen'', ''arr.gen'', ''arr.get'', ''arr.set'',
      ''mem.free'', ''mem.load_f32'', ''mem.load_f64'', ''mem.store_f32'', ''mem.store_f64'']"

definition clause_heads :: "string list" where
  "clause_heads = [''req'', ''ens'', ''inv'', ''no_leak'']"

lemma op_table_heads:
  "list_all (\<lambda>(n, op). n \<notin> set form_heads \<and> n \<notin> set reserved \<and> n \<notin> set clause_heads \<and> \<not> prefix ''ok:'' n \<and> \<not> prefix ''err:'' n)
     op_table"
  unfolding op_table_def form_heads_def reserved_def clause_heads_def by simp

lemma op_name_heads:
  "op_name op \<notin> set form_heads" "op_name op \<notin> set reserved" "op_name op \<notin> set clause_heads"
  "\<not> prefix ''ok:'' (op_name op)" "\<not> prefix ''err:'' (op_name op)"
  using op_table_heads op_named [of op] by (auto simp: list_all_iff)

lemma parse_form_other:
  "h \<notin> set form_heads \<Longrightarrow> \<not> prefix ''ok:'' h \<Longrightarrow> \<not> prefix ''err:'' h \<Longrightarrow> parse_form px pe h sp = parse_operator pe h sp"
  by (simp add: parse_form_def form_heads_def)

end
