(* ===== verification/Read_Exprs.thy ===== *)
theory Read_Exprs
  imports Form_Heads
begin

text \<open>
  Expressions are read back: \<open>readable\<close> lists what the printer writes so that the parser reads the same
  expression, and every such expression is, up to the places in the text. What it leaves out is what
  the text cannot say: an \<^verbatim>\<open>if\<close> whose else branch is an empty block (written as a \<^verbatim>\<open>when\<close>), a float that
  is not finite, an integer out of the parser's range, and names that are not words.
\<close>

section \<open>Expressions up to their places\<close>

definition nowhere :: span where
  "nowhere = (0, 0)"

fun erase :: "expr \<Rightarrow> expr"
and erase_arm :: "match_arm \<Rightarrow> match_arm" where
  "erase (ELit l _) = ELit l nowhere"
| "erase (EVar n _) = EVar n nowhere"
| "erase (ELet n t v _) = ELet n t (erase v) nowhere"
| "erase (ESet n v _) = ESet n (erase v) nowhere"
| "erase (EIf c a b _) = EIf (erase c) (erase a) (erase b) nowhere"
| "erase (ELoop x a b s body _) = ELoop x (erase a) (erase b) (erase s) (map erase body) nowhere"
| "erase (EWhile c body _) = EWhile (erase c) (map erase body) nowhere"
| "erase (ECall f args _) = ECall f (map erase args) nowhere"
| "erase (EOp op args _) = EOp op (map erase args) nowhere"
| "erase (EOk v t _) = EOk (erase v) t nowhere"
| "erase (EErr v t _) = EErr (erase v) t nowhere"
| "erase (EMatchResult e okv okb errv errb _) = EMatchResult (erase e) okv (map erase okb) errv (map erase errb) nowhere"
| "erase (EBlock body _) = EBlock (map erase body) nowhere"
| "erase (EUnsafe body _) = EUnsafe (map erase body) nowhere"
| "erase (EGetField st f p _) = EGetField st f (erase p) nowhere"
| "erase (EPutField st f p v path _) = EPutField st f (erase p) (erase v) path nowhere"
| "erase (ESizeof t _) = ESizeof t nowhere"
| "erase (EArrGet t p i _) = EArrGet t (erase p) (erase i) nowhere"
| "erase (EArrSet t p i v path _) = EArrSet t (erase p) (erase i) (erase v) path nowhere"
| "erase (EArrLen a _) = EArrLen (erase a) nowhere"
| "erase (ENull t _) = ENull t nowhere"
| "erase (ECast t a g _) = ECast t (erase a) (map_option erase g) nowhere"
| "erase (ERecord n args _) = ERecord n (map erase args) nowhere"
| "erase (EWith st f v n _) = EWith st f (erase v) (erase n) nowhere"
| "erase (EMake u v args _) = EMake u v (map erase args) nowhere"
| "erase (EMatch v arms els _) = EMatch (erase v) (map erase_arm arms) (map_option (map erase) els) nowhere"
| "erase (EReturn v _) = EReturn (map_option erase v) nowhere"
| "erase (EBreak _) = EBreak nowhere"
| "erase (EContinue _) = EContinue nowhere"
| "erase (ERef n _) = ERef n nowhere"
| "erase (ECallRef sig f args _) = ECallRef sig (erase f) (map erase args) nowhere"
| "erase (EAddr v k _) = EAddr (erase v) k nowhere"
| "erase_arm (MatchArm mem bs body _) = MatchArm mem bs (map erase body) nowhere"

definition same :: "expr \<Rightarrow> expr \<Rightarrow> bool" where
  "same e y \<longleftrightarrow> erase y = erase e"

definition same_arm :: "match_arm \<Rightarrow> match_arm \<Rightarrow> bool" where
  "same_arm a y \<longleftrightarrow> erase_arm y = erase_arm a"

lemma same_list: "list_all2 same es ys \<longleftrightarrow> map erase ys = map erase es"
  by (auto simp: same_def list_all2_conv_all_nth list_eq_iff_nth_eq)

lemma empty_block_erase: "empty_block (erase e) = empty_block e"
  by (cases e) (auto simp: empty_block_def split: list.split)

lemma same_empty_block: "same e y \<Longrightarrow> empty_block y = empty_block e"
  unfolding same_def using empty_block_erase by metis

section \<open>Printable expressions\<close>

definition lit_ok :: "literal \<Rightarrow> bool" where
  "lit_ok l =
     (case l of
        LInt i \<Rightarrow> - 2147483648 \<le> sint i \<and> sint i \<le> 4294967295
      | LFloat x \<Rightarrow> finite_f64 x
      | LFloat32 x t \<Rightarrow> lexical t \<and> word_kind t = Float32Lit x t
      | _ \<Rightarrow> True)"

definition field_ok :: "string \<Rightarrow> string \<Rightarrow> bool" where
  "field_ok st f \<longleftrightarrow> plain (st @ ''.'' @ f) \<and> split_field (st @ ''.'' @ f) = Some (st, f)"

definition path_ok :: "(string \<times> string) list \<Rightarrow> bool" where
  "path_ok path = list_all (\<lambda>(st, f). field_ok st f) path"

definition sizeof_ok :: "string list \<Rightarrow> string list \<Rightarrow> ty \<Rightarrow> bool" where
  "sizeof_ok us vs t =
     (case t of TStruct n \<Rightarrow> type_name n \<and> n \<notin> set us | TEnum _ \<Rightarrow> False | _ \<Rightarrow> type_ok us vs t)"

definition place_ok :: "string list \<Rightarrow> string list \<Rightarrow> ty \<Rightarrow> bool" where
  "place_ok us vs t = (case t of TPtr (TStruct n) \<Rightarrow> plain n | TArray u \<Rightarrow> type_ok us vs u | _ \<Rightarrow> False)"

definition compound :: "ty \<Rightarrow> bool" where
  "compound t = (case t of TPtr _ \<Rightarrow> True | TArray _ \<Rightarrow> True | TResult _ _ \<Rightarrow> True | TFn _ _ _ \<Rightarrow> True | _ \<Rightarrow> False)"

inductive readable :: "string list \<Rightarrow> string list \<Rightarrow> expr \<Rightarrow> bool"
  and readable_arm :: "string list \<Rightarrow> string list \<Rightarrow> match_arm \<Rightarrow> bool"
  for us vs where
  PLit: "lit_ok l \<Longrightarrow> readable us vs (ELit l sp)"
| PVar: "plain n \<Longrightarrow> readable us vs (EVar n sp)"
| PLet: "plain n \<Longrightarrow> type_ok us vs t \<Longrightarrow> readable us vs v \<Longrightarrow> readable us vs (ELet n t v sp)"
| PSet: "plain n \<Longrightarrow> readable us vs v \<Longrightarrow> readable us vs (ESet n v sp)"
| PIf: "readable us vs c \<Longrightarrow> readable us vs a \<Longrightarrow> readable us vs b \<Longrightarrow> \<not> empty_block a \<Longrightarrow> \<not> empty_block b \<Longrightarrow>
    readable us vs (EIf c a b sp)"
| PWhen: "readable us vs c \<Longrightarrow> \<forall>e \<in> set body. readable us vs e \<Longrightarrow>
    readable us vs (EIf c (EBlock (body @ [EBlock [] sp1]) sp2) (EBlock [] sp3) sp)"
| PLoop: "plain x \<Longrightarrow> readable us vs a \<Longrightarrow> readable us vs b \<Longrightarrow> readable us vs s \<Longrightarrow> \<forall>e \<in> set body. readable us vs e \<Longrightarrow>
    readable us vs (ELoop x a b s body sp)"
| PWhile: "readable us vs c \<Longrightarrow> \<forall>e \<in> set body. readable us vs e \<Longrightarrow> readable us vs (EWhile c body sp)"
| PCall: "plain f \<Longrightarrow> \<forall>e \<in> set args. readable us vs e \<Longrightarrow> readable us vs (ECall f args sp)"
| POp: "\<forall>e \<in> set args. readable us vs e \<Longrightarrow> readable us vs (EOp op args sp)"
| POk: "readable us vs v \<Longrightarrow> \<forall>u. t = Some u \<longrightarrow> type_ok us vs u \<Longrightarrow> readable us vs (EOk v t sp)"
| PErr: "readable us vs v \<Longrightarrow> \<forall>u. t = Some u \<longrightarrow> type_ok us vs u \<Longrightarrow> readable us vs (EErr v t sp)"
| PMatchResult: "readable us vs e \<Longrightarrow> plain okv \<Longrightarrow> plain errv \<Longrightarrow> \<forall>e \<in> set okb. readable us vs e \<Longrightarrow>
    \<forall>e \<in> set errb. readable us vs e \<Longrightarrow> readable us vs (EMatchResult e okv okb errv errb sp)"
| PBlock: "\<forall>e \<in> set body. readable us vs e \<Longrightarrow> readable us vs (EBlock body sp)"
| PUnsafe: "\<forall>e \<in> set body. readable us vs e \<Longrightarrow> readable us vs (EUnsafe body sp)"
| PGet: "field_ok st f \<Longrightarrow> readable us vs p \<Longrightarrow> readable us vs (EGetField st f p sp)"
| PPut: "field_ok st f \<Longrightarrow> path_ok path \<Longrightarrow> readable us vs p \<Longrightarrow> readable us vs v \<Longrightarrow> readable us vs (EPutField st f p v path sp)"
| PSizeof: "sizeof_ok us vs t \<Longrightarrow> readable us vs (ESizeof t sp)"
| PArrGet: "type_ok us vs t \<Longrightarrow> readable us vs p \<Longrightarrow> readable us vs i \<Longrightarrow> readable us vs (EArrGet t p i sp)"
| PArrSet: "type_ok us vs t \<Longrightarrow> path_ok path \<Longrightarrow> readable us vs p \<Longrightarrow> readable us vs i \<Longrightarrow> readable us vs v \<Longrightarrow>
    readable us vs (EArrSet t p i v path sp)"
| PArrLen: "readable us vs a \<Longrightarrow> readable us vs (EArrLen a sp)"
| PNull: "place_ok us vs t \<Longrightarrow> readable us vs (ENull t sp)"
| PCast: "place_ok us vs t \<or> (\<exists>n. t = TEnum n \<and> plain n) \<Longrightarrow> readable us vs a \<Longrightarrow> readable us vs (ECast t a None sp)"
| PMakePtr: "place_ok us vs t \<Longrightarrow> readable us vs a \<Longrightarrow> readable us vs g \<Longrightarrow> readable us vs (ECast t a (Some g) sp)"
| PRecord: "plain n \<Longrightarrow> n \<in> set vs \<Longrightarrow> \<forall>e \<in> set args. readable us vs e \<Longrightarrow> readable us vs (ERecord n args sp)"
| PWith: "field_ok st f \<Longrightarrow> readable us vs v \<Longrightarrow> readable us vs n \<Longrightarrow> readable us vs (EWith st f v n sp)"
| PMake: "field_ok u v \<Longrightarrow> u @ ''.'' @ v \<notin> set vs \<Longrightarrow> \<forall>e \<in> set args. readable us vs e \<Longrightarrow> readable us vs (EMake u v args sp)"
| PMatch: "readable us vs v \<Longrightarrow> \<forall>a \<in> set arms. readable_arm us vs a \<Longrightarrow>
    \<forall>body. els = Some body \<longrightarrow> (\<forall>e \<in> set body. readable us vs e) \<Longrightarrow> readable us vs (EMatch v arms els sp)"
| PReturn: "\<forall>e. v = Some e \<longrightarrow> readable us vs e \<Longrightarrow> readable us vs (EReturn v sp)"
| PBreak: "readable us vs (EBreak sp)"
| PContinue: "readable us vs (EContinue sp)"
| PRef: "plain n \<Longrightarrow> readable us vs (ERef n sp)"
| PCallRef: "type_ok us vs sig \<Longrightarrow> compound sig \<Longrightarrow> readable us vs f \<Longrightarrow> \<forall>e \<in> set args. readable us vs e \<Longrightarrow>
    readable us vs (ECallRef sig f args sp)"
| PAddr: "readable us vs v \<Longrightarrow> readable us vs (EAddr v k sp)"
| PArm: "plain mem \<Longrightarrow> mem \<noteq> ''else'' \<Longrightarrow> mem \<notin> set reserved \<Longrightarrow> \<forall>ns. bs = Some ns \<longrightarrow> list_all plain ns \<Longrightarrow>
    \<forall>e \<in> set body. readable us vs e \<Longrightarrow> readable_arm us vs (MatchArm mem bs body sp)"

section \<open>Reading back\<close>

definition part_ok :: "expr \<Rightarrow> token_kind list \<Rightarrow> bool" where
  "part_ok e X \<longleftrightarrow>
     (\<forall>h Z. X = LParen # Symbol h # Z \<longrightarrow>
        h \<notin> set clause_heads \<and> (h = ''unsafe'' \<and> (Z = [] \<or> hd Z = RParen) \<longrightarrow> (\<exists>sp. e = EUnsafe [] sp)))"

definition reads_back :: "parse_ctx \<Rightarrow> expr \<Rightarrow> token_kind list \<Rightarrow> bool" where
  "reads_back px e X \<longleftrightarrow>
     reads_as (expr_str e) X \<and> unmarked X \<and> parses (parse_expr px) X (same e) \<and> part_ok e X"

lemma reads_backD:
  assumes "reads_back px e X"
  shows "reads_as (expr_str e) X" "unmarked X" "parses (parse_expr px) X (same e)" "part_ok e X"
  using assms by (simp_all add: reads_back_def)

lemma reads_back_first: "reads_back px e X \<Longrightarrow> X \<noteq> [] \<and> hd X \<notin> {RParen, LBracket, RBracket, Colon}"
  by (simp add: reads_back_def parses_def)

lemma takes_expr_step: "takes (parse_expr_with px (parse_expr px)) K K' R \<Longrightarrow> takes (parse_expr px) K K' R"
  by (subst parse_expr_unfold)

lemma atom_back:
  assumes "reads_as (expr_str e) [k]" "k \<notin> {LParen, RParen, LBracket, RBracket, Colon}"
    "\<And>t Y. tk_kind t = k \<Longrightarrow> takes (parse_atom t) Y Y (same e)"
  shows "reads_back px e [k]"
proof -
  have "takes (parse_expr px) (k # Y) Y (same e)" for Y
    by (intro takes_expr_step [unfolded parse_expr_with_def] takes_cur_pos takes_next) (use assms(2,3) in simp)
  with assms(1,2) show ?thesis by (auto simp: reads_back_def parses_def part_ok_def)
qed

lemma var_back: "plain n \<Longrightarrow> reads_back px (EVar n sp) [Symbol n]"
  by (rule atom_back) (simp_all add: reads_plain parse_atom_def takes_pret same_def)

lemma form_back_word:
  assumes "expr_str e = form (w # ws)" "reads_as w (Symbol h # W)" "list_all2 reads_as ws Ws" "unmarked W" "list_all unmarked Ws"
    "h \<notin> set reserved" "h \<notin> set clause_heads"
    "h = ''unsafe'' \<Longrightarrow> W @ concat Ws = [] \<or> hd (W @ concat Ws) = RParen \<Longrightarrow> \<exists>sp. e = EUnsafe [] sp"
    "\<And>Y sp. takes (parse_form px (parse_expr px) h sp) (W @ concat Ws @ RParen # Y) (RParen # Y) (same e)"
  shows "\<exists>X. reads_back px e X"
proof -
  let ?X = "LParen # Symbol h # W @ concat Ws @ [RParen]"
  have "reads_as (expr_str e) ?X"
    using reads_form [of "w # ws" "(Symbol h # W) # Ws"] assms(1,2,3) by simp
  moreover have "unmarked ?X" using assms(4,5,6) by (auto intro!: unmarked_append unmarked_concat)
  moreover have "takes (parse_expr px) (LParen # Symbol h # W @ concat Ws @ RParen # Y) Y (same e)" for Y
  proof (intro takes_expr_step [unfolded parse_expr_with_def] takes_cur_pos takes_next)
    fix sp and t :: token assume "tk_kind t = LParen"
    then show "takes (case Some t of None \<Rightarrow> pfail (PUnexpected sp None)
        | Some tok \<Rightarrow> if tk_kind tok = LParen then
              pbind (expect_symbol ''operator or keyword in expr'' (tk_pos tok)) (\<lambda>h.
                pbind (parse_form px (parse_expr px) h (tk_pos tok)) (\<lambda>e. pbind (expect_kind px RParen) (\<lambda>_. pret e)))
            else parse_atom tok)
      (Symbol h # W @ concat Ws @ RParen # Y) Y (same e)"
      by (auto intro!: takes_symbol takes_bind [OF assms(9)] takes_kind takes_pret)
  qed
  moreover have "part_ok e ?X"
    using assms(7,8) by (auto simp: part_ok_def hd_append split: if_splits)
  ultimately have "reads_back px e ?X" by (simp add: reads_back_def parses_def)
  then show ?thesis ..
qed

lemma form_back:
  assumes "expr_str e = form (h # ws)" "list_all2 reads_as ws Ws" "list_all unmarked Ws" "plain h"
    "h \<notin> set reserved" "h \<notin> set clause_heads"
    "h = ''unsafe'' \<Longrightarrow> concat Ws = [] \<or> hd (concat Ws) = RParen \<Longrightarrow> \<exists>sp. e = EUnsafe [] sp"
    "\<And>Y sp. takes (parse_form px (parse_expr px) h sp) (concat Ws @ RParen # Y) (RParen # Y) (same e)"
  shows "\<exists>X. reads_back px e X"
  using assms by (intro form_back_word [where W = "[]" and h = h and w = h]) (simp_all add: reads_plain)

lemma takes_expr:
  "reads_back px e X \<Longrightarrow> (\<And>y. same e y \<Longrightarrow> takes (f y) Y K R) \<Longrightarrow> takes (pbind (parse_expr px) f) (X @ Y) K R"
  by (rule takes_parse [OF reads_backD(3)])

lemma takes_ty:
  "type_back px x X t \<Longrightarrow> takes (f t) Y K R \<Longrightarrow> takes (pbind (parse_type px) f) (X @ Y) K R"
  by (rule takes_parse [OF type_backD(4)]) auto

lemma takes_exprs:
  assumes "list_all2 (reads_back px) es Xs" "\<And>ys. list_all2 same es ys \<Longrightarrow> takes (f ys) (RParen # Y) K R"
  shows "takes (pbind (exprs_to_close (parse_expr px)) f) (concat Xs @ RParen # Y) K R"
  unfolding exprs_to_close_def
  by (rule takes_parts [where R = same and as = es])
    (use assms in \<open>auto simp: list_all2_conv_all_nth reads_back_def\<close>)

lemma takes_no_exprs:
  "(takes (f []) (RParen # Y) K R) \<Longrightarrow> takes (pbind (exprs_to_close (parse_expr px)) f) (RParen # Y) K R"
  using takes_exprs [of px "[]" "[]" f Y K R] by simp

lemma exprs_obtain:
  assumes "\<forall>e \<in> set es. \<exists>X. reads_back px e X"
  obtains Xs where "list_all2 (reads_back px) es Xs" "list_all2 reads_as (map expr_str es) Xs" "list_all unmarked Xs"
proof -
  obtain Xs where "list_all2 (reads_back px) es Xs" using assms by (rule list_all2_obtain)
  then show ?thesis
    by (intro that) (auto simp: reads_back_def list_all2_conv_all_nth list_all_length)
qed

lemma with_body_form: "hs \<noteq> [] \<Longrightarrow> with_body (spaced hs) b = form (hs @ b)"
proof (induction hs rule: spaced.induct)
  case (2 s) then show ?case by (cases b) (simp_all add: with_body_def form_def)
next
  case (3 s t ss) then show ?case by (cases b; simp add: with_body_def form_def)
qed simp

lemma takes_literal:
  assumes "lit_ok l"
  shows "\<exists>X. reads_back px (ELit l sp) X"
proof -
  have *: "\<exists>k. reads_as (lit_str l) [k] \<and> k \<notin> {LParen, RParen, LBracket, RBracket, Colon}
      \<and> (\<forall>t. tk_kind t = k \<longrightarrow> parse_atom t = pret (ELit l (tk_pos t)))"
  proof (cases l)
    case (LInt i) then show ?thesis using assms by (intro exI [of _ "IntLit i"]) (simp add: lit_ok_def lit_str_def parse_atom_def int_literal_def reads_int)
  next
    case (LInt64 i) then show ?thesis by (intro exI [of _ "Int64Lit i"]) (simp add: lit_str_def parse_atom_def reads_int64)
  next
    case (LFloat x) then show ?thesis using assms by (intro exI [of _ "FloatLit x (float_str x)"]) (simp add: lit_ok_def lit_str_def parse_atom_def reads_float)
  next
    case (LFloat32 x t) then show ?thesis using assms by (intro exI [of _ "Float32Lit x t"]) (simp add: lit_ok_def lit_str_def parse_atom_def reads_word)
  next
    case (LBool b)
    have "reads_as (lit_str l) [BoolLit b]"
      unfolding LBool lit_str_def literal.case by (intro reads_word graphic_lexical) (auto simp: graphic_def word_kind_def)
    then show ?thesis using LBool by (intro exI [of _ "BoolLit b"]) (simp add: parse_atom_def)
  next
    case (LStr s) then show ?thesis by (intro exI [of _ "StringLit s"]) (simp add: lit_str_def parse_atom_def reads_string)
  qed
  then obtain k where k: "reads_as (lit_str l) [k]" "k \<notin> {LParen, RParen, LBracket, RBracket, Colon}"
    "\<And>t. tk_kind t = k \<Longrightarrow> parse_atom t = pret (ELit l (tk_pos t))" by blast
  have "reads_back px (ELit l sp) [k]"
    by (rule atom_back) (use k in \<open>simp_all add: takes_pret same_def\<close>)
  then show ?thesis ..
qed

text \<open>The steps of a form, each deterministic, for the parts it is printed with.\<close>

lemmas form_steps = takes_pret takes_cur_pos takes_kind takes_symbol takes_word takes_exprs takes_no_exprs

lemma map_last_butlast: "when_shown (body @ [EBlock [] sp]) (map f (body @ [EBlock [] sp])) = map f body"
  by (simp add: when_shown_def is_empty_block_def)

lemmas plain_heads [simp] = plain_head_words [unfolded head_words_def list.pred_inject]

lemmas back_simps = form_def reads_plain reads_back_def [of _ _ "_ # _"] reserved_def clause_heads_def same_def same_list

lemma let_back:
  assumes "plain n"
    "type_back px (type_str t) T t"
    "reads_back px v V"
  shows "\<exists>X. reads_back px (ELet n t v sp) X"
proof (rule form_back [where h = "''let''" and ws = "[n @ '':'' @ type_str t, expr_str v]" and Ws = "[Symbol n # Colon # T, V]"])
  show "takes (parse_form px (parse_expr px) ''let'' sp') (concat ([Symbol n # Colon # T, V]) @ RParen # Y) (RParen # Y) (same (ELet n t v sp))" for Y sp'
    by (simp add: parse_form_def parse_let_def)
      (intro form_steps takes_expr [OF assms(3)] takes_ty [OF assms(2)]; simp add: same_def same_list)
qed (use assms reads_colon [of n "[Symbol n]"] in \<open>auto simp: back_simps reads_backD type_backD\<close>)

lemma set_back:
  assumes "plain n"
    "reads_back px v V"
  shows "\<exists>X. reads_back px (ESet n v sp) X"
proof (rule form_back [where h = "''set!''" and ws = "[n, expr_str v]" and Ws = "[[Symbol n], V]"])
  show "takes (parse_form px (parse_expr px) ''set!'' sp') (concat ([[Symbol n], V]) @ RParen # Y) (RParen # Y) (same (ESet n v sp))" for Y sp'
    by (simp add: parse_form_def parse_set_def)
      (intro form_steps takes_expr [OF assms(2)]; simp add: same_def same_list)
qed (use assms in \<open>auto simp: back_simps reads_backD type_backD\<close>)

lemma loop_back:
  assumes "plain x"
    "reads_back px a A"
    "reads_back px b B"
    "reads_back px s S"
    "list_all2 (reads_back px) body Xs"
    "list_all2 reads_as (map expr_str body) Xs"
    "list_all unmarked Xs"
  shows "\<exists>X. reads_back px (ELoop x a b s body sp) X"
proof (rule form_back [where h = "''counted_loop''" and ws = "x # expr_str a # expr_str b # expr_str s # map expr_str body" and Ws = "[Symbol x] # A # B # S # Xs"])
  show "takes (parse_form px (parse_expr px) ''counted_loop'' sp') (concat ([Symbol x] # A # B # S # Xs) @ RParen # Y) (RParen # Y) (same (ELoop x a b s body sp))" for Y sp'
    by (simp add: parse_form_def parse_counted_loop_def)
      (intro form_steps takes_expr [OF assms(2)] takes_expr [OF assms(3)] takes_expr [OF assms(4)] takes_exprs [OF assms(5)]; simp add: same_def same_list)
qed (use assms with_body_form [of "[''counted_loop'', x, expr_str a, expr_str b, expr_str s]"] in \<open>auto simp: back_simps reads_backD type_backD\<close>)

lemma while_back:
  assumes "reads_back px c V"
    "list_all2 (reads_back px) body Xs"
    "list_all2 reads_as (map expr_str body) Xs"
    "list_all unmarked Xs"
  shows "\<exists>X. reads_back px (EWhile c body sp) X"
proof (rule form_back [where h = "''while''" and ws = "expr_str c # map expr_str body" and Ws = "V # Xs"])
  show "takes (parse_form px (parse_expr px) ''while'' sp') (concat (V # Xs) @ RParen # Y) (RParen # Y) (same (EWhile c body sp))" for Y sp'
    by (simp add: parse_form_def parse_while_def)
      (intro form_steps takes_expr [OF assms(1)] takes_exprs [OF assms(2)]; simp add: same_def same_list)
qed (use assms with_body_form [of "[''while'', expr_str c]"] in \<open>auto simp: back_simps reads_backD type_backD\<close>)

lemma call_back:
  assumes "plain f"
    "list_all2 (reads_back px) args Xs"
    "list_all2 reads_as (map expr_str args) Xs"
    "list_all unmarked Xs"
  shows "\<exists>X. reads_back px (ECall f args sp) X"
proof (rule form_back [where h = "''call''" and ws = "f # map expr_str args" and Ws = "[Symbol f] # Xs"])
  show "takes (parse_form px (parse_expr px) ''call'' sp') (concat ([Symbol f] # Xs) @ RParen # Y) (RParen # Y) (same (ECall f args sp))" for Y sp'
    by (simp add: parse_form_def parse_call_def)
      (intro form_steps takes_exprs [OF assms(2)]; simp add: same_def same_list)
qed (use assms with_body_form [of "[''call'', f]"] in \<open>auto simp: back_simps reads_backD type_backD\<close>)

lemma op_back:
  assumes "list_all2 (reads_back px) args Xs"
    "list_all2 reads_as (map expr_str args) Xs"
    "list_all unmarked Xs"
  shows "\<exists>X. reads_back px (EOp op args sp) X"
proof (rule form_back [where h = "op_name op" and ws = "map expr_str args" and Ws = Xs])
  show "takes (parse_form px (parse_expr px) (op_name op) sp') (concat Xs @ RParen # Y) (RParen # Y) (same (EOp op args sp))" for Y sp'
    by (simp add: parse_form_other [OF op_name_heads(1,4,5)] parse_operator_def)
      (intro form_steps takes_exprs [OF assms(1)]; simp add: same_def same_list)
  show "op_name op = ''unsafe'' \<Longrightarrow> \<exists>sp'. EOp op args sp = EUnsafe [] sp'"
    using op_name_heads(1) [of op] by (simp add: form_heads_def)
qed (use assms op_name_heads [of op] with_body_form [of "[op_name op]"] in \<open>auto simp: plain_op_name\<close>)

lemma ok_back:
  assumes "reads_back px v V"
  shows "\<exists>X. reads_back px (EOk v None sp) X"
proof (rule form_back [where h = "''ok''" and ws = "[expr_str v]" and Ws = "[V]"])
  have "hd V \<noteq> Colon" using reads_back_first [OF assms] by simp
  then show "takes (parse_form px (parse_expr px) ''ok'' sp') (concat [V] @ RParen # Y) (RParen # Y) (same (EOk v None sp))" for Y sp'
    by (simp add: parse_form_def parse_ok_def explicit_type_def)
      (intro form_steps takes_assoc takes_first [OF reads_backD(3) [OF assms]]; simp;
        intro takes_bind [OF takes_pret [where R = "\<lambda>t. t = None"]] form_steps takes_expr [OF assms(1)]; simp add: same_def)
qed (use assms in \<open>auto simp: back_simps result_head_def reads_backD\<close>)

lemma typed_ok_back:
  assumes "reads_back px v V"
    "type_back px (type_str t) T t"
  shows "\<exists>X. reads_back px (EOk v (Some t) sp) X"
proof (rule form_back_word [where h = "''ok''" and w = "''ok'' @ '':'' @ type_str t" and W = "Colon # T" and ws = "[expr_str v]" and Ws = "[V]"])
  show "takes (parse_form px (parse_expr px) ''ok'' sp') ((Colon # T) @ concat [V] @ RParen # Y) (RParen # Y) (same (EOk v (Some t) sp))" for Y sp'
    by (simp add: parse_form_def parse_ok_def explicit_type_def)
      (intro takes_assoc takes_peek_kind; simp;
        intro takes_assoc takes_next takes_ty [OF assms(2)] takes_bind [OF takes_pret [where R = "\<lambda>u. u = Some t"]] form_steps takes_expr [OF assms(1)];
        simp add: same_def)
qed (use assms reads_colon [of "''ok''" "[Symbol ''ok'']"] in \<open>auto simp: back_simps result_head_def reads_backD type_backD\<close>)

lemma err_back:
  assumes "reads_back px v V"
  shows "\<exists>X. reads_back px (EErr v None sp) X"
proof (rule form_back [where h = "''err''" and ws = "[expr_str v]" and Ws = "[V]"])
  have "hd V \<noteq> Colon" using reads_back_first [OF assms] by simp
  then show "takes (parse_form px (parse_expr px) ''err'' sp') (concat [V] @ RParen # Y) (RParen # Y) (same (EErr v None sp))" for Y sp'
    by (simp add: parse_form_def parse_err_def explicit_type_def)
      (intro form_steps takes_assoc takes_first [OF reads_backD(3) [OF assms]]; simp;
        intro takes_bind [OF takes_pret [where R = "\<lambda>t. t = None"]] form_steps takes_expr [OF assms(1)]; simp add: same_def)
qed (use assms in \<open>auto simp: back_simps result_head_def reads_backD\<close>)

lemma typed_err_back:
  assumes "reads_back px v V"
    "type_back px (type_str t) T t"
  shows "\<exists>X. reads_back px (EErr v (Some t) sp) X"
proof (rule form_back_word [where h = "''err''" and w = "''err'' @ '':'' @ type_str t" and W = "Colon # T" and ws = "[expr_str v]" and Ws = "[V]"])
  show "takes (parse_form px (parse_expr px) ''err'' sp') ((Colon # T) @ concat [V] @ RParen # Y) (RParen # Y) (same (EErr v (Some t) sp))" for Y sp'
    by (simp add: parse_form_def parse_err_def explicit_type_def)
      (intro takes_assoc takes_peek_kind; simp;
        intro takes_assoc takes_next takes_ty [OF assms(2)] takes_bind [OF takes_pret [where R = "\<lambda>u. u = Some t"]] form_steps takes_expr [OF assms(1)];
        simp add: same_def)
qed (use assms reads_colon [of "''err''" "[Symbol ''err'']"] in \<open>auto simp: back_simps result_head_def reads_backD type_backD\<close>)

text \<open>The arms of a match on a result.\<close>

lemma takes_result_arm:
  assumes "list_all2 (reads_back px) es Xs" "\<And>ys. list_all2 same es ys \<Longrightarrow> takes (f (x, ys)) Y K R"
  shows "takes (pbind (parse_result_arm px (parse_expr px) sp w) f) (LParen # Symbol w # Symbol x # concat Xs @ RParen # Y) K R"
  unfolding parse_result_arm_def
  by (intro takes_assoc form_steps takes_exprs [OF assms(1)] takes_bind [OF takes_pret [where R = "\<lambda>r. r = (x, ys)" for ys]])
    (auto intro: assms(2))

lemma match_result_back:
  assumes "reads_back px e V"
    "plain okv"
    "plain errv"
    "list_all2 (reads_back px) okb Xs"
    "list_all2 reads_as (map expr_str okb) Xs"
    "list_all unmarked Xs"
    "list_all2 (reads_back px) errb Zs"
    "list_all2 reads_as (map expr_str errb) Zs"
    "list_all unmarked Zs"
  shows "\<exists>X. reads_back px (EMatchResult e okv okb errv errb sp) X"
proof -
  let ?ws = "[expr_str e, form ([''ok'', okv] @ map expr_str okb), form ([''err'', errv] @ map expr_str errb)]"
  let ?A = "LParen # concat ([[Symbol ''ok''], [Symbol okv]] @ Xs) @ [RParen]" and ?B = "LParen # concat ([[Symbol ''err''], [Symbol errv]] @ Zs) @ [RParen]"
  have r: "list_all2 reads_as ([''ok'', okv] @ map expr_str okb) ([[Symbol ''ok''], [Symbol okv]] @ Xs)"
    "list_all2 reads_as ([''err'', errv] @ map expr_str errb) ([[Symbol ''err''], [Symbol errv]] @ Zs)"
    using assms by (simp_all add: reads_plain)
  show ?thesis
  proof (rule form_back [where h = "''match_result''" and ws = ?ws and Ws = "[V, ?A, ?B]"])
    show "takes (parse_form px (parse_expr px) ''match_result'' sp') (concat [V, ?A, ?B] @ RParen # Y) (RParen # Y)
      (same (EMatchResult e okv okb errv errb sp))" for Y sp'
      by (simp add: parse_form_def parse_match_result_def)
        (intro takes_expr [OF assms(1)] takes_result_arm [OF assms(4)]; simp;
          intro takes_result_arm [OF assms(7)]; simp add: takes_pret same_def same_list)
  next
    show "expr_str (EMatchResult e okv okb errv errb sp) = form (''match_result'' # ?ws)"
      using with_body_form [of "[''ok'', okv]" "map expr_str okb"] with_body_form [of "[''err'', errv]" "map expr_str errb"]
      by (simp add: form_def)
  qed (use assms reads_form [OF r(1)] reads_form [OF r(2)] in \<open>auto simp: reads_backD reserved_def clause_heads_def
        intro!: unmarked_append unmarked_concat\<close>)
qed

lemma block_back:
  assumes "list_all2 (reads_back px) body Xs"
    "list_all2 reads_as (map expr_str body) Xs"
    "list_all unmarked Xs"
  shows "\<exists>X. reads_back px (EBlock body sp) X"
proof (rule form_back [where h = "''block''" and ws = "map expr_str body" and Ws = "Xs"])
  show "takes (parse_form px (parse_expr px) ''block'' sp') (concat (Xs) @ RParen # Y) (RParen # Y) (same (EBlock body sp))" for Y sp'
    by (simp add: parse_form_def parse_block_def)
      (intro form_steps takes_exprs [OF assms(1)]; simp add: same_def same_list)
qed (use assms with_body_form [of "[''block'']"] in \<open>auto simp: back_simps reads_backD type_backD\<close>)

lemma unsafe_back:
  assumes "list_all2 (reads_back px) body Xs"
    "list_all2 reads_as (map expr_str body) Xs"
    "list_all unmarked Xs"
  shows "\<exists>X. reads_back px (EUnsafe body sp) X"
proof (rule form_back [where h = "''unsafe''" and ws = "map expr_str body" and Ws = "Xs"])
  show "takes (parse_form px (parse_expr px) ''unsafe'' sp') (concat Xs @ RParen # Y) (RParen # Y) (same (EUnsafe body sp))" for Y sp'
    by (simp add: parse_form_def parse_block_def)
      (intro form_steps takes_exprs [OF assms(1)]; simp add: same_def same_list)
  show "\<exists>sp'. EUnsafe body sp = EUnsafe [] sp'" if "concat Xs = [] \<or> hd (concat Xs) = RParen"
  proof (cases body)
    case (Cons e es)
    then obtain X Ys where "Xs = X # Ys" "reads_back px e X" using assms(1) by (auto simp: list_all2_Cons1)
    then show ?thesis using that reads_back_first [of px e X] by simp
  qed simp
qed (use assms with_body_form [of "[''unsafe'']"] in \<open>auto simp: back_simps\<close>)

lemma takes_none: "takes (f []) (RParen # Y) K R \<Longrightarrow> takes (pbind (many RParen p) f) (RParen # Y) K R"
  using takes_parts [where Xs = "[]" and as = "[]" and k = RParen and R = "\<lambda>_ _. True"] by simp

text \<open>A field by the struct's name and its own.\<close>

lemma takes_field_name:
  "field_ok st f \<Longrightarrow> takes (g (st, f)) K K' R \<Longrightarrow> takes (pbind (field_ref w sp) g) (Symbol (st @ ''.'' @ f) # K) K' R"
  by (rule takes_field) (simp_all add: field_ok_def)

lemma field_ok_plain: "field_ok st f \<Longrightarrow> plain (st @ ''.'' @ f)"
  by (simp add: field_ok_def)

lemma get_back:
  assumes "field_ok st f"
    "reads_back px p V"
  shows "\<exists>X. reads_back px (EGetField st f p sp) X"
proof (rule form_back [where h = "''get''" and ws = "[expr_str p, st @ ''.'' @ f]" and Ws = "[V, [Symbol (st @ ''.'' @ f)]]"])
  show "takes (parse_form px (parse_expr px) ''get'' sp') (concat ([V, [Symbol (st @ ''.'' @ f)]]) @ RParen # Y) (RParen # Y) (same (EGetField st f p sp))" for Y sp'
    by (simp add: parse_form_def parse_get_def)
      (intro takes_expr [OF assms(2)] takes_field_name [OF assms(1), simplified]; simp; intro takes_none takes_pret; simp add: same_def)
qed (use assms field_ok_plain [OF assms(1)] in \<open>auto simp: back_simps reads_backD type_backD\<close>)

lemma with_back:
  assumes "field_ok st f"
    "reads_back px v V"
    "reads_back px n N"
  shows "\<exists>X. reads_back px (EWith st f v n sp) X"
proof (rule form_back [where h = "''with''" and ws = "[expr_str v, st @ ''.'' @ f, expr_str n]" and Ws = "[V, [Symbol (st @ ''.'' @ f)], N]"])
  show "takes (parse_form px (parse_expr px) ''with'' sp') (concat ([V, [Symbol (st @ ''.'' @ f)], N]) @ RParen # Y) (RParen # Y) (same (EWith st f v n sp))" for Y sp'
    by (simp add: parse_form_def parse_with_def)
      (intro takes_expr [OF assms(2)] takes_field_name [OF assms(1), simplified]; simp; intro takes_expr [OF assms(3)] takes_pret; simp add: same_def)
qed (use assms field_ok_plain [OF assms(1)] in \<open>auto simp: back_simps reads_backD type_backD\<close>)

text \<open>A path to a field of a nested value, and the value put there.\<close>

definition path_words :: "(string \<times> string) list \<Rightarrow> string list" where
  "path_words path = map (\<lambda>(st, f). st @ ''.'' @ f) path"

lemma spaced_path: "spaced (x # path_words path @ [v]) = x @ path_str path @ '' '' @ v"
proof (induction path arbitrary: x)
  case (Cons q path)
  then show ?case by (cases q) (simp add: path_words_def path_str_def)
qed (simp add: path_words_def path_str_def)

lemma path_items_words:
  "path_ok path \<Longrightarrow> map erase ys = map (\<lambda>w. EVar w nowhere) (path_words path) \<Longrightarrow> path_items w ys = Inr path"
proof (induction path arbitrary: ys)
  case (Cons q path)
  obtain st f where q: "q = (st, f)" by fastforce
  obtain y zs where ys: "ys = y # zs" "erase y = EVar (st @ ''.'' @ f) nowhere" "map erase zs = map (\<lambda>w. EVar w nowhere) (path_words path)"
    using Cons.prems(2) by (auto simp: q path_words_def)
  then obtain sp where "y = EVar (st @ ''.'' @ f) sp" by (cases y) auto
  with Cons ys q show ?case by (simp add: path_ok_def path_item_def field_ok_def)
qed (simp add: path_words_def)

lemma takes_path:
  assumes "path_ok path" "reads_back px v V" "\<And>y. same v y \<Longrightarrow> takes (f (path, y)) (RParen # Y) K R"
  shows "takes (pbind (path_and_value (parse_expr px) w sp) f)
    (map Symbol (path_words path) @ V @ RParen # Y) K R"
proof -
  let ?es = "map (\<lambda>w. EVar w nowhere) (path_words path) @ [v]" and ?Xs = "map (\<lambda>w. [Symbol w]) (path_words path) @ [V]"
  have "list_all plain (path_words path)" using assms(1) by (auto simp: path_ok_def path_words_def list_all_iff field_ok_def)
  then have "list_all2 (reads_back px) ?es ?Xs"
    using assms(2) by (auto simp: list_all2_append list_all2_conv_all_nth [of _ "map _ _"] list_all_length intro: var_back)
  moreover have "takes (pbind (if ys = [] then pfail (PNeedsValue sp w)
        else (case path_items w (butlast ys) of Inl e \<Rightarrow> pfail e | Inr path \<Rightarrow> pret (path, List.last ys))) f) (RParen # Y) K R"
    if "list_all2 same ?es ys" for ys
  proof -
    have ys: "map erase ys = map (\<lambda>w. EVar w nowhere) (path_words path) @ [erase v]" using that by (simp add: same_list)
    then obtain zs y where y: "ys = zs @ [y]" "erase y = erase v" "map erase zs = map (\<lambda>w. EVar w nowhere) (path_words path)"
      by (auto simp: map_eq_append_conv)
    then have "path_items w zs = Inr path" using path_items_words [OF assms(1)] by blast
    with y show ?thesis
      using assms(3) [of y] by (simp add: same_def takes_bind [OF takes_pret [where R = "\<lambda>x. x = (path, y)"]])
  qed
  ultimately have "takes (pbind (exprs_to_close (parse_expr px)) (\<lambda>ys. pbind (if ys = [] then pfail (PNeedsValue sp w)
        else (case path_items w (butlast ys) of Inl e \<Rightarrow> pfail e | Inr path \<Rightarrow> pret (path, List.last ys))) f)) (concat ?Xs @ RParen # Y) K R"
    by (rule takes_exprs)
  then show ?thesis unfolding path_and_value_def by (intro takes_assoc) simp
qed

lemma path_reads:
  assumes "path_ok path"
  shows "list_all2 reads_as (path_words path) (map (\<lambda>w. [Symbol w]) (path_words path))"
    "list_all unmarked (map (\<lambda>w. [Symbol w]) (path_words path))"
  using assms by (auto simp: path_ok_def path_words_def list_all_iff field_ok_def list_all2_conv_all_nth split_beta
      intro!: reads_plain dest: nth_mem)

lemma put_back:
  assumes "field_ok st f"
    "path_ok path"
    "reads_back px p V"
    "reads_back px v U"
  shows "\<exists>X. reads_back px (EPutField st f p v path sp) X"
proof (rule form_back [where h = "''put''" and ws = "expr_str p # (st @ ''.'' @ f) # path_words path @ [expr_str v]" and Ws = "V # [Symbol (st @ ''.'' @ f)] # map (\<lambda>w. [Symbol w]) (path_words path) @ [U]"])
  show "takes (parse_form px (parse_expr px) ''put'' sp') (concat (V # [Symbol (st @ ''.'' @ f)] # map (\<lambda>w. [Symbol w]) (path_words path) @ [U]) @ RParen # Y) (RParen # Y) (same (EPutField st f p v path sp))" for Y sp'
    by (simp add: parse_form_def parse_put_def)
      (intro takes_expr [OF assms(3)] takes_field_name [OF assms(1), simplified]; simp; intro takes_path [OF assms(2,4)]; simp add: takes_pret same_def)
qed (use assms field_ok_plain [OF assms(1)] path_reads [OF assms(2)] spaced_path [of "st @ ''.'' @ f" path "expr_str v"] in \<open>auto simp: back_simps reads_backD type_backD list_all2_appendI\<close>)

lemma arr_set_back:
  assumes "type_back px (type_str t) T t"
    "path_ok path"
    "reads_back px p V"
    "reads_back px i I"
    "reads_back px v U"
  shows "\<exists>X. reads_back px (EArrSet t p i v path sp) X"
proof (rule form_back [where h = "''arr.set''" and ws = "type_str t # expr_str p # expr_str i # path_words path @ [expr_str v]" and Ws = "T # V # I # map (\<lambda>w. [Symbol w]) (path_words path) @ [U]"])
  show "takes (parse_form px (parse_expr px) ''arr.set'' sp') (concat (T # V # I # map (\<lambda>w. [Symbol w]) (path_words path) @ [U]) @ RParen # Y) (RParen # Y) (same (EArrSet t p i v path sp))" for Y sp'
    by (simp add: parse_form_def parse_arr_set_def)
      (intro takes_ty [OF assms(1)] takes_expr [OF assms(3)] takes_expr [OF assms(4)] takes_path [OF assms(2,5)]; simp add: takes_pret same_def)
qed (use assms path_reads [OF assms(2)] spaced_path [of "expr_str i" path "expr_str v"] in \<open>auto simp: back_simps reads_backD type_backD list_all2_appendI\<close>)

lemma arr_get_back:
  assumes "type_back px (type_str t) T t"
    "reads_back px p V"
    "reads_back px i I"
  shows "\<exists>X. reads_back px (EArrGet t p i sp) X"
proof (rule form_back [where h = "''arr.get''" and ws = "[type_str t, expr_str p, expr_str i]" and Ws = "[T, V, I]"])
  show "takes (parse_form px (parse_expr px) ''arr.get'' sp') (concat ([T, V, I]) @ RParen # Y) (RParen # Y) (same (EArrGet t p i sp))" for Y sp'
    by (simp add: parse_form_def parse_arr_get_def)
      (intro takes_ty [OF assms(1)] takes_expr [OF assms(2)] takes_first_token [OF reads_backD(3) [OF assms(3)]]; simp;
        intro takes_expr [OF assms(3)] takes_none takes_pret; simp add: same_def)
qed (use assms in \<open>auto simp: back_simps reads_backD type_backD\<close>)

lemma arr_len_back:
  assumes "reads_back px a V"
  shows "\<exists>X. reads_back px (EArrLen a sp) X"
proof (rule form_back [where h = "''arr.len''" and ws = "[expr_str a]" and Ws = "[V]"])
  show "takes (parse_form px (parse_expr px) ''arr.len'' sp') (concat ([V]) @ RParen # Y) (RParen # Y) (same (EArrLen a sp))" for Y sp'
    by (simp add: parse_form_def parse_arr_len_def)
      (intro takes_expr [OF assms(1)] takes_pret; simp add: same_def)
qed (use assms in \<open>auto simp: back_simps reads_backD type_backD\<close>)

lemma ptr_null_back:
  assumes "plain n"
  shows "\<exists>X. reads_back px (ENull (TPtr (TStruct n)) sp) X"
proof (rule form_back [where h = "''ptr.null''" and ws = "[n]" and Ws = "[[Symbol n]]"])
  show "takes (parse_form px (parse_expr px) ''ptr.null'' sp') (concat ([[Symbol n]]) @ RParen # Y) (RParen # Y) (same (ENull (TPtr (TStruct n)) sp))" for Y sp'
    by (simp add: parse_form_def parse_null_def)
      (intro form_steps; simp add: same_def)
qed (use assms in \<open>auto simp: back_simps reads_backD type_backD null_str_def struct_name_def\<close>)

lemma arr_null_back:
  assumes "type_back px (type_str t) T t"
  shows "\<exists>X. reads_back px (ENull (TArray t) sp) X"
proof (rule form_back [where h = "''arr.null''" and ws = "[type_str t]" and Ws = "[T]"])
  show "takes (parse_form px (parse_expr px) ''arr.null'' sp') (concat ([T]) @ RParen # Y) (RParen # Y) (same (ENull (TArray t) sp))" for Y sp'
    by (simp add: parse_form_def parse_null_def)
      (intro takes_ty [OF assms(1)] takes_pret; simp add: same_def)
qed (use assms in \<open>auto simp: back_simps reads_backD type_backD null_str_def elem_str_def\<close>)

lemma ptr_cast_back:
  assumes "plain n"
    "reads_back px a V"
  shows "\<exists>X. reads_back px (ECast (TPtr (TStruct n)) a None sp) X"
proof (rule form_back [where h = "''ptr.cast''" and ws = "[n, expr_str a]" and Ws = "[[Symbol n], V]"])
  show "takes (parse_form px (parse_expr px) ''ptr.cast'' sp') (concat ([[Symbol n], V]) @ RParen # Y) (RParen # Y) (same (ECast (TPtr (TStruct n)) a None sp))" for Y sp'
    by (simp add: parse_form_def parse_cast_def)
      (intro takes_symbol takes_expr [OF assms(2)] takes_pret; simp add: same_def)
qed (use assms in \<open>auto simp: back_simps reads_backD type_backD cast_str_def struct_name_def elem_str_def\<close>)

lemma arr_cast_back:
  assumes "type_back px (type_str t) T t"
    "reads_back px a V"
  shows "\<exists>X. reads_back px (ECast (TArray t) a None sp) X"
proof (rule form_back [where h = "''arr.cast''" and ws = "[type_str t, expr_str a]" and Ws = "[T, V]"])
  show "takes (parse_form px (parse_expr px) ''arr.cast'' sp') (concat ([T, V]) @ RParen # Y) (RParen # Y) (same (ECast (TArray t) a None sp))" for Y sp'
    by (simp add: parse_form_def parse_cast_def)
      (intro takes_ty [OF assms(1)] takes_expr [OF assms(2)] takes_pret; simp add: same_def)
qed (use assms in \<open>auto simp: back_simps reads_backD type_backD cast_str_def struct_name_def elem_str_def\<close>)

lemma enum_cast_back:
  assumes "plain n"
    "reads_back px a V"
  shows "\<exists>X. reads_back px (ECast (TEnum n) a None sp) X"
proof (rule form_back [where h = "''enum.cast''" and ws = "[n, expr_str a]" and Ws = "[[Symbol n], V]"])
  show "takes (parse_form px (parse_expr px) ''enum.cast'' sp') (concat ([[Symbol n], V]) @ RParen # Y) (RParen # Y) (same (ECast (TEnum n) a None sp))" for Y sp'
    by (simp add: parse_form_def parse_cast_def)
      (intro takes_symbol takes_expr [OF assms(2)] takes_pret; simp add: same_def)
qed (use assms in \<open>auto simp: back_simps reads_backD type_backD cast_str_def struct_name_def elem_str_def\<close>)

lemma ptr_make_back:
  assumes "plain n"
    "reads_back px a V"
    "reads_back px g U"
  shows "\<exists>X. reads_back px (ECast (TPtr (TStruct n)) a (Some g) sp) X"
proof (rule form_back [where h = "''ptr.make''" and ws = "[n, expr_str a, expr_str g]" and Ws = "[[Symbol n], V, U]"])
  show "takes (parse_form px (parse_expr px) ''ptr.make'' sp') (concat ([[Symbol n], V, U]) @ RParen # Y) (RParen # Y) (same (ECast (TPtr (TStruct n)) a (Some g) sp))" for Y sp'
    by (simp add: parse_form_def parse_cast_def)
      (intro takes_symbol takes_expr [OF assms(2)] takes_expr [OF assms(3)] takes_pret; simp add: same_def)
qed (use assms in \<open>auto simp: back_simps reads_backD type_backD cast_str_def struct_name_def elem_str_def\<close>)

lemma arr_make_back:
  assumes "type_back px (type_str t) T t"
    "reads_back px a V"
    "reads_back px g U"
  shows "\<exists>X. reads_back px (ECast (TArray t) a (Some g) sp) X"
proof (rule form_back [where h = "''arr.make''" and ws = "[type_str t, expr_str a, expr_str g]" and Ws = "[T, V, U]"])
  show "takes (parse_form px (parse_expr px) ''arr.make'' sp') (concat ([T, V, U]) @ RParen # Y) (RParen # Y) (same (ECast (TArray t) a (Some g) sp))" for Y sp'
    by (simp add: parse_form_def parse_cast_def)
      (intro takes_ty [OF assms(1)] takes_expr [OF assms(2)] takes_expr [OF assms(3)] takes_pret; simp add: same_def)
qed (use assms in \<open>auto simp: back_simps reads_backD type_backD cast_str_def struct_name_def elem_str_def\<close>)

text \<open>A text is read in one way; a type's first token tells whether it is written as a form.\<close>

lemma reads_unique: "reads_as x X \<Longrightarrow> reads_as x Z \<Longrightarrow> X = Z"
proof -
  assume "reads_as x X" "reads_as x Z"
  from this [THEN lexed_of_reads] show ?thesis by (metis lexedD sum.inject(2))
qed

lemma reads_open: "reads_as (CHR ''('' # s) X \<Longrightarrow> hd X = LParen"
proof -
  assume "reads_as (CHR ''('' # s) X"
  from lexed_of_reads [OF this] obtain ts where "tokens_at 1 1 (CHR ''('' # s) = Inr ts" "map tk_kind ts = X"
    unfolding lexed_def by blast
  then show ?thesis by (auto simp: tokens_at.simps(2) bind_res_def split: sum.splits)
qed

lemma compound_first: "compound t \<Longrightarrow> type_back px (type_str t) T t \<Longrightarrow> hd T = LParen"
  by (rule reads_open [where s = "tl (type_str t)"]) (cases t; auto simp: compound_def type_back_def)

lemma type_symbol: "plain (type_str t) \<Longrightarrow> type_back px (type_str t) T t \<Longrightarrow> T = [Symbol (type_str t)]"
  by (rule reads_unique [OF type_backD(1) reads_plain])

lemma sizeof_back:
  assumes "type_back px (type_str t) T t"
    "hd T = LParen \<or> (\<exists>s. T = [Symbol s] \<and> (scalar_type s \<noteq> None \<or> narrow_from_name s \<noteq> None \<or> s \<in> set (px_unions px)))"
  shows "\<exists>X. reads_back px (ESizeof t sp) X"
proof (rule form_back [where h = "''sizeof''" and ws = "[type_str t]" and Ws = "[T]"])
  show "takes (parse_form px (parse_expr px) ''sizeof'' sp') (concat ([T]) @ RParen # Y) (RParen # Y) (same (ESizeof t sp))" for Y sp'
  proof -
    have first: "takes (pbind peek_kind f) (T @ Z) Z (same (ESizeof t sp))"
      if "takes (f (Some (hd T))) (T @ Z) Z (same (ESizeof t sp))" for f :: "token_kind option \<Rightarrow> expr parser" and Z
      using that type_backD(4) [OF assms(1)] by (auto intro: takes_first)
    have "takes (pbind (parse_type px) (\<lambda>t. pret (ESizeof t sp'))) (T @ RParen # Y) (RParen # Y) (same (ESizeof t sp))"
      by (intro takes_ty [OF assms(1)] takes_pret) (simp add: same_def)
    with assms(2) show ?thesis
      by (simp add: parse_form_def parse_sizeof_def, intro first) auto
  qed
qed (use assms in \<open>auto simp: back_simps reads_backD type_backD\<close>)

lemma sizeof_struct_back:
  assumes "type_name n"
    "n \<notin> set (px_unions px)"
  shows "\<exists>X. reads_back px (ESizeof (TStruct n) sp) X"
proof (rule form_back [where h = "''sizeof''" and ws = "[n]" and Ws = "[[Symbol n]]"])
  show "takes (parse_form px (parse_expr px) ''sizeof'' sp') (concat ([[Symbol n]]) @ RParen # Y) (RParen # Y) (same (ESizeof (TStruct n) sp))" for Y sp'
    by (simp add: parse_form_def parse_sizeof_def)
      (intro takes_peek_kind; use assms in \<open>simp add: type_name_def\<close>; intro takes_next takes_pret; simp add: same_def)
qed (use assms in \<open>auto simp: back_simps reads_backD type_backD type_name_def\<close>)

lemma record_back:
  assumes "plain n"
    "n \<in> set (px_values px)"
    "list_all2 (reads_back px) args Xs"
    "list_all2 reads_as (map expr_str args) Xs"
    "list_all unmarked Xs"
  shows "\<exists>X. reads_back px (ERecord n args sp) X"
proof (rule form_back [where h = "''make''" and ws = "n # map expr_str args" and Ws = "[Symbol n] # Xs"])
  show "takes (parse_form px (parse_expr px) ''make'' sp') (concat ([Symbol n] # Xs) @ RParen # Y) (RParen # Y) (same (ERecord n args sp))" for Y sp'
    by (simp add: parse_form_def parse_make_def)
      (intro takes_symbol; use assms(2) in simp; intro takes_exprs [OF assms(3)] takes_pret; simp add: same_def same_list)
qed (use assms with_body_form [of "[''make'', n]"] in \<open>auto simp: back_simps reads_backD type_backD\<close>)

lemma field_ok_parts: "field_ok u v \<Longrightarrow> CHR ''.'' \<in> set (u @ ''.'' @ v) \<and> before_dot (u @ ''.'' @ v) = u \<and> after_dot (u @ ''.'' @ v) = v"
  by (auto simp: field_ok_def split_field_def split: if_splits)

lemma make_back:
  assumes "field_ok u v"
    "u @ ''.'' @ v \<notin> set (px_values px)"
    "list_all2 (reads_back px) args Xs"
    "list_all2 reads_as (map expr_str args) Xs"
    "list_all unmarked Xs"
  shows "\<exists>X. reads_back px (EMake u v args sp) X"
proof (rule form_back [where h = "''make''" and ws = "(u @ ''.'' @ v) # map expr_str args" and Ws = "[Symbol (u @ ''.'' @ v)] # Xs"])
  show "takes (parse_form px (parse_expr px) ''make'' sp') (concat ([Symbol (u @ ''.'' @ v)] # Xs) @ RParen # Y) (RParen # Y) (same (EMake u v args sp))" for Y sp'
    by (simp add: parse_form_def parse_make_def)
      (intro takes_symbol; use assms(2) field_ok_parts [OF assms(1)] in simp; intro takes_exprs [OF assms(3)] takes_pret; simp add: same_def same_list)
qed (use assms with_body_form [of "[''make'', u @ ''.'' @ v]"] field_ok_plain [OF assms(1)] in \<open>auto simp: back_simps reads_backD type_backD\<close>)

lemma return_back:
  assumes "reads_back px v V"
  shows "\<exists>X. reads_back px (EReturn (Some v) sp) X"
proof (rule form_back [where h = "''return''" and ws = "[expr_str v]" and Ws = "[V]"])
  show "takes (parse_form px (parse_expr px) ''return'' sp') (concat ([V]) @ RParen # Y) (RParen # Y) (same (EReturn (Some v) sp))" for Y sp'
    by (simp add: parse_form_def parse_return_def)
      (intro takes_first [OF reads_backD(3) [OF assms(1)]]; simp; intro takes_expr [OF assms(1)] takes_pret; simp add: same_def)
qed (use assms in \<open>auto simp: back_simps reads_backD type_backD\<close>)

lemma return_none_back: "\<exists>X. reads_back px (EReturn None sp) X"
  by (rule form_back [where h = "''return''" and ws = "[]" and Ws = "[]"])
    (auto simp: back_simps parse_form_def parse_return_def intro!: takes_peek_kind takes_pret)

lemma break_back: "\<exists>X. reads_back px (EBreak sp) X"
  by (rule form_back [where h = "''break''" and ws = "[]" and Ws = "[]"])
    (auto simp: back_simps parse_form_def  intro!: takes_peek_kind takes_pret)

lemma continue_back: "\<exists>X. reads_back px (EContinue sp) X"
  by (rule form_back [where h = "''continue''" and ws = "[]" and Ws = "[]"])
    (auto simp: back_simps parse_form_def  intro!: takes_peek_kind takes_pret)

lemma ref_back:
  assumes "plain n"
  shows "\<exists>X. reads_back px (ERef n sp) X"
proof (rule form_back [where h = "''ref''" and ws = "[n]" and Ws = "[[Symbol n]]"])
  show "takes (parse_form px (parse_expr px) ''ref'' sp') (concat ([[Symbol n]]) @ RParen # Y) (RParen # Y) (same (ERef n sp))" for Y sp'
    by (simp add: parse_form_def parse_ref_def)
      (intro form_steps; simp add: same_def)
qed (use assms in \<open>auto simp: back_simps reads_backD type_backD\<close>)

lemma call_ref_back:
  assumes "compound sig"
    "type_back px (type_str sig) T sig"
    "reads_back px f F"
    "list_all2 (reads_back px) args Xs"
    "list_all2 reads_as (map expr_str args) Xs"
    "list_all unmarked Xs"
  shows "\<exists>X. reads_back px (ECallRef sig f args sp) X"
proof (rule form_back [where h = "''call_ref''" and ws = "type_str sig # expr_str f # map expr_str args" and Ws = "T # F # Xs"])
  show "takes (parse_form px (parse_expr px) ''call_ref'' sp') (concat (T # F # Xs) @ RParen # Y) (RParen # Y) (same (ECallRef sig f args sp))" for Y sp'
    by (simp add: parse_form_def parse_call_ref_def)
      (intro takes_first_token [OF type_backD(4) [OF assms(2)]]; simp add: compound_first [OF assms(1,2)];
        intro takes_ty [OF assms(2)] takes_expr [OF assms(3)] takes_exprs [OF assms(4)] takes_pret; simp add: same_def same_list)
qed (use assms with_body_form [of "[''call_ref'', type_str sig, expr_str f]"] in \<open>auto simp: back_simps reads_backD type_backD\<close>)

lemma addr_back:
  assumes "reads_back px v V"
  shows "\<exists>X. reads_back px (EAddr v k sp) X"
proof (rule form_back [where h = "addr_head k" and ws = "[expr_str v]" and Ws = "[V]"])
  show "takes (parse_form px (parse_expr px) (addr_head k) sp') (concat [V] @ RParen # Y) (RParen # Y) (same (EAddr v k sp))" for Y sp'
    by (cases k; simp add: parse_form_def parse_addr_def addr_head_def; intro takes_expr [OF assms] takes_pret; simp add: same_def)
qed (use assms in \<open>cases k; auto simp: back_simps addr_head_def reads_backD\<close>)+

text \<open>Conditions.\<close>

lemma expr_str_if:
  "\<not> empty_block b \<Longrightarrow> expr_str (EIf c a b sp) = form [''if'', expr_str c, expr_str a, expr_str b]"
  by (cases a; simp add: form_def; cases b; simp; auto simp: empty_block_def split: list.splits)

lemma if_back:
  assumes "reads_back px c C"
    "reads_back px a A"
    "reads_back px b B"
    "\<not> empty_block a"
    "\<not> empty_block b"
  shows "\<exists>X. reads_back px (EIf c a b sp) X"
proof (rule form_back [where h = "''if''" and ws = "[expr_str c, expr_str a, expr_str b]" and Ws = "[C, A, B]"])
  show "takes (parse_form px (parse_expr px) ''if'' sp') (concat [C, A, B] @ RParen # Y) (RParen # Y) (same (EIf c a b sp))" for Y sp'
    by (simp add: parse_form_def parse_if_def)
      (intro takes_expr [OF assms(1)] takes_expr [OF assms(2)] takes_first_token [OF reads_backD(3) [OF assms(3)]]; simp;
        intro takes_expr [OF assms(3)]; simp add: same_empty_block assms(4,5) takes_pret; simp add: same_def takes_pret)
  show "expr_str (EIf c a b sp) = form [''if'', expr_str c, expr_str a, expr_str b]" by (rule expr_str_if [OF assms(5)])
qed (use assms in \<open>auto simp: back_simps reads_backD\<close>)

lemma when_back:
  assumes "reads_back px c V"
    "list_all2 (reads_back px) body Xs"
    "list_all2 reads_as (map expr_str body) Xs"
    "list_all unmarked Xs"
  shows "\<exists>X. reads_back px (EIf c (EBlock (body @ [EBlock [] sp1]) sp2) (EBlock [] sp3) sp) X"
proof (rule form_back [where h = "''when''" and ws = "expr_str c # map expr_str body" and Ws = "V # Xs"])
  show "takes (parse_form px (parse_expr px) ''when'' sp') (concat (V # Xs) @ RParen # Y) (RParen # Y)
    (same (EIf c (EBlock (body @ [EBlock [] sp1]) sp2) (EBlock [] sp3) sp))" for Y sp'
    by (simp add: parse_form_def parse_when_def)
      (intro takes_first [OF reads_backD(3) [OF assms(1)]]; simp; intro takes_expr [OF assms(1)] takes_exprs [OF assms(2)] takes_pret;
        simp add: same_def same_list)
  show "expr_str (EIf c (EBlock (body @ [EBlock [] sp1]) sp2) (EBlock [] sp3) sp) = form (''when'' # expr_str c # map expr_str body)"
    using with_body_form [of "[''when'', expr_str c]" "map expr_str body"] by (simp add: when_shown_def is_empty_block_def)
qed (use assms in \<open>auto simp: back_simps reads_backD\<close>)

text \<open>Matches: an arm adds itself to those before it.\<close>

definition arm_back :: "parse_ctx \<Rightarrow> match_arm \<Rightarrow> token_kind list \<Rightarrow> bool" where
  "arm_back px a X \<longleftrightarrow>
     reads_as (arm_str a) X \<and> unmarked X \<and> X \<noteq> [] \<and> hd X = LParen
     \<and> (\<forall>arms Y. takes (parse_arm px (parse_expr px) (arms, None)) (X @ Y) Y
          (\<lambda>(bs, els). els = None \<and> (\<exists>b. bs = arms @ [b] \<and> same_arm a b)))"

text \<open>The binders of an arm, in brackets.\<close>

definition binder_words :: "string list option \<Rightarrow> string list" where
  "binder_words bs = (case bs of None \<Rightarrow> [] | Some ns \<Rightarrow> [vector ns])"

definition binder_toks :: "string list option \<Rightarrow> token_kind list" where
  "binder_toks bs = (case bs of None \<Rightarrow> [] | Some ns \<Rightarrow> LBracket # map Symbol ns @ [RBracket])"

lemma takes_symbols:
  "(\<And>ys. ys = ns \<Longrightarrow> takes (f ys) (RBracket # Y) K R) \<Longrightarrow>
     takes (pbind (many RBracket (expect_symbol w sp)) f) (map Symbol ns @ RBracket # Y) K R"
proof -
  assume f: "\<And>ys. ys = ns \<Longrightarrow> takes (f ys) (RBracket # Y) K R"
  have "parses (expect_symbol w sp) [Symbol n] (\<lambda>y. y = n)" for n
    by (auto simp: parses_def expect_symbol_def intro!: takes_next takes_pret)
  then have "list_all2 (\<lambda>X n. parses (expect_symbol w sp) X (\<lambda>y. y = n)) (map (\<lambda>n. [Symbol n]) ns) ns"
    by (simp add: list_all2_conv_all_nth)
  from takes_parts [where k = RBracket and R = "\<lambda>n y. y = n", OF this] f show ?thesis
    by (simp add: list_all2_same_eq)
qed

lemma takes_binders:
  assumes "hd Z \<noteq> LBracket" "Z \<noteq> []" "takes (f bs) Z K R"
  shows "takes (pbind (parse_binders px sp) f) (binder_toks bs @ Z) K R"
proof (cases bs)
  case None
  with assms show ?thesis
    by (cases Z) (auto simp: parse_binders_def binder_toks_def
        intro!: takes_assoc takes_peek_kind takes_bind [OF takes_pret [where R = "\<lambda>b. b = None"]])
next
  case (Some ns)
  show ?thesis
    unfolding parse_binders_def Some binder_toks_def option.case
    by (rule takes_assoc, simp, rule takes_peek_kind, simp, intro takes_assoc takes_next takes_symbols takes_kind)
      (use assms(3) Some in \<open>auto intro: takes_bind [OF takes_pret [where R = "\<lambda>b. b = Some ns"]]\<close>)
qed

lemma takes_mono: "takes p K K' Q \<Longrightarrow> (\<And>x. Q x \<Longrightarrow> R x) \<Longrightarrow> takes p K K' R"
  by (rule takesI) (blast dest: takesD)

lemma takes_repeat_stop: "(\<And>ts. map tk_kind ts = K \<Longrightarrow> \<not> go ts) \<Longrightarrow> R s \<Longrightarrow> takes (repeat_while go f s) K K R"
  by (auto simp: takes_def repeat_while.simps [of go f s])

lemma takes_repeat_step:
  assumes "takes (f s) (X @ K) K Q" "X \<noteq> []" "\<And>ts. map tk_kind ts = X @ K \<Longrightarrow> go ts"
    "\<And>s'. Q s' \<Longrightarrow> takes (repeat_while go f s') K K' R"
  shows "takes (repeat_while go f s) (X @ K) K' R"
proof (rule takesI)
  fix ts :: "token list" assume ts: "map tk_kind ts = X @ K"
  obtain s' r where r: "f s ts = Inr (s', r)" "Q s'" "map tk_kind r = K" using takesD [OF assms(1) ts] by blast
  have "length r < length ts" using assms(2) arg_cong [OF r(3), of length] arg_cong [OF ts, of length] by simp
  moreover obtain x v where "repeat_while go f s' r = Inr (x, v)" "R x" "map tk_kind v = K'"
    using takesD [OF assms(4) [OF r(2)] r(3)] by blast
  ultimately show "\<exists>x ts'. repeat_while go f s ts = Inr (x, ts') \<and> R x \<and> map tk_kind ts' = K'"
    using r(1) assms(3) [OF ts] by (simp add: repeat_while.simps [of go f s ts])
qed

lemma before_close: "map tk_kind ts = k # K \<Longrightarrow> before RParen ts \<longleftrightarrow> k \<noteq> RParen"
  by (auto simp: before_def next_is_def kind_at_def)

lemma takes_arms:
  "list_all2 (arm_back px) arms As \<Longrightarrow>
     (\<And>bs. list_all2 same_arm arms bs \<Longrightarrow> takes (repeat_while (before RParen) (parse_arm px (parse_expr px)) (pre @ bs, None)) K K' R) \<Longrightarrow>
     takes (repeat_while (before RParen) (parse_arm px (parse_expr px)) (pre, None)) (concat As @ K) K' R"
proof (induction arms As arbitrary: pre rule: list_all2_induct)
  case (Cons a arms A As)
  show ?case
    unfolding concat.simps append_assoc
  proof (rule takes_repeat_step)
    show "takes (parse_arm px (parse_expr px) (pre, None)) (A @ concat As @ K) (concat As @ K)
        (\<lambda>(bs, els). els = None \<and> (\<exists>b. bs = pre @ [b] \<and> same_arm a b))"
      using Cons.hyps(1) by (simp add: arm_back_def)
    show "A \<noteq> []" using Cons.hyps(1) by (simp add: arm_back_def)
    show "before RParen ts" if "map tk_kind ts = A @ concat As @ K" for ts :: "token list"
      using Cons.hyps(1) that by (cases A) (auto simp: arm_back_def before_close)
    show "takes (repeat_while (before RParen) (parse_arm px (parse_expr px)) s') (concat As @ K) K' R"
      if "case s' of (bs, els) \<Rightarrow> els = None \<and> (\<exists>b. bs = pre @ [b] \<and> same_arm a b)" for s'
      using that Cons.IH Cons.prems by fastforce
  qed
qed simp

lemma first_of_exprs: "list_all2 (reads_back px) es Xs \<Longrightarrow> hd (concat Xs @ RParen # Y) \<noteq> LBracket"
  by (induction es Xs rule: list_all2_induct) (auto simp: hd_append dest: reads_back_first)

lemma arm_backI:
  assumes "plain mem"
    "mem \<noteq> ''else''"
    "mem \<notin> set reserved"
    "list_all plain (case bs of None \<Rightarrow> [] | Some ns \<Rightarrow> ns)"
    "list_all2 (reads_back px) body Xs"
    "list_all2 reads_as (map expr_str body) Xs"
    "list_all unmarked Xs"
  shows "arm_back px (MatchArm mem bs body sp) (LParen # Symbol mem # binder_toks bs @ concat Xs @ [RParen])"
proof -
  have "list_all2 reads_as (binder_words bs) (case bs of None \<Rightarrow> [] | Some ns \<Rightarrow> [binder_toks bs])"
    using assms(4) reads_vector [of "the bs" "map (\<lambda>n. [Symbol n]) (the bs)"]
    by (auto simp: binder_words_def binder_toks_def list_all2_conv_all_nth list_all_length reads_plain split: option.splits)
  then have "list_all2 reads_as (mem # binder_words bs @ map expr_str body) ([Symbol mem] # (case bs of None \<Rightarrow> [] | Some ns \<Rightarrow> [binder_toks bs]) @ Xs)"
    using assms(1,6) by (simp add: reads_plain list_all2_appendI)
  from reads_form [OF this] have r: "reads_as (form (mem # binder_words bs @ map expr_str body))
      (LParen # Symbol mem # binder_toks bs @ concat Xs @ [RParen])"
    by (cases bs) (simp_all add: binder_toks_def)
  have s: "arm_str (MatchArm mem bs body sp) = form (mem # binder_words bs @ map expr_str body)"
    using with_body_form [of "[mem]" "map expr_str body"] with_body_form [of "mem # binder_words bs" "map expr_str body"]
    by (cases bs) (simp_all add: binder_words_def vector_def)
  have "unmarked (map Symbol ns @ RBracket # Z) = unmarked Z" for ns Z by (induction ns) auto
  then have c: "unmarked (binder_toks bs @ concat Xs @ [RParen])"
    using unmarked_append [OF unmarked_concat [OF assms(7)], of "[RParen]"] by (cases bs) (simp_all add: binder_toks_def)
  have "takes (parse_arm px (parse_expr px) (arms, None)) (LParen # Symbol mem # binder_toks bs @ concat Xs @ RParen # Y) Y
      (\<lambda>(cs, els). els = None \<and> (\<exists>b. cs = arms @ [b] \<and> same_arm (MatchArm mem bs body sp) b))" for arms Y
    unfolding parse_arm_def
    by (intro form_steps; simp; intro takes_binders first_of_exprs [OF assms(5)] form_steps takes_exprs [OF assms(5)]; simp add: assms(2))
      (simp add: takes_pret same_arm_def same_list)
  with r c assms(3) s show ?thesis by (auto simp: arm_back_def)
qed

text \<open>The else of a match, after its arms.\<close>

lemma takes_else:
  assumes "list_all2 (reads_back px) body Xs"
    "\<And>ys. list_all2 same body ys \<Longrightarrow> R (arms, Some ys)"
  shows "takes (repeat_while (before RParen) (parse_arm px (parse_expr px)) (arms, None))
    ((LParen # Symbol ''else'' # concat Xs @ [RParen]) @ RParen # Y) (RParen # Y) R"
proof (rule takes_repeat_step)
  show "takes (parse_arm px (parse_expr px) (arms, None)) ((LParen # Symbol ''else'' # concat Xs @ [RParen]) @ RParen # Y) (RParen # Y)
      (\<lambda>(bs, els). bs = arms \<and> (\<exists>ys. els = Some ys \<and> list_all2 same body ys))"
    unfolding parse_arm_def
    by (simp, intro form_steps; simp; intro takes_binders [where bs = None, unfolded binder_toks_def, simplified]
        first_of_exprs [OF assms(1)] form_steps takes_exprs [OF assms(1)]; simp add: takes_pret)
qed (use assms(2) in \<open>auto simp: before_close intro!: takes_repeat_stop\<close>)

lemma spaced_Cons: "spaced (x # xs) = x @ concat (map (\<lambda>y. '' '' @ y) xs)"
  by (induction xs arbitrary: x) simp_all

lemma same_arm_list: "list_all2 same_arm as ys \<longleftrightarrow> map erase_arm ys = map erase_arm as"
  by (auto simp: same_arm_def list_all2_conv_all_nth list_eq_iff_nth_eq)

lemma match_back_with:
  assumes "reads_back px v V"
    "list_all2 (arm_back px) arms As"
    "list_all2 reads_as es Es" "list_all unmarked Es"
    "es = (case els of None \<Rightarrow> [] | Some body \<Rightarrow> [with_body ''else'' (map expr_str body)])"
    "\<And>bs Y. takes (repeat_while (before RParen) (parse_arm px (parse_expr px)) (bs, None)) (concat Es @ RParen # Y) (RParen # Y)
       (\<lambda>(cs, els'). cs = bs \<and> map_option (map erase) els' = map_option (map erase) els)"
  shows "\<exists>X. reads_back px (EMatch v arms els sp) X"
proof (rule form_back [where h = "''match''" and ws = "expr_str v # map arm_str arms @ es" and Ws = "V # As @ Es"])
  have a: "list_all2 reads_as (map arm_str arms) As" "list_all unmarked As"
    using assms(2) by (auto simp: arm_back_def list_all2_conv_all_nth list_all_length)
  have loop: "takes (repeat_while (before RParen) (parse_arm px (parse_expr px)) ([], None)) (concat As @ concat Es @ RParen # Y) (RParen # Y)
      (\<lambda>(cs, els'). list_all2 same_arm arms cs \<and> map_option (map erase) els' = map_option (map erase) els)" for Y
  proof (rule takes_arms [OF assms(2)])
    fix bs assume b: "list_all2 same_arm arms bs"
    show "takes (repeat_while (before RParen) (parse_arm px (parse_expr px)) ([] @ bs, None)) (concat Es @ RParen # Y) (RParen # Y)
      (\<lambda>(cs, els'). list_all2 same_arm arms cs \<and> map_option (map erase) els' = map_option (map erase) els)"
      unfolding append_Nil by (rule takes_mono [OF assms(6)]) (use b in auto)
  qed
  show "takes (parse_form px (parse_expr px) ''match'' sp') (concat (V # As @ Es) @ RParen # Y) (RParen # Y) (same (EMatch v arms els sp))"
    for Y sp'
    by (simp add: parse_form_def parse_match_def, intro takes_expr [OF assms(1)], rule takes_bind [OF loop])
      (auto intro!: takes_pret simp: same_def same_arm_list)
  show "list_all2 reads_as (expr_str v # map arm_str arms @ es) (V # As @ Es)" "list_all unmarked (V # As @ Es)"
    using a assms(1,3,4) by (simp_all add: reads_backD list_all2_appendI)
  show "expr_str (EMatch v arms els sp) = form (''match'' # expr_str v # map arm_str arms @ es)"
    unfolding assms(5) by (simp add: form_def spaced_Cons comp_def split: option.split)
qed (simp_all add: reserved_def clause_heads_def)

lemma match_back:
  assumes "reads_back px v V"
    "list_all2 (arm_back px) arms As"
    "\<forall>body. els = Some body \<longrightarrow> (\<forall>e \<in> set body. \<exists>X. reads_back px e X)"
  shows "\<exists>X. reads_back px (EMatch v arms els sp) X"
proof (cases els)
  case None
  show ?thesis
    by (rule match_back_with [OF assms(1,2), where es = "[]" and Es = "[]"])
      (auto simp: None before_close intro!: takes_repeat_stop)
next
  case (Some body)
  then have "\<forall>e \<in> set body. \<exists>X. reads_back px e X" using assms(3) by simp
  then obtain Xs where Xs: "list_all2 (reads_back px) body Xs" "list_all2 reads_as (map expr_str body) Xs" "list_all unmarked Xs"
    by (rule exprs_obtain)
  let ?E = "LParen # Symbol ''else'' # concat Xs @ [RParen]"
  have "reads_as (with_body ''else'' (map expr_str body)) ?E"
    using with_body_form [of "[''else'']"] reads_form [of "''else'' # map expr_str body" "[Symbol ''else''] # Xs"] Xs(2)
    by (simp add: reads_plain)
  moreover have "unmarked ?E" using Xs(3) by (auto simp: reserved_def intro!: unmarked_append unmarked_concat)
  ultimately show ?thesis
    by (intro match_back_with [OF assms(1,2), where es = "[with_body ''else'' (map expr_str body)]" and Es = "[?E]"])
      (auto simp: Some same_list intro!: takes_else [OF Xs(1), simplified])
qed

section \<open>Every readable expression\<close>

lemma exprs_back:
  "\<forall>e \<in> set es. P e \<and> (\<exists>X. reads_back px e X) \<Longrightarrow>
     \<exists>Xs. list_all2 (reads_back px) es Xs \<and> list_all2 reads_as (map expr_str es) Xs \<and> list_all unmarked Xs"
  by (rule exprs_obtain [of es px]) blast+

lemma sizeof_ok_back:
  assumes "sizeof_ok (px_unions px) (px_values px) t"
  shows "\<exists>X. reads_back px (ESizeof t sp) X"
proof (cases "\<exists>n. t = TStruct n")
  case True
  then obtain n where "t = TStruct n" by blast
  then show ?thesis using assms sizeof_struct_back [of n px sp] by (simp add: sizeof_ok_def)
next
  case False
  then have t: "type_ok (px_unions px) (px_values px) t" "\<nexists>n. t = TEnum n" using assms by (auto simp: sizeof_ok_def split: ty.splits)
  then obtain T where T: "type_back px (type_str t) T t" using type_reads_back by blast
  show ?thesis
  proof (cases "compound t")
    case True
    then show ?thesis using sizeof_back [OF T] compound_first [OF True T] by blast
  next
    case False
    have "plain (narrow_name w)" for w by (cases w) simp_all
    then have "plain (type_str t)" using t False \<open>\<nexists>n. t = TStruct n\<close>
      by (cases t) (simp_all add: compound_def type_name_def)
    then have "T = [Symbol (type_str t)]" using T by (rule type_symbol)
    then show ?thesis
      using t False \<open>\<nexists>n. t = TStruct n\<close>
      by (intro sizeof_back [OF T]) (cases t; simp add: compound_def scalar_type_def)
  qed
qed

lemma place_okE:
  assumes "place_ok (px_unions px) (px_values px) t"
  obtains n where "t = TPtr (TStruct n)" "plain n" | u U where "t = TArray u" "type_back px (type_str u) U u"
proof (cases t)
  case (TPtr u)
  then show ?thesis using assms that(1) by (cases u) (simp_all add: place_ok_def)
next
  case (TArray u)
  then show ?thesis using assms that(2) type_reads_back [OF _ refl refl, of px u] by (auto simp: place_ok_def)
qed (use assms in \<open>simp_all add: place_ok_def\<close>)

lemma place_back:
  assumes "place_ok (px_unions px) (px_values px) t"
  shows "\<exists>X. reads_back px (ENull t sp) X"
    "reads_back px a A \<Longrightarrow> \<exists>X. reads_back px (ECast t a None sp) X"
    "reads_back px a A \<Longrightarrow> reads_back px g G \<Longrightarrow> \<exists>X. reads_back px (ECast t a (Some g) sp) X"
  using assms
  by (auto elim!: place_okE intro: ptr_null_back arr_null_back ptr_cast_back arr_cast_back ptr_make_back arr_make_back)

lemma readable_reads_back:
  assumes px: "px_unions px = us" "px_values px = vs"
  shows "readable us vs e \<Longrightarrow> \<exists>X. reads_back px e X" "readable_arm us vs a \<Longrightarrow> \<exists>X. arm_back px a X"
proof (induction rule: readable_readable_arm.inducts)
  case (PLit l sp) then show ?case by (rule takes_literal)
next
  case (PVar n sp) then show ?case using var_back by blast
next
  case (PLet n t v sp) then show ?case using let_back type_reads_back [OF _ px] by blast
next
  case (PSet n v sp) then show ?case using set_back by blast
next
  case (PIf c a b sp) then show ?case using if_back by blast
next
  case (PWhen c body sp1 sp2 sp3 sp) then show ?case using exprs_back [of body "readable us vs" px] when_back by blast
next
  case (PLoop x a b s body sp) then show ?case using exprs_back [of body "readable us vs" px] loop_back by blast
next
  case (PWhile c body sp) then show ?case using exprs_back [of body "readable us vs" px] while_back by blast
next
  case (PCall f args sp) then show ?case using exprs_back [of args "readable us vs" px] call_back by blast
next
  case (POp args op sp) then show ?case using exprs_back [of args "readable us vs" px] op_back by blast
next
  case (POk v t sp) then show ?case using type_reads_back [OF _ px] ok_back typed_ok_back by (cases t) blast+
next
  case (PErr v t sp) then show ?case using type_reads_back [OF _ px] err_back typed_err_back by (cases t) blast+
next
  case (PMatchResult e okv errv okb errb sp)
  then show ?case using exprs_back [of okb "readable us vs" px] exprs_back [of errb "readable us vs" px] match_result_back by blast
next
  case (PBlock body sp) then show ?case using exprs_back [of body "readable us vs" px] block_back by blast
next
  case (PUnsafe body sp) then show ?case using exprs_back [of body "readable us vs" px] unsafe_back by blast
next
  case (PGet st f p sp) then show ?case using get_back by blast
next
  case (PPut st f path p v sp) then show ?case using put_back by blast
next
  case (PSizeof t sp) then show ?case using sizeof_ok_back [of px] px by simp
next
  case (PArrGet t p i sp) then show ?case using arr_get_back type_reads_back [OF _ px] by blast
next
  case (PArrSet t path p i v sp)
  then obtain T where "type_back px (type_str t) T t" using type_reads_back [OF _ px] by blast
  then show ?case using PArrSet arr_set_back by meson
next
  case (PArrLen a sp) then show ?case using arr_len_back by blast
next
  case (PNull t sp) then show ?case using place_back(1) [of px] px by simp
next
  case (PCast t a sp) then show ?case using place_back(2) [of px] enum_cast_back px by blast
next
  case (PMakePtr t a g sp) then show ?case using place_back(3) [of px] px by blast
next
  case (PRecord n args sp) then show ?case using exprs_back [of args "readable us vs" px] record_back px by blast
next
  case (PWith st f v n sp) then show ?case using with_back by blast
next
  case (PMake u v args sp) then show ?case using exprs_back [of args "readable us vs" px] make_back px by blast
next
  case (PMatch v arms els sp)
  have "\<forall>a \<in> set arms. \<exists>X. arm_back px a X" using PMatch by blast
  then obtain As where As: "list_all2 (arm_back px) arms As" by (rule list_all2_obtain)
  have els: "\<forall>body. els = Some body \<longrightarrow> (\<forall>e \<in> set body. \<exists>X. reads_back px e X)" using PMatch by blast
  obtain V where "reads_back px v V" using PMatch by blast
  then show ?case by (rule match_back [OF _ As els])
next
  case (PReturn v sp) then show ?case using return_back return_none_back by (cases v) blast+
next
  case (PBreak sp) then show ?case by (rule break_back)
next
  case (PContinue sp) then show ?case by (rule continue_back)
next
  case (PRef n sp) then show ?case by (rule ref_back)
next
  case (PCallRef sig f args sp)
  then obtain T where "type_back px (type_str sig) T sig" using type_reads_back [OF _ px] by blast
  then show ?case using PCallRef exprs_back [of args "readable us vs" px] call_ref_back [of sig px] by meson
next
  case (PAddr v k sp) then show ?case using addr_back by blast
next
  case (PArm mem bs body sp)
  have "list_all plain (case bs of None \<Rightarrow> [] | Some ns \<Rightarrow> ns)" using PArm.hyps by (cases bs) simp_all
  with PArm exprs_back [of body "readable us vs" px] arm_backI show ?case by blast
qed

end
