(* ===== verification/Round_Trip.thy ===== *)
theory Round_Trip
  imports Read_Exprs Values
begin

text \<open>
  A module is read back: parsing what \<open>print_module\<close> writes gives the module, up to the places in the
  text, for every module whose names are words and whose types and expressions are readable.
\<close>

section \<open>Looking through the tokens\<close>

text \<open>
  \<open>seen X us vs\<close>: wherever the tokens \<open>X\<close> stand, \<open>strip_marks\<close> leaves them, and they add the names \<open>us\<close> to
  the unions and \<open>vs\<close> to the value structs.
\<close>

definition stays :: "token_kind list \<Rightarrow> bool" where
  "stays X \<longleftrightarrow>
     (\<forall>opens ts Y. True \<notin> set opens \<longrightarrow> map tk_kind ts = X @ Y \<longrightarrow>
        (\<exists>opens'. True \<notin> set opens' \<and> strip_from opens ts = take (length X) ts @ strip_from opens' (drop (length X) ts)))"

definition scans :: "(token list \<Rightarrow> string list) \<Rightarrow> token_kind list \<Rightarrow> string list \<Rightarrow> bool" where
  "scans f X ns \<longleftrightarrow> (\<forall>ts Y. map tk_kind ts = X @ Y \<longrightarrow> f ts = ns @ f (drop (length X) ts))"

definition seen :: "token_kind list \<Rightarrow> string list \<Rightarrow> string list \<Rightarrow> bool" where
  "seen X us vs \<longleftrightarrow> stays X \<and> scans union_names X us \<and> scans value_struct_names X vs"

lemma stays_append: "stays X \<Longrightarrow> stays Z \<Longrightarrow> stays (X @ Z)"
proof -
  assume X: "stays X" and Z: "stays Z"
  show "stays (X @ Z)"
    unfolding stays_def
  proof (intro allI impI)
    fix opens and ts :: "token list" and Y
    assume o: "True \<notin> set opens" and ts: "map tk_kind ts = (X @ Z) @ Y"
    then obtain os where os: "True \<notin> set os" "strip_from opens ts = take (length X) ts @ strip_from os (drop (length X) ts)"
      using X unfolding stays_def by (metis append_assoc)
    have "map tk_kind (drop (length X) ts) = Z @ Y" using ts by (simp flip: drop_map)
    then obtain os' where "True \<notin> set os'"
      "strip_from os (drop (length X) ts) = take (length Z) (drop (length X) ts) @ strip_from os' (drop (length Z) (drop (length X) ts))"
      using Z os(1) unfolding stays_def by blast
    with os show "\<exists>opens'. True \<notin> set opens' \<and>
        strip_from opens ts = take (length (X @ Z)) ts @ strip_from opens' (drop (length (X @ Z)) ts)"
      by (auto simp: take_add add.commute)
  qed
qed

lemma scans_append: "scans f X a \<Longrightarrow> scans f Z b \<Longrightarrow> scans f (X @ Z) (a @ b)"
proof -
  assume X: "scans f X a" and Z: "scans f Z b"
  show "scans f (X @ Z) (a @ b)"
    unfolding scans_def
  proof (intro allI impI)
    fix ts :: "token list" and Y assume ts: "map tk_kind ts = (X @ Z) @ Y"
    have "f ts = a @ f (drop (length X) ts)" using X ts by (simp add: scans_def)
    moreover have "map tk_kind (drop (length X) ts) = Z @ Y" using ts by (simp flip: drop_map)
    then have "f (drop (length X) ts) = b @ f (drop (length Z) (drop (length X) ts))" using Z by (simp add: scans_def)
    ultimately show "f ts = (a @ b) @ f (drop (length (X @ Z)) ts)" by (simp add: add.commute)
  qed
qed

lemma seen_append: "seen X us vs \<Longrightarrow> seen Z us' vs' \<Longrightarrow> seen (X @ Z) (us @ us') (vs @ vs')"
  by (simp add: seen_def stays_append scans_append)

lemma seen_Nil: "seen [] [] []"
  by (auto simp: seen_def stays_def scans_def)

lemma seen_concat:
  "list_all2 (\<lambda>X (us, vs). seen X us vs) Xs nss \<Longrightarrow> seen (concat Xs) (concat (map fst nss)) (concat (map snd nss))"
  by (induction Xs nss rule: list_all2_induct) (auto simp: seen_Nil intro: seen_append)

lemma union_names_Cons:
  "union_names (t # ts) =
     (case (tk_kind t, kind_at ts 0, kind_at ts 1) of
        (LParen, Some (Symbol u), Some (Symbol n)) \<Rightarrow> (if u = ''union'' then [n] else [])
      | _ \<Rightarrow> []) @ union_names ts"
  by (cases ts rule: union_names.cases) (auto simp: kind_at_def nth_opt_def split: token_kind.splits)

text \<open>Tokens one by one, with the one that follows.\<close>

lemma kind_at_map: "map tk_kind ts = K \<Longrightarrow> kind_at ts i = nth_opt K i"
  by (auto simp: kind_at_def nth_opt_def)

lemma stays_Cons:
  assumes "stays K" "k = LParen \<Longrightarrow> K \<noteq> [] \<and> hd K \<noteq> Symbol ''pub'' \<and> hd K \<noteq> Symbol ''read''"
  shows "stays (k # K)"
  unfolding stays_def
proof (intro allI impI)
  fix opens and ts :: "token list" and Y
  assume o: "True \<notin> set opens" and ts: "map tk_kind ts = (k # K) @ Y"
  then obtain t r where t: "ts = t # r" "tk_kind t = k" "map tk_kind r = K @ Y" by auto
  have m: "\<not> whole_mark (t # r)" "\<not> field_mark (t # r)"
    using assms(2) t(2) kind_at_map [OF ts] unfolding whole_mark_def field_mark_def t(1)
    by (cases K; auto simp: nth_opt_def)+
  let ?os = "if tk_kind t = LParen \<or> tk_kind t = LBracket then False # opens
    else if tk_kind t = RParen \<or> tk_kind t = RBracket then tl opens else opens"
  have "True \<notin> set ?os" using o by (cases opens) simp_all
  moreover have "strip_from opens ts = t # strip_from ?os r"
    using o m by (cases opens) (simp_all add: t(1) split: bool.split)
  ultimately obtain os where os: "True \<notin> set os" "strip_from opens ts = t # strip_from os r" by blast
  from os(1) obtain os' where "True \<notin> set os'" "strip_from os r = take (length K) r @ strip_from os' (drop (length K) r)"
    using assms(1) t(3) unfolding stays_def by blast
  with os(2) t(1) show "\<exists>opens'. True \<notin> set opens' \<and>
      strip_from opens ts = take (length (k # K)) ts @ strip_from opens' (drop (length (k # K)) ts)"
    by auto
qed

lemma scans_Cons:
  assumes "scans f K ns"
    "\<And>t ts Y. tk_kind t = k \<Longrightarrow> map tk_kind ts = K @ Y \<Longrightarrow> f (t # ts) = n @ f ts"
  shows "scans f (k # K) (n @ ns)"
  using assms unfolding scans_def by fastforce

lemma seen_unmarked: "unmarked X \<Longrightarrow> seen X [] []"
proof (induction X)
  case (Cons k K)
  have first: "k = LParen \<Longrightarrow> K \<noteq> [] \<and> hd K \<notin> Symbol ` set reserved"
    using Cons.prems by (auto split: list.splits)
  then have "stays (k # K)" using Cons by (intro stays_Cons) (auto simp: seen_def reserved_def)
  moreover have "scans union_names (k # K) ([] @ [])" "scans value_struct_names (k # K) ([] @ [])"
    using Cons first
    by (intro scans_Cons; cases K; auto simp: seen_def reserved_def union_names_Cons kind_at_map nth_opt_def clause_ahead_def
        split: token_kind.splits option.splits)+
  ultimately show ?case by (simp add: seen_def)
qed (rule seen_Nil)

lemma seen_union: "unmarked Z \<Longrightarrow> seen (LParen # Symbol ''union'' # Symbol n # Z) [n] []"
proof -
  assume "unmarked Z"
  then have s: "seen (Symbol ''union'' # Symbol n # Z) [] []" by (intro seen_unmarked) simp
  have "stays (LParen # Symbol ''union'' # Symbol n # Z)" by (rule stays_Cons) (use s in \<open>auto simp: seen_def\<close>)
  moreover have "scans union_names (LParen # Symbol ''union'' # Symbol n # Z) ([n] @ [])"
    "scans value_struct_names (LParen # Symbol ''union'' # Symbol n # Z) ([] @ [])"
    using s by (intro scans_Cons; auto simp: seen_def union_names_Cons kind_at_map nth_opt_def split: token_kind.splits option.splits)+
  ultimately show ?thesis by (simp add: seen_def)
qed

text \<open>A struct counts as a value struct when \<open>(value)\<close> follows its fields.\<close>

lemma seen_struct:
  assumes "unmarked F" "balanced F"
  shows "seen (LParen # Symbol ''struct'' # Symbol n # LBracket # F @ RBracket # (if v then [LParen, Symbol ''value'', RParen] else []) @ [RParen])
    [] (if v then [n] else [])"
proof -
  let ?E = "(if v then [LParen, Symbol ''value'', RParen] else []) @ [RParen]"
  let ?Z = "LBracket # F @ RBracket # ?E"
  have "unmarked ?E" by (auto simp: reserved_def)
  then have s: "seen (Symbol ''struct'' # Symbol n # ?Z) [] []"
    using assms(1) by (intro seen_unmarked) (simp add: unmarked_append)
  have "stays (LParen # Symbol ''struct'' # Symbol n # ?Z)" by (rule stays_Cons) (use s in \<open>auto simp: seen_def\<close>)
  moreover have "scans union_names (LParen # Symbol ''struct'' # Symbol n # ?Z) ([] @ [])"
    using s by (intro scans_Cons; auto simp: seen_def union_names_Cons kind_at_map nth_opt_def split: token_kind.splits option.splits)
  moreover have "scans value_struct_names (LParen # Symbol ''struct'' # Symbol n # ?Z) ((if v then [n] else []) @ [])"
  proof (rule scans_Cons)
    show "scans value_struct_names (Symbol ''struct'' # Symbol n # ?Z) []" using s by (simp add: seen_def)
    fix t :: token and ts :: "token list" and Y assume t: "tk_kind t = LParen" and ts: "map tk_kind ts = (Symbol ''struct'' # Symbol n # ?Z) @ Y"
    then obtain u where u: "map tk_kind (drop 2 ts) = LBracket # u" "u = F @ RBracket # ?E @ Y" by (simp flip: drop_map)
    then obtain b r where r: "drop 2 ts = b # r" "tk_kind b = LBracket" "map tk_kind r = F @ RBracket # ?E @ Y" by auto
    have "map tk_kind (drop (length F) r) = RBracket # ?E @ Y" using r(3) by (simp flip: drop_map)
    then obtain c q where q: "drop (length F) r = c # q" "tk_kind c = RBracket" "map tk_kind q = ?E @ Y" by auto
    have "after_close 0 (drop 2 ts) = after_close 1 r" using r(1,2) by simp
    also have "\<dots> = after_close 1 (drop (length F) r)" by (rule balancedD [OF assms(2) _ r(3)]) simp
    also have "\<dots> = q" using q by simp
    finally have a: "after_close 0 (drop 2 ts) = q" .
    have "clause_ahead ''value'' q \<longleftrightarrow> v" using kind_at_map [OF q(3)] by (simp add: clause_ahead_def nth_opt_def)
    with a t kind_at_map [OF ts] show "value_struct_names (t # ts) = (if v then [n] else []) @ value_struct_names ts"
      by (simp add: nth_opt_def)
  qed
  ultimately show ?thesis by (simp add: seen_def)
qed

section \<open>Lines\<close>

text \<open>An item is read as its tokens whatever follows its line.\<close>

definition reads_line :: "string \<Rightarrow> token_kind list \<Rightarrow> bool" where
  "reads_line x X \<longleftrightarrow> (\<forall>s K. lexed s K \<longrightarrow> lexed (x @ s) (X @ K))"

lemma reads_lineI: "reads_as x X \<Longrightarrow> reads_line (indent2 @ x @ [newline]) X"
  unfolding reads_line_def by (auto intro!: lexed_blank reads_asD)

lemma lexed_items: "list_all2 reads_line xs Xs \<Longrightarrow> lexed s K \<Longrightarrow> lexed (concat xs @ s) (concat Xs @ K)"
  by (induction xs Xs rule: list_all2_induct) (auto simp: reads_line_def)

text \<open>Clauses each on a line of its own.\<close>

fun clause_lines :: "string list \<Rightarrow> string" where
  "clause_lines [] = []"
| "clause_lines (x # xs) = line4 @ x @ clause_lines xs"

lemma clause_lines_append: "clause_lines (xs @ ys) = clause_lines xs @ clause_lines ys"
  by (induction xs) simp_all

lemma clause_lines_map: "concat (map (\<lambda>c. line4 @ f c) cs) = clause_lines (map f cs)"
  by (induction cs) simp_all

lemma lexed_clauses:
  "list_all2 reads_as xs Xs \<Longrightarrow> ends s \<Longrightarrow> lexed s K \<Longrightarrow>
     lexed (clause_lines xs @ s) (concat Xs @ K) \<and> ends (clause_lines xs @ s)"
  by (induction xs Xs rule: list_all2_induct) (auto intro!: lexed_blank reads_asD)

section \<open>Parts of items\<close>

text \<open>A member of a list: a name, a colon and a type.\<close>

definition readable_member :: "string list \<Rightarrow> string list \<Rightarrow> string \<times> ty \<Rightarrow> bool" where
  "readable_member us vs m \<longleftrightarrow> plain (fst m) \<and> type_ok us vs (snd m)"

definition member_back :: "parse_ctx \<Rightarrow> string \<Rightarrow> token_kind list \<Rightarrow> string \<times> ty \<Rightarrow> bool" where
  "member_back px x X m \<longleftrightarrow>
     reads_as x X \<and> unmarked X \<and> balanced X \<and> (\<forall>w sp. parses (parse_member px w sp) X (\<lambda>y. y = m))"

lemma member_back_ex:
  assumes "readable_member (px_unions px) (px_values px) m"
  shows "\<exists>X. member_back px (fst m @ '':'' @ type_str (snd m)) X m"
proof -
  obtain n t where m: "m = (n, t)" by fastforce
  obtain T where T: "type_back px (type_str t) T t" using type_reads_back [OF _ refl refl, of px t] assms by (auto simp: readable_member_def m)
  have n: "plain n" using assms by (simp add: readable_member_def m)
  have "takes (parse_member px w sp) (Symbol n # Colon # T @ Y) Y (\<lambda>y. y = m)" for w sp Y
    unfolding parse_member_def m by (intro takes_symbol takes_kind takes_ty [OF T] takes_pret) simp
  then have "member_back px (n @ '':'' @ type_str t) (Symbol n # Colon # T) m"
    using reads_colon [OF reads_plain [OF n] type_backD(1) [OF T]] type_backD [OF T]
    by (simp add: member_back_def parses_def balanced_Cons)
  then show ?thesis by (auto simp: m)
qed

definition field_member :: "struct_field \<Rightarrow> string \<times> ty" where
  "field_member f = (sf_name f, sf_ty f)"

lemma members_back:
  assumes "list_all (readable_member (px_unions px) (px_values px)) ms"
  obtains Xs where "list_all2 (\<lambda>m X. member_back px (member_str m) X m) ms Xs"
proof -
  have "\<forall>m \<in> set ms. \<exists>X. member_back px (member_str m) X m"
    using assms member_back_ex by (simp add: list_all_iff member_str_def)
  then show ?thesis by (rule list_all2_obtain) (rule that)
qed

text \<open>The fields of a struct or a variant, and the parameters of a function.\<close>

definition members_read :: "string list \<Rightarrow> token_kind list list \<Rightarrow> bool" where
  "members_read xs Xs \<longleftrightarrow> list_all2 reads_as xs Xs \<and> list_all unmarked Xs \<and> list_all balanced Xs"

lemma members_read:
  assumes "list_all2 (\<lambda>m X. member_back px (member_str m) X m) ms Xs"
  shows "members_read (map member_str ms) Xs"
    "list_all2 (\<lambda>X m. parses (parse_member px w sp) X (\<lambda>y. y = m)) Xs ms"
  using assms by (auto simp: members_read_def member_back_def list_all2_conv_all_nth list_all_length simp del: split_paired_All)

definition fields_back :: "parse_ctx \<Rightarrow> struct_field list \<Rightarrow> token_kind list list \<Rightarrow> bool" where
  "fields_back px fs Xs \<longleftrightarrow>
     members_read (map field_str fs) Xs \<and> (\<forall>sp. list_all2 (\<lambda>X f. parses (parse_field px sp) X (\<lambda>y. y = f)) Xs fs)"

lemma parses_field:
  assumes "parses (parse_member px ''field name'' sp) X (\<lambda>y. y = field_member f)"
  shows "parses (parse_field px sp) X (\<lambda>y. y = f)"
proof -
  have "takes (parse_field px sp) (X @ Y) Y (\<lambda>y. y = f)" for Y
    unfolding parse_field_def by (intro takes_parse [OF assms]) (simp add: field_member_def takes_pret)
  with assms show ?thesis by (simp add: parses_def)
qed

lemma fields_back_ex:
  assumes "list_all (\<lambda>f. readable_member (px_unions px) (px_values px) (field_member f)) fs"
  shows "\<exists>Xs. fields_back px fs Xs"
proof -
  obtain Xs where Xs: "list_all2 (\<lambda>m X. member_back px (member_str m) X m) (map field_member fs) Xs"
    by (rule members_back [of px "map field_member fs"]) (use assms in \<open>simp_all add: list_all_iff\<close>)
  have "map member_str (map field_member fs) = map field_str fs"
    by (simp add: member_str_def field_str_def field_member_def)
  then have "members_read (map field_str fs) Xs" using members_read(1) [OF Xs] by (simp only:)
  moreover have "list_all2 (\<lambda>X f. parses (parse_field px sp) X (\<lambda>y. y = f)) Xs fs" for sp
    using members_read(2) [OF Xs, of "''field name''" sp] by (auto simp: list_all2_conv_all_nth intro!: parses_field)
  ultimately show ?thesis by (auto simp: fields_back_def)
qed

lemma takes_fields:
  "fields_back px fs Xs \<Longrightarrow> k \<in> {RParen, RBracket} \<Longrightarrow> takes (f fs) (k # Y) K R \<Longrightarrow>
     takes (pbind (many k (parse_field px sp)) f) (concat Xs @ k # Y) K R"
  unfolding fields_back_def
  by (rule takes_parts [where as = fs and R = "\<lambda>f y. y = f"]) (blast, assumption, simp add: list_all2_same_eq)

section \<open>Items\<close>

text \<open>
  An item of the text \<open>x\<close> and the tokens \<open>X\<close>, which add the names \<open>us\<close> and \<open>vs\<close>, is added to the module, up
  to its places (\<open>sim\<close>).
\<close>

definition item_back ::
  "parse_ctx \<Rightarrow> ('a \<Rightarrow> module \<Rightarrow> module) \<Rightarrow> ('a \<Rightarrow> 'a \<Rightarrow> bool) \<Rightarrow> 'a \<Rightarrow> string \<Rightarrow> token_kind list \<Rightarrow> string list \<Rightarrow> string list \<Rightarrow> bool"
where
  "item_back px add sim a x X us vs \<longleftrightarrow>
     reads_line x X \<and> seen X us vs \<and> X \<noteq> [] \<and> hd X = LParen
     \<and> (\<forall>m Y. takes (parse_item px m) (X @ Y) Y (\<lambda>m'. \<exists>b. sim a b \<and> m' = add b m))"

lemma takes_items:
  "list_all2 (\<lambda>a X. \<exists>x us vs. item_back px add sim a x X us vs) as Xs \<Longrightarrow>
     (\<And>bs. list_all2 sim as bs \<Longrightarrow> takes (repeat_while (next_is LParen) (parse_item px) (fold add bs m)) K K' R) \<Longrightarrow>
     takes (repeat_while (next_is LParen) (parse_item px) m) (concat Xs @ K) K' R"
proof (induction as Xs arbitrary: m rule: list_all2_induct)
  case (Cons a as X Xs)
  then obtain x us vs where X: "item_back px add sim a x X us vs" by blast
  show ?case
    unfolding concat.simps append_assoc
  proof (rule takes_repeat_step)
    show "takes (parse_item px m) (X @ concat Xs @ K) (concat Xs @ K) (\<lambda>m'. \<exists>b. sim a b \<and> m' = add b m)"
      using X by (simp add: item_back_def)
    show "X \<noteq> []" using X by (simp add: item_back_def)
    show "next_is LParen ts" if "map tk_kind ts = X @ concat Xs @ K" for ts :: "token list"
      using X that by (cases X) (auto simp: item_back_def next_is_def kind_at_map nth_opt_def)
    show "takes (repeat_while (next_is LParen) (parse_item px) m') (concat Xs @ K) K' R" if "\<exists>b. sim a b \<and> m' = add b m" for m'
      using that Cons.IH Cons.prems by fastforce
  qed
qed simp

lemma parse_item_head:
  assumes "map tk_kind ts = LParen # Symbol h # Z"
  shows "parse_item px m ts =
     (if h = ''import'' then pbind (parse_import px) (\<lambda>x. pret (m\<lparr>m_imports := m_imports m @ [x]\<rparr>)) ts
      else if h = ''struct'' then pbind (parse_struct_def px) (\<lambda>x. pret (m\<lparr>m_structs := m_structs m @ [x]\<rparr>)) ts
      else if h = ''enum'' then pbind (parse_enum_def px) (\<lambda>x. pret (m\<lparr>m_enums := m_enums m @ [x]\<rparr>)) ts
      else if h = ''union'' then pbind (parse_union_def px) (\<lambda>x. pret (m\<lparr>m_unions := m_unions m @ [x]\<rparr>)) ts
      else if h = ''const'' then pbind (cur_pos px) (\<lambda>sp. pfail (PConst sp)) ts
      else pbind (parse_fn_def px) (\<lambda>x. pret (m\<lparr>m_functions := m_functions m @ [x]\<rparr>)) ts)"
  unfolding parse_item_def head_ahead_def kind_at_map [OF assms] by (simp add: nth_opt_def)

lemma parse_items:
  "map tk_kind ts = LParen # Symbol ''import'' # Z \<Longrightarrow>
     parse_item px m ts = pbind (parse_import px) (\<lambda>x. pret (m\<lparr>m_imports := m_imports m @ [x]\<rparr>)) ts"
  "map tk_kind ts = LParen # Symbol ''struct'' # Z \<Longrightarrow>
     parse_item px m ts = pbind (parse_struct_def px) (\<lambda>x. pret (m\<lparr>m_structs := m_structs m @ [x]\<rparr>)) ts"
  "map tk_kind ts = LParen # Symbol ''enum'' # Z \<Longrightarrow>
     parse_item px m ts = pbind (parse_enum_def px) (\<lambda>x. pret (m\<lparr>m_enums := m_enums m @ [x]\<rparr>)) ts"
  "map tk_kind ts = LParen # Symbol ''union'' # Z \<Longrightarrow>
     parse_item px m ts = pbind (parse_union_def px) (\<lambda>x. pret (m\<lparr>m_unions := m_unions m @ [x]\<rparr>)) ts"
  "map tk_kind ts = LParen # Symbol ''fn'' # Z \<Longrightarrow>
     parse_item px m ts = pbind (parse_fn_def px) (\<lambda>x. pret (m\<lparr>m_functions := m_functions m @ [x]\<rparr>)) ts"
  by (simp_all add: parse_item_head)

lemma takes_item:
  assumes "\<And>ts m. map tk_kind ts = LParen # Symbol h # Z \<Longrightarrow> parse_item px m ts = pbind p (\<lambda>x. pret (add x m)) ts"
    "takes p (LParen # Symbol h # Z) Y (sim a)"
  shows "takes (parse_item px m) (LParen # Symbol h # Z) Y (\<lambda>m'. \<exists>b. sim a b \<and> m' = add b m)"
proof -
  have "takes (pbind p (\<lambda>x. pret (add x m))) (LParen # Symbol h # Z) Y (\<lambda>m'. \<exists>b. sim a b \<and> m' = add b m)"
    by (rule takes_bind [OF assms(2)]) (auto intro: takes_pret)
  then show ?thesis using assms(1) by (simp add: takes_def)
qed

lemma item_back_line:
  assumes "reads_line x (LParen # Symbol h # Z)" "seen (LParen # Symbol h # Z) us vs"
    "\<And>Y. takes p (LParen # Symbol h # Z @ Y) Y (sim a)"
    "\<And>ts m K. map tk_kind ts = LParen # Symbol h # K \<Longrightarrow> parse_item px m ts = pbind p (\<lambda>x. pret (add x m)) ts"
  shows "\<exists>X. item_back px add sim a x X us vs"
proof -
  have "takes (parse_item px m) (LParen # Symbol h # Z @ Y) Y (\<lambda>m'. \<exists>b. sim a b \<and> m' = add b m)" for m Y
    using assms(3,4) by (intro takes_item)
  with assms(1,2) have "item_back px add sim a x (LParen # Symbol h # Z) us vs" by (simp add: item_back_def)
  then show ?thesis ..
qed

lemma item_backI:
  assumes "reads_as w (LParen # Symbol h # Z)" "x = indent2 @ w @ [newline]" "seen (LParen # Symbol h # Z) us vs"
    "\<And>Y. takes p (LParen # Symbol h # Z @ Y) Y (sim a)"
    "\<And>ts m K. map tk_kind ts = LParen # Symbol h # K \<Longrightarrow> parse_item px m ts = pbind p (\<lambda>x. pret (add x m)) ts"
  shows "\<exists>X. item_back px add sim a x X us vs"
  by (rule item_back_line [OF _ assms(3) _ assms(5)]) (use reads_lineI [OF assms(1)] assms(2,4) in simp_all)

text \<open>Imports.\<close>

definition readable_import :: "import_decl \<Rightarrow> bool" where
  "readable_import i \<longleftrightarrow> plain (im_name i) \<and> (case im_alias i of Some a \<Rightarrow> plain a | None \<Rightarrow> True)"

definition import_words :: "import_decl \<Rightarrow> string list" where
  "import_words i = ''import'' # im_name i # (case im_alias i of Some a \<Rightarrow> [''as'', a] | None \<Rightarrow> [])"

lemma import_back:
  assumes "readable_import i"
  shows "\<exists>X. item_back px (\<lambda>b m. m\<lparr>m_imports := m_imports m @ [b]\<rparr>) (\<lambda>a b. b = a) i (import_str i) X [] []"
proof -
  let ?W = "map Symbol (import_words i)" and ?Z = "tl (map Symbol (import_words i)) @ [RParen]"
  have X: "LParen # ?W @ [RParen] = LParen # Symbol ''import'' # ?Z" by (simp add: import_words_def)
  have "list_all2 reads_as (import_words i) (map (\<lambda>w. [Symbol w]) (import_words i))"
    using assms by (auto simp: readable_import_def import_words_def reads_plain split: option.splits)
  from reads_form [OF this] have r: "reads_as (form (import_words i)) (LParen # ?W @ [RParen])" by simp
  have s: "import_str i = indent2 @ form (import_words i) @ [newline]"
    by (simp add: import_str_def form_def import_words_def split: option.split)
  have "unmarked (map Symbol ws @ [RParen])" for ws by (induction ws) auto
  then have c: "unmarked (LParen # ?W @ [RParen])" by (auto simp: import_words_def reserved_def)
  have "takes (parse_import px) (LParen # Symbol ''import'' # ?Z @ Y) Y (\<lambda>b. b = i)" for Y
    unfolding parse_import_def
    by (cases "im_alias i"; simp add: import_words_def; intro takes_cur_pos takes_kind takes_word takes_symbol takes_peek_kind;
        simp; intro takes_next takes_symbol takes_kind takes_pret; cases i; simp)
  then show ?thesis
    by (rule item_backI [OF r [unfolded X] s seen_unmarked [OF c [unfolded X]] _ parse_items(1)]) simp_all
qed

text \<open>Enums: a member's value is written with it.\<close>

definition readable_enum :: "enum_def \<Rightarrow> bool" where
  "readable_enum e \<longleftrightarrow> plain (ed_name e) \<and> list_all (\<lambda>(n, v). plain n \<and> n \<notin> set reserved) (ed_members e)"

definition erase_enum :: "enum_def \<Rightarrow> enum_def" where
  "erase_enum e = e\<lparr>ed_span := nowhere\<rparr>"

definition member_toks :: "string \<times> i32 \<Rightarrow> token_kind list" where
  "member_toks m = [LParen, Symbol (fst m), IntLit (of_i32 (snd m)), RParen]"

lemma takes_enum_member:
  "takes (add_enum_member px sp acc) (member_toks m @ Y) Y (\<lambda>s. s = (fst acc @ [(fst m, sint (snd m))], sint (snd m) + 1))"
proof -
  have r: "- 2147483648 \<le> sint (snd m)" "sint (snd m) \<le> 2147483647"
    using sint_greater_eq [of "snd m"] sint_less [of "snd m"] by simp_all
  have v: "takes (member_value px sp') (IntLit (of_i32 (snd m)) # Z) Z (\<lambda>v. v = sint (snd m))" for sp' Z
    unfolding member_value_def by (intro takes_next) (simp add: takes_pret)
  have e: "takes (parse_enum_member px sp n) (member_toks m @ Y) Y (\<lambda>y. y = (fst m, sint (snd m)))" for n
    unfolding parse_enum_member_def member_toks_def
    by (intro takes_cur_pos; simp; intro takes_next; simp; intro takes_symbol takes_bind [OF v] takes_kind takes_pret; simp)
  show ?thesis
    unfolding add_enum_member_def by (intro takes_cur_pos, rule takes_bind [OF e]) (use r in \<open>auto intro!: takes_pret\<close>)
qed

lemma takes_enum_members:
  "takes (repeat_while (\<lambda>ts. \<not> next_is RBracket ts) (add_enum_member px sp) acc) (concat (map member_toks ms) @ RBracket # Y)
     (RBracket # Y) (\<lambda>s. fst s = fst acc @ map (\<lambda>m. (fst m, sint (snd m))) ms)"
proof (induction ms arbitrary: acc)
  case Nil
  then show ?case by (auto simp: next_is_def kind_at_map nth_opt_def intro!: takes_repeat_stop)
next
  case (Cons m ms)
  show ?case
    unfolding list.map concat.simps append_assoc
  proof (rule takes_repeat_step [OF takes_enum_member])
    show "takes (repeat_while (\<lambda>ts. \<not> next_is RBracket ts) (add_enum_member px sp) s) (concat (map member_toks ms) @ RBracket # Y)
        (RBracket # Y) (\<lambda>s. fst s = fst acc @ (fst m, sint (snd m)) # map (\<lambda>m. (fst m, sint (snd m))) ms)"
      if "s = (fst acc @ [(fst m, sint (snd m))], sint (snd m) + 1)" for s
      using Cons.IH [of s] that by simp
  qed (simp_all add: member_toks_def next_is_def kind_at_map nth_opt_def)
qed

lemma enum_back:
  assumes "readable_enum e"
  shows "\<exists>X. item_back px (\<lambda>b m. m\<lparr>m_enums := m_enums m @ [b]\<rparr>) (\<lambda>a b. erase_enum b = erase_enum a) e (enum_str e) X [] []"
proof -
  let ?ms = "ed_members e" and ?Ms = "concat (map member_toks (ed_members e))"
  let ?Z = "Symbol (ed_name e) # LBracket # ?Ms @ [RBracket, RParen]"
  have "reads_as (form [n, show_int (sint v)]) (member_toks (n, v))" if "(n, v) \<in> set ?ms" for n v
    using that assms reads_form [of "[n, show_int (sint v)]" "[[Symbol n], [IntLit (of_i32 v)]]"] reads_int [of "of_i32 v"]
    by (auto simp: readable_enum_def list_all_iff member_toks_def reads_plain)
  then have "list_all2 reads_as (map (\<lambda>(n, v). form [n, show_int (sint v)]) ?ms) (map member_toks ?ms)"
    by (auto simp: list_all2_map1 list_all2_map2 intro!: list.rel_refl_strong)
  from reads_vector [OF this] have "list_all2 reads_as [''enum'', ed_name e, vector (map (\<lambda>(n, v). form [n, show_int (sint v)]) ?ms)]
      [[Symbol ''enum''], [Symbol (ed_name e)], LBracket # ?Ms @ [RBracket]]"
    using assms by (simp add: readable_enum_def reads_plain)
  from reads_form [OF this] have r: "reads_as (form [''enum'', ed_name e, vector (map (\<lambda>(n, v). form [n, show_int (sint v)]) ?ms)])
      (LParen # Symbol ''enum'' # ?Z)" by simp
  have s: "enum_str e = indent2 @ form [''enum'', ed_name e, vector (map (\<lambda>(n, v). form [n, show_int (sint v)]) ?ms)] @ [newline]"
    by (simp add: enum_str_def form_def vector_def split_beta)
  have "list_all unmarked (map member_toks ?ms)"
    using assms by (auto simp: readable_enum_def list_all_iff member_toks_def)
  then have c: "unmarked (LParen # Symbol ''enum'' # ?Z)" by (auto simp: reserved_def intro!: unmarked_append unmarked_concat)
  have "takes (parse_enum_def px) (LParen # Symbol ''enum'' # ?Z @ Y) Y (\<lambda>b. erase_enum b = erase_enum e)" for Y
    unfolding parse_enum_def_def
    by (simp, intro takes_kind takes_next takes_symbol takes_bind [OF takes_enum_members])
      (auto simp: erase_enum_def comp_def intro!: takes_next takes_kind takes_pret)
  then show ?thesis
    by (rule item_backI [OF r s seen_unmarked [OF c] _ parse_items(3)]) simp_all
qed

text \<open>Unions: a variant is a form of its name and its fields.\<close>

definition readable_variant :: "string list \<Rightarrow> string list \<Rightarrow> variant \<Rightarrow> bool" where
  "readable_variant us vs v \<longleftrightarrow>
     plain (vr_name v) \<and> vr_name v \<notin> set reserved \<and> list_all (\<lambda>f. readable_member us vs (field_member f)) (vr_fields v)"

definition readable_union :: "string list \<Rightarrow> string list \<Rightarrow> union_def \<Rightarrow> bool" where
  "readable_union us vs u \<longleftrightarrow> plain (ud_name u) \<and> list_all (readable_variant us vs) (ud_variants u)"

definition erase_union :: "union_def \<Rightarrow> union_def" where
  "erase_union u = u\<lparr>ud_span := nowhere\<rparr>"

lemma parses_variant:
  assumes "fields_back px (vr_fields v) Fs"
  shows "parses (parse_variant px) (LParen # Symbol (vr_name v) # concat Fs @ [RParen]) (\<lambda>y. y = v)"
proof -
  have "takes (parse_variant px) (LParen # Symbol (vr_name v) # concat Fs @ RParen # Y) Y (\<lambda>y. y = v)" for Y
    unfolding parse_variant_def
    by (intro takes_cur_pos takes_peek_kind; simp; intro takes_next takes_symbol takes_fields [OF assms] takes_kind takes_pret) simp_all
  then show ?thesis by (simp add: parses_def)
qed

lemma variant_back:
  assumes "readable_variant (px_unions px) (px_values px) v"
  shows "\<exists>X. reads_as (variant_str v) X \<and> unmarked X \<and> parses (parse_variant px) X (\<lambda>y. y = v)"
proof -
  obtain Fs where Fs: "fields_back px (vr_fields v) Fs" using fields_back_ex assms by (auto simp: readable_variant_def)
  let ?X = "LParen # Symbol (vr_name v) # concat Fs @ [RParen]"
  have "list_all2 reads_as (vr_name v # map field_str (vr_fields v)) ([Symbol (vr_name v)] # Fs)"
    using assms Fs by (simp add: readable_variant_def fields_back_def members_read_def reads_plain)
  from reads_form [OF this] have "reads_as (variant_str v) ?X"
    by (simp add: variant_str_def form_def spaced_Cons comp_def)
  moreover have "unmarked ?X"
    using assms Fs by (auto simp: readable_variant_def fields_back_def members_read_def intro!: unmarked_append unmarked_concat)
  ultimately show ?thesis using parses_variant [OF Fs] by blast
qed

lemma union_back:
  assumes "readable_union (px_unions px) (px_values px) u"
  shows "\<exists>X. item_back px (\<lambda>b m. m\<lparr>m_unions := m_unions m @ [b]\<rparr>) (\<lambda>a b. erase_union b = erase_union a) u (union_str u)
    X [ud_name u] []"
proof -
  have "\<forall>v \<in> set (ud_variants u). \<exists>X. reads_as (variant_str v) X \<and> unmarked X \<and> parses (parse_variant px) X (\<lambda>y. y = v)"
    using assms variant_back by (auto simp: readable_union_def list_all_iff)
  then obtain Vs where Vs: "list_all2 (\<lambda>v X. reads_as (variant_str v) X \<and> unmarked X \<and> parses (parse_variant px) X (\<lambda>y. y = v)) (ud_variants u) Vs"
    by (rule list_all2_obtain)
  then have V: "list_all2 reads_as (map variant_str (ud_variants u)) Vs" "list_all unmarked Vs"
    "list_all2 (\<lambda>X v. parses (parse_variant px) X (\<lambda>y. y = v)) Vs (ud_variants u)"
    by (auto simp: list_all2_conv_all_nth list_all_length)
  let ?Z = "LBracket # concat Vs @ [RBracket, RParen]"
  have "list_all2 reads_as [''union'', ud_name u, vector (map variant_str (ud_variants u))]
      [[Symbol ''union''], [Symbol (ud_name u)], LBracket # concat Vs @ [RBracket]]"
    using assms reads_vector [OF V(1)] by (simp add: readable_union_def reads_plain)
  from reads_form [OF this] have r: "reads_as (form [''union'', ud_name u, vector (map variant_str (ud_variants u))])
      (LParen # Symbol ''union'' # Symbol (ud_name u) # ?Z)" by simp
  have s: "union_str u = indent2 @ form [''union'', ud_name u, vector (map variant_str (ud_variants u))] @ [newline]"
    by (simp add: union_str_def form_def vector_def)
  have "unmarked ?Z" using V(2) by (auto intro!: unmarked_append unmarked_concat)
  note c = seen_union [OF this]
  have t: "takes (parse_union_def px) (LParen # Symbol ''union'' # Symbol (ud_name u) # ?Z @ Y) Y (\<lambda>b. erase_union b = erase_union u)" for Y
    unfolding parse_union_def_def
    by (simp, intro takes_kind takes_next takes_symbol takes_parts [where R = "\<lambda>v y. y = v", OF V(3)])
      (auto simp: erase_union_def list_all2_same_eq intro!: takes_kind takes_pret)
  show ?thesis by (rule item_backI [OF r s c _ parse_items(4)]) (use t in simp)
qed

text \<open>Structs.\<close>

definition readable_struct :: "string list \<Rightarrow> string list \<Rightarrow> struct_def \<Rightarrow> bool" where
  "readable_struct us vs s \<longleftrightarrow> plain (sd_name s) \<and> list_all (\<lambda>f. readable_member us vs (field_member f)) (sd_fields s)"

definition erase_struct :: "struct_def \<Rightarrow> struct_def" where
  "erase_struct s = s\<lparr>sd_span := nowhere\<rparr>"

lemma struct_back:
  assumes "readable_struct (px_unions px) (px_values px) s"
  shows "\<exists>X. item_back px (\<lambda>b m. m\<lparr>m_structs := m_structs m @ [b]\<rparr>) (\<lambda>a b. erase_struct b = erase_struct a) s (struct_str s)
    X [] (if sd_is_value s then [sd_name s] else [])"
proof -
  obtain Fs where Fs: "fields_back px (sd_fields s) Fs" using fields_back_ex assms by (auto simp: readable_struct_def)
  then have F: "list_all2 reads_as (map field_str (sd_fields s)) Fs" "unmarked (concat Fs)" "balanced (concat Fs)"
    by (auto simp: fields_back_def members_read_def intro!: unmarked_concat balanced_concat)
  let ?v = "if sd_is_value s then [form [''value'']] else []" and ?V = "if sd_is_value s then [LParen, Symbol ''value'', RParen] else []"
  let ?Z = "Symbol (sd_name s) # LBracket # concat Fs @ RBracket # ?V @ [RParen]"
  have "list_all2 reads_as ([''struct'', sd_name s, vector (map field_str (sd_fields s))] @ ?v)
      ([[Symbol ''struct''], [Symbol (sd_name s)], LBracket # concat Fs @ [RBracket]] @ (if sd_is_value s then [?V] else []))"
    using assms reads_vector [OF F(1)] reads_form [of "[''value'']" "[[Symbol ''value'']]"] by (simp add: readable_struct_def reads_plain)
  from reads_form [OF this] have r: "reads_as (form ([''struct'', sd_name s, vector (map field_str (sd_fields s))] @ ?v))
      (LParen # Symbol ''struct'' # ?Z)" by (cases "sd_is_value s") simp_all
  have t: "struct_str s = indent2 @ form ([''struct'', sd_name s, vector (map field_str (sd_fields s))] @ ?v) @ [newline]"
    by (simp add: struct_str_def form_def vector_def)
  note c = seen_struct [OF F(2,3), of "sd_name s" "sd_is_value s"]
  have mark: "takes (parse_value_mark px) (?V @ RParen # Y) (RParen # Y) (\<lambda>b. b = sd_is_value s)" for Y
    unfolding parse_value_mark_def
    by (cases "sd_is_value s"; simp; intro takes_peek; simp; (intro takes_next takes_word takes_kind)?; simp add: takes_pret)
  have "takes (parse_struct_def px) (LParen # Symbol ''struct'' # ?Z @ Y) Y (\<lambda>b. erase_struct b = erase_struct s)" for Y
    unfolding parse_struct_def_def
    unfolding append_Cons append_Nil append_assoc
    by (intro takes_kind takes_word takes_symbol takes_fields [OF Fs] takes_bind [OF mark] takes_pret)
      (auto simp: erase_struct_def)
  then show ?thesis
    by (rule item_backI [OF r t c _ parse_items(2)]) simp_all
qed

section \<open>Functions\<close>

fun contract_body :: "contract \<Rightarrow> expr" where
  "contract_body (Requires e) = e"
| "contract_body (Ensures e) = e"
| "contract_body (Invariant e) = e"

fun erase_contract :: "contract \<Rightarrow> contract" where
  "erase_contract (Requires e) = Requires (erase e)"
| "erase_contract (Ensures e) = Ensures (erase e)"
| "erase_contract (Invariant e) = Invariant (erase e)"

text \<open>What follows a function's type, in the printed order; the marks and clauses of \<open>fn_part\<close>.\<close>

definition fn_parts :: "fn_def \<Rightarrow> fn_part list" where
  "fn_parts f =
     (if fd_is_unsafe f then [FUnsafe] else []) @ (if fd_is_no_leak f then [FNoLeak] else [])
     @ map FContract (fd_contracts f) @ map FBody (fd_body f)"

fun part_str :: "fn_part \<Rightarrow> string" where
  "part_str FUnsafe = form [''unsafe'']"
| "part_str FNoLeak = form [''no_leak'']"
| "part_str (FContract c) = contract_str c"
| "part_str (FBody e) = expr_str e"

fun erase_part :: "fn_part \<Rightarrow> fn_part" where
  "erase_part (FContract c) = FContract (erase_contract c)"
| "erase_part (FBody e) = FBody (erase e)"
| "erase_part p = p"

definition readable_body :: "string list \<Rightarrow> string list \<Rightarrow> expr \<Rightarrow> bool" where
  "readable_body us vs e \<longleftrightarrow> readable us vs e \<and> (case e of EUnsafe [] _ \<Rightarrow> False | _ \<Rightarrow> True)"

fun readable_part :: "string list \<Rightarrow> string list \<Rightarrow> fn_part \<Rightarrow> bool" where
  "readable_part us vs (FContract c) = readable us vs (contract_body c)"
| "readable_part us vs (FBody e) = readable_body us vs e"
| "readable_part us vs _ = True"

definition part_back :: "parse_ctx \<Rightarrow> fn_part \<Rightarrow> token_kind list \<Rightarrow> bool" where
  "part_back px p X \<longleftrightarrow>
     reads_as (part_str p) X \<and> unmarked X \<and> parses (parse_fn_part px) X (\<lambda>q. erase_part q = erase_part p)"

lemma mark_part_back:
  "part_back px FUnsafe [LParen, Symbol ''unsafe'', RParen]" "part_back px FNoLeak [LParen, Symbol ''no_leak'', RParen]"
  using reads_form [of "[''unsafe'']" "[[Symbol ''unsafe'']]"] reads_form [of "[''no_leak'']" "[[Symbol ''no_leak'']]"]
  by (auto simp: part_back_def parses_def reads_plain reserved_def parse_fn_part_def contract_ahead_def head_ahead_def next_is_def
      clause_ahead_def kind_at_map nth_opt_def pbind_def skip_def pret_def simp flip: drop_map intro!: takesI)

lemma takes_contract:
  assumes "reads_back px (contract_body c) X"
  shows "takes (parse_contract px) (LParen # Symbol (case c of Requires _ \<Rightarrow> ''req'' | Ensures _ \<Rightarrow> ''ens'' | Invariant _ \<Rightarrow> ''inv'') # X @ RParen # Y) Y
    (\<lambda>d. erase_contract d = erase_contract c)"
  unfolding parse_contract_def
  by (cases c; simp; intro takes_cur_pos takes_kind takes_symbol takes_expr [OF assms]; simp; intro takes_kind takes_pret; simp add: same_def)

lemma contract_part_back:
  assumes "reads_back px (contract_body c) X"
  shows "part_back px (FContract c) (LParen # Symbol (case c of Requires _ \<Rightarrow> ''req'' | Ensures _ \<Rightarrow> ''ens'' | Invariant _ \<Rightarrow> ''inv'') # X @ [RParen])"
proof -
  let ?w = "case c of Requires _ \<Rightarrow> ''req'' | Ensures _ \<Rightarrow> ''ens'' | Invariant _ \<Rightarrow> ''inv''"
  have "reads_as (form [?w, expr_str (contract_body c)]) (LParen # Symbol ?w # X @ [RParen])"
    using reads_form [of "[?w, expr_str (contract_body c)]" "[[Symbol ?w], X]"] reads_backD(1) [OF assms]
    by (cases c) (simp_all add: reads_plain)
  then have "reads_as (contract_str c) (LParen # Symbol ?w # X @ [RParen])" by (cases c) (simp_all add: form_def)
  moreover have "unmarked (LParen # Symbol ?w # X @ [RParen])"
    using reads_backD(2) [OF assms] by (cases c) (auto simp: reserved_def intro: unmarked_append)
  moreover have "takes (parse_fn_part px) (LParen # Symbol ?w # X @ RParen # Y) Y (\<lambda>q. erase_part q = erase_part (FContract c))" for Y
  proof -
    have "takes (pbind (parse_contract px) (\<lambda>d. pret (FContract d))) (LParen # Symbol ?w # X @ RParen # Y) Y
        (\<lambda>q. erase_part q = erase_part (FContract c))"
      by (rule takes_bind [OF takes_contract [OF assms]]) (simp add: takes_pret)
    moreover have "contract_ahead ts" if "map tk_kind ts = LParen # Symbol ?w # X @ RParen # Y" for ts
      using that by (cases c) (auto simp: contract_ahead_def head_ahead_def next_is_def kind_at_map nth_opt_def)
    ultimately show ?thesis by (simp add: takes_def parse_fn_part_def)
  qed
  ultimately show ?thesis by (simp add: part_back_def parses_def)
qed

lemma body_part_back:
  assumes "reads_back px e X" "case e of EUnsafe [] _ \<Rightarrow> False | _ \<Rightarrow> True"
  shows "part_back px (FBody e) X"
proof -
  have "takes (parse_fn_part px) (X @ Y) Y (\<lambda>q. erase_part q = erase_part (FBody e))" for Y
  proof -
    have "takes (pbind (parse_expr px) (\<lambda>e. pret (FBody e))) (X @ Y) Y (\<lambda>q. erase_part q = erase_part (FBody e))"
      by (rule takes_expr [OF assms(1)]) (simp add: takes_pret same_def)
    moreover have "\<not> contract_ahead ts \<and> \<not> clause_ahead ''unsafe'' ts \<and> \<not> clause_ahead ''no_leak'' ts" if ts: "map tk_kind ts = X @ Y" for ts
    proof (cases "\<exists>h. nth_opt (X @ Y) 0 = Some LParen \<and> nth_opt (X @ Y) 1 = Some (Symbol h)")
      case True
      then obtain h Z where X: "X = LParen # Symbol h # Z"
        using reads_backD(2) [OF assms(1)] reads_back_first [OF assms(1)]
        by (cases X; cases "tl X") (auto simp: nth_opt_def)
      have e: "e \<noteq> EUnsafe [] sp" for sp using assms(2) by auto
      from reads_backD(4) [OF assms(1)] X e show ?thesis
        unfolding contract_ahead_def head_ahead_def next_is_def clause_ahead_def kind_at_map [OF ts]
        by (cases Z) (auto simp: part_ok_def clause_heads_def nth_opt_def)
    next
      case False
      then show ?thesis
        unfolding contract_ahead_def head_ahead_def next_is_def clause_ahead_def kind_at_map [OF ts] by auto
    qed
    ultimately show ?thesis by (simp add: takes_def parse_fn_part_def)
  qed
  with assms(1) show ?thesis by (simp add: part_back_def reads_back_def parses_def)
qed

lemma part_back_ex:
  assumes "readable_part (px_unions px) (px_values px) p"
  shows "\<exists>X. part_back px p X"
proof (cases p)
  case (FContract c)
  then obtain X where "reads_back px (contract_body c) X" using assms readable_reads_back(1) [OF refl refl, of px] by auto
  then show ?thesis using contract_part_back FContract by blast
next
  case (FBody e)
  then obtain X where "reads_back px e X" using assms readable_reads_back(1) [OF refl refl, of px] by (auto simp: readable_body_def)
  then show ?thesis using body_part_back FBody assms by (auto simp: readable_body_def)
qed (use mark_part_back in blast)+

definition readable_fn :: "string list \<Rightarrow> string list \<Rightarrow> fn_def \<Rightarrow> bool" where
  "readable_fn us vs f \<longleftrightarrow>
     plain (fd_name f) \<and> list_all (readable_member us vs) (fd_params f) \<and> type_ok us vs (fd_return_type f)
     \<and> (\<forall>c \<in> set (fd_contracts f). readable us vs (contract_body c)) \<and> (\<forall>e \<in> set (fd_body f). readable_body us vs e)"

definition erase_fn :: "fn_def \<Rightarrow> fn_def" where
  "erase_fn f =
     f\<lparr>fd_contracts := map erase_contract (fd_contracts f), fd_body := map erase (fd_body f), fd_span := nowhere\<rparr>"

lemma erased_parts:
  assumes "list_all2 (\<lambda>p q. erase_part q = erase_part p) ps qs"
  shows "map erase_contract (List.map_filter (\<lambda>p. case p of FContract c \<Rightarrow> Some c | _ \<Rightarrow> None) qs)
       = map erase_contract (List.map_filter (\<lambda>p. case p of FContract c \<Rightarrow> Some c | _ \<Rightarrow> None) ps)"
    "map erase (List.map_filter (\<lambda>p. case p of FBody e \<Rightarrow> Some e | _ \<Rightarrow> None) qs)
       = map erase (List.map_filter (\<lambda>p. case p of FBody e \<Rightarrow> Some e | _ \<Rightarrow> None) ps)"
    "FUnsafe \<in> set qs \<longleftrightarrow> FUnsafe \<in> set ps" "FNoLeak \<in> set qs \<longleftrightarrow> FNoLeak \<in> set ps"
  using assms
proof (induction ps qs rule: list_all2_induct)
  case (Cons p ps q qs)
  { case 1 show ?case using Cons by (cases p; cases q) (simp_all add: map_filter_simps) }
  { case 2 show ?case using Cons by (cases p; cases q) (simp_all add: map_filter_simps) }
  { case 3 show ?case using Cons by (cases p; cases q) simp_all }
  { case 4 show ?case using Cons by (cases p; cases q) simp_all }
qed (simp_all add: map_filter_simps)

lemma fn_parts_filtered:
  "List.map_filter (\<lambda>p. case p of FContract c \<Rightarrow> Some c | _ \<Rightarrow> None) (fn_parts f) = fd_contracts f"
  "List.map_filter (\<lambda>p. case p of FBody e \<Rightarrow> Some e | _ \<Rightarrow> None) (fn_parts f) = fd_body f"
  "FUnsafe \<in> set (fn_parts f) \<longleftrightarrow> fd_is_unsafe f" "FNoLeak \<in> set (fn_parts f) \<longleftrightarrow> fd_is_no_leak f"
  by (auto simp: fn_parts_def List.map_filter_def comp_def)

lemma fn_str_lines:
  "fn_str f = indent2 @ CHR ''('' # spaced [''fn'', fd_name f, vector (map member_str (fd_params f)), ''->'', type_str (fd_return_type f)]
     @ clause_lines (map part_str (fn_parts f)) @ '')'' @ [newline]"
  unfolding fn_str_def clause_lines_map by (simp add: fn_parts_def vector_def form_def clause_lines_append comp_def)

lemma fn_back:
  assumes "readable_fn (px_unions px) (px_values px) f"
  shows "\<exists>X. item_back px (\<lambda>b m. m\<lparr>m_functions := m_functions m @ [b]\<rparr>) (\<lambda>a b. erase_fn b = erase_fn a) f (fn_str f) X [] []"
proof -
  obtain Ms where M: "list_all2 (\<lambda>m X. member_back px (member_str m) X m) (fd_params f) Ms"
    using members_back assms by (auto simp: readable_fn_def)
  obtain R where R: "type_back px (type_str (fd_return_type f)) R (fd_return_type f)"
    using type_reads_back [OF _ refl refl, of px "fd_return_type f"] assms by (auto simp: readable_fn_def)
  have "\<forall>p \<in> set (fn_parts f). \<exists>X. part_back px p X"
    using assms by (auto simp: readable_fn_def fn_parts_def intro!: part_back_ex split: if_splits)
  then obtain Ps where P: "list_all2 (part_back px) (fn_parts f) Ps" by (rule list_all2_obtain)
  then have P': "list_all2 reads_as (map part_str (fn_parts f)) Ps" "list_all unmarked Ps"
    "list_all2 (\<lambda>X p. parses (parse_fn_part px) X (\<lambda>q. erase_part q = erase_part p)) Ps (fn_parts f)"
    by (auto simp: part_back_def list_all2_conv_all_nth list_all_length)
  let ?H = "LBracket # concat Ms @ RBracket # Arrow # R" and ?P = "concat Ps @ [RParen]"
  let ?X = "LParen # Symbol ''fn'' # Symbol (fd_name f) # ?H @ ?P"
  have m: "members_read (map member_str (fd_params f)) Ms" by (rule members_read(1) [OF M])
  have h: "list_all2 reads_as [''fn'', fd_name f, vector (map member_str (fd_params f)), ''->'', type_str (fd_return_type f)]
      [[Symbol ''fn''], [Symbol (fd_name f)], LBracket # concat Ms @ [RBracket], [Arrow], R]"
    using assms m reads_vector [of "map member_str (fd_params f)" Ms] type_backD(1) [OF R]
    by (simp add: readable_fn_def members_read_def reads_plain)
  have r: "reads_line (fn_str f) ?X"
    unfolding reads_line_def
  proof (intro allI impI)
    fix s K assume k: "lexed s K"
    have "lexed ('')'' @ [newline] @ s) (RParen # K)"
      using lexed_punctuation [OF lexed_blank [OF k, of newline], of "CHR '')''" RParen] by simp
    from lexed_clauses [OF P'(1) _ this] have c: "lexed (clause_lines (map part_str (fn_parts f)) @ '')'' @ [newline] @ s)
        (concat Ps @ RParen # K)" "ends (clause_lines (map part_str (fn_parts f)) @ '')'' @ [newline] @ s)" by simp_all
    from lexed_blank [OF lexed_blank [OF lexed_punctuation [OF lexed_spaced [OF h c(2,1)], of "CHR ''(''" LParen]]]
    show "lexed (fn_str f @ s) (?X @ K)" unfolding fn_str_lines by (simp del: spaced.simps)
  qed
  have "unmarked ?X"
    using m type_backD(2) [OF R] P'(2) by (auto simp: members_read_def reserved_def intro!: unmarked_append unmarked_concat)
  then have s: "seen ?X [] []" by (rule seen_unmarked)
  have t: "takes (parse_fn_def px) (LParen # Symbol ''fn'' # (Symbol (fd_name f) # ?H @ ?P) @ Y) Y (\<lambda>b. erase_fn b = erase_fn f)" for Y
    unfolding parse_fn_def_def append_Cons append_Nil append_assoc
    by (intro takes_kind takes_word takes_symbol takes_parts [OF members_read(2) [OF M]] takes_ty [OF R] takes_parts [OF P'(3)] takes_pret)
      (auto simp: erase_fn_def list_all2_same_eq erased_parts fn_parts_filtered)
  show ?thesis by (rule item_back_line [OF r s _ parse_items(5)]) (use t in simp)
qed

section \<open>Modules\<close>

definition module_unions :: "module \<Rightarrow> string list" where
  "module_unions m = map ud_name (m_unions m)"

definition module_values :: "module \<Rightarrow> string list" where
  "module_values m = map sd_name (filter sd_is_value (m_structs m))"

definition readable_module :: "module \<Rightarrow> bool" where
  "readable_module m \<longleftrightarrow>
     plain (m_name m) \<and> list_all readable_import (m_imports m) \<and> list_all readable_enum (m_enums m)
     \<and> list_all (readable_union (module_unions m) (module_values m)) (m_unions m)
     \<and> list_all (readable_struct (module_unions m) (module_values m)) (m_structs m)
     \<and> list_all (readable_fn (module_unions m) (module_values m)) (m_functions m)"

definition erase_module :: "module \<Rightarrow> module" where
  "erase_module m =
     m\<lparr>m_enums := map erase_enum (m_enums m), m_unions := map erase_union (m_unions m),
       m_structs := map erase_struct (m_structs m), m_functions := map erase_fn (m_functions m),
       m_sources := Map.empty, m_file_names := Map.empty\<rparr>"

lemma fold_items:
  "fold (\<lambda>b m. m\<lparr>m_imports := m_imports m @ [b]\<rparr>) is m = m\<lparr>m_imports := m_imports m @ is\<rparr>"
  "fold (\<lambda>b m. m\<lparr>m_enums := m_enums m @ [b]\<rparr>) es m = m\<lparr>m_enums := m_enums m @ es\<rparr>"
  "fold (\<lambda>b m. m\<lparr>m_unions := m_unions m @ [b]\<rparr>) us m = m\<lparr>m_unions := m_unions m @ us\<rparr>"
  "fold (\<lambda>b m. m\<lparr>m_structs := m_structs m @ [b]\<rparr>) ss m = m\<lparr>m_structs := m_structs m @ ss\<rparr>"
  "fold (\<lambda>b m. m\<lparr>m_functions := m_functions m @ [b]\<rparr>) fs m = m\<lparr>m_functions := m_functions m @ fs\<rparr>"
proof -
  show "fold (\<lambda>b m. m\<lparr>m_imports := m_imports m @ [b]\<rparr>) is m = m\<lparr>m_imports := m_imports m @ is\<rparr>"
    by (induction "is" arbitrary: m) simp_all
  show "fold (\<lambda>b m. m\<lparr>m_enums := m_enums m @ [b]\<rparr>) es m = m\<lparr>m_enums := m_enums m @ es\<rparr>"
    by (induction es arbitrary: m) simp_all
  show "fold (\<lambda>b m. m\<lparr>m_unions := m_unions m @ [b]\<rparr>) us m = m\<lparr>m_unions := m_unions m @ us\<rparr>"
    by (induction us arbitrary: m) simp_all
  show "fold (\<lambda>b m. m\<lparr>m_structs := m_structs m @ [b]\<rparr>) ss m = m\<lparr>m_structs := m_structs m @ ss\<rparr>"
    by (induction ss arbitrary: m) simp_all
  show "fold (\<lambda>b m. m\<lparr>m_functions := m_functions m @ [b]\<rparr>) fs m = m\<lparr>m_functions := m_functions m @ fs\<rparr>"
    by (induction fs arbitrary: m) simp_all
qed

text \<open>The items of one kind.\<close>

definition items_back ::
  "parse_ctx \<Rightarrow> ('a \<Rightarrow> module \<Rightarrow> module) \<Rightarrow> ('a \<Rightarrow> 'a \<Rightarrow> bool) \<Rightarrow> 'a list \<Rightarrow> string list \<Rightarrow> token_kind list list \<Rightarrow> string list \<Rightarrow> string list \<Rightarrow> bool"
where
  "items_back px add sim as xs Xs us vs \<longleftrightarrow>
     list_all2 reads_line xs Xs \<and> seen (concat Xs) us vs
     \<and> list_all2 (\<lambda>a X. \<exists>x us vs. item_back px add sim a x X us vs) as Xs"

lemma items_back_ex:
  assumes "\<And>a. a \<in> set as \<Longrightarrow> \<exists>X. item_back px add sim a (str a) X (u a) (v a)"
  shows "\<exists>Xs. items_back px add sim as (map str as) Xs (concat (map u as)) (concat (map v as))"
proof -
  have "\<forall>a \<in> set as. \<exists>X. item_back px add sim a (str a) X (u a) (v a)" using assms by blast
  then obtain Xs where X: "list_all2 (\<lambda>a X. item_back px add sim a (str a) X (u a) (v a)) as Xs" by (rule list_all2_obtain)
  have "list_all2 reads_line (map str as) Xs" unfolding list_all2_map1
    by (rule list_all2_mono [OF X]) (simp add: item_back_def)
  moreover have "list_all2 (\<lambda>a X. \<exists>x us vs. item_back px add sim a x X us vs) as Xs"
    by (rule list_all2_mono [OF X]) blast
  moreover from X have "seen (concat Xs) (concat (map u as)) (concat (map v as))"
    by (induction as Xs rule: list_all2_induct) (auto simp: item_back_def seen_Nil intro: seen_append)
  ultimately show ?thesis by (auto simp: items_back_def)
qed

lemma takes_peek_end: "takes (f None) [] K R \<Longrightarrow> takes (pbind peek f) [] K R"
  by (auto simp: takes_def pbind_def peek_def)

lemma strip_marks_stays: "stays K \<Longrightarrow> map tk_kind ts = K \<Longrightarrow> strip_marks ts = ts"
proof -
  assume "stays K" "map tk_kind ts = K"
  then obtain os where "strip_from [] ts = take (length K) ts @ strip_from os (drop (length K) ts)"
    unfolding stays_def by (metis append_Nil2 empty_iff list.set(1))
  with \<open>map tk_kind ts = K\<close> show ?thesis by (auto simp: strip_marks_def)
qed

lemma scans_names: "scans f K ns \<Longrightarrow> map tk_kind ts = K \<Longrightarrow> f [] = [] \<Longrightarrow> f ts = ns"
  unfolding scans_def by (metis append_Nil2 drop_all length_map order_refl)

text \<open>The context the parser makes of the tokens of a module.\<close>

definition module_ctx :: "module \<Rightarrow> parse_ctx" where
  "module_ctx m =
     (let ts = (case tokenize (print_module m) of Inr ts \<Rightarrow> ts | Inl _ \<Rightarrow> [])
      in \<lparr>px_end = (if ts = [] then (1, 1) else tk_pos (List.last ts)), px_unions = module_unions m, px_values = module_values m\<rparr>)"

lemma concat_nothing [simp]: "concat (map (\<lambda>_. []) xs) = []"
  by (induction xs) simp_all

text \<open>The tokens of a module's items, kind by kind in the order they are printed.\<close>

definition module_back ::
  "parse_ctx \<Rightarrow> module \<Rightarrow> token_kind list list \<Rightarrow> token_kind list list \<Rightarrow> token_kind list list \<Rightarrow> token_kind list list \<Rightarrow> token_kind list list \<Rightarrow> bool"
where
  "module_back px m Is Es Us Ss Fs \<longleftrightarrow>
     items_back px (\<lambda>b m. m\<lparr>m_imports := m_imports m @ [b]\<rparr>) (\<lambda>a b. b = a) (m_imports m) (map import_str (m_imports m)) Is [] []
     \<and> items_back px (\<lambda>b m. m\<lparr>m_enums := m_enums m @ [b]\<rparr>) (\<lambda>a b. erase_enum b = erase_enum a) (m_enums m)
         (map enum_str (m_enums m)) Es [] []
     \<and> items_back px (\<lambda>b m. m\<lparr>m_unions := m_unions m @ [b]\<rparr>) (\<lambda>a b. erase_union b = erase_union a) (m_unions m)
         (map union_str (m_unions m)) Us (module_unions m) []
     \<and> items_back px (\<lambda>b m. m\<lparr>m_structs := m_structs m @ [b]\<rparr>) (\<lambda>a b. erase_struct b = erase_struct a) (m_structs m)
         (map struct_str (m_structs m)) Ss [] (module_values m)
     \<and> items_back px (\<lambda>b m. m\<lparr>m_functions := m_functions m @ [b]\<rparr>) (\<lambda>a b. erase_fn b = erase_fn a) (m_functions m)
         (map fn_str (m_functions m)) Fs [] []"

lemma module_names:
  "concat (map (\<lambda>u. [ud_name u]) (m_unions m)) = module_unions m"
  "concat (map (\<lambda>s. if sd_is_value s then [sd_name s] else []) (m_structs m)) = module_values m"
proof -
  show "concat (map (\<lambda>u. [ud_name u]) (m_unions m)) = module_unions m" by (simp add: module_unions_def)
  have "concat (map (\<lambda>s. if sd_is_value s then [sd_name s] else []) ss) = map sd_name (filter sd_is_value ss)" for ss
    by (induction ss) simp_all
  then show "concat (map (\<lambda>s. if sd_is_value s then [sd_name s] else []) (m_structs m)) = module_values m"
    by (simp add: module_values_def)
qed

lemma module_back_ex:
  assumes "readable_module m" "px_unions px = module_unions m" "px_values px = module_values m"
  shows "\<exists>Is Es Us Ss Fs. module_back px m Is Es Us Ss Fs"
  using items_back_ex [of "m_imports m" px _ _ import_str "\<lambda>_. []" "\<lambda>_. []", OF import_back]
    items_back_ex [of "m_enums m" px _ _ enum_str "\<lambda>_. []" "\<lambda>_. []", OF enum_back]
    items_back_ex [of "m_unions m" px _ _ union_str "\<lambda>u. [ud_name u]" "\<lambda>_. []", OF union_back, unfolded module_names]
    items_back_ex [of "m_structs m" px _ _ struct_str "\<lambda>_. []" "\<lambda>s. if sd_is_value s then [sd_name s] else []", OF struct_back,
      unfolded module_names]
    items_back_ex [of "m_functions m" px _ _ fn_str "\<lambda>_. []" "\<lambda>_. []", OF fn_back]
    assms unfolding module_back_def
  by (simp add: readable_module_def list_all_iff)

definition module_toks ::
  "module \<Rightarrow> token_kind list list \<Rightarrow> token_kind list list \<Rightarrow> token_kind list list \<Rightarrow> token_kind list list \<Rightarrow> token_kind list list \<Rightarrow> token_kind list"
where
  "module_toks m Is Es Us Ss Fs =
     LParen # Symbol ''module'' # Symbol (m_name m) # concat Is @ concat Es @ concat Us @ concat Ss @ concat Fs @ [RParen]"

lemma module_lexed:
  assumes "module_back px m Is Es Us Ss Fs" "plain (m_name m)"
  shows "lexed (print_module m) (module_toks m Is Es Us Ss Fs)"
proof -
  have "lexed '')'' [RParen]" using lexed_punctuation [OF lexed_Nil, of "CHR '')''" RParen] by simp
  then have l: "lexed (concat (map import_str (m_imports m)) @ concat (map enum_str (m_enums m)) @ concat (map union_str (m_unions m))
      @ concat (map struct_str (m_structs m)) @ concat (map fn_str (m_functions m)) @ '')'')
     (concat Is @ concat Es @ concat Us @ concat Ss @ concat Fs @ [RParen])"
    using assms(1) by (intro lexed_items) (simp_all add: module_back_def items_back_def)
  have h: "list_all2 reads_as [''module'', m_name m] [[Symbol ''module''], [Symbol (m_name m)]]"
    using assms(2) by (simp add: reads_plain)
  from lexed_punctuation [OF lexed_spaced [OF h _ lexed_blank [OF l, of newline]], of "CHR ''(''" LParen] show ?thesis
    by (simp add: print_module_def module_toks_def)
qed

lemma module_seen:
  assumes "module_back px m Is Es Us Ss Fs"
  shows "seen (module_toks m Is Es Us Ss Fs) (module_unions m) (module_values m)"
proof -
  have h: "seen ([LParen, Symbol ''module'', Symbol (m_name m)]) [] []" "seen [RParen] [] []"
    by (intro seen_unmarked; simp add: reserved_def)+
  have "seen ([LParen, Symbol ''module'', Symbol (m_name m)] @ concat Is @ concat Es @ concat Us @ concat Ss @ concat Fs @ [RParen])
      ([] @ [] @ [] @ module_unions m @ [] @ [] @ []) ([] @ [] @ [] @ [] @ module_values m @ [] @ [])"
    using assms by (intro seen_append h) (simp_all add: module_back_def items_back_def)
  then show ?thesis by (simp add: module_toks_def)
qed

lemma takes_module_items:
  assumes "module_back px m Is Es Us Ss Fs"
  shows "takes (repeat_while (next_is LParen) (parse_item px) (empty_module (m_name m)))
      (concat Is @ concat Es @ concat Us @ concat Ss @ concat Fs @ [RParen]) [RParen] (\<lambda>m'. erase_module m' = erase_module m)"
proof -
  note items = assms [unfolded module_back_def items_back_def]
  have "erase_module \<lparr>m_name = m_name m, m_imports = is, m_structs = ss, m_enums = es, m_unions = us, m_functions = fs,
      m_sources = Map.empty, m_file_names = Map.empty\<rparr> = erase_module m"
    if "is = m_imports m" "list_all2 (\<lambda>a b. erase_enum b = erase_enum a) (m_enums m) es"
      "list_all2 (\<lambda>a b. erase_union b = erase_union a) (m_unions m) us" "list_all2 (\<lambda>a b. erase_struct b = erase_struct a) (m_structs m) ss"
      "list_all2 (\<lambda>a b. erase_fn b = erase_fn a) (m_functions m) fs" for "is" es us ss fs
  proof -
    have "map erase_enum es = map erase_enum (m_enums m)" "map erase_union us = map erase_union (m_unions m)"
      "map erase_struct ss = map erase_struct (m_structs m)" "map erase_fn fs = map erase_fn (m_functions m)"
      using that(2,3,4,5) by (simp_all add: list_all2_conv_all_nth list_eq_iff_nth_eq)
    with that(1) show ?thesis by (simp add: erase_module_def empty_module_def)
  qed
  note same = this
  have stop: "\<not> next_is LParen ts" if "map tk_kind ts = [RParen]" for ts
    using that by (simp add: next_is_def kind_at_map nth_opt_def)
  show ?thesis
    by (rule takes_items [OF items [THEN conjunct1, THEN conjunct2, THEN conjunct2]], unfold fold_items,
        rule takes_items [OF items [THEN conjunct2, THEN conjunct1, THEN conjunct2, THEN conjunct2]], unfold fold_items,
        rule takes_items [OF items [THEN conjunct2, THEN conjunct2, THEN conjunct1, THEN conjunct2, THEN conjunct2]], unfold fold_items,
        rule takes_items [OF items [THEN conjunct2, THEN conjunct2, THEN conjunct2, THEN conjunct1, THEN conjunct2, THEN conjunct2]], unfold fold_items,
        rule takes_items [OF items [THEN conjunct2, THEN conjunct2, THEN conjunct2, THEN conjunct2, THEN conjunct2, THEN conjunct2]], unfold fold_items,
        rule takes_repeat_stop [OF stop], assumption)
      (simp add: empty_module_def list_all2_same_eq same)
qed

lemma takes_module:
  assumes "module_back px m Is Es Us Ss Fs"
  shows "takes (parse_module px) (module_toks m Is Es Us Ss Fs) [] (\<lambda>m'. erase_module m' = erase_module m)"
  unfolding parse_module_def module_toks_def
  by (intro takes_cur_pos takes_kind takes_word takes_symbol takes_bind [OF takes_module_items [OF assms]] takes_peek_end)
    (simp add: takes_pret)

lemma module_reads_back:
  assumes "readable_module m"
  shows "\<exists>m'. parse (print_module m) = Inr m' \<and> erase_module m' = erase_module m"
proof -
  have "px_unions (module_ctx m) = module_unions m" "px_values (module_ctx m) = module_values m"
    by (simp_all add: module_ctx_def Let_def)
  then obtain Is Es Us Ss Fs where b: "module_back (module_ctx m) m Is Es Us Ss Fs"
    using module_back_ex [OF assms] by blast
  let ?K = "module_toks m Is Es Us Ss Fs"
  have "plain (m_name m)" using assms by (simp add: readable_module_def)
  then obtain ts where ts: "tokenize (print_module m) = Inr ts" "map tk_kind ts = ?K"
    using lexedD [OF module_lexed [OF b]] by (auto simp: tokenize_def)
  have s: "strip_marks ts = ts" "union_names ts = module_unions m" "value_struct_names ts = module_values m"
    using module_seen [OF b] ts(2) by (auto simp: seen_def intro: strip_marks_stays scans_names)
  obtain m' r where m': "parse_module (module_ctx m) ts = Inr (m', r)" "erase_module m' = erase_module m"
    using takesD [OF takes_module [OF b] ts(2)] by blast
  have "module_ctx m = \<lparr>px_end = (if ts = [] then (1, 1) else tk_pos (List.last ts)), px_unions = module_unions m, px_values = module_values m\<rparr>"
    by (simp add: module_ctx_def ts(1))
  with m' s ts(1) show ?thesis by (auto simp: parse_def parse_tokens_def parse_tokens_with_def Let_def)
qed

end
