(* ===== verification/Parser_Properties.thy ===== *)
theory Parser_Properties
  imports Round_Trip
begin

text \<open>
  What the front end promises: reading ends, a module that is printed is read back, and so is a float.
\<close>

section \<open>Reading ends\<close>

text \<open>
  C7. Parsing ends on every text: the parser returns a module or one of its own errors, never \<open>PStuck\<close>,
  and the fuel of \<open>parse_type\<close> and \<open>parse_expr\<close>, one more than the tokens left, is always enough, since
  both satisfy the recursive equations of the source.
\<close>

theorem parsing_ends:
  "parse s \<noteq> Inl PStuck
     \<and> parse_type px = parse_type_with px (parse_type px)
     \<and> parse_expr px = parse_expr_with px (parse_expr px)"
  by (intro conjI parse_not_stuck parse_type_unfold parse_expr_unfold)

section \<open>Round trips\<close>

text \<open>
  C6. A readable module that is printed is read back: parsing what \<open>print_module\<close> writes gives the same
  module, up to the places in the text. A module is readable when every name in it is a word, of letters
  and signs that neither is a literal nor breaks into more tokens; no enum member, variant or arm is called
  \<^verbatim>\<open>pub\<close>, \<^verbatim>\<open>read\<close>, \<^verbatim>\<open>union\<close> or \<^verbatim>\<open>struct\<close>; its types are ones it declares, under names that are not those of
  other types; its 32-bit literals are in the range of the tokenizer, its 64-bit float literals finite and
  the text of its 32-bit ones such a literal; no branch of an \<^verbatim>\<open>if\<close> is an empty block, but in the shape that
  \<^verbatim>\<open>when\<close> gives; and no statement of a function is an empty \<^verbatim>\<open>unsafe\<close>. Outside of this the text can say more
  than is read back: an infinite literal, as \<^verbatim>\<open>1.0e999\<close>, prints as \<^verbatim>\<open>inf.0\<close>, which is read as a name.
\<close>

theorem print_parse:
  assumes "readable_module m"
  shows "\<exists>m'. parse (print_module m) = Inr m' \<and> erase_module m' = erase_module m"
  by (rule module_reads_back [OF assms])

definition shop :: "module" where
  "shop =
     (empty_module ''shop'')\<lparr>
       m_enums := [\<lparr>ed_name = ''Size'', ed_members = [(''Small'', - 1), (''Large'', 7)], ed_span = (1, 1)\<rparr>],
       m_unions := [\<lparr>ud_name = ''Price'', ud_variants =
          [\<lparr>vr_name = ''Free'', vr_fields = []\<rparr>, \<lparr>vr_name = ''Paid'', vr_fields = [\<lparr>sf_name = ''cents'', sf_ty = TI64\<rparr>]\<rparr>],
          ud_span = (2, 1)\<rparr>],
       m_structs := [\<lparr>sd_name = ''Pair'', sd_fields = [\<lparr>sf_name = ''a'', sf_ty = TI32\<rparr>, \<lparr>sf_name = ''next'', sf_ty = TPtr (TStruct ''Pair'')\<rparr>],
          sd_span = (3, 1), sd_is_value = True\<rparr>],
       m_functions := [\<lparr>fd_name = ''total'', fd_params = [(''p'', TStruct ''Pair''), (''q'', TUnion ''Price'')],
          fd_return_type = TI32, fd_contracts = [Requires (EOp (OpCmp Lt) [ELit (LInt 0) (5, 1), EVar ''n'' (5, 2)] (5, 3))],
          fd_body =
            [ELet ''s'' TStr (ELit (LStr (''say '' @ [quote_mark, newline])) (6, 1)) (6, 2),
             EIf (ELit (LBool True) (7, 1)) (EGetField ''Pair'' ''a'' (EVar ''p'' (7, 2)) (7, 3)) (ECall ''other'' [] (7, 4)) (7, 5)],
          fd_span = (4, 1), fd_is_unsafe = False, fd_is_no_leak = True\<rparr>]\<rparr>"

lemma shop_names:
  "list_all plain [''shop'', ''Size'', ''Small'', ''Large'', ''Price'', ''Free'', ''Paid'', ''cents'', ''Pair'', ''a'', ''next'',
     ''total'', ''p'', ''q'', ''n'', ''s'', ''other'', ''Pair.a'']"
  by (simp add: plain_name graphic_def numeric_def is_digit_def digit_of_def)

lemma shop_readable: "readable_module shop"
  using shop_names
  by (auto simp: shop_def readable_module_def empty_module_def module_unions_def module_values_def readable_enum_def readable_union_def readable_variant_def
      readable_struct_def readable_member_def field_member_def readable_fn_def readable_body_def reserved_def type_name_def scalar_type_def narrow_from_name_def
      field_ok_def split_field_def before_dot_def after_dot_def lit_ok_def empty_block_def intro!: readable_readable_arm.intros)

theorem print_parse_witness: "\<exists>m'. parse (print_module shop) = Inr m' \<and> erase_module m' = erase_module shop"
  by (rule print_parse [OF shop_readable])

text \<open>
  C35. A finite 64-bit float that is printed is read back as the same bits: its text is a single token,
  the float's.
\<close>

theorem float_round_trip:
  assumes "finite_f64 x"
  shows "\<exists>ts. tokenize (float_str x) = Inr ts \<and> map tk_kind ts = [FloatLit x (float_str x)]"
  using lexedD [OF lexed_of_reads [OF reads_float [OF assms]]] by (simp add: tokenize_def)

theorem float_round_trip_witness:
  "\<exists>ts. tokenize (float_str 4607182418800017408) = Inr ts
     \<and> map tk_kind ts = [FloatLit 4607182418800017408 (float_str 4607182418800017408)]"
  by (rule float_round_trip) (simp add: finite_f64_def num64_def decode_def Let_def fmt64_def ff_emin_def)

end
