(* ===== verification/Sexpr.thy ===== *)
theory Sexpr
  imports Tokens
begin

text \<open>
  S-expressions over the parser's tokens (\<^verbatim>\<open>src/sexpr.rs\<close>): \<open>sx\<close> is \<^verbatim>\<open>Sx\<close>, on which the resolver, the
  sugar, the generics, the constants and the scopes work. \<open>read_form\<close> is \<^verbatim>\<open>Sx::read\<close>, a step over the
  tokens that are left as in the parser; \<open>read_one\<close> and \<open>flatten\<close> are inverse to each other.
\<close>

section \<open>Forms\<close>

datatype (plugins only: size code) sx =
    Atom token
  | SList token "sx list" token

datatype sx_error =
    XEnd
  | XNeverClosed span
  | XMismatched span
  | XUnexpected span
  | XExtra span
  | XOpenPlaceholder span
  | XStuck

definition is_closer :: "token_kind \<Rightarrow> bool" where
  "is_closer k \<longleftrightarrow> k = RParen \<or> k = RBracket"

definition closer_of :: "token_kind \<Rightarrow> token_kind" where
  "closer_of k = (if k = LParen then RParen else RBracket)"

text \<open>
  \<open>Inl\<close> reads one form, \<open>Inr\<close> the rest of the list that a bracket has opened. A form that reads nothing
  would be \<open>XStuck\<close>; none does (\<open>read_form_exact\<close>).
\<close>

function read_form :: "token list \<Rightarrow> sx_error + sx \<times> token list"
and read_items :: "token \<Rightarrow> token list \<Rightarrow> sx_error + (sx list \<times> token) \<times> token list" where
  "read_form ts =
     (case ts of
        [] \<Rightarrow> Inl XEnd
      | t # r \<Rightarrow>
          if tk_kind t = LParen \<or> tk_kind t = LBracket then
            (case read_items t r of Inl e \<Rightarrow> Inl e | Inr ((xs, c), r') \<Rightarrow> Inr (SList t xs c, r'))
          else if is_closer (tk_kind t) then Inl (XUnexpected (tk_pos t))
          else Inr (Atom t, r))"
| "read_items b ts =
     (case ts of
        [] \<Rightarrow> Inl (XNeverClosed (tk_pos b))
      | t # r \<Rightarrow>
          if tk_kind t = closer_of (tk_kind b) then Inr (([], t), r)
          else if is_closer (tk_kind t) then Inl (XMismatched (tk_pos t))
          else (case read_form ts of
                  Inl e \<Rightarrow> Inl e
                | Inr (x, r') \<Rightarrow>
                    if length r' < length ts then
                      (case read_items b r' of Inl e \<Rightarrow> Inl e | Inr ((xs, c), r'') \<Rightarrow> Inr ((x # xs, c), r''))
                    else Inl XStuck))"
  by pat_completeness auto
termination
  by (relation "measure (\<lambda>a. case a of Inl ts \<Rightarrow> 2 * length ts | Inr (_, ts) \<Rightarrow> Suc (2 * length ts))") auto

declare read_form.simps [simp del] read_items.simps [simp del]

section \<open>Bracket errors\<close>

fun ends_open :: "bool \<Rightarrow> string \<Rightarrow> bool" where
  "ends_open op [] = op"
| "ends_open op [c] =
     (if c = CHR ''{'' then True else if c = CHR ''}'' \<and> op then False else op)"
| "ends_open op (c # d # s) =
     (if c = CHR ''{'' \<and> \<not> op \<and> d = CHR ''{'' then ends_open op s
      else if c = CHR ''{'' then ends_open True (d # s)
      else if c = CHR ''}'' \<and> op then ends_open False (d # s)
      else if c = CHR ''}'' \<and> d = CHR ''}'' then ends_open op s
      else ends_open op (d # s))"

definition ends_in_placeholder :: "string \<Rightarrow> bool" where
  "ends_in_placeholder s = ends_open False s"

text \<open>The first string that ends inside a placeholder and has more code after it.\<close>

fun split_string :: "token list \<Rightarrow> token option" where
  "split_string (t # n # ts) =
     (if (case tk_kind t of StringLit s \<Rightarrow> ends_in_placeholder s | _ \<Rightarrow> False) \<and> \<not> is_closer (tk_kind n) then Some t
      else split_string (n # ts))"
| "split_string _ = None"

definition read_all :: "token list \<Rightarrow> sx_error + sx" where
  "read_all ts =
     (case read_form ts of
        Inl e \<Rightarrow> Inl e
      | Inr (x, []) \<Rightarrow> Inr x
      | Inr (x, t # _) \<Rightarrow> Inl (XExtra (tk_pos t)))"

definition read_one :: "token list \<Rightarrow> sx_error + sx" where
  "read_one ts =
     (case read_all ts of
        Inr x \<Rightarrow> Inr x
      | Inl e \<Rightarrow> (case split_string ts of Some t \<Rightarrow> Inl (XOpenPlaceholder (tk_pos t)) | None \<Rightarrow> Inl e))"

section \<open>Parts of a form\<close>

fun flatten :: "sx \<Rightarrow> token list" where
  "flatten (Atom t) = [t]"
| "flatten (SList b xs c) = b # concat (map flatten xs) @ [c]"

fun sx_symbol :: "sx \<Rightarrow> string option" where
  "sx_symbol (Atom t) = (case tk_kind t of Symbol s \<Rightarrow> Some s | _ \<Rightarrow> None)"
| "sx_symbol (SList _ _ _) = None"

fun is_paren :: "sx \<Rightarrow> bool" where
  "is_paren (SList b _ _) = (tk_kind b = LParen)"
| "is_paren (Atom _) = False"

fun sx_items :: "sx \<Rightarrow> sx list" where
  "sx_items (SList _ xs _) = xs"
| "sx_items (Atom _) = []"

definition sx_head :: "sx \<Rightarrow> string option" where
  "sx_head x = (if is_paren x then (case sx_items x of h # _ \<Rightarrow> sx_symbol h | [] \<Rightarrow> None) else None)"

fun sx_position :: "sx \<Rightarrow> span" where
  "sx_position (Atom t) = tk_pos t"
| "sx_position (SList b _ _) = tk_pos b"

text \<open>\<^verbatim>\<open>find_head\<close>: where the first \<open>(n ...)\<close> is, brackets not looked into.\<close>

fun find_head :: "string \<Rightarrow> sx \<Rightarrow> span option"
and find_heads :: "string \<Rightarrow> sx list \<Rightarrow> span option" where
  "find_head n (Atom t) = None"
| "find_head n (SList b xs c) =
     (if tk_kind b \<noteq> LParen then None
      else if sx_head (SList b xs c) = Some n then Some (tk_pos b)
      else find_heads n xs)"
| "find_heads n [] = None"
| "find_heads n (x # xs) = (case find_head n x of Some p \<Rightarrow> Some p | None \<Rightarrow> find_heads n xs)"

definition token_at :: "token_kind \<Rightarrow> span \<Rightarrow> token" where
  "token_at k sp = \<lparr>tk_kind = k, tk_line = fst sp, tk_col = snd sp\<rparr>"

definition symbol_sx :: "string \<Rightarrow> span \<Rightarrow> sx" where
  "symbol_sx s sp = Atom (token_at (Symbol s) sp)"

text \<open>A list of new brackets at one place.\<close>

definition list_at :: "sx list \<Rightarrow> span \<Rightarrow> sx" where
  "list_at xs sp = SList (token_at LParen sp) xs (token_at RParen sp)"

definition is_kind :: "token_kind \<Rightarrow> sx \<Rightarrow> bool" where
  "is_kind k x = (case x of Atom t \<Rightarrow> tk_kind t = k | SList _ _ _ \<Rightarrow> False)"

definition is_bracket :: "sx \<Rightarrow> bool" where
  "is_bracket x = (case x of SList b _ _ \<Rightarrow> tk_kind b = LBracket | Atom _ \<Rightarrow> False)"

section \<open>Reading and flattening\<close>

text \<open>The forms that are read: atoms are no brackets, a round bracket closes a round one and a square a square.\<close>

fun well_bracketed :: "sx \<Rightarrow> bool" where
  "well_bracketed (Atom t) = (tk_kind t \<notin> {LParen, RParen, LBracket, RBracket})"
| "well_bracketed (SList b xs c) =
     ((tk_kind b, tk_kind c) \<in> {(LParen, RParen), (LBracket, RBracket)} \<and> (\<forall>x \<in> set xs. well_bracketed x))"

lemma well_bracketed_read [simp]:
  "well_bracketed (Atom t) = (tk_kind t \<noteq> LParen \<and> tk_kind t \<noteq> LBracket \<and> \<not> is_closer (tk_kind t))"
  "well_bracketed (SList b xs c) =
     ((tk_kind b = LParen \<or> tk_kind b = LBracket) \<and> tk_kind c = closer_of (tk_kind b) \<and> (\<forall>x \<in> set xs. well_bracketed x))"
  by (auto simp: is_closer_def closer_of_def)

declare well_bracketed.simps [simp del]

lemma flatten_Cons: "\<exists>t r. flatten x = t # r \<and> (well_bracketed x \<longrightarrow> \<not> is_closer (tk_kind t))"
  by (cases x) (auto simp: is_closer_def)

lemma read_form_reads:
  "read_form ts = Inr (x, r) \<Longrightarrow> well_bracketed x \<and> flatten x @ r = ts"
  "read_items t ts = Inr ((xs, c), r) \<Longrightarrow>
     (\<forall>x \<in> set xs. well_bracketed x) \<and> tk_kind c = closer_of (tk_kind t) \<and> concat (map flatten xs) @ c # r = ts"
proof (induction ts and t ts arbitrary: x r and xs c r rule: read_form_read_items.induct)
  case (1 ts)
  note eq = 1(2) [unfolded read_form.simps [of ts]]
  show ?case
  proof (cases ts)
    case Nil
    then show ?thesis using eq by simp
  next
    case (Cons t q)
    show ?thesis
    proof (cases "tk_kind t = LParen \<or> tk_kind t = LBracket")
      case True
      with eq Cons obtain xs c where "read_items t q = Inr ((xs, c), r)" "x = SList t xs c"
        by (auto split: sum.splits)
      with 1(1) [OF Cons True this(1)] True show ?thesis by (simp add: Cons)
    next
      case False
      with eq Cons show ?thesis by (auto split: if_splits)
    qed
  qed
next
  case (2 b ts)
  note eq = 2(3) [unfolded read_items.simps [of b ts]]
  show ?case
  proof (cases ts)
    case Nil
    then show ?thesis using eq by simp
  next
    case (Cons t q)
    show ?thesis
    proof (cases "tk_kind t = closer_of (tk_kind b)")
      case True
      with eq Cons show ?thesis by simp
    next
      case False
      with eq Cons have nc: "\<not> is_closer (tk_kind t)" by (auto split: if_splits)
      with False eq Cons obtain x r' ys where x: "read_form ts = Inr (x, r')" "length r' < length ts"
        and ys: "read_items b r' = Inr ((ys, c), r)" "xs = x # ys"
        by (auto split: sum.splits if_splits)
      from 2(1) [OF Cons False nc x(1)] 2(2) [OF Cons False nc x(1) refl x(2) ys(1)] show ?thesis by (simp add: ys(2))
    qed
  qed
qed

lemma read_form_flatten:
  "well_bracketed x \<Longrightarrow> read_form (flatten x @ r) = Inr (x, r)"
proof (induction x arbitrary: r)
  case (Atom t)
  then show ?case by (subst read_form.simps) simp
next
  case (SList b xs c)
  have "read_items b (concat (map flatten ys) @ c # r) = Inr ((ys, c), r)" if "set ys \<subseteq> set xs" for ys
    using that
  proof (induction ys)
    case Nil
    then show ?case using SList.prems by (subst read_items.simps) simp
  next
    case (Cons y ys)
    from Cons.prems have y: "well_bracketed y" "y \<in> set xs" using SList.prems by auto
    obtain t q where f: "flatten y = t # q" "\<not> is_closer (tk_kind t)" using flatten_Cons [of y] y(1) by auto
    have nc: "tk_kind t \<noteq> closer_of (tk_kind b)" using f(2) SList.prems by (auto simp: is_closer_def closer_of_def)
    have R: "read_form (t # q @ concat (map flatten ys) @ c # r) = Inr (y, concat (map flatten ys) @ c # r)"
      using SList.IH [OF y(2,1)] f(1) by (metis append_Cons)
    show ?case using Cons f nc R by (subst read_items.simps) simp
  qed
  then show ?case using SList.prems by (subst read_form.simps) auto
qed

lemma read_all_exact: "read_all ts = Inr x \<longleftrightarrow> well_bracketed x \<and> flatten x = ts"
proof
  assume "read_all ts = Inr x"
  then have "read_form ts = Inr (x, [])" by (auto simp: read_all_def split: sum.splits list.splits)
  from read_form_reads(1) [OF this] show "well_bracketed x \<and> flatten x = ts" by simp
next
  assume "well_bracketed x \<and> flatten x = ts"
  then show "read_all ts = Inr x" using read_form_flatten [of x "[]"] by (auto simp: read_all_def)
qed

lemma read_one_exact: "read_one ts = Inr x \<longleftrightarrow> well_bracketed x \<and> flatten x = ts"
  unfolding read_all_exact [symmetric] by (auto simp: read_one_def split: sum.splits option.splits)

lemma read_not_stuck:
  "read_form ts \<noteq> Inl XStuck"
  "read_items t ts \<noteq> Inl XStuck"
proof (induction ts and t ts rule: read_form_read_items.induct)
  case (1 ts)
  then show ?case by (subst read_form.simps) (auto split: list.splits sum.splits)
next
  case (2 b ts)
  have "length r' < length ts" if "read_form ts = Inr (x, r')" for x r'
    using read_form_reads(1) [OF that] flatten_Cons [of x] by auto
  then show ?case using 2 by (subst read_items.simps) (auto split: list.splits sum.splits)
qed

end
