(* ===== verification/Sugar.thy ===== *)
theory Sugar
  imports Sexpr
begin

text \<open>
  Surface forms (\<^verbatim>\<open>src/sugar.rs\<close>): \<^verbatim>\<open>for\<close>, \<^verbatim>\<open>arr.new\<close>, \<^verbatim>\<open>arr.of\<close> and the \<^verbatim>\<open>and\<close> and \<^verbatim>\<open>or\<close> of more than two
  operands, rewritten as a module is read. \<open>sugar\<close> is \<^verbatim>\<open>rewrite\<close>: it gives the rewritten form and whether
  an allocator is used, or the first mistake, at its form. The allocator's prefix is \<open>Inr\<close>, the reason
  why there is none \<open>Inl\<close>. An empty form \<^verbatim>\<open>()\<close> has no last item: the code's \<^verbatim>\<open>items.len() - 1\<close> wraps there, as
  in a build without overflow checks. After it none of the forms is left, and rewriting again changes nothing.
\<close>

section \<open>Shapes\<close>

datatype sugar_fault =
    SNoAllocator string
  | SArrOfAllocator
  | SNewAllocator
  | SNewFields
  | SArrNewAllocator
  | SArrNewShape
  | SWhenShape
  | SForStep
  | SForShape

definition is_literal :: "sx \<Rightarrow> bool" where
  "is_literal x =
     (case x of
        Atom t \<Rightarrow>
          (case tk_kind t of
             IntLit _ \<Rightarrow> True | Int64Lit _ \<Rightarrow> True | FloatLit _ _ \<Rightarrow> True | Float32Lit _ _ \<Rightarrow> True
           | StringLit _ \<Rightarrow> True | BoolLit _ \<Rightarrow> True | _ \<Rightarrow> False)
      | SList _ _ _ \<Rightarrow> False)"

definition is_int :: "sx \<Rightarrow> bool" where
  "is_int x = (case x of Atom t \<Rightarrow> (case tk_kind t of IntLit _ \<Rightarrow> True | _ \<Rightarrow> False) | SList _ _ _ \<Rightarrow> False)"

text \<open>A mistake in the shape of a form whose head is \<open>w\<close>, and the form it is reported at.\<close>

definition shape_fault :: "(string + string) \<Rightarrow> string \<Rightarrow> sx \<Rightarrow> (sugar_fault \<times> sx) option" where
  "shape_fault alloc w x =
     (let xs = sx_items x; n = length xs
      in if w = ''new'' \<or> w = ''arr.new'' \<or> w = ''arr.of'' then
           (case alloc of
              Inl msg \<Rightarrow> Some (SNoAllocator msg, x)
            | Inr _ \<Rightarrow>
                if w = ''arr.of'' then (if n < 3 \<or> is_literal (xs ! 2) then Some (SArrOfAllocator, x) else None)
                else if w = ''new'' then
                  (if n = 2 then Some (SNewAllocator, x)
                   else if n = 4 \<and> is_bracket (xs ! 3) then None
                   else Some (SNewFields, x))
                else if n = 3 then Some (SArrNewAllocator, x)
                else if n \<noteq> 4 then Some (SArrNewShape, x)
                else None)
         else if w = ''when'' \<and> n < 2 then Some (SWhenShape, x)
         else if w = ''for'' \<and> 5 \<le> n \<and> is_int (xs ! 4) then Some (SForStep, xs ! 4)
         else if w = ''for'' \<and> (n < 4 \<or> sx_symbol (xs ! 1) = None) then Some (SForShape, x)
         else None)"

text \<open>The bracket of a named \<^verbatim>\<open>new\<close> or \<^verbatim>\<open>make\<close> holds expressions.\<close>

definition names_fields :: "sx \<Rightarrow> bool" where
  "names_fields x \<longleftrightarrow> sx_head x \<in> {Some ''new'', Some ''make''} \<and> sx_items x \<noteq> [] \<and> is_bracket (last (sx_items x))"

section \<open>The forms\<close>

definition int_sx :: "i64 \<Rightarrow> span \<Rightarrow> sx" where
  "int_sx v sp = Atom (token_at (IntLit v) sp)"

definition desugar_for :: "span \<Rightarrow> sx list \<Rightarrow> sx" where
  "desugar_for sp xs =
     list_at
       ([symbol_sx ''counted_loop'' sp, xs ! 1, xs ! 2, list_at [symbol_sx ''-'' sp, xs ! 3, int_sx 1 sp] sp, int_sx 1 sp]
        @ drop 4 xs) sp"

definition desugar_arr_new :: "string \<Rightarrow> span \<Rightarrow> sx list \<Rightarrow> sx" where
  "desugar_arr_new pre sp xs =
     list_at ([symbol_sx ''call'' sp, list_at [symbol_sx (pre @ ''array'') sp, xs ! 1] sp] @ drop 2 xs) sp"

definition arr_name :: "span \<Rightarrow> string" where
  "arr_name sp = ''_arr_of_'' @ show_nat (fst sp) @ ''_'' @ show_nat (snd sp)"

definition desugar_arr_of :: "string \<Rightarrow> span \<Rightarrow> sx list \<Rightarrow> sx" where
  "desugar_arr_of pre sp xs =
     (let t = xs ! 1; vals = drop 3 xs; name = symbol_sx (arr_name sp) sp;
          make = list_at [symbol_sx ''call'' sp, list_at [symbol_sx (pre @ ''array'') sp, t] sp, xs ! 2,
                   int_sx (word_of_nat (length vals)) sp] sp
      in list_at
           ([symbol_sx ''block'' sp,
             list_at [symbol_sx ''let'' sp, name, Atom (token_at Colon sp), list_at [symbol_sx ''arr'' sp, t] sp, make] sp]
            @ map (\<lambda>(k, v). list_at [symbol_sx ''arr.set'' sp, t, name, int_sx (word_of_nat k) sp, v] sp)
                (zip [0..<length vals] vals)
            @ [name]) sp)"

text \<open>Right-nested, as \<open>(and a (and b c))\<close>.\<close>

definition desugar_logic :: "string \<Rightarrow> span \<Rightarrow> sx list \<Rightarrow> sx" where
  "desugar_logic w sp xs =
     (let n = length xs;
          tail = foldr (\<lambda>x t. list_at [symbol_sx w sp, x, t] sp) (take (n - 4) (drop 2 xs))
                   (list_at [symbol_sx w sp, xs ! (n - 2), xs ! (n - 1)] sp)
      in list_at [xs ! 0, xs ! 1, tail] sp)"

text \<open>What becomes of a form whose children are rewritten, and whether it uses the allocator.\<close>

definition desugar_form :: "(string + string) \<Rightarrow> string \<Rightarrow> sx \<Rightarrow> bool \<times> sx" where
  "desugar_form alloc w x =
     (let xs = sx_items x; sp = sx_position x; pre = (case alloc of Inr p \<Rightarrow> p | Inl _ \<Rightarrow> [])
      in if w = ''for'' then (False, desugar_for sp xs)
         else if w = ''new'' then (True, x)
         else if w = ''arr.new'' then (True, desugar_arr_new pre sp xs)
         else if w = ''arr.of'' then (True, desugar_arr_of pre sp xs)
         else if (w = ''and'' \<or> w = ''or'') \<and> 3 < length xs then (False, desugar_logic w sp xs)
         else (False, x))"

definition desugar :: "(string + string) \<Rightarrow> sx \<Rightarrow> bool \<times> sx" where
  "desugar alloc x = (case sx_head x of Some w \<Rightarrow> desugar_form alloc w x | None \<Rightarrow> (False, x))"

section \<open>The rewriting\<close>

text \<open>The children: with \<open>named\<close>, the last is a bracket of expressions.\<close>

function sugar :: "(string + string) \<Rightarrow> sx \<Rightarrow> (sugar_fault \<times> span) + bool \<times> sx"
and sugars :: "(string + string) \<Rightarrow> bool \<Rightarrow> sx list \<Rightarrow> (sugar_fault \<times> span) + bool \<times> sx list" where
  "sugar alloc x =
     (if \<not> is_paren x then Inr (False, x)
      else case (case sx_head x of Some w \<Rightarrow> shape_fault alloc w x | None \<Rightarrow> None) of
        Some (f, at) \<Rightarrow> Inl (f, sx_position at)
      | None \<Rightarrow>
          (case x of
             SList b xs c \<Rightarrow>
               bind_res (sugars alloc (names_fields x) xs) (\<lambda>(u, ys).
                 case desugar alloc (SList b ys c) of (u', y) \<Rightarrow> Inr (u \<or> u', y))
           | Atom _ \<Rightarrow> Inr (False, x)))"
| "sugars alloc named [] = Inr (False, [])"
| "sugars alloc named (x # xs) =
     bind_res
       (if named \<and> xs = [] then
          (case x of
             SList b ys c \<Rightarrow> bind_res (sugars alloc False ys) (\<lambda>(u, zs). Inr (u, SList b zs c))
           | Atom _ \<Rightarrow> Inr (False, x))
        else sugar alloc x) (\<lambda>(u, y).
     bind_res (sugars alloc named xs) (\<lambda>(u', ys). Inr (u \<or> u', y # ys)))"
  by pat_completeness auto
termination
  by (relation "measure (\<lambda>a. case a of Inl (_, x) \<Rightarrow> size x | Inr (_, _, xs) \<Rightarrow> size_list size xs)") auto

declare sugar.simps [simp del]

section \<open>No sugar left\<close>

text \<open>The forms that the rewriting leaves as they are, at every depth it looks into.\<close>

definition plain_form :: "(string + string) \<Rightarrow> sx \<Rightarrow> bool" where
  "plain_form alloc x \<longleftrightarrow>
     (case sx_head x of
        Some w \<Rightarrow>
          w \<notin> {''for'', ''arr.new'', ''arr.of''} \<and> (w \<in> {''and'', ''or''} \<longrightarrow> length (sx_items x) \<le> 3)
          \<and> (w = ''new'' \<longrightarrow> length (sx_items x) = 4 \<and> is_bracket (sx_items x ! 3) \<and> \<not> isl alloc)
          \<and> (w = ''when'' \<longrightarrow> 2 \<le> length (sx_items x))
      | None \<Rightarrow> True)"

function sugar_free :: "(string + string) \<Rightarrow> sx \<Rightarrow> bool"
and sugar_frees :: "(string + string) \<Rightarrow> bool \<Rightarrow> sx list \<Rightarrow> bool" where
  "sugar_free alloc x \<longleftrightarrow> is_paren x \<longrightarrow> plain_form alloc x \<and> sugar_frees alloc (names_fields x) (sx_items x)"
| "sugar_frees alloc named [] \<longleftrightarrow> True"
| "sugar_frees alloc named (x # xs) \<longleftrightarrow>
     (if named \<and> xs = [] then sugar_frees alloc False (sx_items x) else sugar_free alloc x) \<and> sugar_frees alloc named xs"
  by pat_completeness auto
termination
proof (relation "measure (\<lambda>a. case a of Inl (_, x) \<Rightarrow> size x | Inr (_, _, xs) \<Rightarrow> size_list size xs)", goal_cases)
  case (2 alloc x)
  then show ?case by (cases x) auto
next
  case (3 alloc named x xs)
  then show ?case by (cases x) auto
qed auto

declare sugar_free.simps [simp del]

lemma sugar_frees_all: "sugar_frees alloc False xs \<longleftrightarrow> (\<forall>x \<in> set xs. sugar_free alloc x)"
  by (induction xs) auto

lemma sugar_free_atom [simp]: "sugar_free alloc (Atom t)" "sugar_free alloc (symbol_sx s sp)" "sugar_free alloc (int_sx i sp)"
  by (simp_all add: sugar_free.simps symbol_sx_def int_sx_def)

text \<open>A new list with a head of its own.\<close>

lemma list_at_simps [simp]:
  "is_paren (list_at xs sp)" "sx_items (list_at xs sp) = xs" "sx_position (list_at xs sp) = sp" "\<not> is_bracket (list_at xs sp)"
  "sx_symbol (list_at xs sp) = None" "sx_symbol (symbol_sx s sp) = Some s"
  by (simp_all add: list_at_def token_at_def is_bracket_def symbol_sx_def tk_pos_def)

lemma sugar_free_list:
  assumes "w \<notin> {''for'', ''arr.new'', ''arr.of'', ''and'', ''or'', ''new'', ''when'', ''make''}" "\<forall>x \<in> set xs. sugar_free alloc x"
  shows "sugar_free alloc (list_at (symbol_sx w sp # xs) sp')"
  using assms by (simp add: sugar_free.simps [of _ "list_at _ _"] plain_form_def names_fields_def sx_head_def sugar_frees_all)

lemma array_name: "pre @ ''array'' \<notin> {''for'', ''arr.new'', ''arr.of'', ''and'', ''or'', ''new'', ''when'', ''make''}"
proof -
  have "\<forall>w \<in> {''for'', ''arr.new'', ''arr.of'', ''and'', ''or'', ''new'', ''when'', ''make''}. last w \<noteq> CHR ''y''" by simp
  moreover have "last (pre @ ''array'') = CHR ''y''" by simp
  ultimately show ?thesis by metis
qed

text \<open>Rewriting keeps atoms as they are and lists lists, and a bracket as it opens.\<close>

definition same_class :: "sx \<Rightarrow> sx \<Rightarrow> bool" where
  "same_class x y \<longleftrightarrow> sx_symbol y = sx_symbol x \<and> is_bracket y = is_bracket x"

lemma desugar_class: "is_paren x \<Longrightarrow> same_class x (snd (desugar alloc x))"
  by (cases x)
    (auto simp: desugar_def desugar_form_def Let_def same_class_def desugar_for_def desugar_arr_new_def desugar_arr_of_def
      desugar_logic_def is_bracket_def [of "SList _ _ _"] split: option.split)

lemma sugar_class:
  assumes "sugar alloc x = Inr (u, y)"
  shows "same_class x y"
proof (cases "is_paren x")
  case True
  then obtain b xs c where x: "x = SList b xs c" "tk_kind b = LParen" by (cases x) auto
  from assms True obtain u1 ys where "y = snd (desugar alloc (SList b ys c))"
    by (subst (asm) sugar.simps) (auto simp: x case_prod_beta split: option.splits if_splits)
  moreover have "same_class (SList b ys c) (snd (desugar alloc (SList b ys c)))" by (rule desugar_class) (simp add: x(2))
  ultimately show ?thesis by (simp add: x(1) same_class_def is_bracket_def)
next
  case False
  with assms show ?thesis by (subst (asm) sugar.simps) (simp add: same_class_def)
qed

lemma sugars_class: "sugars alloc named xs = Inr (u, ys) \<Longrightarrow> list_all2 same_class xs ys"
proof (induction alloc named xs arbitrary: u ys rule: sugar_sugars.induct(2) [where P = "\<lambda>_ _. True"])
  case (3 alloc named x xs)
  from "3.prems" obtain u1 y u2 ys' where y: "ys = y # ys'" "sugars alloc named xs = Inr (u2, ys')"
    and h: "(if named \<and> xs = [] then
          (case x of
             SList b ys c \<Rightarrow> bind_res (sugars alloc False ys) (\<lambda>(u, zs). Inr (u, SList b zs c))
           | Atom _ \<Rightarrow> Inr (False, x))
        else sugar alloc x) = Inr (u1, y)"
    by auto
  have "same_class x y"
    using h sugar_class by (auto simp: same_class_def is_bracket_def split: if_splits sx.splits)
  moreover have "list_all2 same_class xs ys'" using "3.IH" h y(2) by blast
  ultimately show ?case by (simp add: y(1))
qed auto

lemma same_class_head:
  assumes "list_all2 same_class xs ys"
  shows "sx_head (SList b ys c) = sx_head (SList b xs c)"
  using assms by (cases xs; cases ys) (auto simp: sx_head_def same_class_def)

lemma same_class_names:
  assumes "list_all2 same_class xs ys"
  shows "names_fields (SList b ys c) = names_fields (SList b xs c)"
proof -
  have "is_bracket (last ys) = is_bracket (last xs)" if "xs \<noteq> []"
    using assms that by (induction rule: list_all2_induct) (auto simp: same_class_def)
  then show ?thesis using same_class_head [OF assms, of b c] list_all2_lengthD [OF assms]
    by (cases "xs = []"; cases "ys = []") (simp_all add: names_fields_def)
qed

text \<open>The shapes again, of the rewritten children.\<close>

lemma shape_fault_heads:
  "shape_fault alloc ''new'' x =
     (case alloc of
        Inl msg \<Rightarrow> Some (SNoAllocator msg, x)
      | Inr _ \<Rightarrow>
          if length (sx_items x) = 2 then Some (SNewAllocator, x)
          else if length (sx_items x) = 4 \<and> is_bracket (sx_items x ! 3) then None else Some (SNewFields, x))"
  "shape_fault alloc ''arr.new'' x =
     (case alloc of
        Inl msg \<Rightarrow> Some (SNoAllocator msg, x)
      | Inr _ \<Rightarrow>
          if length (sx_items x) = 3 then Some (SArrNewAllocator, x)
          else if length (sx_items x) \<noteq> 4 then Some (SArrNewShape, x) else None)"
  "shape_fault alloc ''arr.of'' x =
     (case alloc of
        Inl msg \<Rightarrow> Some (SNoAllocator msg, x)
      | Inr _ \<Rightarrow> if length (sx_items x) < 3 \<or> is_literal (sx_items x ! 2) then Some (SArrOfAllocator, x) else None)"
  "shape_fault alloc ''when'' x = (if length (sx_items x) < 2 then Some (SWhenShape, x) else None)"
  "shape_fault alloc ''for'' x =
     (if 5 \<le> length (sx_items x) \<and> is_int (sx_items x ! 4) then Some (SForStep, sx_items x ! 4)
      else if length (sx_items x) < 4 \<or> sx_symbol (sx_items x ! 1) = None then Some (SForShape, x) else None)"
  by (simp_all add: shape_fault_def Let_def split: sum.split)

lemma shape_fault_class:
  assumes "list_all2 same_class xs ys" "shape_fault alloc w (SList b xs c) = None"
  shows "w = ''new'' \<longrightarrow> length ys = 4 \<and> is_bracket (ys ! 3) \<and> \<not> isl alloc"
    and "w = ''when'' \<longrightarrow> 2 \<le> length ys"
    and "w \<in> {''arr.new'', ''arr.of''} \<longrightarrow> 3 \<le> length ys \<and> \<not> isl alloc"
    and "w = ''for'' \<longrightarrow> 4 \<le> length ys"
proof -
  have l: "length xs = length ys" using list_all2_lengthD [OF assms(1)] .
  have b3: "is_bracket (ys ! 3) = is_bracket (xs ! 3)" if "length ys = 4"
    using list_all2_nthD [OF assms(1), of 3] l that by (simp add: same_class_def)
  show "w = ''new'' \<longrightarrow> length ys = 4 \<and> is_bracket (ys ! 3) \<and> \<not> isl alloc"
  proof
    assume w: "w = ''new''"
    show "length ys = 4 \<and> is_bracket (ys ! 3) \<and> \<not> isl alloc"
      using assms(2) l b3 unfolding w shape_fault_heads by (cases alloc) (simp_all split: if_splits)
  qed
  show "w = ''when'' \<longrightarrow> 2 \<le> length ys"
  proof
    assume w: "w = ''when''"
    show "2 \<le> length ys" using assms(2) l unfolding w shape_fault_heads by (simp split: if_splits)
  qed
  show "w \<in> {''arr.new'', ''arr.of''} \<longrightarrow> 3 \<le> length ys \<and> \<not> isl alloc"
  proof
    assume "w \<in> {''arr.new'', ''arr.of''}"
    then consider (new) "w = ''arr.new''" | (ofs) "w = ''arr.of''" by blast
    then show "3 \<le> length ys \<and> \<not> isl alloc"
    proof cases
      case new
      show ?thesis using assms(2) l unfolding new shape_fault_heads by (cases alloc) (simp_all split: if_splits)
    next
      case ofs
      show ?thesis using assms(2) l unfolding ofs shape_fault_heads by (cases alloc) (simp_all split: if_splits)
    qed
  qed
  show "w = ''for'' \<longrightarrow> 4 \<le> length ys"
  proof
    assume w: "w = ''for''"
    show "4 \<le> length ys" using assms(2) l unfolding w shape_fault_heads by (simp split: if_splits)
  qed
qed

lemma plain_formD:
  assumes "plain_form alloc x" "sx_head x = Some w"
  shows "w \<notin> {''for'', ''arr.new'', ''arr.of''}" "w \<in> {''and'', ''or''} \<longrightarrow> length (sx_items x) \<le> 3"
    "w = ''new'' \<longrightarrow> length (sx_items x) = 4 \<and> is_bracket (sx_items x ! 3) \<and> \<not> isl alloc"
    "w = ''when'' \<longrightarrow> 2 \<le> length (sx_items x)"
  using assms(1) unfolding plain_form_def assms(2) option.case by - (elim conjE, assumption)+

lemma plain_no_fault:
  assumes "plain_form alloc x" "sx_head x = Some w"
  shows "shape_fault alloc w x = None"
proof -
  note p = plain_formD [OF assms]
  consider (new) "w = ''new''" | (whens) "w = ''when''" | (other) "w \<noteq> ''new''" "w \<noteq> ''when''" by blast
  then show ?thesis
  proof cases
    case new
    then show ?thesis using p(3) unfolding new shape_fault_heads by (cases alloc) simp_all
  next
    case whens
    then show ?thesis using p(4) unfolding whens shape_fault_heads by simp
  next
    case other
    then show ?thesis using p(1) by (simp add: shape_fault_def Let_def)
  qed
qed

lemma plain_unchanged:
  assumes "plain_form alloc x"
  shows "snd (desugar alloc x) = x"
proof (cases "sx_head x")
  case (Some w)
  have "\<not> ((w = ''and'' \<or> w = ''or'') \<and> 3 < length (sx_items x))" using plain_formD(2) [OF assms Some] by fastforce
  then show ?thesis using plain_formD(1) [OF assms Some] Some by (simp add: desugar_def desugar_form_def Let_def) blast
qed (simp add: desugar_def)

lemma sugar_free_logic:
  assumes "w \<in> {''and'', ''or''}" "sugar_free alloc x" "sugar_free alloc y"
  shows "sugar_free alloc (list_at [symbol_sx w sp, x, y] sp')"
  using assms by (auto simp: sugar_free.simps [of _ "list_at _ _"] plain_form_def names_fields_def sx_head_def)

lemma desugar_free:
  assumes "tk_kind b = LParen" "sugar_frees alloc (names_fields (SList b ys c)) ys"
    "\<And>w. sx_head (SList b ys c) = Some w \<Longrightarrow>
      (w = ''new'' \<longrightarrow> length ys = 4 \<and> is_bracket (ys ! 3) \<and> \<not> isl alloc) \<and> (w = ''when'' \<longrightarrow> 2 \<le> length ys)
      \<and> (w \<in> {''arr.new'', ''arr.of''} \<longrightarrow> 3 \<le> length ys) \<and> (w = ''for'' \<longrightarrow> 4 \<le> length ys)"
  shows "sugar_free alloc (snd (desugar alloc (SList b ys c)))"
proof (cases "sx_head (SList b ys c)")
  case None
  then show ?thesis using assms by (simp add: desugar_def sugar_free.simps plain_form_def)
next
  case (Some w)
  note shape = assms(3) [OF Some]
  let ?x = "SList b ys c"
  have kids: "\<forall>x \<in> set ys. sugar_free alloc x" if "w \<notin> {''new'', ''make''}"
    using assms(2) that Some by (simp add: names_fields_def sugar_frees_all)
  consider "w = ''for''" | "w = ''arr.new''" | "w = ''arr.of''" | "w \<in> {''and'', ''or''}" "3 < length ys"
    | "w \<notin> {''for'', ''arr.new'', ''arr.of''}" "\<not> (w \<in> {''and'', ''or''} \<and> 3 < length ys)"
    by blast
  then show ?thesis
  proof cases
    case 1
    then have "4 \<le> length ys" "\<forall>x \<in> set ys. sugar_free alloc x" using shape kids by auto
    then show ?thesis using 1 Some
      by (auto simp: desugar_def desugar_form_def Let_def desugar_for_def intro!: sugar_free_list) (meson in_set_dropD)
  next
    case 2
    then have "3 \<le> length ys" "\<forall>x \<in> set ys. sugar_free alloc x" using shape kids by auto
    then show ?thesis using 2 Some array_name
      by (auto simp: desugar_def desugar_form_def Let_def desugar_arr_new_def intro!: sugar_free_list) (meson in_set_dropD)
  next
    case 3
    then have "3 \<le> length ys" "\<forall>x \<in> set ys. sugar_free alloc x" using shape kids by auto
    then show ?thesis using 3 Some array_name
      by (auto simp: desugar_def desugar_form_def Let_def desugar_arr_of_def intro!: sugar_free_list dest!: set_zip_rightD)
        (meson in_set_dropD)
  next
    case 4
    then have k: "\<forall>x \<in> set ys. sugar_free alloc x" using kids by auto
    obtain h zs where h: "ys = h # zs" "sx_symbol h = Some w" using Some by (cases ys) (auto simp: sx_head_def split: if_splits)
    have fold: "sugar_free alloc (foldr (\<lambda>x t. list_at [symbol_sx w sp, x, t] sp) zs t)"
      if "\<forall>x \<in> set zs. sugar_free alloc x" "sugar_free alloc t" for zs t sp
      using that by (induction zs) (auto intro: sugar_free_logic [OF 4(1)])
    have "sugar_free alloc (foldr (\<lambda>x t. list_at [symbol_sx w sp, x, t] sp) (take (length ys - 4) (drop 2 ys))
        (list_at [symbol_sx w sp, ys ! (length ys - 2), ys ! (length ys - 1)] sp))" for sp
    proof -
      have "\<forall>x \<in> set (take (length ys - 4) (drop 2 ys)). sugar_free alloc x" using k by (meson in_set_takeD in_set_dropD)
      moreover have "sugar_free alloc (list_at [symbol_sx w sp, ys ! (length ys - 2), ys ! (length ys - 1)] sp)" for sp
        using k 4(2) by (intro sugar_free_logic [OF 4(1)]) simp_all
      ultimately show ?thesis by (rule fold)
    qed
    moreover have "sugar_free alloc (list_at [h, x, t] sp)" if "sugar_free alloc x" "sugar_free alloc t" "sugar_free alloc h" for x t sp
      using that h(2) 4(1) by (auto simp: sugar_free.simps [of _ "list_at _ _"] plain_form_def names_fields_def sx_head_def)
    moreover have "ys ! 0 = h" "sugar_free alloc h" using h(1) k by simp_all
    moreover have "sugar_free alloc (ys ! 1)" using k 4(2) by (metis nth_mem One_nat_def Suc_lessD numeral_3_eq_3)
    ultimately show ?thesis using 4 Some
      by (auto simp: desugar_def desugar_form_def Let_def desugar_logic_def)
  next
    case 5
    then have "snd (desugar alloc ?x) = ?x" using Some by (simp add: desugar_def desugar_form_def Let_def) blast
    moreover have "plain_form alloc ?x"
    proof -
      have "w \<in> {''and'', ''or''} \<longrightarrow> length ys \<le> 3" using 5(2) by (meson not_less)
      with 5(1) shape show ?thesis unfolding plain_form_def Some option.case sx_items.simps by (elim conjE) (intro conjI)
    qed
    ultimately show ?thesis using assms(2) by (simp add: sugar_free.simps)
  qed
qed

lemma sugar_makes_free:
  "sugar alloc x = Inr (u, y) \<Longrightarrow> sugar_free alloc y"
  "sugars alloc named xs = Inr (u', ys) \<Longrightarrow> sugar_frees alloc named ys"
proof (induction alloc x and alloc named xs arbitrary: u y and u' ys rule: sugar_sugars.induct)
  case (1 alloc x)
  show ?case
  proof (cases "is_paren x")
    case False
    with "1.prems" show ?thesis by (subst (asm) sugar.simps) (simp add: sugar_free.simps)
  next
    case True
    then obtain b xs c where x: "x = SList b xs c" "tk_kind b = LParen" by (cases x) auto
    from "1.prems" True obtain u1 ys where nf: "(case sx_head x of Some w \<Rightarrow> shape_fault alloc w x | None \<Rightarrow> None) = None"
      and ys: "sugars alloc (names_fields x) xs = Inr (u1, ys)" "y = snd (desugar alloc (SList b ys c))"
      by (subst (asm) sugar.simps) (auto simp: x(1) case_prod_beta split: option.splits if_splits)
    have cl: "list_all2 same_class xs ys" by (rule sugars_class [OF ys(1)])
    have "sugar_frees alloc (names_fields x) ys" using "1.IH" True nf x(1) ys(1) by blast
    moreover have "names_fields (SList b ys c) = names_fields x" "sx_head (SList b ys c) = sx_head x"
      using same_class_names [OF cl] same_class_head [OF cl] by (simp_all add: x(1))
    moreover have "(w = ''new'' \<longrightarrow> length ys = 4 \<and> is_bracket (ys ! 3) \<and> \<not> isl alloc) \<and> (w = ''when'' \<longrightarrow> 2 \<le> length ys)
      \<and> (w \<in> {''arr.new'', ''arr.of''} \<longrightarrow> 3 \<le> length ys) \<and> (w = ''for'' \<longrightarrow> 4 \<le> length ys)" if "sx_head x = Some w" for w
    proof -
      have "shape_fault alloc w (SList b xs c) = None" using nf that x(1) by simp
      from shape_fault_class [OF cl this] show ?thesis by blast
    qed
    ultimately show ?thesis unfolding ys(2) by (intro desugar_free x(2)) metis+
  qed
next
  case (3 alloc named x xs)
  from "3.prems" obtain u1 y u2 ys' where y: "ys = y # ys'" "sugars alloc named xs = Inr (u2, ys')"
    and h: "(if named \<and> xs = [] then
          (case x of
             SList b ys c \<Rightarrow> bind_res (sugars alloc False ys) (\<lambda>(u, zs). Inr (u, SList b zs c))
           | Atom _ \<Rightarrow> Inr (False, x))
        else sugar alloc x) = Inr (u1, y)"
    by auto
  have e: "ys' = [] \<longleftrightarrow> xs = []" using list_all2_lengthD [OF sugars_class [OF y(2)]] by auto
  have "sugar_frees alloc named ys'" using "3.IH" h y(2) by blast
  moreover have "if named \<and> xs = [] then sugar_frees alloc False (sx_items y) else sugar_free alloc y"
    using h "3.IH" by (auto split: if_splits sx.splits)
  ultimately show ?case using e by (simp add: y(1))
qed auto

lemma free_unchanged:
  "sugar_free alloc x \<Longrightarrow> \<exists>u. sugar alloc x = Inr (u, x)"
  "sugar_frees alloc named xs \<Longrightarrow> \<exists>u. sugars alloc named xs = Inr (u, xs)"
proof (induction alloc x and alloc named xs rule: sugar_sugars.induct)
  case (1 alloc x)
  show ?case
  proof (cases "is_paren x")
    case False
    then show ?thesis by (subst sugar.simps) auto
  next
    case True
    then obtain b xs c where x: "x = SList b xs c" "tk_kind b = LParen" by (cases x) auto
    have pf: "plain_form alloc x" "sugar_frees alloc (names_fields x) xs"
      using "1.prems" True by (simp_all add: sugar_free.simps x(1))
    have nf: "(case sx_head x of Some w \<Rightarrow> shape_fault alloc w x | None \<Rightarrow> None) = None"
      using plain_no_fault [OF pf(1)] by (simp split: option.split)
    obtain u where u: "sugars alloc (names_fields x) xs = Inr (u, xs)" using "1.IH" True nf x(1) pf(2) by blast
    have "snd (desugar alloc x) = x" by (rule plain_unchanged [OF pf(1)])
    then show ?thesis using True nf u by (subst sugar.simps) (simp add: x(1) case_prod_beta)
  qed
next
  case (3 alloc named x xs)
  then show ?case by (cases x) (fastforce simp: sugar.simps [of _ "Atom _"])+
qed auto

end
