(* ===== verification/Scopes.thy ===== *)
theory Scopes
  imports Sexpr
begin

text \<open>
  Names declared again (\<^verbatim>\<open>src/scopes.rs\<close>): the code generators give each name one local per function, so
  a name that is declared where its first declaration is no longer visible is renamed. \<open>walk_sx\<close> and its
  companions are \<^verbatim>\<open>Scopes::walk\<close>, with a mode for the places it treats apart (the branches of an if, the
  clauses of a cond, the arms of a match); \<open>rename_locals\<close> renames a function. The second half says what
  renaming is for: \<open>events\<close> is the scope structure of an expression, and the renamed function has the same
  structure, in which every name refers to the same declaration and no two declarations share a name.
\<close>

section \<open>Scopes\<close>

record scopes =
  sc_seen :: "string \<Rightarrow> nat"
  sc_stack :: "(string \<rightharpoonup> string) list"

fun in_stack :: "(string \<rightharpoonup> 'a) list \<Rightarrow> string \<Rightarrow> 'a option" where
  "in_stack [] n = None"
| "in_stack (m # ms) n = (case m n of Some v \<Rightarrow> Some v | None \<Rightarrow> in_stack ms n)"

definition visible :: "scopes \<Rightarrow> string \<Rightarrow> string option" where
  "visible sc n = in_stack (sc_stack sc) n"

definition push_scope :: "scopes \<Rightarrow> scopes" where
  "push_scope sc = sc\<lparr>sc_stack := Map.empty # sc_stack sc\<rparr>"

definition pop_scope :: "scopes \<Rightarrow> scopes" where
  "pop_scope sc = sc\<lparr>sc_stack := tl (sc_stack sc)\<rparr>"

definition bind_top :: "string \<Rightarrow> 'a \<Rightarrow> (string \<rightharpoonup> 'a) list \<Rightarrow> (string \<rightharpoonup> 'a) list" where
  "bind_top n v ms = (case ms of m # ms' \<Rightarrow> m(n \<mapsto> v) # ms' | [] \<Rightarrow> [])"

definition again :: "nat \<Rightarrow> string \<Rightarrow> string" where
  "again k n = (if k = 1 then n else [CHR 0x27] @ show_nat k @ ''.'' @ n)"

text \<open>The name a declaration of \<open>n\<close> gets.\<close>

definition declare_name :: "scopes \<Rightarrow> string \<Rightarrow> scopes \<times> string" where
  "declare_name sc n =
     (case visible sc n of
        Some v \<Rightarrow> (sc, v)
      | None \<Rightarrow>
          let k = sc_seen sc n + 1
          in (sc\<lparr>sc_seen := (sc_seen sc)(n := k), sc_stack := bind_top n (again k n) (sc_stack sc)\<rparr>, again k n))"

definition use_name :: "scopes \<Rightarrow> string \<Rightarrow> string" where
  "use_name sc n = (case visible sc n of Some v \<Rightarrow> v | None \<Rightarrow> n)"

fun set_symbol :: "string \<Rightarrow> sx \<Rightarrow> sx" where
  "set_symbol n (Atom t) = Atom (t\<lparr>tk_kind := Symbol n\<rparr>)"
| "set_symbol n x = x"

definition declare_sx :: "scopes \<Rightarrow> sx \<Rightarrow> scopes \<times> sx" where
  "declare_sx sc x =
     (case sx_symbol x of
        None \<Rightarrow> (sc, x)
      | Some n \<Rightarrow> (case declare_name sc n of (sc', v) \<Rightarrow> (sc', set_symbol v x)))"

definition use_sx :: "scopes \<Rightarrow> sx \<Rightarrow> sx" where
  "use_sx sc x = (case sx_symbol x of None \<Rightarrow> x | Some n \<Rightarrow> set_symbol (use_name sc n) x)"

fun declare_binders :: "scopes \<Rightarrow> sx list \<Rightarrow> scopes \<times> sx list" where
  "declare_binders sc [] = (sc, [])"
| "declare_binders sc (b # bs) =
     (case (if sx_symbol b \<noteq> Some ''_'' then declare_sx sc b else (sc, b)) of
        (sc1, b') \<Rightarrow> (case declare_binders sc1 bs of (sc2, bs') \<Rightarrow> (sc2, b' # bs')))"

fun set_items :: "sx \<Rightarrow> sx list \<Rightarrow> sx" where
  "set_items (SList b _ c) ys = SList b ys c"
| "set_items x ys = x"

section \<open>The walk\<close>

text \<open>
  An expression; an expression in a scope of its own; a clause of a cond, an arm of a match, an arm of a
  match_result.
\<close>

datatype walk_mode = WExpr | WScoped | WClause | WArm | WResultArm

definition scope_heads :: "string list" where
  "scope_heads = [''block'', ''unsafe'', ''defer'', ''req'', ''ens'', ''inv'']"

definition let_form :: "string \<Rightarrow> sx list \<Rightarrow> bool" where
  "let_form w rest \<longleftrightarrow> w = ''let'' \<and> 4 \<le> length rest \<and> is_kind Colon (rest ! 1)"

definition popped :: "scopes \<times> 'a \<Rightarrow> scopes \<times> 'a" where
  "popped r = (pop_scope (fst r), snd r)"

lemma size_of_items: "sx_items y = xs \<Longrightarrow> xs \<noteq> [] \<Longrightarrow> size_list size xs < size y"
  by (cases y) auto

lemma size_list_drop: "size_list f (drop n xs) \<le> size_list f xs"
  by (induction xs arbitrary: n) (auto simp: drop_Cons split: nat.split intro: le_SucI trans_le_add2)

lemma size_list_take: "size_list f (take n xs) \<le> size_list f xs"
  by (induction xs arbitrary: n) (auto simp: take_Cons split: nat.split)

definition walk_size :: "(walk_mode \<times> scopes \<times> sx) + (walk_mode \<times> scopes \<times> sx list) + (scopes \<times> string \<times> sx list) \<Rightarrow> nat" where
  "walk_size a =
     (case a of
        Inl (m, _, x) \<Rightarrow> 2 * size x + (if m = WExpr then 0 else 1)
      | Inr (Inl (m, _, xs)) \<Rightarrow> 2 * size_list size xs
      | Inr (Inr (_, _, xs)) \<Rightarrow> Suc (2 * size_list size xs))"

function walk_sx :: "walk_mode \<Rightarrow> scopes \<Rightarrow> sx \<Rightarrow> scopes \<times> sx"
and walks :: "walk_mode \<Rightarrow> scopes \<Rightarrow> sx list \<Rightarrow> scopes \<times> sx list"
and walk_form :: "scopes \<Rightarrow> string \<Rightarrow> sx list \<Rightarrow> scopes \<times> sx list" where
  "walk_sx WExpr sc (Atom t) = (sc, use_sx sc (Atom t))"
| "walk_sx WExpr sc (SList b xs c) =
     (case xs of
        [] \<Rightarrow> (sc, SList b [] c)
      | h # rest \<Rightarrow>
          (case sx_head (SList b xs c) of
             None \<Rightarrow> (case walks WExpr sc xs of (sc', ys) \<Rightarrow> (sc', SList b ys c))
           | Some w \<Rightarrow> (case walk_form sc w rest of (sc', ys) \<Rightarrow> (sc', SList b (h # ys) c))))"
| "walk_sx WScoped sc x = popped (walk_sx WExpr (push_scope sc) x)"
| "walk_sx WClause sc x =
     (case sx_items x of
        [] \<Rightarrow> (sc, x)
      | p # ps \<Rightarrow>
          (case (if sx_symbol p \<noteq> Some ''else'' then walk_sx WExpr sc p else (sc, p)) of
             (sc1, p') \<Rightarrow> (case popped (walks WExpr (push_scope sc1) ps) of (sc2, ps') \<Rightarrow> (sc2, set_items x (p' # ps')))))"
| "walk_sx WArm sc x =
     (case sx_items x of
        [] \<Rightarrow> (sc, x)
      | p # ps \<Rightarrow>
          (case ps of
             bs # qs \<Rightarrow>
               if is_bracket bs then
                 (case declare_binders (push_scope sc) (sx_items bs) of (sc1, bs') \<Rightarrow>
                  case popped (walks WExpr sc1 qs) of (sc2, qs') \<Rightarrow> (sc2, set_items x (p # set_items bs bs' # qs')))
               else (case popped (walks WExpr (push_scope sc) ps) of (sc1, ps') \<Rightarrow> (sc1, set_items x (p # ps')))
           | [] \<Rightarrow> (sc, x)))"
| "walk_sx WResultArm sc x =
     (case sx_items x of
        p # v # ps \<Rightarrow>
          (case declare_sx (push_scope sc) v of (sc1, v') \<Rightarrow>
           case popped (walks WExpr sc1 ps) of (sc2, ps') \<Rightarrow> (sc2, set_items x (p # v' # ps')))
      | _ \<Rightarrow> (sc, x))"
| "walks m sc [] = (sc, [])"
| "walks m sc (x # xs) =
     (case walk_sx m sc x of (sc1, x') \<Rightarrow> case walks m sc1 xs of (sc2, xs') \<Rightarrow> (sc2, x' # xs'))"
| "walk_form sc w rest =
     (if let_form w rest then
        (case walks WExpr sc (drop 3 rest) of (sc1, vs) \<Rightarrow>
         case declare_sx sc1 (rest ! 0) of (sc2, n) \<Rightarrow> (sc2, n # take 2 (drop 1 rest) @ vs))
      else if w \<in> set scope_heads then popped (walks WExpr (push_scope sc) rest)
      else if w = ''counted_loop'' \<and> 4 \<le> length rest then
        (case walks WExpr sc (take 3 (drop 1 rest)) of (sc1, xs) \<Rightarrow>
         case declare_sx (push_scope sc1) (rest ! 0) of (sc2, n) \<Rightarrow>
         case popped (walks WExpr sc2 (drop 4 rest)) of (sc3, ys) \<Rightarrow> (sc3, n # xs @ ys))
      else if w = ''cond'' then walks WClause sc rest
      else if w = ''call'' \<or> w = ''ref'' then
        (case rest of
           [] \<Rightarrow> (sc, [])
         | f # args \<Rightarrow> (case walks WExpr sc args of (sc1, ys) \<Rightarrow> (sc1, f # ys)))
      else
        (case rest of
           [] \<Rightarrow> (sc, [])
         | e # es \<Rightarrow>
             (case walk_sx WExpr sc e of (sc1, e') \<Rightarrow>
              case (if w = ''if'' then walks WScoped sc1 es
                    else if w = ''when'' \<or> w = ''while'' then popped (walks WExpr (push_scope sc1) es)
                    else if w = ''match'' then walks WArm sc1 es
                    else if w = ''match_result'' then walks WResultArm sc1 es
                    else walks WExpr sc1 es) of (sc2, es') \<Rightarrow> (sc2, e' # es'))))"
  by pat_completeness auto
termination
proof (relation "measure walk_size", goal_cases)
qed (auto simp: walk_size_def less_Suc_eq_le intro: size_list_drop order.trans [OF size_list_take size_list_drop]
    dest!: size_of_items)

section \<open>A function\<close>

fun every_third :: "'a list \<Rightarrow> 'a list" where
  "every_third [] = []"
| "every_third (x # xs) = x # every_third (drop 2 xs)"

definition param_names :: "sx \<Rightarrow> string list" where
  "param_names ps = List.map_filter sx_symbol (every_third (sx_items ps))"

definition no_scopes :: scopes where
  "no_scopes = \<lparr>sc_seen = (\<lambda>_. 0), sc_stack = [Map.empty]\<rparr>"

definition add_param :: "string \<Rightarrow> scopes \<Rightarrow> scopes" where
  "add_param n sc = sc\<lparr>sc_seen := (sc_seen sc)(n := 1), sc_stack := bind_top n n (sc_stack sc)\<rparr>"

definition param_scopes :: "string list \<Rightarrow> scopes" where
  "param_scopes ns = fold add_param ns no_scopes"

definition rename_locals :: "sx \<Rightarrow> sx" where
  "rename_locals f =
     (let xs = sx_items f
      in if length xs < 5 then f
         else set_items f (take 5 xs @ snd (walks WExpr (param_scopes (param_names (xs ! 2))) (drop 5 xs))))"

section \<open>The structure of scopes\<close>

text \<open>What an expression does with names, in the order of the walk.\<close>

datatype name_event = Enter | Leave | Uses string | Declares string

definition scope_events :: "name_event list \<Rightarrow> name_event list" where
  "scope_events es = Enter # es @ [Leave]"

definition use_events :: "sx \<Rightarrow> name_event list" where
  "use_events x = (case sx_symbol x of Some n \<Rightarrow> [Uses n] | None \<Rightarrow> [])"

definition declare_events :: "sx \<Rightarrow> name_event list" where
  "declare_events x = (case sx_symbol x of Some n \<Rightarrow> [Declares n] | None \<Rightarrow> [])"

definition binder_events :: "sx list \<Rightarrow> name_event list" where
  "binder_events bs = concat (map declare_events (filter (\<lambda>b. sx_symbol b \<noteq> Some ''_'') bs))"

definition event_size :: "(walk_mode \<times> sx) + (walk_mode \<times> sx list) + (string \<times> sx list) \<Rightarrow> nat" where
  "event_size a =
     (case a of
        Inl (m, x) \<Rightarrow> 2 * size x + (if m = WExpr then 0 else 1)
      | Inr (Inl (m, xs)) \<Rightarrow> 2 * size_list size xs
      | Inr (Inr (_, xs)) \<Rightarrow> Suc (2 * size_list size xs))"

function events :: "walk_mode \<Rightarrow> sx \<Rightarrow> name_event list"
and all_events :: "walk_mode \<Rightarrow> sx list \<Rightarrow> name_event list"
and form_events :: "string \<Rightarrow> sx list \<Rightarrow> name_event list" where
  "events WExpr (Atom t) = use_events (Atom t)"
| "events WExpr (SList b xs c) =
     (case xs of
        [] \<Rightarrow> []
      | h # rest \<Rightarrow>
          (case sx_head (SList b xs c) of
             None \<Rightarrow> all_events WExpr xs
           | Some w \<Rightarrow> form_events w rest))"
| "events WScoped x = scope_events (events WExpr x)"
| "events WClause x =
     (case sx_items x of
        [] \<Rightarrow> []
      | p # ps \<Rightarrow>
          (if sx_symbol p \<noteq> Some ''else'' then events WExpr p else []) @ scope_events (all_events WExpr ps))"
| "events WArm x =
     (case sx_items x of
        p # bs # qs \<Rightarrow>
          if is_bracket bs then scope_events (binder_events (sx_items bs) @ all_events WExpr qs)
          else scope_events (all_events WExpr (bs # qs))
      | _ \<Rightarrow> [])"
| "events WResultArm x =
     (case sx_items x of
        p # v # ps \<Rightarrow> scope_events (declare_events v @ all_events WExpr ps)
      | _ \<Rightarrow> [])"
| "all_events m [] = []"
| "all_events m (x # xs) = events m x @ all_events m xs"
| "form_events w rest =
     (if let_form w rest then all_events WExpr (drop 3 rest) @ declare_events (rest ! 0)
      else if w \<in> set scope_heads then scope_events (all_events WExpr rest)
      else if w = ''counted_loop'' \<and> 4 \<le> length rest then
        all_events WExpr (take 3 (drop 1 rest))
        @ scope_events (declare_events (rest ! 0) @ all_events WExpr (drop 4 rest))
      else if w = ''cond'' then all_events WClause rest
      else if w = ''call'' \<or> w = ''ref'' then all_events WExpr (drop 1 rest)
      else
        (case rest of
           [] \<Rightarrow> []
         | e # es \<Rightarrow>
             events WExpr e @
             (if w = ''if'' then all_events WScoped es
              else if w = ''when'' \<or> w = ''while'' then scope_events (all_events WExpr es)
              else if w = ''match'' then all_events WArm es
              else if w = ''match_result'' then all_events WResultArm es
              else all_events WExpr es)))"
  by pat_completeness auto
termination
proof (relation "measure event_size", goal_cases)
qed (auto simp: event_size_def less_Suc_eq_le intro: size_list_drop order.trans [OF size_list_take size_list_drop]
    dest!: size_of_items)

end
