(* ===== verification/Scope_Facts.thy ===== *)
theory Scope_Facts
  imports Scopes
begin

text \<open>
  Renaming as a pass over the scope structure of a form: \<open>rename_events\<close> renames the structure, and the
  structure of what \<open>walk_sx\<close> makes of a form is the form's, renamed (\<open>walk_renames\<close>).
\<close>

section \<open>Renaming a structure\<close>

fun rename_events :: "scopes \<Rightarrow> name_event list \<Rightarrow> scopes \<times> name_event list" where
  "rename_events sc [] = (sc, [])"
| "rename_events sc (Enter # es) = map_prod id ((#) Enter) (rename_events (push_scope sc) es)"
| "rename_events sc (Leave # es) = map_prod id ((#) Leave) (rename_events (pop_scope sc) es)"
| "rename_events sc (Uses n # es) = map_prod id ((#) (Uses (use_name sc n))) (rename_events sc es)"
| "rename_events sc (Declares n # es) =
     map_prod id ((#) (Declares (snd (declare_name sc n)))) (rename_events (fst (declare_name sc n)) es)"

lemma rename_append:
  "rename_events sc (es @ fs) =
     (case rename_events sc es of (sc1, es') \<Rightarrow> map_prod id ((@) es') (rename_events sc1 fs))"
  by (induction sc es rule: rename_events.induct)
    (simp_all add: map_prod_def case_prod_beta)

text \<open>The names that stand for a name: itself or one made for a later declaration.\<close>

definition stands_for :: "string \<Rightarrow> string \<Rightarrow> bool" where
  "stands_for v n \<longleftrightarrow> v = n \<or> (v \<noteq> [] \<and> hd v = CHR 0x27)"

definition scopes_ok :: "scopes \<Rightarrow> bool" where
  "scopes_ok sc \<longleftrightarrow>
     (\<forall>m \<in> set (sc_stack sc). \<forall>n v. m n = Some v \<longrightarrow> (\<exists>k. 1 \<le> k \<and> k \<le> sc_seen sc n \<and> v = again k n))"

lemma in_stack_ok:
  "in_stack ms n = Some v \<Longrightarrow> \<exists>m \<in> set ms. m n = Some v"
  by (induction ms) (auto split: option.splits)

lemma stands_for_again: "stands_for (again k n) n"
  by (simp add: stands_for_def again_def)

lemma visible_stands: "scopes_ok sc \<Longrightarrow> visible sc n = Some v \<Longrightarrow> stands_for v n"
  by (auto simp: scopes_ok_def visible_def dest!: in_stack_ok intro: stands_for_again)

lemma scopes_ok_push: "scopes_ok sc \<Longrightarrow> scopes_ok (push_scope sc)"
  by (auto simp: scopes_ok_def push_scope_def)

lemma scopes_ok_pop: "scopes_ok sc \<Longrightarrow> scopes_ok (pop_scope sc)"
  by (cases "sc_stack sc"; simp add: scopes_ok_def pop_scope_def)

lemma set_bind_top: "m \<in> set (bind_top n v ms) \<Longrightarrow> m \<in> set ms \<or> (\<exists>m' \<in> set ms. m = m'(n \<mapsto> v))"
  by (cases ms) (auto simp: bind_top_def simp del: fun_upd_apply)

lemma scopes_ok_declare:
  assumes "scopes_ok sc"
  shows "scopes_ok (fst (declare_name sc n))" "stands_for (snd (declare_name sc n)) n"
proof -
  have k: "\<exists>k\<ge>1. k \<le> sc_seen sc' n' \<and> v = again k n'" if "m \<in> set (sc_stack sc)" "m n' = Some v" "sc_seen sc n' \<le> sc_seen sc' n'"
    for m n' v and sc' :: scopes
    using assms that by (force simp: scopes_ok_def)
  show "scopes_ok (fst (declare_name sc n))"
    using assms
    by (auto simp: declare_name_def Let_def scopes_ok_def split: option.splits dest!: set_bind_top)
      (metis One_nat_def le_Suc_eq)+
  show "stands_for (snd (declare_name sc n)) n"
    using visible_stands [OF assms] by (auto simp: declare_name_def Let_def stands_for_again split: option.splits)
qed

lemma scopes_ok_rename: "scopes_ok sc \<Longrightarrow> scopes_ok (fst (rename_events sc es))"
  by (induction sc es rule: rename_events.induct)
    (simp_all add: scopes_ok_push scopes_ok_pop scopes_ok_declare)

lemma rename_simps [simp]:
  "rename_events sc (es @ fs) =
     (fst (rename_events (fst (rename_events sc es)) fs),
      snd (rename_events sc es) @ snd (rename_events (fst (rename_events sc es)) fs))"
  "rename_events sc (scope_events es) =
     (pop_scope (fst (rename_events (push_scope sc) es)), scope_events (snd (rename_events (push_scope sc) es)))"
  by (simp_all add: rename_append scope_events_def map_prod_def case_prod_beta)

section \<open>The walk renames the structure\<close>

text \<open>What renaming keeps of a form.\<close>

definition alike :: "sx \<Rightarrow> sx \<Rightarrow> bool" where
  "alike x y \<longleftrightarrow>
     (case (sx_symbol x, sx_symbol y) of
        (None, None) \<Rightarrow> True
      | (Some n, Some v) \<Rightarrow> stands_for v n
      | _ \<Rightarrow> False)
     \<and> is_bracket y = is_bracket x"

lemma alike_refl: "alike x x"
  by (auto simp: alike_def stands_for_def split: option.split)

lemma symbol_set: "sx_symbol x = Some n \<Longrightarrow> sx_symbol (set_symbol v x) = Some v \<and> \<not> is_bracket x \<and> \<not> is_bracket (set_symbol v x)"
  by (cases x) (simp_all add: is_bracket_def)

lemma alike_use: "scopes_ok sc \<Longrightarrow> alike x (use_sx sc x)"
  by (auto simp: alike_def use_sx_def use_name_def symbol_set stands_for_def split: option.split dest: visible_stands)

lemma alike_declare: "scopes_ok sc \<Longrightarrow> alike x (snd (declare_sx sc x))"
  by (auto simp: alike_def declare_sx_def case_prod_beta symbol_set scopes_ok_declare split: option.split)

lemma alike_not: "alike x y \<Longrightarrow> sx_symbol x \<noteq> Some n \<Longrightarrow> n = [] \<or> hd n \<noteq> CHR 0x27 \<Longrightarrow> sx_symbol y \<noteq> Some n"
  by (auto simp: alike_def stands_for_def split: option.splits)

lemma walk_list: "\<exists>ys. snd (walk_sx m sc (SList b xs c)) = SList b ys c"
proof -
  have e: "\<exists>ys. snd (walk_sx WExpr sc (SList b xs c)) = SList b ys c" for sc
    by (auto simp: case_prod_beta split: list.split option.split)
  show ?thesis
    by (cases m) (use e in \<open>auto simp: popped_def case_prod_beta split: list.split option.split simp del: walk_sx.simps(2)\<close>)
qed

lemma walk_atom: "snd (walk_sx m sc (Atom t)) \<in> {Atom t, use_sx sc (Atom t), use_sx (push_scope sc) (Atom t)}"
  by (cases m) (simp_all add: popped_def)

lemma alike_walk:
  assumes "scopes_ok sc"
  shows "alike x (snd (walk_sx m sc x))"
proof (cases x)
  case (Atom t)
  then show ?thesis using walk_atom [of m sc t] alike_refl alike_use [OF assms] alike_use [OF scopes_ok_push [OF assms]] by auto
next
  case (SList b xs c)
  then show ?thesis using walk_list [of m sc b xs c] by (auto simp: alike_def is_bracket_def)
qed

lemma length_walks [simp]: "length (snd (walks m sc xs)) = length xs"
  by (induction xs arbitrary: sc) (simp_all add: case_prod_beta)

lemma colon_walk: "is_kind Colon (snd (walk_sx m sc x)) = is_kind Colon x"
proof (cases x)
  case (Atom t)
  have "is_kind Colon (use_sx sc' (Atom t)) = is_kind Colon (Atom t)" for sc'
    by (auto simp: use_sx_def is_kind_def split: option.split token_kind.splits)
  then show ?thesis using walk_atom [of m sc t] Atom by auto
next
  case (SList b xs c)
  then show ?thesis using walk_list [of m sc b xs c] by (auto simp: is_kind_def)
qed

lemma colon_walks: "i < length xs \<Longrightarrow> is_kind Colon (snd (walks m sc xs) ! i) = is_kind Colon (xs ! i)"
  by (induction xs arbitrary: sc i) (auto simp: case_prod_beta nth_Cons colon_walk split: nat.split)

lemma rename_declare: "rename_events sc (declare_events x) = (fst (declare_sx sc x), declare_events (snd (declare_sx sc x)))"
  by (auto simp: declare_events_def declare_sx_def case_prod_beta symbol_set split: option.split)

lemma rename_use: "rename_events sc (use_events x) = (sc, use_events (use_sx sc x))"
  by (auto simp: use_events_def use_sx_def symbol_set split: option.split)

lemma scopes_ok_declare_sx: "scopes_ok sc \<Longrightarrow> scopes_ok (fst (declare_sx sc x))"
  by (auto simp: declare_sx_def case_prod_beta scopes_ok_declare split: option.split)

lemma rename_binders:
  "scopes_ok sc \<Longrightarrow>
     rename_events sc (binder_events bs) = (fst (declare_binders sc bs), binder_events (snd (declare_binders sc bs)))"
proof (induction bs arbitrary: sc)
  case (Cons b bs)
  have "sx_symbol (snd (declare_sx sc b)) \<noteq> Some ''_''" if "sx_symbol b \<noteq> Some ''_''"
    using alike_not [OF alike_declare [OF Cons.prems] that] by simp
  then show ?case using Cons.IH [of sc] Cons.IH [of "fst (declare_sx sc b)"] Cons.prems
    by (simp add: binder_events_def case_prod_beta rename_declare scopes_ok_declare_sx)
qed (simp add: binder_events_def)

text \<open>\<open>r\<close> is what the renaming of the structure \<open>es\<close> should give, \<open>f\<close> being the structure of its form.\<close>

definition renames :: "scopes \<Rightarrow> name_event list \<Rightarrow> ('a \<Rightarrow> name_event list) \<Rightarrow> scopes \<times> 'a \<Rightarrow> bool" where
  "renames sc es f r \<longleftrightarrow> rename_events sc es = (fst r, f (snd r))"

lemma renames_ok: "renames sc es f r \<Longrightarrow> scopes_ok sc \<Longrightarrow> scopes_ok (fst r)"
  using scopes_ok_rename [of sc es] by (simp add: renames_def)

lemma renames_popped:
  "renames (push_scope sc) es f r \<Longrightarrow> renames sc (scope_events es) (\<lambda>y. scope_events (f y)) (popped r)"
  by (simp add: renames_def popped_def)

lemma head_walks:
  assumes "scopes_ok sc" "sx_head (SList b (h # xs) c) = None"
  shows "sx_head (SList b (snd (walk_sx m sc h) # ys) c) = None"
  using alike_walk [OF assms(1), of h m] assms(2) by (auto simp: sx_head_def alike_def split: option.splits if_splits)

lemma let_form_again:
  assumes "let_form w rest" "length vs = length rest - 3"
  shows "let_form w (n # take 2 (drop 1 rest) @ vs)" "drop 2 (take 2 (drop 1 rest) @ vs) = vs"
  using assms by (auto simp: let_form_def nth_append min_def)

lemma walk_renames:
  "scopes_ok sc \<Longrightarrow> renames sc (events m x) (events m) (walk_sx m sc x)"
  "scopes_ok sc \<Longrightarrow> renames sc (all_events m xs) (all_events m) (walks m sc xs)"
  "scopes_ok sc \<Longrightarrow> renames sc (form_events w rest) (form_events w) (walk_form sc w rest)"
proof (induction m sc x and m sc xs and sc w rest rule: walk_sx_walks_walk_form.induct)
  case (1 sc t)
  then show ?case by (cases "use_sx sc (Atom t)") (auto simp: renames_def rename_use use_sx_def split: option.splits)
next
  case (2 sc b xs c)
  show ?case
  proof (cases xs)
    case Nil
    then show ?thesis by (simp add: renames_def)
  next
    case (Cons h rest)
    show ?thesis
    proof (cases "sx_head (SList b (h # rest) c)")
      case None
      have "renames sc (all_events WExpr (h # rest)) (all_events WExpr) (walks WExpr sc (h # rest))"
        using 2(1) [OF Cons] None 2(3) Cons by simp
      then show ?thesis using head_walks [OF 2(3) None] None
        by (auto simp: Cons renames_def case_prod_beta simp del: all_events.simps(2))
    next
      case (Some w)
      then have "sx_head (SList b (h # ys) c) = Some w" for ys by (auto simp: sx_head_def split: if_splits)
      then show ?thesis using 2(2) [OF Cons, of w] Some 2(3)
        by (simp add: Cons renames_def case_prod_beta)
    qed
  qed
next
  case (3 sc x)
  then show ?case using renames_popped [OF 3(1)] by (simp add: scopes_ok_push)
next
  case (4 sc x)
  show ?case
  proof (cases "sx_items x")
    case (Cons p ps)
    let ?test = "\<lambda>p. if sx_symbol p \<noteq> Some ''else'' then events WExpr p else []"
    define r where "r = (if sx_symbol p \<noteq> Some ''else'' then walk_sx WExpr sc p else (sc, p))"
    have r: "renames sc (?test p) ?test r"
      using 4(1) [OF Cons] 4(3) alike_not [OF alike_walk [OF 4(3)], of p "''else''"] by (auto simp: r_def renames_def)
    have "renames (push_scope (fst r)) (all_events WExpr ps) (all_events WExpr) (walks WExpr (push_scope (fst r)) ps)"
      using 4(2) [OF Cons, of "fst r" "snd r"] renames_ok [OF r 4(3)] by (simp add: r_def scopes_ok_push)
    from renames_popped [OF this] r Cons show ?thesis
      by (cases x) (simp_all add: renames_def case_prod_beta flip: r_def)
  qed (simp add: renames_def)
next
  case (5 sc x)
  show ?case
  proof (cases "sx_items x")
    case (Cons p ps)
    show ?thesis
    proof (cases ps)
      case (Cons bs qs)
      note items = \<open>sx_items x = p # ps\<close> [unfolded Cons]
      show ?thesis
      proof (cases "is_bracket bs")
        case True
        define r where "r = declare_binders (push_scope sc) (sx_items bs)"
        have r: "renames (push_scope sc) (binder_events (sx_items bs)) binder_events r"
          using rename_binders [OF scopes_ok_push [OF 5(3)]] by (simp add: r_def renames_def)
        have "renames (fst r) (all_events WExpr qs) (all_events WExpr) (walks WExpr (fst r) qs)"
          using 5(1) [OF items refl True, of "fst r" "snd r"] renames_ok [OF r scopes_ok_push [OF 5(3)]] by (simp add: r_def)
        moreover have "sx_items (set_items bs ys) = ys" "is_bracket (set_items bs ys)" for ys
          using True by (cases bs; simp add: is_bracket_def)+
        ultimately show ?thesis using r True items
          by (cases x) (simp_all add: renames_def case_prod_beta popped_def flip: r_def)
      next
        case False
        let ?r = "walks WExpr (push_scope sc) (bs # qs)"
        have w: "renames (push_scope sc) (all_events WExpr (bs # qs)) (all_events WExpr) ?r"
          using 5(2) [OF items refl False] scopes_ok_push [OF 5(3)] Cons by simp
        obtain bs' qs' where s: "snd ?r = bs' # qs'" "bs' = snd (walk_sx WExpr (push_scope sc) bs)"
          by (simp add: case_prod_beta)
        have "\<not> is_bracket bs'" using alike_walk [OF scopes_ok_push [OF 5(3)], of bs WExpr] False s(2) by (simp add: alike_def)
        with renames_popped [OF w] False items s(1) show ?thesis
          by (cases x) (simp_all add: renames_def popped_def case_prod_beta del: all_events.simps walks.simps)
      qed
    qed (use Cons in \<open>cases x; simp add: renames_def\<close>)
  qed (simp add: renames_def)
next
  case (6 sc x)
  show ?case
  proof (cases "\<exists>p v ps. sx_items x = p # v # ps")
    case True
    then obtain p v ps where items: "sx_items x = p # v # ps" by blast
    define r where "r = declare_sx (push_scope sc) v"
    have r: "renames (push_scope sc) (declare_events v) declare_events r" by (simp add: r_def renames_def rename_declare)
    have "renames (fst r) (all_events WExpr ps) (all_events WExpr) (walks WExpr (fst r) ps)"
      using 6(1) [OF items refl, of "fst r" "snd r"] renames_ok [OF r scopes_ok_push [OF 6(2)]] by (simp add: r_def)
    with r items show ?thesis by (cases x) (simp_all add: renames_def case_prod_beta popped_def flip: r_def)
  qed (auto simp: renames_def split: list.split)
next
  case (7 m sc)
  then show ?case by (simp add: renames_def)
next
  case (8 m sc x xs)
  then show ?case using renames_ok [OF 8(1)] 8(2) [of "fst (walk_sx m sc x)" "snd (walk_sx m sc x)"] by (simp add: renames_def case_prod_beta)
next
  case (9 sc w rest)
  note ok = 9(13)
  consider "let_form w rest" | "\<not> let_form w rest" "w \<in> set scope_heads"
    | "\<not> let_form w rest" "w \<notin> set scope_heads" "w = ''counted_loop'' \<and> 4 \<le> length rest"
    | "\<not> let_form w rest" "w \<notin> set scope_heads" "\<not> (w = ''counted_loop'' \<and> 4 \<le> length rest)" "w = ''cond''"
    | "\<not> let_form w rest" "w \<notin> set scope_heads" "\<not> (w = ''counted_loop'' \<and> 4 \<le> length rest)" "w \<noteq> ''cond''" "w = ''call'' \<or> w = ''ref''"
    | "\<not> let_form w rest" "w \<notin> set scope_heads" "\<not> (w = ''counted_loop'' \<and> 4 \<le> length rest)" "w \<noteq> ''cond''" "\<not> (w = ''call'' \<or> w = ''ref'')"
    by blast
  then show ?case
  proof cases
    case 1
    let ?vs = "walks WExpr sc (drop 3 rest)"
    have "renames sc (all_events WExpr (drop 3 rest)) (all_events WExpr) ?vs" by (rule 9(1) [OF 1 ok])
    then show ?thesis using let_form_again [OF 1, of "snd ?vs"] 1
      by (simp add: renames_def case_prod_beta rename_declare eval_nat_numeral del: take_Suc_Cons)
  next
    case 2
    have "renames (push_scope sc) (all_events WExpr rest) (all_events WExpr) (walks WExpr (push_scope sc) rest)"
      using 9(2) [OF 2] scopes_ok_push [OF ok] by blast
    then show ?thesis using 2 by (auto simp: renames_def popped_def let_form_def scope_heads_def)
  next
    case 3
    let ?r1 = "walks WExpr sc (take 3 (drop 1 rest))"
    let ?r2 = "declare_sx (push_scope (fst ?r1)) (rest ! 0)"
    let ?r3 = "walks WExpr (fst ?r2) (drop 4 rest)"
    have r1: "renames sc (all_events WExpr (take 3 (drop 1 rest))) (all_events WExpr) ?r1" using 9(3) [OF 3 ok] .
    have ok2: "scopes_ok (fst ?r2)" by (intro scopes_ok_declare_sx scopes_ok_push renames_ok [OF r1 ok])
    have r3: "renames (fst ?r2) (all_events WExpr (drop 4 rest)) (all_events WExpr) ?r3"
      by (rule 9(4) [OF 3 _ _ ok2]) (rule prod.collapse)+
    define xs ys v where "xs = snd ?r1" and "ys = snd ?r3" and "v = snd ?r2"
    have "length xs = 3" unfolding xs_def using 3(3) by (simp add: min_def) arith
    then have "take 3 (xs @ ys) = xs" "drop 3 (xs @ ys) = ys" "3 \<le> length (xs @ ys)" by simp_all
    then have "form_events w (v # xs @ ys) = all_events WExpr xs @ scope_events (declare_events v @ all_events WExpr ys)"
      using 3(3) by (simp add: let_form_def scope_heads_def del: take_append drop_append length_append)
    moreover have "walk_form sc w rest = (pop_scope (fst ?r3), v # xs @ ys)"
      using 3 by (simp add: case_prod_beta popped_def xs_def ys_def v_def)
    moreover have "form_events w rest =
        all_events WExpr (take 3 (drop 1 rest)) @ scope_events (declare_events (rest ! 0) @ all_events WExpr (drop 4 rest))"
      using 3 by (simp only: form_events.simps if_True if_False) (simp only: simp_thms if_True)
    ultimately show ?thesis using r1 r3 by (simp add: renames_def rename_declare xs_def ys_def v_def del: form_events.simps walk_form.simps)
  next
    case 4
    show ?thesis using 9(5) [OF 4 ok] 4 by (auto simp: renames_def let_form_def scope_heads_def)
  next
    case 5
    show ?thesis
    proof (cases rest)
      case (Cons f args)
      from 9(6) [OF 5 Cons ok] 5 show ?thesis by (auto simp: renames_def let_form_def scope_heads_def Cons case_prod_beta)
    qed (use 5 in \<open>auto simp: renames_def let_form_def\<close>)
  next
    case 6
    show ?thesis
    proof (cases rest)
      case Nil
      then show ?thesis using 6 by (simp add: renames_def)
    next
      case (Cons e es)
      note r1 = 9(7) [OF 6 Cons ok]
      define sc1 where "sc1 = fst (walk_sx WExpr sc e)"
      have ok1: "scopes_ok sc1" using renames_ok [OF r1 ok] by (simp add: sc1_def)
      have pair: "(sc1, snd (walk_sx WExpr sc e)) = walk_sx WExpr sc e" by (simp add: sc1_def)
      define r2 where "r2 = (if w = ''if'' then walks WScoped sc1 es
                    else if w = ''when'' \<or> w = ''while'' then popped (walks WExpr (push_scope sc1) es)
                    else if w = ''match'' then walks WArm sc1 es
                    else if w = ''match_result'' then walks WResultArm sc1 es
                    else walks WExpr sc1 es)"
      define g where "g = (\<lambda>es. if w = ''if'' then all_events WScoped es
              else if w = ''when'' \<or> w = ''while'' then scope_events (all_events WExpr es)
              else if w = ''match'' then all_events WArm es
              else if w = ''match_result'' then all_events WResultArm es
              else all_events WExpr es)"
      have r2: "renames sc1 (g es) g r2"
        using 9(8-12) [OF 6 Cons pair] renames_popped [of sc1 "all_events WExpr es" "all_events WExpr"] ok1 scopes_ok_push [OF ok1]
        by (simp add: g_def r2_def)
      have "\<not> let_form w (e' # snd r2)" for e'
      proof
        assume l: "let_form w (e' # snd r2)"
        then have r: "r2 = walks WExpr sc1 es" by (simp add: r2_def let_form_def)
        then have "0 < length es" using l by (auto simp: let_form_def)
        from colon_walks [OF this, of WExpr sc1] l r have "let_form w (e # es)" by (simp add: let_form_def)
        then show False using 6(1) Cons by simp
      qed
      moreover have "\<not> (w = ''counted_loop'' \<and> 4 \<le> length (e' # snd r2))" for e'
        using 6(3) Cons by (simp add: r2_def popped_def)
      ultimately have "form_events w (e' # snd r2) = events WExpr e' @ g (snd r2)" for e'
        using 6 by (simp only: form_events.simps if_False list.case g_def)
      moreover have "form_events w rest = events WExpr e @ g es"
        using 6 Cons by (simp only: form_events.simps if_False list.case g_def)
      moreover have "walk_form sc w rest = (fst r2, snd (walk_sx WExpr sc e) # snd r2)"
        using 6 by (simp only: walk_form.simps if_False list.case Cons case_prod_beta r2_def sc1_def)
      ultimately show ?thesis using r1 r2
        by (simp add: renames_def sc1_def del: form_events.simps walk_form.simps)
    qed
  qed
qed

end
