(* ===== verification/Scope_Names.thy ===== *)
theory Scope_Names
  imports Scope_Facts Numbers
begin

text \<open>
  Renaming keeps what every name refers to: \<open>resolve\<close> numbers the declarations and gives, for each name,
  the number of the declaration it refers to; \<open>fresh_names\<close> lists the names declared anew.
\<close>

section \<open>What a name refers to\<close>

text \<open>
  The declarations are numbered in order; a declaration of a name that is still visible refers to the one
  that is visible (the checker refuses it), any other is a declaration of its own.
\<close>

fun resolve :: "(string \<rightharpoonup> nat) list \<Rightarrow> nat \<Rightarrow> name_event list \<Rightarrow> nat option list" where
  "resolve ms k [] = []"
| "resolve ms k (Enter # es) = resolve (Map.empty # ms) k es"
| "resolve ms k (Leave # es) = resolve (tl ms) k es"
| "resolve ms k (Uses n # es) = in_stack ms n # resolve ms k es"
| "resolve ms k (Declares n # es) =
     (case in_stack ms n of
        Some d \<Rightarrow> Some d # resolve ms k es
      | None \<Rightarrow> Some k # resolve (bind_top n k ms) (Suc k) es)"

text \<open>The names of the declarations that are their own.\<close>

fun fresh_names :: "(string \<rightharpoonup> unit) list \<Rightarrow> name_event list \<Rightarrow> string list" where
  "fresh_names ms [] = []"
| "fresh_names ms (Enter # es) = fresh_names (Map.empty # ms) es"
| "fresh_names ms (Leave # es) = fresh_names (tl ms) es"
| "fresh_names ms (Uses n # es) = fresh_names ms es"
| "fresh_names ms (Declares n # es) =
     (case in_stack ms n of Some _ \<Rightarrow> fresh_names ms es | None \<Rightarrow> n # fresh_names (bind_top n () ms) es)"

fun event_name :: "name_event \<Rightarrow> string option" where
  "event_name (Uses n) = Some n"
| "event_name (Declares n) = Some n"
| "event_name _ = None"

text \<open>A name as it is written: no quote at its start.\<close>

definition written :: "string \<Rightarrow> bool" where
  "written n \<longleftrightarrow> \<not> (n \<noteq> [] \<and> hd n = CHR 0x27)"

definition all_written :: "name_event list \<Rightarrow> bool" where
  "all_written es \<longleftrightarrow> (\<forall>e \<in> set es. \<forall>n. event_name e = Some n \<longrightarrow> written n)"

lemma show_nat_inj: "show_nat a = show_nat b \<Longrightarrow> a = b"
  by (metis number_show_nat mult_0 add_0 option.inject)

lemma again_inj:
  assumes "written n" "written n'" "1 \<le> k" "1 \<le> k'" "again k n = again k' n'"
  shows "k = k' \<and> n = n'"
proof -
  have nodot: "CHR ''.'' \<notin> set (show_nat j)" for j
    using show_nat_digits [of j] by (auto simp: list_all_iff is_digit_def digit_of_def)
  have "show_nat k = show_nat k' \<and> n = n'" if "show_nat k @ CHR ''.'' # n = show_nat k' @ CHR ''.'' # n'"
  proof -
    have "takeWhile (\<lambda>c. c \<noteq> CHR ''.'') (show_nat k @ CHR ''.'' # n) = show_nat k"
      "takeWhile (\<lambda>c. c \<noteq> CHR ''.'') (show_nat k' @ CHR ''.'' # n') = show_nat k'"
      using nodot by (auto simp: takeWhile_tail takeWhile_append intro: takeWhile_eq_all_conv [THEN iffD2])
    with that show ?thesis by simp
  qed
  then show ?thesis using assms show_nat_inj by (auto simp: again_def written_def split: if_splits)
qed

section \<open>Renamed structures\<close>

text \<open>The scopes of the renaming, with those of the names as written and as renamed.\<close>

definition names_written :: "scopes \<Rightarrow> bool" where
  "names_written sc \<longleftrightarrow> (\<forall>m \<in> set (sc_stack sc). \<forall>n \<in> dom m. written n)"

definition layer :: "(string \<rightharpoonup> string) \<Rightarrow> (string \<rightharpoonup> 'a) \<Rightarrow> (string \<rightharpoonup> 'a) \<Rightarrow> bool" where
  "layer r m m' \<longleftrightarrow> dom m = dom r \<and> dom m' = ran r \<and> (\<forall>n v. r n = Some v \<longrightarrow> m n = m' v)"

definition corresponds :: "scopes \<Rightarrow> (string \<rightharpoonup> 'a) list \<Rightarrow> (string \<rightharpoonup> 'a) list \<Rightarrow> bool" where
  "corresponds sc ms ms' \<longleftrightarrow>
     scopes_ok sc \<and> names_written sc \<and> length ms = length (sc_stack sc) \<and> length ms' = length (sc_stack sc)
     \<and> (\<forall>i < length ms. layer (sc_stack sc ! i) (ms ! i) (ms' ! i))"

lemma renamed_name:
  assumes "scopes_ok sc" "names_written sc" "m \<in> set (sc_stack sc)" "m n = Some v"
  shows "written n \<and> (\<exists>k\<ge>1. k \<le> sc_seen sc n \<and> v = again k n)"
  using assms unfolding scopes_ok_def names_written_def by (blast intro: domI)

text \<open>A name that is visible is the only one renamed as it is.\<close>

lemma renamed_once:
  assumes "scopes_ok sc" "names_written sc" "m \<in> set (sc_stack sc)" "m' \<in> set (sc_stack sc)" "m n = Some v" "m' n' = Some v"
  shows "n' = n"
  using renamed_name [OF assms(1,2,3,5)] renamed_name [OF assms(1,2,4,6)] again_inj by metis

lemma in_stack_layers:
  assumes "\<forall>i < length rs. layer (rs ! i) (ms ! i) (ms' ! i)" "length ms = length rs" "length ms' = length rs"
    and once: "\<forall>r \<in> set rs. \<forall>n'. r n' = Some v \<longrightarrow> n' = n"
  shows "in_stack rs n = Some v \<Longrightarrow> \<exists>d. in_stack ms n = Some d \<and> in_stack ms' v = Some d"
    and "in_stack rs n = None \<Longrightarrow> in_stack ms n = None"
    and "\<forall>r \<in> set rs. v \<notin> ran r \<Longrightarrow> in_stack ms' v = None"
proof -
  from assms have "(in_stack rs n = Some v \<longrightarrow> (\<exists>d. in_stack ms n = Some d \<and> in_stack ms' v = Some d))
      \<and> (in_stack rs n = None \<longrightarrow> in_stack ms n = None) \<and> ((\<forall>r \<in> set rs. v \<notin> ran r) \<longrightarrow> in_stack ms' v = None)"
  proof (induction rs arbitrary: ms ms')
    case (Cons r rs)
    obtain m ms1 m' ms1' where ms: "ms = m # ms1" "ms' = m' # ms1'" using Cons.prems(2,3) by (cases ms; cases ms') auto
    have L: "layer r m m'" "\<forall>i < length rs. layer (rs ! i) (ms1 ! i) (ms1' ! i)"
      using Cons.prems(1) ms by (auto simp: nth_Cons split: nat.splits)
    note IH = Cons.IH [OF L(2)]
    have IH': "(in_stack rs n = Some v \<longrightarrow> (\<exists>d. in_stack ms1 n = Some d \<and> in_stack ms1' v = Some d))
      \<and> (in_stack rs n = None \<longrightarrow> in_stack ms1 n = None) \<and> ((\<forall>r \<in> set rs. v \<notin> ran r) \<longrightarrow> in_stack ms1' v = None)"
      using IH Cons.prems(2-) ms by auto
    have d: "dom m = dom r" "dom m' = ran r" "\<And>n v. r n = Some v \<Longrightarrow> m n = m' v" using L(1) by (auto simp: layer_def)
    have once1: "r n' = Some v \<Longrightarrow> n' = n" for n' using Cons.prems(4) by simp
    show ?case
    proof (cases "r n")
      case None
      then have "v \<notin> ran r" using once1 by (auto simp: ran_def)
      then have "m n = None" "m' v = None" using d(1,2) None by (auto simp: domIff [symmetric])
      with IH' None show ?thesis by (simp add: ms)
    next
      case (Some u)
      then obtain y where "m n = Some y" using d(1) by (metis domI domD)
      then have y: "m n = Some y" "m' u = Some y" using d(3) [OF Some] by simp_all
      have "m' v = None" if "v \<notin> ran r" using that d(2) by (auto simp: dom_def set_eq_iff)
      with Some IH' y show ?thesis by (auto simp: ms)
    qed
  qed auto
  then show "in_stack rs n = Some v \<Longrightarrow> \<exists>d. in_stack ms n = Some d \<and> in_stack ms' v = Some d"
    "in_stack rs n = None \<Longrightarrow> in_stack ms n = None" "\<forall>r \<in> set rs. v \<notin> ran r \<Longrightarrow> in_stack ms' v = None" by blast+
qed

lemma corresponds_lookup:
  assumes "corresponds sc ms ms'"
  shows "visible sc n = Some v \<Longrightarrow> \<exists>d. in_stack ms n = Some d \<and> in_stack ms' v = Some d"
    and "visible sc n = None \<Longrightarrow> written n \<Longrightarrow> in_stack ms n = None \<and> in_stack ms' n = None"
    and "written n \<Longrightarrow> sc_seen sc n < k \<Longrightarrow> in_stack ms' (again k n) = None \<and> (\<forall>m \<in> set (sc_stack sc). again k n \<notin> ran m)"
proof -
  have ok: "scopes_ok sc" "names_written sc" and L: "\<forall>i < length (sc_stack sc). layer (sc_stack sc ! i) (ms ! i) (ms' ! i)"
    and l: "length ms = length (sc_stack sc)" "length ms' = length (sc_stack sc)"
    using assms by (simp_all add: corresponds_def)
  have once: "\<forall>r \<in> set (sc_stack sc). \<forall>n'. r n' = Some v \<longrightarrow> n' = n" if "m \<in> set (sc_stack sc)" "m n = Some v" for m n v
    using renamed_once [OF ok that(1) _ that(2)] by blast
  show "\<exists>d. in_stack ms n = Some d \<and> in_stack ms' v = Some d" if "visible sc n = Some v"
  proof -
    from that have s: "in_stack (sc_stack sc) n = Some v" by (simp add: visible_def)
    from in_stack_ok [OF s] obtain m where "m \<in> set (sc_stack sc)" "m n = Some v" by blast
    from in_stack_layers(1) [OF L l once [OF this] s] show ?thesis .
  qed
  have gone: "\<forall>r \<in> set (sc_stack sc). again k n \<notin> ran r" if "written n" "sc_seen sc n < k" for n k
  proof (intro ballI notI)
    fix r assume r: "r \<in> set (sc_stack sc)" "again k n \<in> ran r"
    then obtain n' where e: "r n' = Some (again k n)" by (auto simp: ran_def)
    from renamed_name [OF ok r(1) e] obtain k' where k': "written n'" "1 \<le> k'" "k' \<le> sc_seen sc n'" "again k n = again k' n'" by auto
    have "1 \<le> k" using that(2) by simp
    from again_inj [OF that(1) k'(1) this k'(2,4)] that(2) k'(3) show False by simp
  qed
  show g: "in_stack ms' (again k n) = None \<and> (\<forall>m \<in> set (sc_stack sc). again k n \<notin> ran m)" if "written n" "sc_seen sc n < k" for n k
  proof -
    have "\<forall>r \<in> set (sc_stack sc). \<forall>n'. r n' = Some (again k n) \<longrightarrow> n' = n" using gone [OF that] by (auto simp: ran_def)
    from in_stack_layers(3) [OF L l this gone [OF that]] gone [OF that] show ?thesis by blast
  qed
  show "in_stack ms n = None \<and> in_stack ms' n = None" if n: "visible sc n = None" "written n"
  proof
    have none: "\<forall>m \<in> set (sc_stack sc). m n = None"
    proof -
      have "in_stack rs n = None \<Longrightarrow> \<forall>m \<in> set rs. m n = None" for rs :: "(string \<rightharpoonup> string) list"
        by (induction rs) (auto split: option.splits)
      then show ?thesis using n(1) by (simp add: visible_def)
    qed
    have gone1: "\<forall>r \<in> set (sc_stack sc). n \<notin> ran r"
    proof
      fix r assume r: "r \<in> set (sc_stack sc)"
      have "r n' \<noteq> Some n" for n'
      proof
        assume e: "r n' = Some n"
        from renamed_name [OF ok r e] obtain k where "written n'" "1 \<le> k" "n = again k n'" by auto
        then have "n' = n" using again_inj [of n n' 1 k] n(2) by (simp add: again_def split: if_splits)
        with none r e show False by auto
      qed
      then show "n \<notin> ran r" by (auto simp: ran_def)
    qed
    then have "\<forall>r \<in> set (sc_stack sc). \<forall>n'. r n' = Some n \<longrightarrow> n' = n" by (auto simp: ran_def)
    from in_stack_layers(2,3) [OF L l this] n(1) gone1 show "in_stack ms n = None" "in_stack ms' n = None"
      by (auto simp: visible_def)
  qed
qed

lemma corresponds_push: "corresponds sc ms ms' \<Longrightarrow> corresponds (push_scope sc) (Map.empty # ms) (Map.empty # ms')"
  using scopes_ok_push [of sc]
  by (auto simp: corresponds_def push_scope_def names_written_def layer_def nth_Cons split: nat.split)

lemma corresponds_pop: "corresponds sc ms ms' \<Longrightarrow> corresponds (pop_scope sc) (tl ms) (tl ms')"
  using scopes_ok_pop [of sc]
  by (cases "sc_stack sc"; cases ms; cases ms'; fastforce simp: corresponds_def pop_scope_def names_written_def)

lemma layer_declare:
  "layer r m m' \<Longrightarrow> r n = None \<Longrightarrow> v \<notin> ran r \<Longrightarrow> layer (r(n \<mapsto> v)) (m(n \<mapsto> k)) (m'(v \<mapsto> k))"
  by (simp add: layer_def ran_map_upd) (auto simp: ran_def)

lemma corresponds_declare:
  assumes "corresponds sc ms ms'" "visible sc n = None" "written n"
  shows "corresponds (fst (declare_name sc n)) (bind_top n k ms) (bind_top (snd (declare_name sc n)) k ms')"
proof (cases "sc_stack sc")
  case Nil
  then show ?thesis using assms scopes_ok_declare(1) [of sc n]
    by (auto simp: corresponds_def declare_name_def Let_def bind_top_def names_written_def)
next
  case (Cons r rs)
  obtain m ms1 m' ms1' where ms: "ms = m # ms1" "ms' = m' # ms1'"
    using assms(1) Cons by (cases ms; cases ms') (auto simp: corresponds_def)
  have r: "r n = None" using assms(2) Cons by (auto simp: visible_def split: option.splits)
  have v: "again (sc_seen sc n + 1) n \<notin> ran r" using corresponds_lookup(3) [OF assms(1,3), of "sc_seen sc n + 1"] Cons by auto
  have "layer r m m'" using assms(1) Cons ms by (force simp: corresponds_def)
  from layer_declare [OF this r v] assms(1) scopes_ok_declare(1) [of sc n] assms(2,3) show ?thesis
    by (auto simp: corresponds_def declare_name_def Let_def bind_top_def Cons ms names_written_def nth_Cons split: nat.splits)
qed

lemma resolve_renamed:
  "corresponds sc ms ms' \<Longrightarrow> all_written es \<Longrightarrow> resolve ms' k (snd (rename_events sc es)) = resolve ms k es"
proof (induction es arbitrary: sc ms ms' k)
  case (Cons e es)
  have es: "all_written es" using Cons.prems(2) by (simp add: all_written_def)
  note look = corresponds_lookup [OF Cons.prems(1)]
  show ?case
  proof (cases e)
    case Enter
    then show ?thesis using Cons.IH [OF corresponds_push [OF Cons.prems(1)] es] by simp
  next
    case Leave
    then show ?thesis using Cons.IH [OF corresponds_pop [OF Cons.prems(1)] es] by simp
  next
    case (Uses n)
    then have "written n" using Cons.prems(2) by (simp add: all_written_def)
    then show ?thesis using Uses look(1,2) [of n] Cons.IH [OF Cons.prems(1) es]
      by (cases "visible sc n") (auto simp: use_name_def)
  next
    case (Declares n)
    then have n: "written n" using Cons.prems(2) by (simp add: all_written_def)
    show ?thesis
    proof (cases "visible sc n")
      case None
      then have "in_stack ms' (snd (declare_name sc n)) = None" "in_stack ms n = None"
        using look(3) [OF n, of "sc_seen sc n + 1"] look(2) n by (auto simp: declare_name_def Let_def)
      then show ?thesis using Cons.IH [OF corresponds_declare [OF Cons.prems(1) None n] es] by (simp add: Declares)
    next
      case (Some v)
      then obtain d where "in_stack ms n = Some d" "in_stack ms' v = Some d" using look(1) [OF Some] by auto
      then show ?thesis using Some Cons.IH [OF Cons.prems(1) es] by (simp add: Declares declare_name_def)
    qed
  qed
qed simp

lemma fresh_distinct:
  "corresponds sc ms ms' \<Longrightarrow> all_written es \<Longrightarrow>
     distinct (fresh_names ms' (snd (rename_events sc es)))
     \<and> (\<forall>v \<in> set (fresh_names ms' (snd (rename_events sc es))). \<exists>n k. written n \<and> sc_seen sc n < k \<and> v = again k n)"
proof (induction es arbitrary: sc ms ms')
  case (Cons e es)
  have es: "all_written es" using Cons.prems(2) by (simp add: all_written_def)
  note look = corresponds_lookup [OF Cons.prems(1)]
  show ?case
  proof (cases e)
    case Enter
    then show ?thesis using Cons.IH [OF corresponds_push [OF Cons.prems(1)] es] by (simp add: push_scope_def)
  next
    case Leave
    then show ?thesis using Cons.IH [OF corresponds_pop [OF Cons.prems(1)] es] by (simp add: pop_scope_def)
  next
    case (Uses n)
    then show ?thesis using Cons.IH [OF Cons.prems(1) es] by simp
  next
    case (Declares n)
    then have n: "written n" using Cons.prems(2) by (simp add: all_written_def)
    show ?thesis
    proof (cases "visible sc n")
      case None
      let ?v = "again (sc_seen sc n + 1) n" and ?sc = "fst (declare_name sc n)"
      have d: "snd (declare_name sc n) = ?v" "sc_seen ?sc = (sc_seen sc)(n := sc_seen sc n + 1)"
        using None by (simp_all add: declare_name_def Let_def)
      have IH: "distinct (fresh_names (bind_top ?v () ms') (snd (rename_events ?sc es)))"
        "\<forall>v \<in> set (fresh_names (bind_top ?v () ms') (snd (rename_events ?sc es))). \<exists>n k. written n \<and> sc_seen ?sc n < k \<and> v = again k n"
        using Cons.IH [OF corresponds_declare [OF Cons.prems(1) None n] es] by (auto simp: d)
      let ?out = "fresh_names (bind_top ?v () ms') (snd (rename_events ?sc es))"
      have seen: "sc_seen sc n' < k" "n' = n \<longrightarrow> sc_seen sc n + 1 < k" if "sc_seen ?sc n' < k" for n' k
        using that by (auto simp: d(2) split: if_splits)
      have "?v \<notin> set ?out"
      proof
        assume "?v \<in> set ?out"
        with IH(2) obtain n' k where w: "written n'" "sc_seen ?sc n' < k" "?v = again k n'" by blast
        with again_inj [OF n w(1), of "sc_seen sc n + 1" k] seen [OF w(2)] show False by auto
      qed
      moreover have "\<forall>v \<in> set ?out. \<exists>n k. written n \<and> sc_seen sc n < k \<and> v = again k n"
        using IH(2) seen(1) by blast
      moreover have "\<exists>n' k. written n' \<and> sc_seen sc n' < k \<and> ?v = again k n'" using n by auto
      moreover have "fresh_names ms' (snd (rename_events sc (e # es))) = ?v # ?out"
        using look(3) [OF n, of "sc_seen sc n + 1"] by (simp add: Declares d(1))
      ultimately show ?thesis using IH(1) by (simp del: fresh_names.simps rename_events.simps)
    next
      case (Some v)
      then show ?thesis using look(1) [OF Some] Cons.IH [OF Cons.prems(1) es] by (auto simp: Declares declare_name_def split: option.splits)
    qed
  qed
qed simp

section \<open>A function\<close>

text \<open>The structure of a function: its parameters, then its clauses and body.\<close>

definition fn_events :: "sx \<Rightarrow> name_event list" where
  "fn_events f =
     (let xs = sx_items f
      in if length xs < 5 then []
         else map Declares (param_names (xs ! 2)) @ all_events WExpr (drop 5 xs))"

text \<open>Declaring the parameters one by one, each under its own name.\<close>

definition params_ok :: "scopes \<Rightarrow> bool" where
  "params_ok sc \<longleftrightarrow> (\<exists>m. sc_stack sc = [m] \<and> (\<forall>n. m n = (if sc_seen sc n = 0 then None else Some n)) \<and> (\<forall>n. sc_seen sc n \<le> 1))"

lemma rename_params:
  "params_ok sc \<Longrightarrow>
     rename_events sc (map Declares ns) = (fold add_param ns sc, map Declares ns)"
proof (induction ns arbitrary: sc)
  case (Cons n ns)
  obtain m where m: "sc_stack sc = [m]" "\<And>n. m n = (if sc_seen sc n = 0 then None else Some n)" "\<And>n. sc_seen sc n \<le> 1"
    using Cons.prems by (auto simp: params_ok_def)
  let ?sc = "add_param n sc"
  have "params_ok ?sc" using m by (auto simp: params_ok_def bind_top_def add_param_def)
  moreover have "declare_name sc n = (?sc, n)"
  proof (cases "sc_seen sc n = 0")
    case True
    then show ?thesis using m by (simp add: declare_name_def visible_def again_def bind_top_def add_param_def)
  next
    case False
    then have "sc_seen sc n = 1" using m(3) [of n] by linarith
    then have "(sc_seen sc)(n := 1) = sc_seen sc" "m(n \<mapsto> n) = m" using m(2) by (auto simp: fun_eq_iff)
    then show ?thesis using m(1) m(2) [of n] False by (simp add: declare_name_def visible_def bind_top_def add_param_def)
  qed
  ultimately show ?case using Cons.IH [of ?sc] by simp
qed simp

lemma rename_fn_events:
  "fn_events (rename_locals f) = snd (rename_events no_scopes (fn_events f))"
proof (cases "length (sx_items f) < 5")
  case True
  then show ?thesis by (simp add: rename_locals_def fn_events_def Let_def)
next
  case False
  then obtain b xs c where f: "f = SList b xs c" and l: "5 \<le> length xs" by (cases f) auto
  let ?ps = "param_names (xs ! 2)"
  have ok: "params_ok no_scopes" by (simp add: params_ok_def no_scopes_def)
  have p: "rename_events no_scopes (map Declares ?ps) = (param_scopes ?ps, map Declares ?ps)"
    using rename_params [OF ok] by (simp add: param_scopes_def)
  have "scopes_ok no_scopes" by (simp add: scopes_ok_def no_scopes_def)
  then have "scopes_ok (param_scopes ?ps)" using scopes_ok_rename [of no_scopes "map Declares ?ps"] p by simp
  from walk_renames(2) [OF this, of WExpr "drop 5 xs"] p l show ?thesis
    by (simp add: renames_def f rename_locals_def fn_events_def Let_def nth_append)
qed

lemma renamed_function:
  assumes "all_written (fn_events f)"
  shows "resolve [Map.empty] 0 (fn_events (rename_locals f)) = resolve [Map.empty] 0 (fn_events f)"
    and "distinct (fresh_names [Map.empty] (fn_events (rename_locals f)))"
proof -
  have c: "corresponds no_scopes [Map.empty] [Map.empty]" for t :: "'a itself"
    by (simp add: corresponds_def no_scopes_def scopes_ok_def names_written_def layer_def)
  show "resolve [Map.empty] 0 (fn_events (rename_locals f)) = resolve [Map.empty] 0 (fn_events f)"
    using resolve_renamed [OF c assms] by (simp add: rename_fn_events)
  show "distinct (fresh_names [Map.empty] (fn_events (rename_locals f)))"
    using fresh_distinct [OF c assms] by (simp add: rename_fn_events)
qed

end
