(* ===== verification/Expand_Properties.thy ===== *)
theory Expand_Properties
  imports Sugar Scope_Names
begin

text \<open>
  What the passes over S-expressions promise: reading is the inverse of writing out, no surface form is
  left after the rewriting, and the renaming of locals keeps what every name refers to.
\<close>

section \<open>Reading\<close>

text \<open>
  C33. \<open>read_one\<close> accepts exactly the well-bracketed texts, and reads each as the one form whose tokens
  are the text; on every other text it reports an error.
\<close>

theorem reading_exact: "read_one ts = Inr x \<longleftrightarrow> well_bracketed x \<and> flatten x = ts"
  by (rule read_one_exact)

section \<open>Surface forms\<close>

text \<open>
  C34. The rewriting leaves no \<^verbatim>\<open>for\<close>, \<^verbatim>\<open>arr.new\<close>, \<^verbatim>\<open>arr.of\<close> and no \<^verbatim>\<open>and\<close> or \<^verbatim>\<open>or\<close> of more than two
  operands at any depth it looks into, and rewriting its result again changes nothing.
\<close>

theorem sugar_gone:
  assumes "sugar alloc x = Inr (u, y)"
  shows "sugar_free alloc y \<and> (\<exists>u'. sugar alloc y = Inr (u', y))"
  using sugar_makes_free(1) [OF assms] free_unchanged(1) by blast

abbreviation here :: span where "here \<equiv> (1, 1)"

definition sum_for :: sx where
  "sum_for =
     list_at [symbol_sx ''for'' here, symbol_sx ''i'' here, int_sx 0 here, symbol_sx ''n'' here,
       list_at [symbol_sx ''and'' here, symbol_sx ''a'' here, symbol_sx ''b'' here, symbol_sx ''c'' here] here] here"

definition sum_loop :: sx where
  "sum_loop =
     list_at [symbol_sx ''counted_loop'' here, symbol_sx ''i'' here, int_sx 0 here,
       list_at [symbol_sx ''-'' here, symbol_sx ''n'' here, int_sx 1 here] here, int_sx 1 here,
       list_at [symbol_sx ''and'' here, symbol_sx ''a'' here,
         list_at [symbol_sx ''and'' here, symbol_sx ''b'' here, symbol_sx ''c'' here] here] here] here"

lemma sum_for_sugar: "sugar (Inr ''alloc.'') sum_for = Inr (False, sum_loop)"
  by (code_simp)

theorem sugar_gone_witness:
  "sugar_free (Inr ''alloc.'') sum_loop \<and> (\<exists>u'. sugar (Inr ''alloc.'') sum_loop = Inr (u', sum_loop))"
  by (rule sugar_gone [OF sum_for_sugar])

section \<open>Scopes\<close>

text \<open>
  C32. Renaming the locals of a function keeps its scope structure and what every name in it refers to,
  and afterwards no two of its declarations share a name, but for those that shadow a name still
  visible, which keep its name for the checker to report; the names of the function are as written,
  with no quote at their start.
\<close>

theorem renaming_sound:
  assumes "all_written (fn_events f)"
  shows "resolve [Map.empty] 0 (fn_events (rename_locals f)) = resolve [Map.empty] 0 (fn_events f)
    \<and> distinct (fresh_names [Map.empty] (fn_events (rename_locals f)))"
  using renamed_function [OF assms] by blast

text \<open>A function with two blocks that each declare \<^verbatim>\<open>x\<close>.\<close>

definition twice_x :: sx where
  "twice_x =
     (let block = list_at [symbol_sx ''block'' here,
            list_at [symbol_sx ''let'' here, symbol_sx ''x'' here, Atom (token_at Colon here), symbol_sx ''i32'' here, symbol_sx ''p'' here] here,
            symbol_sx ''x'' here] here
      in list_at [symbol_sx ''fn'' here, symbol_sx ''f'' here,
           SList (token_at LBracket here) [symbol_sx ''p'' here, Atom (token_at Colon here), symbol_sx ''i32'' here] (token_at RBracket here),
           Atom (token_at Arrow here), symbol_sx ''i32'' here, block, block] here)"

lemma twice_x_events:
  "fn_events twice_x =
     [Declares ''p'', Enter, Uses ''p'', Declares ''x'', Uses ''x'', Leave, Enter, Uses ''p'', Declares ''x'', Uses ''x'', Leave]"
  by code_simp

theorem renaming_sound_witness:
  "resolve [Map.empty] 0 (fn_events (rename_locals twice_x)) = resolve [Map.empty] 0 (fn_events twice_x)
    \<and> distinct (fresh_names [Map.empty] (fn_events (rename_locals twice_x)))"
  by (rule renaming_sound) (simp add: twice_x_events all_written_def written_def)

end
