(* ===== verification/Consts.thy ===== *)
theory Consts
  imports Sexpr Vm_Ops
begin

text \<open>
  Named constants (\<^verbatim>\<open>src/consts.rs\<close>): \<open>expand_consts\<close> is \<^verbatim>\<open>expand\<close>, which removes the constants of a flat
  program and puts their values where they are used, and enum members likewise. \<open>fold_op\<close> is \<^verbatim>\<open>fold\<close>,
  \<open>eval_const\<close> and \<open>eval_sx\<close> are \<^verbatim>\<open>eval_const\<close> and \<^verbatim>\<open>eval_expr\<close> with their memo, \<open>subst_sx\<close> is \<^verbatim>\<open>substitute\<close>.
  The table of definitions is a list, in the order in which they stand; \<^verbatim>\<open>active\<close>, which is as it was
  when a call returns a value, is an argument. An error carries the file, the place and the fault.
\<close>

section \<open>Values\<close>

datatype const_value = CI32 i32 | CI64 i64 | CF64 f64 | CBool bool

fun const_ty :: "const_value \<Rightarrow> string" where
  "const_ty (CI32 _) = ''i32''"
| "const_ty (CI64 _) = ''i64''"
| "const_ty (CF64 _) = ''f64''"
| "const_ty (CBool _) = ''bool''"

text \<open>\<^verbatim>\<open>Val::sx\<close>: the value as source, a literal or the bits of a float.\<close>

definition val_sx :: "const_value \<Rightarrow> span \<Rightarrow> sx" where
  "val_sx v sp =
     (case v of
        CI32 w \<Rightarrow> Atom (token_at (IntLit (scast w)) sp)
      | CI64 w \<Rightarrow> Atom (token_at (Int64Lit w) sp)
      | CBool b \<Rightarrow> Atom (token_at (BoolLit b) sp)
      | CF64 f \<Rightarrow> list_at [symbol_sx ''f64.reinterpret_i64'' sp, Atom (token_at (Int64Lit f) sp)] sp)"

section \<open>Folding\<close>

datatype fold_fault =
    FoldOperator string
  | FoldCount string nat nat
  | FoldApplies string string
  | FoldTypes string string string
  | FoldZero string
  | FoldOverflow

definition const_ops :: "string list" where
  "const_ops = [''+'', ''-'', ''*'', ''/'', ''%'', ''^'', ''shl'', ''shr'', ''shru'', ''rotl'', ''rotr'', ''bitand'', ''bitor'',
     ''bitnot'', ''clz'', ''ctz'', ''popcnt'', ''and'', ''or'', ''not'']"

definition unary_int :: "string \<Rightarrow> bool" where
  "unary_int op \<longleftrightarrow> op \<in> {''bitnot'', ''clz'', ''ctz'', ''popcnt''}"

definition const_arity :: "string \<Rightarrow> nat" where
  "const_arity op = (if op = ''not'' \<or> unary_int op then 1 else 2)"

definition fold_bits :: "string \<Rightarrow> 'a::len word \<Rightarrow> 'a word" where
  "fold_bits op x =
     (if op = ''bitnot'' then not x
      else if op = ''clz'' then of_nat (leading_zeros x)
      else if op = ''ctz'' then of_nat (trailing_zeros x)
      else of_nat (count_ones x))"

text \<open>A count of bits, taken modulo the width.\<close>

definition masked :: "'a::len itself \<Rightarrow> u32 \<Rightarrow> nat" where
  "masked w y = unat (and y (of_nat (LENGTH('a) - 1)))"

text \<open>The arms for two \<^verbatim>\<open>i32\<close> and for two \<^verbatim>\<open>i64\<close>, which are the same text; \<open>k\<close> is \<^verbatim>\<open>y as u32\<close>.\<close>

definition fold_ints :: "string \<Rightarrow> string \<Rightarrow> u32 \<Rightarrow> 'a::len word \<Rightarrow> 'a word \<Rightarrow> fold_fault + 'a word" where
  "fold_ints ty op k x y =
     (if op = ''+'' then Inr (x + y)
      else if op = ''-'' then Inr (x - y)
      else if op = ''*'' then Inr (x * y)
      else if (op = ''/'' \<or> op = ''%'') \<and> y = 0 then Inl (FoldZero op)
      else if op = ''/'' \<and> x = int_min \<and> y = - 1 then Inl FoldOverflow
      else if op = ''/'' then Inr (word_of_int (trunc_div (sint x) (sint y)))
      else if op = ''%'' then Inr (word_of_int (trunc_mod (sint x) (sint y)))
      else if op = ''^'' then Inr (xor x y)
      else if op = ''shl'' then Inr (push_bit (masked TYPE('a) k) x)
      else if op = ''shr'' then Inr (signed_drop_bit (masked TYPE('a) k) x)
      else if op = ''shru'' then Inr (drop_bit (masked TYPE('a) k) x)
      else if op = ''rotl'' then Inr (word_rotl (masked TYPE('a) k) x)
      else if op = ''rotr'' then Inr (word_rotr (masked TYPE('a) k) x)
      else if op = ''bitand'' then Inr (and x y)
      else if op = ''bitor'' then Inr (or x y)
      else Inl (FoldApplies op ty))"

definition fold_floats :: "string \<Rightarrow> f64 \<Rightarrow> f64 \<Rightarrow> fold_fault + f64" where
  "fold_floats op x y =
     (if op = ''+'' then Inr (f64_add x y)
      else if op = ''-'' then Inr (f64_sub x y)
      else if op = ''*'' then Inr (f64_mul x y)
      else if op = ''/'' then Inr (f64_div x y)
      else Inl (FoldApplies op ''f64''))"

definition fold_bools :: "string \<Rightarrow> bool \<Rightarrow> bool \<Rightarrow> fold_fault + bool" where
  "fold_bools op x y =
     (if op = ''and'' then Inr (x \<and> y)
      else if op = ''or'' then Inr (x \<or> y)
      else Inl (FoldApplies op ''bool''))"

definition fold_one :: "string \<Rightarrow> const_value \<Rightarrow> fold_fault + const_value" where
  "fold_one op a =
     (if op = ''not'' then (case a of CBool b \<Rightarrow> Inr (CBool (\<not> b)) | v \<Rightarrow> Inl (FoldApplies op (const_ty v)))
      else (case a of
              CI32 x \<Rightarrow> Inr (CI32 (fold_bits op x))
            | CI64 x \<Rightarrow> Inr (CI64 (fold_bits op x))
            | v \<Rightarrow> Inl (FoldApplies op (const_ty v))))"

definition fold_two :: "string \<Rightarrow> const_value \<Rightarrow> const_value \<Rightarrow> fold_fault + const_value" where
  "fold_two op a b =
     (if const_ty a \<noteq> const_ty b then Inl (FoldTypes op (const_ty a) (const_ty b))
      else case (a, b) of
        (CI32 x, CI32 y) \<Rightarrow> bind_res (fold_ints (const_ty a) op y x y) (\<lambda>r. Inr (CI32 r))
      | (CI64 x, CI64 y) \<Rightarrow> bind_res (fold_ints (const_ty a) op (ucast y) x y) (\<lambda>r. Inr (CI64 r))
      | (CF64 x, CF64 y) \<Rightarrow> bind_res (fold_floats op x y) (\<lambda>r. Inr (CF64 r))
      | (CBool x, CBool y) \<Rightarrow> bind_res (fold_bools op x y) (\<lambda>r. Inr (CBool r))
      | _ \<Rightarrow> Inl (FoldApplies op (const_ty a)))"

definition fold_op :: "string \<Rightarrow> const_value list \<Rightarrow> fold_fault + const_value" where
  "fold_op op args =
     (if op \<notin> set const_ops then Inl (FoldOperator op)
      else if length args \<noteq> const_arity op then Inl (FoldCount op (const_arity op) (length args))
      else if const_arity op = 1 then fold_one op (args ! 0)
      else fold_two op (args ! 0) (args ! 1))"

section \<open>Evaluation\<close>

record const_def =
  cd_ty :: string
  cd_value :: sx
  cd_file :: string

datatype const_fault =
    CDependsOnItself string
  | CDeclared string string string
  | CTooWide string i64
  | CNotConst string string
  | CHolds string token_kind
  | CFold string fold_fault
  | CTwice string
  | CShape
  | CCapitals string
  | CType string string
  | CLiteral string string
  | CNames string
  | CMember string string
  | CUnknown string

type_synonym const_error = "string \<times> span \<times> const_fault"

definition const_fails :: "const_def \<Rightarrow> const_fault \<Rightarrow> const_error" where
  "const_fails d f = (cd_file d, sx_position (cd_value d), f)"

definition const_atom :: "string \<Rightarrow> token_kind \<Rightarrow> const_fault + const_value" where
  "const_atom base k =
     (case k of
        IntLit v \<Rightarrow>
          (if - 2147483648 \<le> sint v \<and> sint v \<le> 4294967295 then Inr (CI32 (ucast v)) else Inl (CTooWide base v))
      | Int64Lit v \<Rightarrow> Inr (CI64 v)
      | FloatLit f _ \<Rightarrow> Inr (CF64 f)
      | BoolLit b \<Rightarrow> Inr (CBool b)
      | _ \<Rightarrow> Inl (CHolds base k))"

type_synonym const_memo = "string \<rightharpoonup> const_value"
type_synonym const_defs = "(string \<times> const_def) list"

text \<open>
  In \<open>eval_sx\<close> an error \<open>Inl (Inl e)\<close> is another constant's, with its place, and \<open>Inl (Inr f)\<close> is this
  one's. A name that is not defined does not reach \<open>eval_const\<close>.
\<close>

function eval_const :: "const_defs \<Rightarrow> string list \<Rightarrow> const_memo \<Rightarrow> string \<Rightarrow> const_error + const_value \<times> const_memo"
and eval_sx :: "const_defs \<Rightarrow> string list \<Rightarrow> const_memo \<Rightarrow> string \<Rightarrow> sx \<Rightarrow> (const_error + const_fault) + const_value \<times> const_memo"
and eval_sxs :: "const_defs \<Rightarrow> string list \<Rightarrow> const_memo \<Rightarrow> string \<Rightarrow> sx list
    \<Rightarrow> (const_error + const_fault) + const_value list \<times> const_memo" where
  "eval_const defs active memo name =
     (case memo name of
        Some v \<Rightarrow> Inr (v, memo)
      | None \<Rightarrow>
          (case map_of defs name of
             None \<Rightarrow> Inl ([], (0, 0), CUnknown name)
           | Some d \<Rightarrow>
               let base = after_dot name
               in if name \<in> set active then Inl (const_fails d (CDependsOnItself base))
                  else (case eval_sx defs (active @ [name]) memo base (cd_value d) of
                          Inl (Inl e) \<Rightarrow> Inl e
                        | Inl (Inr f) \<Rightarrow> Inl (const_fails d f)
                        | Inr (v, memo') \<Rightarrow>
                            if const_ty v \<noteq> cd_ty d then Inl (const_fails d (CDeclared base (cd_ty d) (const_ty v)))
                            else Inr (v, memo'(name \<mapsto> v)))))"
| "eval_sx defs active memo base (Atom t) =
     (case tk_kind t of
        Symbol s \<Rightarrow>
          if map_of defs s \<noteq> None then (case eval_const defs active memo s of Inl e \<Rightarrow> Inl (Inl e) | Inr r \<Rightarrow> Inr r)
          else Inl (Inr (CNotConst base s))
      | k \<Rightarrow> (case const_atom base k of Inl f \<Rightarrow> Inl (Inr f) | Inr v \<Rightarrow> Inr (v, memo)))"
| "eval_sx defs active memo base (SList b xs c) =
     (let op = (case xs of h # _ \<Rightarrow> (case sx_symbol h of Some w \<Rightarrow> w | None \<Rightarrow> []) | [] \<Rightarrow> [])
      in case eval_sxs defs active memo base (drop 1 xs) of
           Inl e \<Rightarrow> Inl e
         | Inr (vs, memo') \<Rightarrow>
             (case fold_op op vs of Inl f \<Rightarrow> Inl (Inr (CFold base f)) | Inr v \<Rightarrow> Inr (v, memo')))"
| "eval_sxs defs active memo base [] = Inr ([], memo)"
| "eval_sxs defs active memo base (x # xs) =
     (case eval_sx defs active memo base x of
        Inl e \<Rightarrow> Inl e
      | Inr (v, memo') \<Rightarrow>
          (case eval_sxs defs active memo' base xs of Inl e \<Rightarrow> Inl e | Inr (vs, memo'') \<Rightarrow> Inr (v # vs, memo'')))"
  by pat_completeness auto
termination
proof (relation "(\<lambda>a. case a of
      Inl (defs, active, _) \<Rightarrow> card (fst ` set defs - set active)
    | Inr (Inl (defs, active, _)) \<Rightarrow> card (fst ` set defs - set active)
    | Inr (Inr (defs, active, _)) \<Rightarrow> card (fst ` set defs - set active)) <*mlex*>
    measure (\<lambda>a. case a of Inl _ \<Rightarrow> 0 | Inr (Inl (_, _, _, _, x)) \<Rightarrow> Suc (2 * size x)
      | Inr (Inr (_, _, _, _, xs)) \<Rightarrow> Suc (2 * size_list size xs))", goal_cases)
  case 1
  show ?case by (intro wf_mlex wf_measure)
next
  case (2 defs active memo name d)
  then have "name \<in> fst ` set defs" by (force dest: map_of_SomeD)
  then have "card (fst ` set defs - set (active @ [name])) < card (fst ` set defs - set active)"
    using 2 by (intro psubset_card_mono) auto
  then show ?case by (auto simp: mlex_prod_def)
next
  case (4 defs active memo base b xs c)
  then show ?case by (cases xs) (auto simp: mlex_prod_def less_Suc_eq_le)
qed (auto simp: mlex_prod_def)

declare eval_const.simps [simp del]

section \<open>Definitions\<close>

text \<open>\<^verbatim>\<open>Item\<close> and \<^verbatim>\<open>FlatProgram\<close> of \<^verbatim>\<open>src/resolver.rs\<close>.\<close>

record item =
  it_sx :: sx
  it_file :: string
  it_foreign :: "span \<rightharpoonup> string"

record flat_program =
  fp_name :: string
  fp_structs :: "item list"
  fp_fns :: "item list"
  fp_files :: "string \<rightharpoonup> string"

definition fault_at :: "string \<Rightarrow> sx \<Rightarrow> const_fault \<Rightarrow> const_error" where
  "fault_at file x f = (file, sx_position x, f)"

definition is_upper :: "char \<Rightarrow> bool" where
  "is_upper c \<longleftrightarrow> 65 \<le> (of_char c :: nat) \<and> (of_char c :: nat) \<le> 90"

definition in_capitals :: "string \<Rightarrow> bool" where
  "in_capitals s \<longleftrightarrow>
     2 \<le> length s \<and> is_upper (hd s)
     \<and> list_all (\<lambda>c. is_upper c \<or> (48 \<le> (of_char c :: nat) \<and> (of_char c :: nat) \<le> 57) \<or> c = CHR ''_'') s"

text \<open>Whether a literal is of the type declared; a type that no constant has is \<open>None\<close>.\<close>

definition literal_fits :: "string \<Rightarrow> token_kind \<Rightarrow> bool option" where
  "literal_fits ty k =
     (if ty = ''i32'' then Some (case k of IntLit v \<Rightarrow> - 2147483648 \<le> sint v \<and> sint v \<le> 4294967295 | _ \<Rightarrow> False)
      else if ty = ''i64'' then Some (case k of Int64Lit _ \<Rightarrow> True | _ \<Rightarrow> False)
      else if ty = ''f64'' then Some (case k of FloatLit _ _ \<Rightarrow> True | _ \<Rightarrow> False)
      else if ty = ''bool'' then Some (case k of BoolLit _ \<Rightarrow> True | _ \<Rightarrow> False)
      else if ty = ''str'' then Some (case k of StringLit _ \<Rightarrow> True | _ \<Rightarrow> False)
      else None)"

definition folded_later :: "string \<Rightarrow> token_kind \<Rightarrow> bool" where
  "folded_later ty k \<longleftrightarrow>
     (case k of Symbol _ \<Rightarrow> True | LParen \<Rightarrow> True | _ \<Rightarrow> False) \<and> ty \<in> {''i32'', ''i64'', ''f64'', ''bool''}"

definition read_const :: "item \<Rightarrow> const_error + string \<times> const_def" where
  "read_const it =
     (let ps = sx_items (it_sx it)
      in if length ps \<noteq> 5 \<or> \<not> is_kind Colon (ps ! 2) then Inl (fault_at (it_file it) (it_sx it) CShape)
         else case sx_symbol (ps ! 1) of
           None \<Rightarrow> Inl (fault_at (it_file it) (it_sx it) CShape)
         | Some name \<Rightarrow>
             let base = after_dot name;
                 ty = (case sx_symbol (ps ! 3) of Some t \<Rightarrow> t | None \<Rightarrow> []);
                 k = (case ps ! 4 of Atom t \<Rightarrow> tk_kind t | SList _ _ _ \<Rightarrow> LParen);
                 d = \<lparr>cd_ty = ty, cd_value = ps ! 4, cd_file = it_file it\<rparr>
             in if \<not> in_capitals base then Inl (fault_at (it_file it) (ps ! 1) (CCapitals base))
                else if folded_later ty k then Inr (name, d)
                else case literal_fits ty k of
                  None \<Rightarrow> Inl (fault_at (it_file it) (ps ! 3) (CType base ty))
                | Some False \<Rightarrow> Inl (fault_at (it_file it) (ps ! 4) (CLiteral base ty))
                | Some True \<Rightarrow> Inr (name, d))"

text \<open>The members of an enum; \<open>v + 1\<close> wraps, as in a build without overflow checks.\<close>

fun read_members :: "i64 \<Rightarrow> sx list \<Rightarrow> (string \<times> i64) list option" where
  "read_members v [] = Some []"
| "read_members v (x # xs) =
     (case (case sx_symbol x of
              Some n \<Rightarrow> Some (n, v)
            | None \<Rightarrow>
                (case sx_items x of
                   p # q # _ \<Rightarrow>
                     (case (sx_symbol p, q) of
                        (Some n, Atom t) \<Rightarrow> (case tk_kind t of IntLit w \<Rightarrow> Some (n, w) | _ \<Rightarrow> None)
                      | _ \<Rightarrow> None)
                 | _ \<Rightarrow> None)) of
        None \<Rightarrow> None
      | Some (n, w) \<Rightarrow> map_option (\<lambda>ms. (n, w) # ms) (read_members (w + 1) xs))"

definition read_enum :: "sx \<Rightarrow> (string \<times> (string \<times> i64) list) option" where
  "read_enum x =
     (case sx_items x of
        _ # n # ms # _ \<Rightarrow>
          (case sx_symbol n of
             None \<Rightarrow> None
           | Some name \<Rightarrow> map_option (Pair name) (read_members 0 (sx_items ms)))
      | _ \<Rightarrow> None)"

section \<open>Substitution\<close>

text \<open>The enums of a program, the last one first.\<close>

type_synonym enum_values = "(string \<times> (string \<times> i64) list) list"

definition enum_cast :: "string \<Rightarrow> i64 \<Rightarrow> span \<Rightarrow> sx" where
  "enum_cast e v sp = list_at [symbol_sx ''enum.cast'' sp, symbol_sx e sp, Atom (token_at (IntLit v) sp)] sp"

text \<open>What stands for a symbol \<open>s\<close> at \<open>sp\<close>, before a form that is a colon or not; \<open>None\<close> leaves it.\<close>

definition const_use :: "(string \<rightharpoonup> sx) \<Rightarrow> enum_values \<Rightarrow> bool \<Rightarrow> string \<Rightarrow> span \<Rightarrow> const_fault + sx option" where
  "const_use tbl enums before_colon s sp =
     (case tbl s of
        Some v \<Rightarrow>
          if before_colon then Inl (CNames s)
          else Inr (Some (case v of Atom t \<Rightarrow> Atom (token_at (tk_kind t) sp) | SList _ _ _ \<Rightarrow> v))
      | None \<Rightarrow>
          if CHR ''.'' \<notin> set s then Inr None
          else (case map_of enums (before_dot s) of
                  None \<Rightarrow> Inr None
                | Some ms \<Rightarrow>
                    (case List.find (\<lambda>m. fst m = after_dot s) ms of
                       None \<Rightarrow> Inl (CMember (before_dot s) (after_dot s))
                     | Some (_, v) \<Rightarrow> Inr (Some (enum_cast (before_dot s) v sp)))))"

text \<open>
  The items of a list from its \<open>i\<close>-th on. The head of an arm of a match kept_name a name: it is put aside
  while the arm is rewritten.
\<close>

function subst_sx :: "(string \<rightharpoonup> sx) \<Rightarrow> enum_values \<Rightarrow> string \<Rightarrow> sx \<Rightarrow> const_error + sx"
and subst_items :: "(string \<rightharpoonup> sx) \<Rightarrow> enum_values \<Rightarrow> string \<Rightarrow> bool \<Rightarrow> nat \<Rightarrow> sx list \<Rightarrow> const_error + sx list" where
  "subst_sx tbl enums file (Atom t) = Inr (Atom t)"
| "subst_sx tbl enums file (SList b xs c) =
     bind_res (subst_items tbl enums file (sx_head (SList b xs c) = Some ''match'') 0 xs) (\<lambda>ys. Inr (SList b ys c))"
| "subst_items tbl enums file in_match i [] = Inr []"
| "subst_items tbl enums file in_match i (x # xs) =
     bind_res
       (case x of
          SList b (h # zs) c \<Rightarrow>
            if in_match \<and> 2 \<le> i then
              bind_res (subst_sx tbl enums file (SList b (symbol_sx ''match-arm'' (sx_position h) # zs) c))
                (\<lambda>y. Inr (SList b (h # tl (sx_items y)) c))
            else subst_sx tbl enums file x
        | SList b [] c \<Rightarrow> subst_sx tbl enums file x
        | Atom t \<Rightarrow>
            (case tk_kind t of
               Symbol s \<Rightarrow>
                 (case const_use tbl enums (case xs of y # _ \<Rightarrow> is_kind Colon y | [] \<Rightarrow> False) s (tk_pos t) of
                    Inl f \<Rightarrow> Inl (fault_at file x f)
                  | Inr None \<Rightarrow> Inr x
                  | Inr (Some y) \<Rightarrow> Inr y)
             | _ \<Rightarrow> Inr x))
       (\<lambda>y. bind_res (subst_items tbl enums file in_match (Suc i) xs) (\<lambda>ys. Inr (y # ys)))"
  by pat_completeness auto
termination
  by (relation "measure (\<lambda>a. case a of Inl (_, _, _, x) \<Rightarrow> 2 * size x | Inr (_, _, _, _, _, xs) \<Rightarrow> Suc (2 * size_list size xs))")
    (auto simp: symbol_sx_def)

section \<open>A program\<close>

fun collect_consts :: "item list \<Rightarrow> const_defs \<Rightarrow> enum_values \<Rightarrow> const_error + const_defs \<times> enum_values" where
  "collect_consts [] defs enums = Inr (defs, enums)"
| "collect_consts (it # its) defs enums =
     (if sx_head (it_sx it) = Some ''const'' then
        bind_res (read_const it) (\<lambda>(name, d).
          if map_of defs name \<noteq> None then Inl (fault_at (it_file it) (it_sx it) (CTwice name))
          else collect_consts its (defs @ [(name, d)]) enums)
      else if sx_head (it_sx it) = Some ''enum'' then
        (case read_enum (it_sx it) of
           Some (name, ms) \<Rightarrow> collect_consts its defs ((name, ms) # enums)
         | None \<Rightarrow> collect_consts its defs enums)
      else collect_consts its defs enums)"

definition needs_folding :: "sx \<Rightarrow> bool" where
  "needs_folding x = (case x of Atom t \<Rightarrow> (case tk_kind t of Symbol _ \<Rightarrow> True | _ \<Rightarrow> False) | SList _ _ _ \<Rightarrow> True)"

text \<open>What replaces each constant, in order.\<close>

fun const_values :: "const_defs \<Rightarrow> const_memo \<Rightarrow> (string \<rightharpoonup> sx) \<Rightarrow> const_defs \<Rightarrow> const_error + (string \<rightharpoonup> sx)" where
  "const_values defs memo tbl [] = Inr tbl"
| "const_values defs memo tbl ((name, d) # ds) =
     (if needs_folding (cd_value d)
      then bind_res (eval_const defs [] memo name) (\<lambda>(v, memo').
        const_values defs memo' (tbl(name \<mapsto> val_sx v (sx_position (cd_value d)))) ds)
      else const_values defs memo (tbl(name \<mapsto> cd_value d)) ds)"

fun rewrite_items :: "(string \<rightharpoonup> sx) \<Rightarrow> enum_values \<Rightarrow> item list \<Rightarrow> const_error + item list" where
  "rewrite_items tbl enums [] = Inr []"
| "rewrite_items tbl enums (it # its) =
     (if sx_head (it_sx it) = Some ''const'' then rewrite_items tbl enums its
      else bind_res
        (if sx_head (it_sx it) = Some ''enum'' then Inr it
         else bind_res (subst_sx tbl enums (it_file it) (it_sx it)) (\<lambda>x. Inr (it\<lparr>it_sx := x\<rparr>)))
        (\<lambda>it'. bind_res (rewrite_items tbl enums its) (\<lambda>its'. Inr (it' # its'))))"

definition expand_consts :: "flat_program \<Rightarrow> const_error + flat_program" where
  "expand_consts p =
     bind_res (collect_consts (fp_structs p @ fp_fns p) [] []) (\<lambda>(defs, enums).
       if defs = [] \<and> enums = [] then Inr p
       else bind_res (const_values defs Map.empty Map.empty defs) (\<lambda>tbl.
            bind_res (rewrite_items tbl enums (fp_structs p)) (\<lambda>ss.
            bind_res (rewrite_items tbl enums (fp_fns p)) (\<lambda>fs.
              Inr (p\<lparr>fp_structs := ss, fp_fns := fs\<rparr>)))))"

end
