(* ===== verification/Const_Facts.thy ===== *)
theory Const_Facts
  imports Consts Calls Parser
begin

text \<open>
  Facts on the constants of \<open>Consts\<close>: the value of the VM and the expression that stand for a folded
  value, that an operator gives on constants what the VM's operation gives on their values, and that an
  expression without jumps is evaluated to its value when its operands are.
\<close>

section \<open>Folding and the VM\<close>

text \<open>The value of the VM and the expression that stand for a constant's value.\<close>

fun val_value :: "const_value \<Rightarrow> value" where
  "val_value (CI32 w) = int32 w"
| "val_value (CI64 w) = VInt64 w"
| "val_value (CF64 f) = VFloat f"
| "val_value (CBool b) = VBool b"

fun val_expr :: "span \<Rightarrow> const_value \<Rightarrow> expr" where
  "val_expr sp (CI32 w) = ELit (LInt (of_i32 w)) sp"
| "val_expr sp (CI64 w) = ELit (LInt64 w) sp"
| "val_expr sp (CF64 f) = EOp (OpConv F64ReinterpretI64) [ELit (LInt64 f) sp] sp"
| "val_expr sp (CBool b) = ELit (LBool b) sp"

lemma of_i32_eq [simp]: "of_i32 x = of_i32 y \<longleftrightarrow> x = y"
  by (metis as_of_i32)

lemma ucast_of_i32 [simp]: "ucast (of_i32 y) = (y :: i32)"
  using as_of_i32 [of y] by (simp add: as_i32_def)

lemma val_value_eq [simp]: "val_value a = val_value b \<longleftrightarrow> a = b"
  by (cases a; cases b) auto

lemma ucast_word_of_nat: "(ucast (word_of_nat n :: i64) :: i32) = word_of_nat n"
  by (rule bit_word_eqI) (auto simp: bit_simps)

lemma of_i32_of_nat: "n < 2 ^ 31 \<Longrightarrow> of_i32 (word_of_nat n) = word_of_nat n"
  using narrow32_of_nat [of n] ucast_word_of_nat [of n] by (simp add: narrow32_def as_i32_def)

text \<open>The operators by their family.\<close>

definition arith_codes :: "(string \<times> arith_op) list" where
  "arith_codes =
     [(''+'', Add), (''-'', Sub), (''*'', Mul), (''/'', Div), (''%'', Mod), (''^'', BitXor), (''shl'', Shl), (''shr'', Shr),
      (''shru'', ShrU), (''rotl'', Rotl), (''rotr'', Rotr), (''bitand'', BitAnd), (''bitor'', BitOr)]"

definition bit_codes :: "(string \<times> bit_op) list" where
  "bit_codes = [(''bitnot'', BitNot), (''clz'', Clz), (''ctz'', Ctz), (''popcnt'', Popcnt)]"

definition logic_codes :: "(string \<times> logic_op) list" where
  "logic_codes = [(''and'', And), (''or'', Or)]"

lemma const_op_codes:
  "map op_of_name const_ops =
     map (\<lambda>(w, o1). Some (OpArith o1)) arith_codes @ map (\<lambda>(w, o1). Some (OpBit o1)) bit_codes
     @ map (\<lambda>(w, o1). Some (OpLogic o1)) logic_codes @ [Some OpNot]"
  by code_simp

lemma const_op_names: "const_ops = map fst arith_codes @ map fst bit_codes @ map fst logic_codes @ [''not'']"
  by (simp add: const_ops_def arith_codes_def bit_codes_def logic_codes_def)

lemma const_op_cases [consumes 1, case_names arith bits logic negation]:
  assumes "w \<in> set const_ops"
  obtains o1 where "(w, o1) \<in> set arith_codes" "op_of_name w = Some (OpArith o1)"
  | o1 where "(w, o1) \<in> set bit_codes" "op_of_name w = Some (OpBit o1)"
  | o1 where "(w, o1) \<in> set logic_codes" "op_of_name w = Some (OpLogic o1)"
  | "w = ''not''" "op_of_name w = Some OpNot"
proof -
  have "map (\<lambda>(w, o1). op_of_name w) arith_codes = map (\<lambda>(w, o1). Some (OpArith o1)) arith_codes
      \<and> map (\<lambda>(w, o1). op_of_name w) bit_codes = map (\<lambda>(w, o1). Some (OpBit o1)) bit_codes
      \<and> map (\<lambda>(w, o1). op_of_name w) logic_codes = map (\<lambda>(w, o1). Some (OpLogic o1)) logic_codes \<and> op_of_name ''not'' = Some OpNot"
    using const_op_codes unfolding const_op_names by (simp add: comp_def case_prod_beta)
  then show ?thesis using that assms unfolding const_op_names by (auto simp: map_eq_conv)
qed

lemma arith_codes_arity: "(w, o1) \<in> set arith_codes \<Longrightarrow> const_arity w = 2"
  by (auto simp: arith_codes_def const_arity_def unary_int_def)

lemma bit_codes_arity: "(w, o1) \<in> set bit_codes \<Longrightarrow> const_arity w = 1 \<and> w \<noteq> ''not''"
  by (auto simp: bit_codes_def const_arity_def unary_int_def)

lemma logic_codes_arity: "(w, o1) \<in> set logic_codes \<Longrightarrow> const_arity w = 2"
  by (auto simp: logic_codes_def const_arity_def unary_int_def)

lemma trunc_mod_minus: "trunc_mod x (- 1) = 0"
  by (simp add: trunc_mod_def)

lemmas arith_defs = apply_arith_def num_op_def int_op_def shift_op_def pure2_def div_signed_def mod_signed_def

lemmas shift_defs = word_shl_def word_shr_def word_shru_def word_rol_def word_ror_def masked_def shift_amount_def

lemma arith_types:
  "apply_arith o1 (val_value a) (val_value b) = Inr u \<Longrightarrow> const_ty a = const_ty b \<and> const_ty a \<noteq> ''bool''"
  by (cases a; cases b; cases o1; simp add: arith_defs)

lemma fold_arith_i32:
  assumes "(w, o1) \<in> set arith_codes"
  shows "fold_two w (CI32 x) (CI32 y) = Inr v \<longleftrightarrow> apply_arith o1 (int32 x) (int32 y) = Inr (val_value v)"
  using assms unfolding arith_codes_def
  by (simp, elim disjE conjE; simp add: fold_two_def fold_ints_def arith_defs shift_defs trunc_mod_minus; cases v; auto)

lemma fold_arith_i64:
  assumes "(w, o1) \<in> set arith_codes"
  shows "fold_two w (CI64 x) (CI64 y) = Inr v \<longleftrightarrow> apply_arith o1 (VInt64 x) (VInt64 y) = Inr (val_value v)"
  using assms unfolding arith_codes_def
  by (simp, elim disjE conjE; simp add: fold_two_def fold_ints_def arith_defs shift_defs trunc_mod_minus; cases v; auto)

lemma fold_arith_f64:
  assumes "(w, o1) \<in> set arith_codes"
  shows "fold_two w (CF64 x) (CF64 y) = Inr v \<longleftrightarrow> apply_arith o1 (VFloat x) (VFloat y) = Inr (val_value v)"
  using assms unfolding arith_codes_def
  by (simp, elim disjE conjE; simp add: fold_two_def fold_floats_def arith_defs; cases v; auto)

lemma fold_arith_bool:
  assumes "(w, o1) \<in> set arith_codes"
  shows "fold_two w (CBool x) (CBool y) \<noteq> Inr v"
  using assms unfolding arith_codes_def by (simp, elim disjE conjE; simp add: fold_two_def fold_bools_def)

lemma fold_two_types: "fold_two w a b = Inr v \<Longrightarrow> const_ty a = const_ty b"
  by (simp add: fold_two_def split: if_splits)

lemma fold_arith:
  assumes "(w, o1) \<in> set arith_codes"
  shows "fold_two w a b = Inr v \<longleftrightarrow> apply_arith o1 (val_value a) (val_value b) = Inr (val_value v)"
proof (cases "const_ty a = const_ty b")
  case True
  then show ?thesis
    using fold_arith_i32 [OF assms] fold_arith_i64 [OF assms] fold_arith_f64 [OF assms] fold_arith_bool [OF assms]
      arith_types [of o1 a b]
    by (cases a; cases b) auto
next
  case False
  then show ?thesis using fold_two_types arith_types by blast
qed

lemma fold_bits_small: "(w, o1) \<in> set bit_codes \<Longrightarrow> o1 \<noteq> BitNot \<Longrightarrow> of_i32 (fold_bits w x) =
    of_nat (case o1 of Clz \<Rightarrow> leading_zeros x | Ctz \<Rightarrow> trailing_zeros x | _ \<Rightarrow> count_ones x)"
  unfolding bit_codes_def by (simp, elim disjE conjE; simp add: fold_bits_def of_i32_of_nat bit_counts [simplified])

lemma fold_bit:
  assumes "(w, o1) \<in> set bit_codes"
  shows "fold_one w a = Inr v \<longleftrightarrow> apply_bit o1 (val_value a) = Inr (val_value v)"
proof (cases a)
  case (CI32 x)
  have "apply_bit o1 (int32 x) = Inr (int32 (fold_bits w x))"
    using fold_bits_small [OF assms, of x] assms unfolding bit_codes_def
    by (simp, elim disjE conjE; simp add: apply_bit_def fold_bits_def)
  moreover have "fold_one w a = Inr (CI32 (fold_bits w x))"
    using bit_codes_arity [OF assms] CI32 by (simp add: fold_one_def)
  ultimately show ?thesis using CI32 by (cases v) simp_all
next
  case (CI64 x)
  have "apply_bit o1 (VInt64 x) = Inr (VInt64 (fold_bits w x))"
    using assms unfolding bit_codes_def by (simp, elim disjE conjE; simp add: apply_bit_def fold_bits_def)
  moreover have "fold_one w a = Inr (CI64 (fold_bits w x))"
    using bit_codes_arity [OF assms] CI64 by (simp add: fold_one_def)
  ultimately show ?thesis using CI64 by (cases v) simp_all
qed (use bit_codes_arity [OF assms] in \<open>simp_all add: fold_one_def apply_bit_def\<close>)

lemma fold_not: "fold_one ''not'' a = Inr v \<longleftrightarrow> apply_not (val_value a) = Inr (val_value v)"
  by (cases a; cases v) (simp_all add: fold_one_def apply_not_def)

lemma fold_logic:
  assumes "(w, o1) \<in> set logic_codes"
  shows "fold_two w a b = Inr v \<longleftrightarrow>
    (\<exists>x y. a = CBool x \<and> b = CBool y \<and> v = CBool (if o1 = And then x \<and> y else x \<or> y))"
  using assms unfolding logic_codes_def
  by (simp, elim disjE conjE; cases a; cases b; simp add: fold_two_def fold_bools_def fold_ints_def fold_floats_def; auto)

section \<open>Evaluation of an operation on constants\<close>

lemma lift_res_Inr: "lift_res r s = Some (Inr x, s') \<longleftrightarrow> r = Inr x \<and> s' = s"
  by (cases r) (auto simp: lift_res_def ret_def fail_def)

lemma arg_yields: "i < length es \<Longrightarrow> ev (es ! i) s = Some (Inr x, s) \<Longrightarrow> arg ev es i s = Some (Inr x, s)"
  by (simp add: arg_def nth_opt_def)

definition yield_all :: "'h evaluator \<Rightarrow> expr list \<Rightarrow> const_value list \<Rightarrow> 'h vm \<times> scope \<Rightarrow> bool" where
  "yield_all ev es vs s \<longleftrightarrow> list_all2 (\<lambda>e v. ev e s = Some (Inr (val_value v), s)) es vs"

lemma unary_yields: "yield_all ev [e] [a] s \<Longrightarrow> unary ev [e] f s = Some (Inr x, s) \<longleftrightarrow> f (val_value a) = Inr x"
  by (auto simp: yield_all_def unary_def bindm_def arg_def nth_opt_def lift_res_Inr)

lemma binary_yields:
  "yield_all ev [d, e] [a, b] s \<Longrightarrow> binary ev [d, e] f s = Some (Inr x, s) \<longleftrightarrow> f (val_value a) (val_value b) = Inr x"
  by (auto simp: yield_all_def binary_def bindm_def arg_def nth_opt_def lift_res_Inr)

lemma logic_yields:
  assumes "yield_all ev [d, e] [a, b] s" "const_ty a = const_ty b"
  shows "eval_logic ev o1 [d, e] s = Some (Inr (val_value v), s) \<longleftrightarrow>
    (\<exists>x y. a = CBool x \<and> b = CBool y \<and> v = CBool (if o1 = And then x \<and> y else x \<or> y))"
  using assms
  by (cases a; cases b; cases o1; cases v)
    (auto simp: yield_all_def eval_logic_def bindm_def arg_def nth_opt_def ret_def fail_def)

lemma yield_two: "yield_all ev es [a, b] s \<Longrightarrow> \<exists>d e. es = [d, e]"
  by (auto simp: yield_all_def list_all2_Cons2)

lemma yield_one: "yield_all ev es [a] s \<Longrightarrow> \<exists>e. es = [e]"
  by (auto simp: yield_all_def list_all2_Cons2)

lemma eval_op_fold:
  assumes "w \<in> set const_ops" "op_of_name w = Some op" "length vs = const_arity w" "yield_all ev es vs s"
    "\<forall>a \<in> set vs. const_ty a = const_ty (hd vs)"
  shows "eval_op cx ho ev op es s = Some (Inr (val_value v), s) \<longleftrightarrow> fold_op w vs = Inr v"
  using assms(1)
proof (cases rule: const_op_cases)
  case (arith o1)
  have op: "op = OpArith o1" using arith(2) assms(2) by simp
  obtain a b where v: "vs = [a, b]" using assms(3) arith_codes_arity [OF arith(1)]
    by (auto simp: numeral_2_eq_2 length_Suc_conv)
  then obtain d e where "es = [d, e]" using yield_two assms(4) by blast
  then show ?thesis
    using v assms(1,3-) arith_codes_arity [OF arith(1)] fold_arith [OF arith(1)] binary_yields [of ev d e a b s]
    by (simp add: op eval_op_def fold_op_def)
next
  case (bits o1)
  have op: "op = OpBit o1" using bits(2) assms(2) by simp
  obtain a where v: "vs = [a]" using assms(3) bit_codes_arity [OF bits(1)] by (auto simp: length_Suc_conv)
  then obtain e where "es = [e]" using yield_one assms(4) by blast
  then show ?thesis
    using v assms(1,3-) bit_codes_arity [OF bits(1)] fold_bit [OF bits(1)] unary_yields [of ev e a s]
    by (simp add: op eval_op_def fold_op_def)
next
  case (logic o1)
  have op: "op = OpLogic o1" using logic(2) assms(2) by simp
  obtain a b where v: "vs = [a, b]" using assms(3) logic_codes_arity [OF logic(1)]
    by (auto simp: numeral_2_eq_2 length_Suc_conv)
  then obtain d e where "es = [d, e]" using yield_two assms(4) by blast
  then show ?thesis
    using v assms(1,3-) logic_codes_arity [OF logic(1)] fold_logic [OF logic(1)] logic_yields [of ev d e a b s]
    by (simp add: op eval_op_def fold_op_def)
next
  case negation
  have op: "op = OpNot" using negation(2) assms(2) by simp
  have one: "const_arity w = 1" using negation(1) by (simp add: const_arity_def)
  then obtain a where v: "vs = [a]" using assms(3) by (auto simp: length_Suc_conv)
  then obtain e where "es = [e]" using yield_one assms(4) by blast
  then show ?thesis
    using v assms(1,3-) negation(1) one fold_not unary_yields [of ev e a s] by (simp add: op eval_op_def fold_op_def)
qed

lemma fold_op_operands: "fold_op w vs = Inr v \<Longrightarrow> w \<in> set const_ops \<and> length vs = const_arity w \<and> (\<forall>a \<in> set vs. const_ty a = const_ty (hd vs))"
proof -
  assume f: "fold_op w vs = Inr v"
  then have l: "w \<in> set const_ops" "length vs = const_arity w" by (auto simp: fold_op_def split: if_splits)
  moreover have "\<forall>a \<in> set vs. const_ty a = const_ty (hd vs)"
  proof (cases "const_arity w = 1")
    case True
    then show ?thesis using l by (auto simp: length_Suc_conv)
  next
    case False
    then have "const_arity w = 2" by (simp add: const_arity_def split: if_splits)
    then obtain a b where "vs = [a, b]" using l by (auto simp: numeral_2_eq_2 length_Suc_conv)
    then show ?thesis using f l False fold_two_types [of w a b v] by (simp add: fold_op_def)
  qed
  ultimately show ?thesis by blast
qed

lemma eval_lit_expr:
  assumes "vm_flow (fst s) = None" "1 \<le> n"
  shows "eval cx ho n (ELit l sp) s = Some (Inr (eval_lit l), s)"
  using assms by (cases n; cases s) (simp_all add: around_def eval_inner_def ret_def)

text \<open>An operation whose operands are constants.\<close>

lemma eval_op_expr:
  assumes "vm_flow (fst s) = None"
  shows "eval cx ho (Suc n) (EOp op es sp) s = Some (Inr x, s) \<longleftrightarrow> eval_op cx ho (eval cx ho n) op es s = Some (Inr x, s)"
  using assms by (cases s) (auto simp: around_def eval_inner_def split: option.splits sum.splits)

lemma eval_val_expr:
  assumes "vm_flow (fst s) = None" "2 \<le> n"
  shows "eval cx ho n (val_expr sp v) s = Some (Inr (val_value v), s)"
proof (cases v)
  case (CF64 f)
  obtain m where n: "n = Suc m" "1 \<le> m" using assms(2) by (cases n) auto
  show ?thesis
    unfolding n(1) CF64 val_expr.simps eval_op_expr [OF assms(1)]
    by (simp add: eval_op_def unary_def bindm_def arg_def nth_opt_def eval_lit_expr [OF assms(1) n(2)] eval_lit_def lift_res_def apply_conv_def)
qed (use eval_lit_expr [OF assms(1)] assms(2) in \<open>simp_all add: eval_lit_def\<close>)

end
