(* ===== verification/Const_Eval.thy ===== *)
theory Const_Eval
  imports Const_Facts
begin

text \<open>
  What the value of a constant is, apart from the order of the definitions and from the memo: \<open>sx_val\<close>
  gives the value of an expression over the constants, and \<open>eval_const\<close> finds a constant's value exactly
  when it has one (\<open>eval_const_exact\<close>). \<open>code_of\<close> is the expression that the parser makes of a constant
  with the other constants written out, and the VM evaluates it to the same value (\<open>val_computed\<close>).
\<close>

section \<open>The value of a constant\<close>

inductive sx_val :: "const_defs \<Rightarrow> sx \<Rightarrow> const_value \<Rightarrow> bool" for defs where
  lit: "const_atom [] (tk_kind t) = Inr v \<Longrightarrow> sx_val defs (Atom t) v"
| sym: "tk_kind t = Symbol s \<Longrightarrow> map_of defs s = Some d \<Longrightarrow> sx_val defs (cd_value d) v \<Longrightarrow> const_ty v = cd_ty d
    \<Longrightarrow> sx_val defs (Atom t) v"
| op: "sx_symbol h = Some w \<Longrightarrow> list_all2 (sx_val defs) xs vs \<Longrightarrow> fold_op w vs = Inr v
    \<Longrightarrow> sx_val defs (SList b (h # xs) c) v"

definition const_val :: "const_defs \<Rightarrow> string \<Rightarrow> const_value \<Rightarrow> bool" where
  "const_val defs n v \<longleftrightarrow> (\<exists>d. map_of defs n = Some d \<and> sx_val defs (cd_value d) v \<and> const_ty v = cd_ty d)"

inductive_cases sx_val_atomE: "sx_val defs (Atom t) v"
inductive_cases sx_val_listE: "sx_val defs (SList b xs c) v"

lemma const_atom_base: "const_atom base k = Inr v \<longleftrightarrow> const_atom [] k = Inr v"
  by (auto simp: const_atom_def split: token_kind.splits if_splits)

lemma const_atom_symbol [simp]: "const_atom base (Symbol s) = Inl (CHolds base (Symbol s))"
  by (simp add: const_atom_def)

lemma sx_val_atom:
  "sx_val defs (Atom t) v \<longleftrightarrow>
     (case tk_kind t of Symbol s \<Rightarrow> const_val defs s v | k \<Rightarrow> const_atom [] k = Inr v)"
  by (auto simp: const_val_def split: token_kind.split elim!: sx_val_atomE intro: sx_val.intros)

lemma sx_val_deterministic: "sx_val defs x v \<Longrightarrow> sx_val defs x u \<Longrightarrow> u = v"
proof (induction arbitrary: u rule: sx_val.induct)
  case (lit t v)
  then show ?case by (cases "tk_kind t") (simp_all add: sx_val_atom)
next
  case (sym t s d v)
  from sym(6) sym(1) obtain d' where "map_of defs s = Some d'" "sx_val defs (cd_value d') u"
    by (auto simp: sx_val_atom const_val_def)
  then show ?case using sym by simp
next
  case (op h w xs vs v b c)
  from op.prems obtain us where us: "list_all2 (sx_val defs) xs us" "fold_op w us = Inr u"
    using op.hyps by (auto elim!: sx_val_listE)
  have "us = vs" using op.IH us(1)
    unfolding list_all2_conv_all_nth by (intro nth_equalityI) auto
  then show ?case using us(2) op.hyps by simp
qed

lemma const_val_deterministic: "const_val defs n v \<Longrightarrow> const_val defs n u \<Longrightarrow> u = v"
  by (auto simp: const_val_def intro: sx_val_deterministic)

section \<open>The evaluator finds values\<close>

definition memo_sound :: "const_defs \<Rightarrow> const_memo \<Rightarrow> bool" where
  "memo_sound defs memo \<longleftrightarrow> (\<forall>n v. memo n = Some v \<longrightarrow> const_val defs n v)"

lemma memo_sound_empty [simp]: "memo_sound defs Map.empty"
  by (simp add: memo_sound_def)

lemma eval_sound:
  "eval_const defs active memo n = Inr (v, memo') \<Longrightarrow> memo_sound defs memo \<Longrightarrow> const_val defs n v \<and> memo_sound defs memo'"
  "eval_sx defs active memo base x = Inr (v, memo') \<Longrightarrow> memo_sound defs memo \<Longrightarrow> sx_val defs x v \<and> memo_sound defs memo'"
  "eval_sxs defs active memo base xs = Inr (vs, memo') \<Longrightarrow> memo_sound defs memo \<Longrightarrow>
     list_all2 (sx_val defs) xs vs \<and> memo_sound defs memo'"
proof (induction defs active memo n and defs active memo base x and defs active memo base xs
    arbitrary: v memo' and v memo' and vs memo' rule: eval_const_eval_sx_eval_sxs.induct)
  case (1 defs active memo name)
  show ?case
  proof (cases "memo name")
    case (Some u)
    then show ?thesis using 1(2,3) by (auto simp: eval_const.simps memo_sound_def)
  next
    case None
    note memo = None
    obtain d where d: "map_of defs name = Some d"
      using 1(2) memo by (auto simp: eval_const.simps split: option.splits)
    have n: "name \<notin> set active"
      using 1(2) memo d by (auto simp: eval_const.simps Let_def split: if_splits)
    obtain m where m: "eval_sx defs (active @ [name]) memo (after_dot name) (cd_value d) = Inr (v, m)"
        "const_ty v = cd_ty d" "memo' = m(name \<mapsto> v)"
      using 1(2) memo d n by (auto simp: eval_const.simps Let_def split: if_splits sum.splits)
    from 1(1) [OF memo d refl n m(1) 1(3)] have "sx_val defs (cd_value d) v" "memo_sound defs m" by auto
    then show ?thesis using d m by (auto simp: const_val_def memo_sound_def)
  qed
next
  case (2 defs active memo base t)
  show ?case
  proof (cases "\<exists>s. tk_kind t = Symbol s")
    case True
    then obtain s where s: "tk_kind t = Symbol s" by blast
    then have "map_of defs s \<noteq> None" "eval_const defs active memo s = Inr (v, memo')"
      using 2(2) by (auto split: if_splits sum.splits)
    with 2(1) [OF s this 2(3)] s show ?thesis by (simp add: sx_val_atom)
  next
    case False
    then have "const_atom base (tk_kind t) = Inr v" "memo' = memo"
      using 2(2) by (auto split: token_kind.splits sum.splits)
    then show ?thesis using 2(3) const_atom_base [of base] by (auto intro: sx_val.lit)
  qed
next
  case (3 defs active memo base b xs c)
  from 3(2) obtain vs where vs: "eval_sxs defs active memo base (drop 1 xs) = Inr (vs, memo')"
      "fold_op (case xs of h # _ \<Rightarrow> (case sx_symbol h of Some w \<Rightarrow> w | None \<Rightarrow> []) | [] \<Rightarrow> []) vs = Inr v"
    by (auto simp: Let_def split: sum.splits)
  from vs(2) obtain h ys w where x: "xs = h # ys" "sx_symbol h = Some w" "fold_op w vs = Inr v"
    by (auto simp: fold_op_def const_ops_def split: list.splits option.splits if_splits)
  from 3(1) [OF refl vs(1) 3(3)] x show ?case by (auto intro: sx_val.op)
next
  case (4 defs active memo base)
  then show ?case by simp
next
  case (5 defs active memo base x xs)
  from 5(3) obtain u us m where r: "eval_sx defs active memo base x = Inr (u, m)"
      "eval_sxs defs active m base xs = Inr (us, memo')" "vs = u # us"
    by (auto split: sum.splits)
  from 5(1) [OF r(1) 5(4)] 5(2) [OF r(1) refl r(2)] r(3) show ?case by simp
qed

text \<open>
  The other direction: \<open>sx_in\<close> counts the constants on the longest way down, and a constant that is
  being evaluated has no value of less depth than what is left.
\<close>

inductive sx_in :: "const_defs \<Rightarrow> nat \<Rightarrow> sx \<Rightarrow> const_value \<Rightarrow> bool" for defs where
  lit: "const_atom [] (tk_kind t) = Inr v \<Longrightarrow> sx_in defs k (Atom t) v"
| sym: "tk_kind t = Symbol s \<Longrightarrow> map_of defs s = Some d \<Longrightarrow> sx_in defs k (cd_value d) v \<Longrightarrow> const_ty v = cd_ty d
    \<Longrightarrow> sx_in defs (Suc k) (Atom t) v"
| op: "sx_symbol h = Some w \<Longrightarrow> list_all2 (sx_in defs k) xs vs \<Longrightarrow> fold_op w vs = Inr v
    \<Longrightarrow> sx_in defs k (SList b (h # xs) c) v"

definition const_in :: "const_defs \<Rightarrow> nat \<Rightarrow> string \<Rightarrow> const_value \<Rightarrow> bool" where
  "const_in defs k n v \<longleftrightarrow> (\<exists>d. map_of defs n = Some d \<and> sx_in defs k (cd_value d) v \<and> const_ty v = cd_ty d)"

lemma sx_in_mono: "sx_in defs k x v \<Longrightarrow> k \<le> k' \<Longrightarrow> sx_in defs k' x v"
proof (induction arbitrary: k' rule: sx_in.induct)
  case (sym t s d k v)
  then obtain j where "k' = Suc j" "k \<le> j" by (cases k') auto
  then show ?case using sym by (auto intro: sx_in.sym)
next
  case (op h w k xs vs v b c)
  have "list_all2 (sx_in defs k') xs vs" using op.IH by (rule list_all2_mono) (use op.prems in blast)
  then show ?case using op.hyps by (auto intro: sx_in.op)
qed (rule sx_in.lit)

lemma sx_in_val: "sx_in defs k x v \<Longrightarrow> sx_val defs x v"
proof (induction rule: sx_in.induct)
  case (op h w k xs vs v b c)
  have "list_all2 (sx_val defs) xs vs" using op.IH by (rule list_all2_mono) blast
  then show ?case using op.hyps by (auto intro: sx_val.op)
qed (auto intro: sx_val.intros)

lemma all_in: "list_all2 (\<lambda>x v. \<exists>k. sx_in defs k x v) xs vs \<Longrightarrow> \<exists>k. list_all2 (sx_in defs k) xs vs"
proof (induction xs vs rule: list_all2_induct)
  case (Cons x xs v vs)
  then obtain j k where jk: "sx_in defs j x v" "list_all2 (sx_in defs k) xs vs" by blast
  have "list_all2 (sx_in defs (max j k)) xs vs" using jk(2) by (rule list_all2_mono) (auto intro: sx_in_mono)
  moreover have "sx_in defs (max j k) x v" using jk(1) by (auto intro: sx_in_mono)
  ultimately show ?case by auto
qed simp

lemma sx_val_in: "sx_val defs x v \<Longrightarrow> \<exists>k. sx_in defs k x v"
proof (induction rule: sx_val.induct)
  case (op h w xs vs v b c)
  have "list_all2 (\<lambda>x v. \<exists>k. sx_in defs k x v) xs vs" using op.IH by (rule list_all2_mono) blast
  then show ?case using all_in op.hyps by (blast intro: sx_in.op)
qed (auto intro: sx_in.intros)

lemma const_in_val: "const_in defs k n v \<Longrightarrow> const_val defs n v"
  by (auto simp: const_in_def const_val_def dest: sx_in_val)

lemma const_val_in: "const_val defs n v \<Longrightarrow> \<exists>k. const_in defs k n v"
  by (auto simp: const_in_def const_val_def dest: sx_val_in)

text \<open>No constant being evaluated has a value of depth less than \<open>k\<close>.\<close>

definition pending :: "const_defs \<Rightarrow> string list \<Rightarrow> nat \<Rightarrow> bool" where
  "pending defs active k \<longleftrightarrow> (\<forall>a \<in> set active. \<forall>j < k. \<forall>u. \<not> const_in defs j a u)"

definition finds_sx :: "const_defs \<Rightarrow> nat \<Rightarrow> bool" where
  "finds_sx defs k \<longleftrightarrow>
     (\<forall>x v active memo base. sx_in defs k x v \<longrightarrow> memo_sound defs memo \<longrightarrow> pending defs active k \<longrightarrow>
        (\<exists>memo'. eval_sx defs active memo base x = Inr (v, memo')))"

lemma finds_const:
  assumes "\<And>m. m \<le> k \<Longrightarrow> finds_sx defs m" "const_in defs k n v" "memo_sound defs memo" "pending defs active (Suc k)"
  shows "\<exists>memo'. eval_const defs active memo n = Inr (v, memo')"
proof (cases "memo n")
  case (Some u)
  then have "u = v" using assms(2,3) const_in_val const_val_deterministic unfolding memo_sound_def by blast
  then show ?thesis using Some by (simp add: eval_const.simps)
next
  case None
  define m where "m = (LEAST j. \<exists>u. const_in defs j n u)"
  have "\<exists>u. const_in defs m n u" unfolding m_def by (rule LeastI_ex) (use assms(2) in blast)
  then have cm: "const_in defs m n v" using assms(2) const_in_val const_val_deterministic by blast
  have mk: "m \<le> k" unfolding m_def by (rule Least_le) (use assms(2) in blast)
  have least: "\<not> const_in defs j n u" if "j < m" for j u
    using not_less_Least [of j "\<lambda>j. \<exists>u. const_in defs j n u"] that unfolding m_def by blast
  obtain d where d: "map_of defs n = Some d" "sx_in defs m (cd_value d) v" "const_ty v = cd_ty d"
    using cm by (auto simp: const_in_def)
  have "n \<notin> set active" using assms(2,4) unfolding pending_def by blast
  moreover have "pending defs (active @ [n]) m"
    using assms(4) mk least unfolding pending_def by (auto simp: less_Suc_eq_le)
  then obtain memo' where "eval_sx defs (active @ [n]) memo (after_dot n) (cd_value d) = Inr (v, memo')"
    using assms(1) [OF mk] d(2) assms(3) unfolding finds_sx_def by blast
  ultimately show ?thesis using None d by (simp add: eval_const.simps Let_def)
qed

lemma finds_list:
  assumes "list_all2 (\<lambda>x v. \<forall>memo. memo_sound defs memo \<longrightarrow> (\<exists>memo'. eval_sx defs active memo base x = Inr (v, memo'))) xs vs"
    "memo_sound defs memo"
  shows "\<exists>memo'. eval_sxs defs active memo base xs = Inr (vs, memo')"
  using assms
proof (induction xs vs arbitrary: memo rule: list_all2_induct)
  case (Cons x xs v vs)
  then obtain m where m: "eval_sx defs active memo base x = Inr (v, m)" by blast
  then have "memo_sound defs m" using eval_sound(2) Cons.prems by blast
  then obtain m' where "eval_sxs defs active m base xs = Inr (vs, m')" using Cons.IH by blast
  then show ?case using m by simp
qed simp

lemma finds_all: "finds_sx defs k"
proof (induction k rule: less_induct)
  case (less k)
  have "\<exists>memo'. eval_sx defs active memo base x = Inr (v, memo')"
    if "sx_in defs k x v" "memo_sound defs memo" "pending defs active k" for x v active memo base
    using that
  proof (induction k\<equiv>k x v arbitrary: memo rule: sx_in.induct)
    case (lit t v)
    then have "const_atom base (tk_kind t) = Inr v" using const_atom_base by blast
    then show ?case by (cases "tk_kind t") simp_all
  next
    case (sym t s d j v)
    have "\<exists>memo'. eval_const defs active memo s = Inr (v, memo')"
      by (rule finds_const [of j]) (use sym less in \<open>auto simp: const_in_def\<close>)
    then show ?case using sym by auto
  next
    case (op h w xs vs v b c)
    have "list_all2 (\<lambda>x v. \<forall>memo. memo_sound defs memo \<longrightarrow> (\<exists>memo'. eval_sx defs active memo base x = Inr (v, memo'))) xs vs"
      using op(2) by (rule list_all2_mono) (use op.prems in blast)
    from finds_list [OF this op.prems(1)] show ?case using op by (auto simp: Let_def)
  qed
  then show ?case unfolding finds_sx_def by blast
qed

lemma eval_const_exact:
  assumes "memo_sound defs memo"
  shows "(\<exists>memo'. eval_const defs [] memo n = Inr (v, memo')) \<longleftrightarrow> const_val defs n v"
  using eval_sound(1) [OF _ assms] const_val_in [of defs n v] finds_const [OF finds_all _ assms, of _ n v "[]"]
  unfolding pending_def by fastforce

section \<open>What replaces the constants\<close>

definition placed_value :: "const_defs \<Rightarrow> string \<Rightarrow> const_def \<Rightarrow> sx \<Rightarrow> bool" where
  "placed_value defs n d x \<longleftrightarrow>
     (if needs_folding (cd_value d) then \<exists>v. const_val defs n v \<and> x = val_sx v (sx_position (cd_value d))
      else x = cd_value d)"

lemma const_values_exact:
  assumes "memo_sound defs memo" "distinct (map fst ds)"
  shows "const_values defs memo tbl ds = Inr tbl' \<longleftrightarrow>
    (\<forall>n. case map_of ds n of
           None \<Rightarrow> tbl' n = tbl n
         | Some d \<Rightarrow> (\<exists>x. tbl' n = Some x \<and> placed_value defs n d x))"
  using assms
proof (induction ds arbitrary: memo tbl)
  case Nil
  then show ?case by (auto simp: fun_eq_iff)
next
  case (Cons nd ds)
  obtain n d where nd: "nd = (n, d)" by (cases nd)
  have new: "map_of ds n = None" using Cons.prems(2) nd by (simp add: map_of_eq_None_iff)
  have step: "(\<forall>m. case map_of ds m of
           None \<Rightarrow> tbl' m = (tbl(n \<mapsto> x)) m
         | Some d \<Rightarrow> (\<exists>x. tbl' m = Some x \<and> placed_value defs m d x)) \<longleftrightarrow>
      tbl' n = Some x \<and> (\<forall>m. m \<noteq> n \<longrightarrow> (case map_of ds m of
           None \<Rightarrow> tbl' m = tbl m
         | Some d \<Rightarrow> (\<exists>x. tbl' m = Some x \<and> placed_value defs m d x)))" for x
    using new by (auto split: option.splits)
  have goal: "(\<forall>m. case map_of (nd # ds) m of
           None \<Rightarrow> tbl' m = tbl m
         | Some d \<Rightarrow> (\<exists>x. tbl' m = Some x \<and> placed_value defs m d x)) \<longleftrightarrow>
      (\<exists>x. tbl' n = Some x \<and> placed_value defs n d x) \<and> (\<forall>m. m \<noteq> n \<longrightarrow> (case map_of ds m of
           None \<Rightarrow> tbl' m = tbl m
         | Some d \<Rightarrow> (\<exists>x. tbl' m = Some x \<and> placed_value defs m d x)))"
    using nd by (auto split: option.splits)
  show ?case
  proof (cases "needs_folding (cd_value d)")
    case False
    then show ?thesis
      unfolding goal using nd Cons.IH [OF Cons.prems(1)] Cons.prems(2) step by (auto simp: placed_value_def)
  next
    case True
    note folding = True
    show ?thesis
    proof (cases "\<exists>v memo'. eval_const defs [] memo n = Inr (v, memo')")
      case False
      then have "\<not> const_val defs n v" for v using eval_const_exact [OF Cons.prems(1)] by blast
      then show ?thesis unfolding goal using False folding nd by (auto simp: placed_value_def)
    next
      case True
      then obtain v memo' where v: "eval_const defs [] memo n = Inr (v, memo')" by blast
      have sound: "const_val defs n v" "memo_sound defs memo'" using eval_sound(1) [OF v Cons.prems(1)] by auto
      then have "placed_value defs n d x \<longleftrightarrow> x = val_sx v (sx_position (cd_value d))" for x
        using folding const_val_deterministic by (auto simp: placed_value_def)
      then show ?thesis
        unfolding goal using nd v folding Cons.IH [OF sound(2)] Cons.prems(2) step by auto
    qed
  qed
qed

section \<open>The program computes the same value\<close>

inductive code_of :: "const_defs \<Rightarrow> sx \<Rightarrow> expr \<Rightarrow> bool" for defs where
  lit: "(\<forall>s. tk_kind t \<noteq> Symbol s) \<Longrightarrow> parse_atom t [] = Inr (e, []) \<Longrightarrow> code_of defs (Atom t) e"
| sym: "tk_kind t = Symbol s \<Longrightarrow> map_of defs s = Some d \<Longrightarrow> code_of defs (cd_value d) e \<Longrightarrow> code_of defs (Atom t) e"
| op: "sx_symbol h = Some w \<Longrightarrow> op_of_name w = Some op \<Longrightarrow> list_all2 (code_of defs) xs es
    \<Longrightarrow> code_of defs (SList b (h # xs) c) (EOp op es (tk_pos b))"

lemma literal_code:
  assumes "const_atom [] (tk_kind t) = Inr v"
  shows "\<exists>l. parse_atom t [] = Inr (ELit l (tk_pos t), []) \<and> eval_lit l = val_value v"
  using assms
  by (cases "tk_kind t") (auto simp: const_atom_def parse_atom_def int_literal_def pret_def eval_lit_def as_i32_def split: if_splits)

lemma list_parts: "list_all2 (\<lambda>x v. \<exists>e. P x e \<and> Q e v) xs vs \<Longrightarrow> \<exists>es. list_all2 P xs es \<and> list_all2 Q es vs"
proof (induction xs vs rule: list_all2_induct)
  case (Cons x xs v vs)
  then obtain e es where "P x e" "Q e v" "list_all2 P xs es" "list_all2 Q es vs" by blast
  then show ?case by (intro exI [of _ "e # es"]) simp
qed simp

lemma val_computed:
  fixes s :: "'h vm \<times> scope"
  assumes "sx_val defs x v" "vm_flow (fst s) = None"
  shows "\<exists>e. code_of defs x e \<and> (\<forall>n > size e. eval cx ho n e s = Some (Inr (val_value v), s))"
  using assms(1)
proof (induction rule: sx_val.induct)
  case (lit t v)
  then obtain l where l: "parse_atom t [] = Inr (ELit l (tk_pos t), [])" "eval_lit l = val_value v"
    using literal_code by blast
  have "\<forall>s. tk_kind t \<noteq> Symbol s" using lit by auto
  then have "code_of defs (Atom t) (ELit l (tk_pos t))" using l(1) by (rule code_of.lit)
  moreover have "eval cx ho n (ELit l (tk_pos t)) s = Some (Inr (val_value v), s)" if "n > size (ELit l (tk_pos t))" for n
    using eval_lit_expr [OF assms(2), of n] that l(2) by simp
  ultimately show ?case by blast
next
  case (sym t s' d v)
  then show ?case by (blast intro: code_of.sym)
next
  case (op h w xs vs v b c)
  have "list_all2 (\<lambda>x v. \<exists>e. code_of defs x e \<and> (\<forall>n > size e. eval cx ho n e s = Some (Inr (val_value v), s))) xs vs"
    using op.IH by (rule list_all2_mono) blast
  then obtain es where es: "list_all2 (code_of defs) xs es"
      "list_all2 (\<lambda>e v. \<forall>n > size e. eval cx ho n e s = Some (Inr (val_value v), s)) es vs"
    using list_parts [of "code_of defs" "\<lambda>e v. \<forall>n > size e. eval cx ho n e s = Some (Inr (val_value v), s)" xs vs] by blast
  note ops = fold_op_operands [OF op.hyps(2)]
  obtain o1 where o1: "op_of_name w = Some o1" using ops by (auto elim: const_op_cases)
  have "eval cx ho n (EOp o1 es (tk_pos b)) s = Some (Inr (val_value v), s)" if "n > size (EOp o1 es (tk_pos b))" for n
  proof -
    obtain m where m: "n = Suc m" "size_list size es < m" using \<open>n > _\<close> by (cases n) auto
    have "size (es ! i) < m" if "i < length es" for i
      using size_list_estimation' [OF nth_mem [OF that] order.refl, of size] m(2) by (rule order.strict_trans1)
    then have "yield_all (eval cx ho m) es vs s"
      unfolding yield_all_def using es(2) by (simp add: list_all2_conv_all_nth)
    then show ?thesis unfolding m(1) eval_op_expr [OF assms(2)] using eval_op_fold o1 ops op.hyps(2) by blast
  qed
  then show ?case using code_of.op [OF op.hyps(1) o1 es(1)] by blast
qed

end
