(* ===== verification/Const_Gone.thy ===== *)
theory Const_Gone
  imports Const_Eval
begin

text \<open>
  After the expansion no constant and no enum member is left where the substitution looks: \<open>used\<close> gives
  the names of a form in these places, which are all but the heads of the arms of a match.
\<close>

section \<open>Names in a form\<close>

function used :: "sx \<Rightarrow> string list"
and used_items :: "bool \<Rightarrow> nat \<Rightarrow> sx list \<Rightarrow> string list" where
  "used (Atom t) = []"
| "used (SList b xs c) = used_items (sx_head (SList b xs c) = Some ''match'') 0 xs"
| "used_items in_match i [] = []"
| "used_items in_match i (x # xs) =
     (case x of
        Atom t \<Rightarrow> (case tk_kind t of Symbol s \<Rightarrow> [s] | _ \<Rightarrow> [])
      | SList b zs c \<Rightarrow> if in_match \<and> 2 \<le> i then used_items False 1 (tl zs) else used x)
      @ used_items in_match (Suc i) xs"
  by pat_completeness auto
termination
proof (relation "measure (\<lambda>a. case a of Inl x \<Rightarrow> 2 * size x | Inr (_, _, xs) \<Rightarrow> Suc (2 * size_list size xs))", goal_cases)
  case (3 in_match i x xs b zs c)
  then show ?case by (cases zs) auto
qed auto

text \<open>A name that the substitution leaves.\<close>

definition kept_name :: "(string \<rightharpoonup> sx) \<Rightarrow> enum_values \<Rightarrow> string \<Rightarrow> bool" where
  "kept_name tbl enums s \<longleftrightarrow> tbl s = None \<and> (CHR ''.'' \<in> set s \<longrightarrow> map_of enums (before_dot s) = None)"

definition folded :: "sx \<Rightarrow> bool" where
  "folded x \<longleftrightarrow> (\<exists>v sp. x = val_sx v sp) \<or> \<not> needs_folding x"

definition plain_tables :: "(string \<rightharpoonup> sx) \<Rightarrow> enum_values \<Rightarrow> bool" where
  "plain_tables tbl enums \<longleftrightarrow>
     (\<forall>s v. tbl s = Some v \<longrightarrow> folded v)
     \<and> (\<forall>s \<in> {''match'', ''enum.cast'', ''f64.reinterpret_i64''} \<union> fst ` set enums. kept_name tbl enums s)"

definition all_stay :: "(string \<rightharpoonup> sx) \<Rightarrow> enum_values \<Rightarrow> string list \<Rightarrow> bool" where
  "all_stay tbl enums ss \<longleftrightarrow> (\<forall>s \<in> set ss. kept_name tbl enums s)"

lemma all_stay_simps [simp]:
  "all_stay tbl enums []" "all_stay tbl enums (s # ss) \<longleftrightarrow> kept_name tbl enums s \<and> all_stay tbl enums ss"
  "all_stay tbl enums (ss @ ts) \<longleftrightarrow> all_stay tbl enums ss \<and> all_stay tbl enums ts"
  by (auto simp: all_stay_def)

lemma used_list_at [simp]: "used (list_at (symbol_sx w sp # xs) sp) = used_items (w = ''match'') 0 (symbol_sx w sp # xs)"
  by (simp add: list_at_def sx_head_def symbol_sx_def token_at_def)

lemma folded_val: "folded (val_sx v sp)"
  unfolding folded_def by blast

lemma folded_plain: "\<not> needs_folding x \<Longrightarrow> folded x"
  by (simp add: folded_def)

lemma folded_cases:
  assumes "folded v"
  obtains t where "v = Atom t" "\<forall>s. tk_kind t \<noteq> Symbol s"
  | w sp where "v = list_at [symbol_sx ''f64.reinterpret_i64'' sp, Atom (token_at (Int64Lit w) sp)] sp"
proof -
  consider w sp where "v = val_sx w sp" | "\<not> needs_folding v" using assms by (auto simp: folded_def)
  then show thesis
  proof cases
    case 1
    then show thesis using that by (cases w) (auto simp: val_sx_def token_at_def)
  next
    case 2
    then show thesis using that by (cases v) (auto simp: needs_folding_def split: token_kind.splits)
  qed
qed

text \<open>What stands for a symbol.\<close>

lemma const_use_stays:
  assumes "plain_tables tbl enums" "const_use tbl enums colon s sp = Inr r"
  shows "case r of
       None \<Rightarrow> kept_name tbl enums s
     | Some y \<Rightarrow> sx_symbol y = None \<and> all_stay tbl enums (used_items m i [y])"
proof (cases "tbl s")
  case (Some v)
  then have r: "r = Some (case v of Atom t \<Rightarrow> Atom (token_at (tk_kind t) sp) | SList _ _ _ \<Rightarrow> v)"
    using assms(2) by (auto simp: const_use_def split: if_splits)
  have f: "folded v" using assms(1) Some unfolding plain_tables_def by blast
  have re: "kept_name tbl enums ''f64.reinterpret_i64''" using assms(1) by (simp add: plain_tables_def)
  show ?thesis using f
  proof (cases rule: folded_cases)
    case (1 t)
    then show ?thesis unfolding r by (cases "tk_kind t") (auto simp: token_at_def)
  next
    case (2 w sp')
    then show ?thesis unfolding r using re by (simp add: list_at_def symbol_sx_def token_at_def sx_head_def)
  qed
next
  case None
  have dom: "map_of enums e = Some ms \<Longrightarrow> e \<in> fst ` set enums" for e ms
    by (metis map_of_eq_None_iff option.distinct(1))
  consider (left) "r = None" "kept_name tbl enums s" | (member) e w where "r = Some (enum_cast e w sp)" "e \<in> fst ` set enums"
  proof (cases "CHR ''.'' \<in> set s \<and> map_of enums (before_dot s) \<noteq> None")
    case True
    then show ?thesis using that(2) dom None assms(2) by (auto simp: const_use_def split: option.splits)
  next
    case False
    then show ?thesis using that(1) None assms(2) by (auto simp: const_use_def kept_name_def split: if_splits)
  qed
  then show ?thesis
  proof cases
    case member
    then have "kept_name tbl enums e" "kept_name tbl enums ''enum.cast''" using assms(1) unfolding plain_tables_def by blast+
    then show ?thesis using member(1)
      by (simp add: enum_cast_def list_at_def symbol_sx_def token_at_def sx_head_def)
  qed simp
qed

section \<open>The substitution\<close>

text \<open>The item that stands for the first of a list.\<close>

lemma subst_items_length: "subst_items tbl enums f m i xs = Inr ys \<Longrightarrow> length ys = length xs"
  by (induction xs arbitrary: i ys) auto

lemma subst_atom:
  assumes "subst_items tbl enums f m i (Atom t # xs) = Inr (z # zs)"
  shows "(\<exists>s colon r. tk_kind t = Symbol s \<and> const_use tbl enums colon s (tk_pos t) = Inr r
      \<and> z = (case r of None \<Rightarrow> Atom t | Some y \<Rightarrow> y)) \<or> (\<forall>s. tk_kind t \<noteq> Symbol s) \<and> z = Atom t"
proof (cases "tk_kind t")
  case (Symbol s)
  define colon where "colon = (case xs of y # _ \<Rightarrow> is_kind Colon y | [] \<Rightarrow> False)"
  from Symbol assms show ?thesis
    by (cases "const_use tbl enums colon s (tk_pos t)") (auto simp: colon_def split: option.splits)
qed (use assms in auto)

lemma subst_list:
  assumes "subst_items tbl enums f m i (SList b ws c # xs) = Inr (z # zs)"
  shows "\<exists>ys. z = SList b ys c"
  using assms by (cases ws) (auto split: if_splits)

lemma subst_item_symbol:
  assumes "plain_tables tbl enums" "subst_items tbl enums f m i (x # xs) = Inr (y # ys)" "sx_symbol y = Some w"
  shows "sx_symbol x = Some w"
proof (cases x)
  case (Atom t)
  then show ?thesis
    using subst_atom [of tbl enums f m i t xs y ys] assms(2,3) const_use_stays [OF assms(1), where m = m and i = i]
    by (fastforce split: option.splits)
next
  case (SList b zs c)
  then show ?thesis using subst_list assms(2,3) by fastforce
qed

lemma match_stays:
  assumes "plain_tables tbl enums" "subst_items tbl enums f m i (x # xs) = Inr (y # ys)" "sx_symbol x = Some ''match''"
  shows "y = x"
proof -
  have "kept_name tbl enums ''match''" using assms(1) by (simp add: plain_tables_def)
  then show ?thesis using assms
    by (cases x) (auto simp: kept_name_def const_use_def split: token_kind.splits if_splits)
qed

lemma subst_head:
  assumes "plain_tables tbl enums" "subst_items tbl enums f m i xs = Inr ys" "sx_head (SList b ys c) = Some w"
  shows "sx_head (SList b xs c) = Some w"
  using subst_items_length [OF assms(2)] assms subst_item_symbol [OF assms(1)]
  by (cases xs; cases ys) (auto simp: sx_head_def split: if_splits)

lemma subst_match:
  assumes "plain_tables tbl enums" "subst_items tbl enums f m i xs = Inr ys"
  shows "sx_head (SList b ys c) = Some ''match'' \<longleftrightarrow> sx_head (SList b xs c) = Some ''match''"
proof
  assume h: "sx_head (SList b xs c) = Some ''match''"
  then obtain x xs' where x: "xs = x # xs'" "sx_symbol x = Some ''match''" "is_paren (SList b xs c)"
    by (cases xs) (auto simp: sx_head_def split: if_splits)
  then obtain y ys' where ys: "ys = y # ys'" using subst_items_length [OF assms(2)] by (cases ys) auto
  have "y = x" by (rule match_stays [OF assms(1) _ x(2)]) (use assms(2) x(1) ys in blast)
  then show "sx_head (SList b ys c) = Some ''match''" using h x ys by (simp add: sx_head_def split: if_splits)
qed (rule subst_head [OF assms])

lemma subst_stays:
  "subst_sx tbl enums f x = Inr y \<Longrightarrow> plain_tables tbl enums \<Longrightarrow> all_stay tbl enums (used y)"
  "subst_items tbl enums f m i xs = Inr ys \<Longrightarrow> plain_tables tbl enums \<Longrightarrow> all_stay tbl enums (used_items m i ys)"
proof (induction tbl enums f x and tbl enums f m i xs arbitrary: y and ys rule: subst_sx_subst_items.induct)
  case (2 tbl enums f b xs c)
  then obtain ys where ys: "subst_items tbl enums f (sx_head (SList b xs c) = Some ''match'') 0 xs = Inr ys" "y = SList b ys c"
    by auto
  then show ?case using 2(1) [OF ys(1) 2(3)] subst_match [OF 2(3) ys(1), of b c] by simp
next
  case (4 tbl enums f m i x xs)
  from 4(5) obtain z zs where z: "ys = z # zs" "subst_items tbl enums f m (Suc i) xs = Inr zs" by auto
  have rest: "all_stay tbl enums (used_items m (Suc i) zs)" using 4(4) [OF _ z(2) 4(6)] 4(5) z(1) by auto
  have "all_stay tbl enums (used_items m i [z])"
  proof (cases x)
    case (Atom t)
    show ?thesis
    proof (cases "\<exists>s. tk_kind t = Symbol s")
      case True
      then obtain s colon r where "tk_kind t = Symbol s" "const_use tbl enums colon s (tk_pos t) = Inr r"
          "z = (case r of None \<Rightarrow> Atom t | Some y \<Rightarrow> y)"
        using subst_atom [of tbl enums f m i t xs z zs] 4(5) z(1) Atom by blast
      then show ?thesis using const_use_stays [OF 4(6), of colon s "tk_pos t" r m i] by (auto split: option.splits)
    next
      case False
      then have "z = x" using subst_atom [of tbl enums f m i t xs z zs] 4(5) z(1) Atom by blast
      then show ?thesis using Atom False by (auto split: token_kind.split)
    qed
  next
    case (SList b ws c)
    show ?thesis
    proof (cases "m \<and> 2 \<le> i \<and> ws \<noteq> []")
      case True
      then obtain h vs where ws: "ws = h # vs" by (cases ws) auto
      let ?arm = "SList b (symbol_sx ''match-arm'' (sx_position h) # vs) c"
      obtain y where y: "subst_sx tbl enums f ?arm = Inr y" "z = SList b (h # tl (sx_items y)) c"
        using 4(5) True unfolding z(1) SList ws by (auto simp del: subst_sx.simps)
      have "all_stay tbl enums (used y)"
        by (rule 4(2) [OF SList ws _ y(1) 4(6)]) (use True in simp)
      moreover obtain us where us: "y = SList b us c" "subst_items tbl enums f (sx_head ?arm = Some ''match'') 0
          (symbol_sx ''match-arm'' (sx_position h) # vs) = Inr us"
        using y(1) by auto
      moreover have "us \<noteq> []" using subst_items_length [OF us(2)] by auto
      moreover have "sx_head ?arm \<noteq> Some ''match''" by (simp add: sx_head_def symbol_sx_def token_at_def)
      ultimately have "all_stay tbl enums (used_items False 1 (tl us))"
        using subst_match [OF 4(6) us(2), of b c] by (cases us) auto
      then show ?thesis using y(2) us(1) True by simp
    next
      case False
      have r: "subst_sx tbl enums f x = Inr z"
        using 4(5) False unfolding z(1) SList by (cases ws) (simp_all del: subst_sx.simps split: if_splits)
      obtain us where us: "z = SList b us c" "subst_items tbl enums f (sx_head x = Some ''match'') 0 ws = Inr us"
        using r unfolding SList by auto
      have "all_stay tbl enums (used z)"
      proof (cases ws)
        case Nil
        then show ?thesis using 4(1) [OF SList Nil r 4(6)] by simp
      next
        case (Cons h vs)
        have "\<not> (m \<and> 2 \<le> i)" using False Cons by simp
        then show ?thesis using 4(3) [OF SList Cons _ r 4(6)] by simp
      qed
      then show ?thesis using us(1) False subst_items_length [OF us(2)] by auto
    qed
  qed
  then show ?case using rest z(1) by (simp split: sx.splits)
qed auto

section \<open>The tables of a program\<close>

definition distinct_capitals :: "const_defs \<Rightarrow> bool" where
  "distinct_capitals defs \<longleftrightarrow> distinct (map fst defs) \<and> (\<forall>n \<in> fst ` set defs. in_capitals (after_dot n))"

lemma read_const_capitals: "read_const it = Inr (n, d) \<Longrightarrow> in_capitals (after_dot n)"
  by (auto simp: read_const_def Let_def split: if_splits option.splits bool.splits)

lemma collect_names:
  "collect_consts its defs enums = Inr (defs', enums') \<Longrightarrow> distinct_capitals defs \<Longrightarrow> distinct_capitals defs'"
proof (induction its arbitrary: defs enums)
  case (Cons it its)
  show ?case
  proof (cases "sx_head (it_sx it) = Some ''const''")
    case True
    then obtain n d where r: "read_const it = Inr (n, d)" "map_of defs n = None"
        "collect_consts its (defs @ [(n, d)]) enums = Inr (defs', enums')"
      using Cons.prems(1) by (auto split: if_splits)
    have "distinct_capitals (defs @ [(n, d)])"
      using Cons.prems(2) r(2) read_const_capitals [OF r(1)] by (auto simp: distinct_capitals_def map_of_eq_None_iff)
    then show ?thesis using Cons.IH [OF r(3)] by blast
  next
    case False
    then show ?thesis using Cons.prems Cons.IH by (auto split: if_splits option.splits prod.splits)
  qed
qed simp

lemma distinct_capitals_empty [simp]: "distinct_capitals []"
  by (simp add: distinct_capitals_def)

lemma collect_keeps: "collect_consts its defs enums = Inr (defs', enums') \<Longrightarrow> set defs \<subseteq> set defs'"
proof (induction its arbitrary: defs enums)
  case (Cons it its)
  then show ?case by (fastforce split: if_splits option.splits prod.splits)
qed simp

lemma collect_finds:
  "collect_consts its defs enums = Inr (defs', enums') \<Longrightarrow> it \<in> set its \<Longrightarrow> sx_head (it_sx it) = Some ''const'' \<Longrightarrow> defs' \<noteq> []"
proof (induction its arbitrary: defs enums)
  case (Cons it' its)
  show ?case
  proof (cases "it = it'")
    case True
    then obtain n d where "collect_consts its (defs @ [(n, d)]) enums = Inr (defs', enums')"
      using Cons.prems by (auto split: if_splits)
    from collect_keeps [OF this] show ?thesis by auto
  next
    case False
    then show ?thesis using Cons.prems Cons.IH by (auto split: if_splits option.splits prod.splits)
  qed
qed simp

text \<open>Enum names that are neither constants nor members, nor the prefixes of the forms that are written.\<close>

definition enums_apart :: "const_defs \<Rightarrow> enum_values \<Rightarrow> bool" where
  "enums_apart defs enums \<longleftrightarrow>
     map_of enums ''enum'' = None \<and> map_of enums ''f64'' = None
     \<and> (\<forall>e \<in> fst ` set enums. map_of defs e = None \<and> (CHR ''.'' \<in> set e \<longrightarrow> map_of enums (before_dot e) = None))"

lemma tables_plain:
  assumes "distinct_capitals defs" "const_values defs Map.empty Map.empty defs = Inr tbl" "enums_apart defs enums"
  shows "plain_tables tbl enums" "tbl n = None \<longleftrightarrow> map_of defs n = None"
proof -
  have t: "case map_of defs n of
       None \<Rightarrow> tbl n = None
     | Some d \<Rightarrow> (\<exists>x. tbl n = Some x \<and> placed_value defs n d x)" for n
    using assms(1,2) const_values_exact [of defs Map.empty defs Map.empty tbl] by (simp add: distinct_capitals_def)
  show dom: "tbl n = None \<longleftrightarrow> map_of defs n = None" for n using t [of n] by (auto split: option.splits)
  have "folded v" if "tbl n = Some v" for n v
    using t [of n] that by (auto simp: placed_value_def folded_val folded_plain split: option.splits if_splits)
  moreover have "map_of defs s = None" if "s \<in> {''match'', ''enum.cast'', ''f64.reinterpret_i64''}" for s
  proof -
    have "\<forall>s \<in> {''match'', ''enum.cast'', ''f64.reinterpret_i64''}. \<not> in_capitals (after_dot s)" by code_simp
    then show ?thesis using that assms(1) unfolding distinct_capitals_def map_of_eq_None_iff by blast
  qed
  moreover have "before_dot ''enum.cast'' = ''enum''" "before_dot ''f64.reinterpret_i64'' = ''f64''" by code_simp+
  ultimately show "plain_tables tbl enums"
    using assms(3) dom unfolding plain_tables_def kept_name_def enums_apart_def by simp
qed

definition item_clean :: "const_defs \<Rightarrow> enum_values \<Rightarrow> item \<Rightarrow> bool" where
  "item_clean defs enums it \<longleftrightarrow>
     sx_head (it_sx it) \<noteq> Some ''const''
     \<and> (sx_head (it_sx it) \<noteq> Some ''enum'' \<longrightarrow>
         (\<forall>s \<in> set (used (it_sx it)). map_of defs s = None \<and> (CHR ''.'' \<in> set s \<longrightarrow> map_of enums (before_dot s) = None)))"

lemma rewrite_clean:
  assumes "distinct_capitals defs" "const_values defs Map.empty Map.empty defs = Inr tbl" "enums_apart defs enums"
  shows "rewrite_items tbl enums its = Inr its' \<Longrightarrow> it' \<in> set its' \<Longrightarrow> item_clean defs enums it'"
proof (induction its arbitrary: its')
  case (Cons it its)
  note plain = tables_plain [OF assms]
  show ?case
  proof (cases "sx_head (it_sx it) = Some ''const''")
    case True
    then show ?thesis using Cons by simp
  next
    case False
    note not_const = this
    obtain u us where u: "(if sx_head (it_sx it) = Some ''enum'' then Inr it
         else bind_res (subst_sx tbl enums (it_file it) (it_sx it)) (\<lambda>x. Inr (it\<lparr>it_sx := x\<rparr>))) = Inr u"
        "rewrite_items tbl enums its = Inr us" "its' = u # us"
      using False Cons.prems(1) by (auto simp del: subst_sx.simps)
    have "item_clean defs enums u"
    proof (cases "sx_head (it_sx it) = Some ''enum''")
      case True
      then show ?thesis using u(1) by (simp add: item_clean_def)
    next
      case False
      then obtain x where x: "subst_sx tbl enums (it_file it) (it_sx it) = Inr x" "u = it\<lparr>it_sx := x\<rparr>"
        using u(1) by (auto simp del: subst_sx.simps)
      have "sx_head x \<noteq> Some ''const''"
      proof (cases "it_sx it")
        case (SList b xs c)
        then obtain ys where ys: "x = SList b ys c" "subst_items tbl enums (it_file it) (sx_head (it_sx it) = Some ''match'') 0 xs = Inr ys"
          using x(1) by auto
        then show ?thesis using subst_head [OF plain(1) ys(2), where b = b and c = c and w = "''const''"] not_const SList by auto
      next
        case (Atom t)
        then show ?thesis using x(1) not_const by simp
      qed
      then show ?thesis
        using subst_stays(1) [OF x(1) plain(1)] plain(2) x(2) unfolding item_clean_def all_stay_def kept_name_def by simp
    qed
    then show ?thesis using u(2,3) Cons.IH Cons.prems(2) by auto
  qed
qed simp

lemma expand_clean:
  assumes "collect_consts (fp_structs p @ fp_fns p) [] [] = Inr (defs, enums)" "enums_apart defs enums"
    "expand_consts p = Inr p'" "it \<in> set (fp_structs p' @ fp_fns p')"
  shows "item_clean defs enums it"
proof (cases "defs = [] \<and> enums = []")
  case True
  then have p': "p' = p" using assms(1,3) by (simp add: expand_consts_def)
  then have "sx_head (it_sx it) \<noteq> Some ''const''" using collect_finds [OF assms(1)] assms(4) True by blast
  then show ?thesis using True by (simp add: item_clean_def)
next
  case False
  have ok: "distinct_capitals defs" using collect_names [OF assms(1)] by simp
  obtain tbl ss fs where t: "const_values defs Map.empty Map.empty defs = Inr tbl" "rewrite_items tbl enums (fp_structs p) = Inr ss"
      "rewrite_items tbl enums (fp_fns p) = Inr fs" "p' = p\<lparr>fp_structs := ss, fp_fns := fs\<rparr>"
    using assms(1,3) False by (auto simp: expand_consts_def)
  then show ?thesis using assms(4) rewrite_clean [OF ok t(1) assms(2) t(2)] rewrite_clean [OF ok t(1) assms(2) t(3)] by auto
qed

end
