(* ===== verification/Spec2Isabelle.thy ===== *)
theory Spec2Isabelle
  imports Calls Memory_Properties Check_Properties Steady Parser_Properties Expand_Properties Const_Properties
begin

text \<open>
  Verification of AIPL: the parser and printer, the passes over S-expressions, the expansion of constants,
  the type checker, the memory layout, the leak analysis and the virtual machine of \<^verbatim>\<open>src/src/\<close>.

  \<^bold>\<open>The program.\<close> A source file is read as S-expressions over its tokens (\<^verbatim>\<open>sexpr.rs\<close>), on which its surface
  forms are rewritten (\<^verbatim>\<open>sugar.rs\<close>), its modules resolved, its generic functions instantiated, its locals
  renamed (\<^verbatim>\<open>scopes.rs\<close>) and its constants and enum members replaced by their values (\<^verbatim>\<open>consts.rs\<close>); the tokens of the result are parsed (\<^verbatim>\<open>parser.rs\<close>) into a tree (\<^verbatim>\<open>ast.rs\<close>), its formatting forms, \<^verbatim>\<open>try\<close> and \<^verbatim>\<open>defer\<close> are lowered
  (\<^verbatim>\<open>formats.rs\<close>), the checker (\<^verbatim>\<open>checker.rs\<close>) accepts or refuses the module, with the leak analysis
  (\<^verbatim>\<open>leaks.rs\<close>) for the functions marked \<^verbatim>\<open>(no_leak)\<close>, and the VM (\<^verbatim>\<open>vm.rs\<close>) evaluates it or the
  compiler (\<^verbatim>\<open>compiler/wasm.rs\<close>) emits WebAssembly. Both back ends take the layout of values from
  \<^verbatim>\<open>checker.rs\<close>. A resolved program is printed again
  (\<^verbatim>\<open>printer.rs\<close>) for the compiler that AIPL has of itself. The development models the reader of S-expressions, the surface forms, the scopes of names, the constants, the parser and the
  printer, the tree, the layout, the checker, the leak analysis and the VM; the tree as it is after
  the lowering is what the VM evaluates.

  \<^bold>\<open>Theories and sources.\<close>
  \<^item> \<^verbatim>\<open>Prelude\<close>: words, results (\<open>Inl\<close> is the error), bytes and slices, the fact collections.
  \<^item> \<^verbatim>\<open>Ast\<close> (\<^verbatim>\<open>ast.rs\<close>): \<open>ty\<close>, \<open>expr\<close>, \<open>opcode\<close>, the items. \<^verbatim>\<open>Walk\<close> (\<^verbatim>\<open>compiler/wasm.rs\<close>): the children of
    an expression and the traversal \<open>walk\<close>.
  \<^item> \<^verbatim>\<open>Tokens\<close>, \<^verbatim>\<open>Parse_Base\<close>, \<^verbatim>\<open>Parse_Forms\<close>, \<^verbatim>\<open>Parser\<close> (\<^verbatim>\<open>parser.rs\<close>): \<open>tokenize\<close>, the steps over the
    tokens that are left (a step is a function from them to an error or a result and the rest), one
    definition per form and item, \<open>strip_marks\<close>, \<open>parse\<close>. \<^verbatim>\<open>Printer\<close> (\<^verbatim>\<open>printer.rs\<close>): \<open>expr_str\<close>, \<open>type_str\<close>,
    \<open>print_module\<close>. \<^verbatim>\<open>Parse_Total\<close>: parsing ends. \<^verbatim>\<open>Lexing\<close>, \<^verbatim>\<open>Numbers\<close>, \<^verbatim>\<open>Read_Back\<close>, \<^verbatim>\<open>Form_Heads\<close>,
    \<^verbatim>\<open>Read_Exprs\<close>, \<^verbatim>\<open>Round_Trip\<close>: what is printed is read back; \<^verbatim>\<open>Parser_Properties\<close>.
  \<^item> \<^verbatim>\<open>Sexpr\<close> (\<^verbatim>\<open>sexpr.rs\<close>): \<open>sx\<close> is \<^verbatim>\<open>Sx\<close>; \<open>read_one\<close>, \<open>flatten\<close> and the parts of a form. \<^verbatim>\<open>Sugar\<close>
    (\<^verbatim>\<open>sugar.rs\<close>): \<open>sugar\<close> is \<^verbatim>\<open>rewrite\<close>. \<^verbatim>\<open>Scopes\<close> (\<^verbatim>\<open>scopes.rs\<close>): \<open>scopes\<close> is \<^verbatim>\<open>Scopes\<close>, \<open>walk_sx\<close> its \<^verbatim>\<open>walk\<close>,
    \<open>rename_locals\<close> the renaming of a function, \<open>events\<close> the scope structure of an expression.
    \<^verbatim>\<open>Scope_Facts\<close>, \<^verbatim>\<open>Scope_Names\<close>: what the renaming keeps; \<^verbatim>\<open>Expand_Properties\<close>.
  \<^item> \<^verbatim>\<open>Consts\<close> (\<^verbatim>\<open>consts.rs\<close>): \<open>expand_consts\<close> is \<^verbatim>\<open>expand\<close>, over the \<open>flat_program\<close> of \<^verbatim>\<open>resolver.rs\<close>;
    \<open>eval_const\<close> with its memo, \<open>fold_op\<close> is \<^verbatim>\<open>fold\<close>, \<open>subst_sx\<close> is \<^verbatim>\<open>substitute\<close>. \<^verbatim>\<open>Const_Facts\<close>: operators on
    constants and on the VM's values; \<^verbatim>\<open>Const_Eval\<close>: the value of a constant without order or memo;
    \<^verbatim>\<open>Const_Gone\<close>: what is left after the expansion; \<^verbatim>\<open>Const_Properties\<close>.
  \<^item> \<^verbatim>\<open>Layout\<close>, \<^verbatim>\<open>Layout_Facts\<close>, \<^verbatim>\<open>Worklist\<close>, \<^verbatim>\<open>Sums\<close>, \<^verbatim>\<open>Layout_Properties\<close> (first part of \<^verbatim>\<open>checker.rs\<close>):
    \<open>structs\<close> is \<^verbatim>\<open>Structs\<close>; \<open>scalars\<close>, \<open>slot_layout\<close>, \<open>layout_at\<close> and the offsets; \<open>union_layouts\<close>
    decides which unions are held by value.
  \<^item> \<^verbatim>\<open>Check_Types\<close>, \<^verbatim>\<open>Checker\<close>, \<^verbatim>\<open>Check_Module\<close> (rest of \<^verbatim>\<open>checker.rs\<close>): \<open>chk\<close> is the checker with its
    cells, \<open>infer\<close> is \<^verbatim>\<open>infer_expr_type\<close>, one definition per form, \<open>check_module\<close> is \<^verbatim>\<open>check_module\<close>.
    \<^verbatim>\<open>Check_Total\<close>, \<^verbatim>\<open>Check_Facts\<close>, \<^verbatim>\<open>Accepted\<close>, \<^verbatim>\<open>Check_Tables\<close>, \<^verbatim>\<open>Steady\<close>, \<^verbatim>\<open>Check_Properties\<close>: what an
    accepted program satisfies.
  \<^item> \<^verbatim>\<open>Leaks\<close> (\<^verbatim>\<open>leaks.rs\<close>): \<open>sites\<close>, the fixed point \<open>leak_loop\<close>, the chain of an explanation.
  \<^item> \<^verbatim>\<open>Format_Spec\<close> (\<^verbatim>\<open>formats.rs\<close>): the specification after the colon of a placeholder and its word.
  \<^item> \<^verbatim>\<open>Floats\<close>, \<^verbatim>\<open>Utf8\<close>: what Rust's standard library gives the VM, IEEE 754 arithmetic and
    \<^verbatim>\<open>String::from_utf8_lossy\<close>.
  \<^item> \<^verbatim>\<open>Values\<close>, \<^verbatim>\<open>Scalars\<close>, \<^verbatim>\<open>Vm_Ops\<close>, \<^verbatim>\<open>Vm_Facts\<close> (\<^verbatim>\<open>vm.rs\<close>): \<open>value\<close> is \<^verbatim>\<open>Value\<close>, its scalars and back,
    and the operations on them.
  \<^item> \<^verbatim>\<open>Memory\<close>, \<^verbatim>\<open>Memory_Facts\<close>, \<^verbatim>\<open>Store_Load\<close>, \<^verbatim>\<open>Alloc\<close>, \<^verbatim>\<open>Memory_Properties\<close> (\<^verbatim>\<open>vm.rs\<close>): \<open>mem\<close> is
    \<^verbatim>\<open>SharedMemory\<close>: allocator, guards, generations, typed loads and stores.
  \<^item> \<^verbatim>\<open>Vm\<close>, \<^verbatim>\<open>Eval\<close>, \<^verbatim>\<open>Fuel\<close>, \<^verbatim>\<open>Safety\<close>, \<^verbatim>\<open>Calls\<close> (\<^verbatim>\<open>vm.rs\<close>): \<open>vm\<close> is \<^verbatim>\<open>Vm\<close>, \<open>ctx\<close> the loaded program;
    one handler per form and family of operations, \<open>invoke\<close> for calls, \<open>eval\<close> ties the knot.

  \<^bold>\<open>State and errors.\<close> A step of the VM is a function from the VM and the variables in scope to a
  result, which is a value or an error, with the VM and the variables it leaves, or to \<open>None\<close>, which is
  fuel running out and nothing else. The pending jump (\<^verbatim>\<open>self.flow\<close>), the call depth and the output are
  fields of \<open>vm\<close>, as in the code; a \<^verbatim>\<open>HashMap\<close> is a map or an association list. A panic of the Rust
  code is the error \<open>EPanic\<close>, and an overflow of its stack in the layout code is \<open>LayOverflow\<close>. Integers
  are words of their width; \<open>Int\<close> values are 64-bit words that hold a sign-extended 32-bit number, as
  the code has them. Where the code adds to an \<^verbatim>\<open>i64\<close> with \<open>+\<close>, as for the value of the next enum member,
  the model wraps, as a release build does.

  \<^bold>\<open>Parameters.\<close> Operations on files, sockets, processes, threads and the clock are calls to the host
  (\<open>host\<close>) once their operands are evaluated; nothing is assumed of it but what a theorem names.

  \<^bold>\<open>Fuel.\<close> \<open>eval\<close> takes fuel since an AIPL program may not end; more fuel never changes a result
  (\<^verbatim>\<open>Fuel\<close>, \<^verbatim>\<open>more_fuel_same_result\<close>). The other bounds are enough for every input: \<open>infer\<close> uses the
  size of the expression (\<^verbatim>\<open>infer_total\<close>), \<open>scalars\<close> the number of structs, since a chain of structs
  held by value longer than that repeats one and the Rust code recurses for ever there, \<open>parse_type\<close> and \<open>parse_expr\<close> use one more than the tokens left, which is enough since each recursive
  call has fewer (\<^verbatim>\<open>parsing_ends\<close>), the leak loop the number of functions, since each round marks one, and the worklists the number of unions or
  structs, since each is marked once.

  \<^bold>\<open>What the lemmas show.\<close>
  \<^item> Reading and printing: every step that reads leaves fewer tokens (the locale \<open>advancing\<close>); the rules of
    the triples \<open>takes\<close> and \<open>parses\<close> read back the printed types, expressions and items, and \<open>seen\<close> says
    that the passes over the tokens before parsing leave them alone.
  \<^item> S-expressions: reading is exact against \<open>well_bracketed\<close>; the rewriting leaves no surface form; the
    walk renames the events of an expression and nothing else (\<open>walk_renames\<close>), and renamed events resolve
    to the same declarations.
  \<^item> Constants: the memo and the order of the definitions do not matter (\<open>eval_const_exact\<close>, \<open>constants_exact\<close>);
    an operator gives on constants what the VM gives on their values (\<open>folding_is_evaluation\<close>), so a
    constant has the value the program would compute; none is left after the expansion.
  \<^item> Layout: sizes, alignments and offsets; slots and fields do not overlap; the searches end and are
    reachability.
  \<^item> Values and memory: flattening and rebuilding, storing and loading, strings, the allocator's exact
    success and failure, the guards of stores, pointers and arrays, and the operations at the width
    limits.
  \<^item> Evaluation: every step keeps the memory's shape, the depth and the variables (\<open>safe\<close>, the locale
    \<open>safe_evaluator\<close>); fuel (\<open>le_run\<close>, the locale \<open>finer\<close>); contracts, isolation of calls, jumps and
    positions of errors.
  \<^item> Checking: \<open>infer\<close> satisfies the equations of the source; scopes grow by fresh names (the locale
    \<open>growing\<close>); every operand of an accepted expression is accepted in its context (the locale
    \<open>accepting\<close>), hence unchecked operations stand in \<^verbatim>\<open>unsafe\<close> only; the tables of a checked module.
  \<^item> Leaks: the analysis is the least set its rules give, and the promises of a module that checks hold.

  \<^bold>\<open>Not modelled.\<close> The resolver, generics, the lowering of the
  formatting forms, and the code generator of \<^verbatim>\<open>compiler/wasm.rs\<close> beyond its
  traversal; the evaluator of the command line; the wording of messages and hints; sockets, processes, the command line and the REPL,
  which are calls to the operating system; the interleaving of threads within one memory, which
  the host's choice stands for.
\<close>

end
